(* ===== verification/Prelude.thy ===== *)
theory Prelude
  imports Main "HOL-Library.Word" "HOL-Library.List_Lexorder" "HOL-Library.Signed_Division"
begin

text \<open>
  Shared vocabulary of the development: Go's byte slices and fixed-width integers, the parts of
  the Go standard library the modelled files call (\<^verbatim>\<open>encoding/binary\<close>, \<^verbatim>\<open>strconv\<close>,
  \<^verbatim>\<open>strings\<close>), and the generic lemmas on lists, decimal numerals and big-endian byte strings
  that the component theories use.

  \<^item> A Go \<^verbatim>\<open>[]byte\<close> or \<^verbatim>\<open>string\<close> is a \<open>bytes\<close> value, a list of 8-bit words; Go compares
    strings bytewise, which is the lexicographic order of \<^verbatim>\<open>List_Lexorder\<close>.
  \<^item> \<^verbatim>\<open>uint64\<close> and \<^verbatim>\<open>int64\<close> are 64-bit words; \<open>+\<close>, \<open>-\<close> and \<open>*\<close> wrap as in Go. A signed
    reading is \<open>sint\<close>. Go's signed \<^verbatim>\<open>/\<close> and \<^verbatim>\<open>%\<close> truncate towards zero.
\<close>

unbundle bit_operations_syntax

named_theorems bytes_simps \<open>evaluation of byte literals and byte-string helpers\<close>

type_synonym byte = "8 word"
type_synonym bytes = "8 word list"
type_synonym u64 = "64 word"
type_synonym i64 = "64 word"
type_synonym u32 = "32 word"

section \<open>Byte literals\<close>

text \<open>\<open>bstr ''abc''\<close> is the byte string of an ASCII literal.\<close>

definition bstr :: "string \<Rightarrow> bytes" where
  "bstr s = map of_char s"

declare bstr_def [bytes_simps]

lemma bstr_Nil [simp]: "bstr [] = []"
  by (simp add: bstr_def)

lemma bstr_Cons: "bstr (c # cs) = of_char c # bstr cs"
  by (simp add: bstr_def)

lemma length_bstr [simp]: "length (bstr s) = length s"
  by (simp add: bstr_def)

abbreviation CR :: byte where "CR \<equiv> 13"
abbreviation LF :: byte where "LF \<equiv> 10"

text \<open>\<^verbatim>\<open>crlf\<close> of \<^verbatim>\<open>redis/shared/writer.go\<close>.\<close>

definition crlf :: bytes where
  "crlf = [CR, LF]"

section \<open>Fixed-width integers\<close>

abbreviation MaxInt64 :: int where "MaxInt64 \<equiv> 9223372036854775807"
abbreviation MinInt64 :: int where "MinInt64 \<equiv> - 9223372036854775808"

text \<open>Go's truncated division and remainder on \<^verbatim>\<open>int64\<close> (the divisor is never zero where used).\<close>

definition go_div :: "i64 \<Rightarrow> i64 \<Rightarrow> i64" where
  "go_div a b = word_of_int (sint a sdiv sint b)"

definition go_mod :: "i64 \<Rightarrow> i64 \<Rightarrow> i64" where
  "go_mod a b = word_of_int (sint a smod sint b)"

lemma sint64_range: "MinInt64 \<le> sint (w :: i64) \<and> sint w \<le> MaxInt64"
  using sint_range_size [of w] by (simp add: word_size)

lemma sint64_of_int:
  "MinInt64 \<le> k \<Longrightarrow> k \<le> MaxInt64 \<Longrightarrow> sint (word_of_int k :: i64) = k"
  by (simp add: signed_of_int signed_take_bit_int_eq_self)

section \<open>Big-endian integers\<close>

text \<open>
  \<open>be_bytes n x\<close> is the \<open>n\<close>-byte big-endian representation of the natural number \<open>x\<close>;
  \<open>be_nat\<close> reads it back.
\<close>

fun be_bytes :: "nat \<Rightarrow> nat \<Rightarrow> bytes" where
  "be_bytes 0 x = []"
| "be_bytes (Suc n) x = of_nat (x div 256 ^ n) # be_bytes n (x mod 256 ^ n)"

fun be_nat :: "bytes \<Rightarrow> nat" where
  "be_nat [] = 0"
| "be_nat (b # bs) = unat b * 256 ^ length bs + be_nat bs"

lemma length_be_bytes [simp]: "length (be_bytes n x) = n"
  by (induction n arbitrary: x) auto

lemma unat_byte_lt [simp]: "unat (b :: byte) < 256"
  using unsigned_less [of b, where ?'a = nat] by simp

lemma unat_of_nat_byte: "x < 256 \<Longrightarrow> unat (of_nat x :: byte) = x"
  by (simp add: unat_of_nat)

lemma be_nat_bytes: "x < 256 ^ n \<Longrightarrow> be_nat (be_bytes n x) = x"
proof (induction n arbitrary: x)
  case (Suc n)
  have "x div 256 ^ n < 256"
    using Suc.prems by (simp add: less_mult_imp_div_less)
  then show ?case
    using Suc.IH [of "x mod 256 ^ n"]
    by (simp add: unat_of_nat_byte del: mult.commute) (simp add: div_mult_mod_eq)
qed simp

lemma be_nat_less: "be_nat bs < 256 ^ length bs"
proof (induction bs)
  case (Cons b bs)
  have "unat b * 256 ^ length bs + be_nat bs < unat b * 256 ^ length bs + 256 ^ length bs"
    using Cons.IH by simp
  also have "\<dots> = (unat b + 1) * 256 ^ length bs"
    by simp
  also have "\<dots> \<le> 256 * 256 ^ length bs"
    using unat_byte_lt [of b] by (intro mult_le_mono1) linarith
  finally show ?case by simp
qed simp

lemma be_bytes_nat: "be_bytes (length bs) (be_nat bs) = bs"
proof (induction bs)
  case (Cons b bs)
  then show ?case
    using be_nat_less [of bs] by (simp add: div_add1_eq)
qed simp

lemma be_bytes_inj:
  "be_bytes n x = be_bytes n y \<Longrightarrow> x < 256 ^ n \<Longrightarrow> y < 256 ^ n \<Longrightarrow> x = y"
  by (metis be_nat_bytes)

text \<open>Fixed-width big-endian strings compare as the numbers they encode.\<close>

lemma be_bytes_less_iff:
  "x < 256 ^ n \<Longrightarrow> y < 256 ^ n \<Longrightarrow> be_bytes n x < be_bytes n y \<longleftrightarrow> x < y"
proof (induction n arbitrary: x y)
  case (Suc n)
  let ?B = "256 ^ n :: nat"
  have dx: "x div ?B < 256" and dy: "y div ?B < 256"
    using Suc.prems by (simp_all add: less_mult_imp_div_less)
  have ih: "be_bytes n (x mod ?B) < be_bytes n (y mod ?B) \<longleftrightarrow> x mod ?B < y mod ?B"
    by (rule Suc.IH) simp_all
  have lt: "(of_nat (x div ?B) :: byte) < of_nat (y div ?B) \<longleftrightarrow> x div ?B < y div ?B"
    using dx dy by (simp add: word_less_nat_alt unat_of_nat_byte)
  have eq: "(of_nat (x div ?B) :: byte) = of_nat (y div ?B) \<longleftrightarrow> x div ?B = y div ?B"
    using dx dy by (metis unat_of_nat_byte)
  have "x < y \<longleftrightarrow> x div ?B < y div ?B \<or> x div ?B = y div ?B \<and> x mod ?B < y mod ?B"
  proof (cases "x div ?B = y div ?B")
    case True
    then show ?thesis
      by (metis div_mult_mod_eq nat_add_left_cancel_less order_less_irrefl)
  next
    case False
    then show ?thesis
      by (metis div_le_mono leD linorder_neqE_nat nat_less_le)
  qed
  then show ?case
    by (simp add: ih lt eq)
qed simp

lemma list_less_append_same:
  fixes xs ys :: "'a :: linorder list"
  assumes "length xs = length ys"
  shows "xs @ us < ys @ vs \<longleftrightarrow> xs < ys \<or> xs = ys \<and> us < vs"
  using assms by (induction xs ys rule: list_induct2) auto

text \<open>
  \<^verbatim>\<open>binary.BigEndian.PutUint64\<close> and \<^verbatim>\<open>Uint64\<close>, written with the shifts of the Go library.
\<close>

definition be64 :: "u64 \<Rightarrow> bytes" where
  "be64 v = [ucast (drop_bit 56 v), ucast (drop_bit 48 v), ucast (drop_bit 40 v),
             ucast (drop_bit 32 v), ucast (drop_bit 24 v), ucast (drop_bit 16 v),
             ucast (drop_bit 8 v), ucast v]"

definition be64_read :: "bytes \<Rightarrow> u64" where
  "be64_read bs = of_nat (be_nat bs)"

lemma length_be64 [simp]: "length (be64 v) = 8"
  by (simp add: be64_def)

lemma pow256: "(256 :: nat) ^ n = 2 ^ (8 * n)"
  by (simp add: power_mult)

lemma of_nat_byte_digit:
  assumes "k < n"
  shows "(of_nat (x mod 256 ^ n div 256 ^ k) :: byte) = of_nat (x div 256 ^ k)"
proof -
  have "take_bit 8 (drop_bit (8 * k) (take_bit (8 * n) x)) = take_bit 8 (drop_bit (8 * k) x)"
    using assms by (auto simp: drop_bit_take_bit min_def)
  then show ?thesis
    by (simp add: word_unat_eq_iff unat_of_nat pow256 take_bit_eq_mod drop_bit_eq_div)
qed

lemma be_bytes_nth: "i < n \<Longrightarrow> be_bytes n x ! i = of_nat (x div 256 ^ (n - 1 - i))"
proof (induction n arbitrary: x i)
  case (Suc n)
  then show ?case
    by (cases i) (simp_all add: of_nat_byte_digit)
qed simp

lemma ucast_drop_bit_nat: "(ucast (drop_bit k (v :: 'a :: len word)) :: byte) = of_nat (unat v div 2 ^ k)"
  by (simp add: word_unat_eq_iff unsigned_ucast_eq unat_drop_bit_eq unat_of_nat
      take_bit_eq_mod flip: drop_bit_eq_div)

lemma be64_eq: "be64 v = be_bytes 8 (unat v)"
proof (rule nth_equalityI)
  fix i assume "i < length (be64 v)"
  then have "i = 0 \<or> i = 1 \<or> i = 2 \<or> i = 3 \<or> i = 4 \<or> i = 5 \<or> i = 6 \<or> i = 7"
    by auto
  then show "be64 v ! i = be_bytes 8 (unat v) ! i"
    using ucast_drop_bit_nat [of 0 v]
    by (auto simp: be_bytes_nth be64_def ucast_drop_bit_nat)
qed simp

lemma unat_u64_lt [simp]: "unat (v :: u64) < 18446744073709551616"
  using unsigned_less [of v, where ?'a = nat] by simp

lemma be64_read_be64 [simp]: "be64_read (be64 v) = v"
  by (simp add: be64_read_def be64_eq be_nat_bytes)

lemma be64_be64_read: "length bs = 8 \<Longrightarrow> be64 (be64_read bs) = bs"
  using be_nat_less [of bs] be_bytes_nat [of bs]
  by (simp add: be64_eq be64_read_def unat_of_nat)

lemma be64_less_iff: "be64 v < be64 w \<longleftrightarrow> v < w"
  by (simp add: be64_eq be_bytes_less_iff word_less_nat_alt)

lemma be64_eq_iff [simp]: "be64 v = be64 w \<longleftrightarrow> v = w"
  by (metis be64_read_be64)

text \<open>\<^verbatim>\<open>binary.BigEndian.PutUint32\<close>.\<close>

definition be32 :: "u32 \<Rightarrow> bytes" where
  "be32 v = [ucast (drop_bit 24 v), ucast (drop_bit 16 v), ucast (drop_bit 8 v), ucast v]"

lemma length_be32 [simp]: "length (be32 v) = 4"
  by (simp add: be32_def)

lemma be32_eq: "be32 v = be_bytes 4 (unat v)"
proof (rule nth_equalityI)
  fix i assume "i < length (be32 v)"
  then have "i = 0 \<or> i = 1 \<or> i = 2 \<or> i = 3"
    by auto
  then show "be32 v ! i = be_bytes 4 (unat v) ! i"
    using ucast_drop_bit_nat [of 0 v]
    by (auto simp: be_bytes_nth be32_def ucast_drop_bit_nat)
qed simp

lemma be32_eq_iff [simp]: "be32 v = be32 w \<longleftrightarrow> v = w"
  using be_bytes_inj [of 4 "unat v" "unat w"] unsigned_less [of v, where ?'a = nat]
    unsigned_less [of w, where ?'a = nat]
  by (auto simp: be32_eq word_unat_eq_iff)

section \<open>Decimal numerals\<close>

text \<open>
  \<open>decimal n\<close> is \<^verbatim>\<open>strconv.FormatUint(n, 10)\<close> and \<open>fmt_int\<close> is \<^verbatim>\<open>strconv.AppendInt(nil, k, 10)\<close>.
  \<open>dec_val\<close> is the value of a digit string.
\<close>

fun decimal :: "nat \<Rightarrow> bytes" where
  "decimal n = (if n < 10 then [48 + of_nat n] else decimal (n div 10) @ [48 + of_nat (n mod 10)])"

declare decimal.simps [simp del]

definition fmt_int :: "int \<Rightarrow> bytes" where
  "fmt_int k = (if k < 0 then 45 # decimal (nat (- k)) else decimal (nat k))"

definition is_digit :: "byte \<Rightarrow> bool" where
  "is_digit c \<longleftrightarrow> 48 \<le> c \<and> c \<le> 57"

definition dec_step :: "nat \<Rightarrow> byte \<Rightarrow> nat" where
  "dec_step n c = n * 10 + unat (c - 48)"

definition dec_val :: "bytes \<Rightarrow> nat" where
  "dec_val bs = foldl dec_step 0 bs"

lemma unat_digit: "d < 10 \<Longrightarrow> unat (48 + of_nat d - 48 :: byte) = d"
  by (simp add: unat_of_nat)

lemma is_digit_of_nat: "d < 10 \<Longrightarrow> is_digit (48 + of_nat d)"
proof -
  assume "d < 10"
  then have "unat (48 + of_nat d :: byte) = 48 + d"
    by (simp add: unat_word_ariths unat_of_nat)
  with \<open>d < 10\<close> show ?thesis
    by (simp add: is_digit_def word_le_nat_alt)
qed

lemma dec_nonempty [simp]: "decimal n \<noteq> []"
  by (subst decimal.simps) simp

lemma dec_digits: "list_all is_digit (decimal n)"
proof (induction n rule: decimal.induct)
  case (1 n)
  then show ?case
    by (subst decimal.simps) (simp add: is_digit_of_nat)
qed

lemma dec_val_dec [simp]: "dec_val (decimal n) = n"
proof (induction n rule: decimal.induct)
  case (1 n)
  show ?case
  proof (cases "n < 10")
    case True
    then show ?thesis
      by (subst decimal.simps) (simp add: dec_val_def dec_step_def unat_of_nat)
  next
    case False
    with "1.IH" show ?thesis
      by (subst decimal.simps) (simp add: dec_val_def dec_step_def unat_of_nat)
  qed
qed

lemma dec_inj: "decimal m = decimal n \<longleftrightarrow> m = n"
  by (metis dec_val_dec)

text \<open>A decimal numeral contains only digits, so it holds no line feed, dash or space.\<close>

lemma dec_not_in: "\<not> is_digit c \<Longrightarrow> c \<notin> set (decimal n)"
  using dec_digits [of n] by (auto simp: list_all_iff)

lemma fmt_int_no_LF: "LF \<notin> set (fmt_int k)"
  using dec_not_in [of LF] by (simp add: fmt_int_def is_digit_def)

text \<open>
  \<^verbatim>\<open>strconv.ParseUint(s, 10, 64)\<close>: digits only, and an error on overflow of 64 bits.
\<close>

definition parse_uint64 :: "bytes \<Rightarrow> u64 option" where
  "parse_uint64 s =
     (if s = [] \<or> \<not> list_all is_digit s then None
      else if dec_val s < 2 ^ 64 then Some (of_nat (dec_val s)) else None)"

text \<open>\<^verbatim>\<open>strconv.FormatUint(v, 10)\<close>.\<close>

definition format_uint64 :: "u64 \<Rightarrow> bytes" where
  "format_uint64 v = decimal (unat v)"

lemma parse_format_uint64 [simp]: "parse_uint64 (format_uint64 v) = Some v"
  using unsigned_less [of v, where ?'a = nat]
  by (simp add: parse_uint64_def format_uint64_def dec_digits)

text \<open>
  \<^verbatim>\<open>strconv.Atoi\<close>: an optional sign, then digits, in the range of \<^verbatim>\<open>int64\<close>.
\<close>

definition atoi :: "bytes \<Rightarrow> int option" where
  "atoi s =
     (let neg = (case s of c # _ \<Rightarrow> c = 45 | [] \<Rightarrow> False);
          ds = (case s of c # cs \<Rightarrow> if c = 45 \<or> c = 43 then cs else s | [] \<Rightarrow> []);
          v = (if neg then - int (dec_val ds) else int (dec_val ds))
      in if ds = [] \<or> \<not> list_all is_digit ds then None
         else if MinInt64 \<le> v \<and> v \<le> MaxInt64 then Some v else None)"

section \<open>ASCII case mapping\<close>

text \<open>
  \<open>upper\<close> and \<open>lower\<close> are \<^verbatim>\<open>strings.ToUpper\<close> and \<^verbatim>\<open>strings.ToLower\<close> on ASCII; bytes outside
  ASCII are kept.
\<close>

definition upper_byte :: "byte \<Rightarrow> byte" where
  "upper_byte c = (if 97 \<le> c \<and> c \<le> 122 then c - 32 else c)"

definition lower_byte :: "byte \<Rightarrow> byte" where
  "lower_byte c = (if 65 \<le> c \<and> c \<le> 90 then c + 32 else c)"

definition upper :: "bytes \<Rightarrow> bytes" where
  "upper s = map upper_byte s"

definition lower :: "bytes \<Rightarrow> bytes" where
  "lower s = map lower_byte s"

declare upper_def [bytes_simps] lower_def [bytes_simps]
  upper_byte_def [bytes_simps] lower_byte_def [bytes_simps]

text \<open>
  \<^verbatim>\<open>strings.ToUpper\<close>, \<^verbatim>\<open>strings.ToLower\<close> and \<^verbatim>\<open>strings.EqualFold\<close>, as the code uses them: the result
  is compared with, or searched for, ASCII text. Besides the ASCII letters, the runes with an ASCII
  image count: U+017F (upper case S) and U+0131 (upper case I); U+212A (lower case k) and U+0130
  (lower case i); U+017F and U+212A fold to s and k. Every other byte keeps a value outside ASCII,
  which is all that such a comparison can observe.
\<close>

fun str_upper :: "bytes \<Rightarrow> bytes" where
  "str_upper [] = []"
| "str_upper [a] = [upper_byte a]"
| "str_upper (a # b # s) =
     (if a = 0xC5 \<and> b = 0xBF then 0x53 # str_upper s
      else if a = 0xC4 \<and> b = 0xB1 then 0x49 # str_upper s
      else upper_byte a # str_upper (b # s))"

fun str_lower :: "bytes \<Rightarrow> bytes" where
  "str_lower [] = []"
| "str_lower (a # s) =
     (if a = 0xE2 \<and> take 2 s = [0x84, 0xAA] then 0x6B # str_lower (drop 2 s)
      else if a = 0xC4 \<and> take 1 s = [0xB0] then 0x69 # str_lower (drop 1 s)
      else lower_byte a # str_lower s)"

fun str_fold :: "bytes \<Rightarrow> bytes" where
  "str_fold [] = []"
| "str_fold (a # s) =
     (if a = 0xE2 \<and> take 2 s = [0x84, 0xAA] then 0x4B # str_fold (drop 2 s)
      else if a = 0xC5 \<and> take 1 s = [0xBF] then 0x53 # str_fold (drop 1 s)
      else upper_byte a # str_fold s)"

definition equal_fold :: "bytes \<Rightarrow> bytes \<Rightarrow> bool" where
  "equal_fold s t \<longleftrightarrow> str_fold s = str_fold t"

lemma length_upper [simp]: "length (upper s) = length s"
  by (simp add: upper_def)

lemma length_lower [simp]: "length (lower s) = length s"
  by (simp add: lower_def)

end
