(* ===== verification/Interfaces.thy ===== *)
theory Interfaces
  imports Prelude
begin

text \<open>
  The contracts that the byte-level components offer each other, as locales. Each is interpreted
  on the model's own encoders in the theory that defines them.

  \<^item> \<open>codec\<close>: an encoder and a decoder that reads one encoded value off the front of a buffer.
    Clients get injectivity, prefix-freeness and the round trip of whole sequences.
  \<^item> \<open>order_code\<close>: an encoder whose byte order is the order of the values, also when more bytes
    follow. Clients get injectivity and the lexicographic order of composite keys.
  \<^item> \<open>comparator\<close>: a three-way comparison function in the style of Go's \<^verbatim>\<open>Compare\<close> methods.
\<close>

section \<open>Self-delimiting codecs\<close>

text \<open>Decoding a fixed number of values, one after the other.\<close>

fun decode_many :: "(bytes \<Rightarrow> ('a \<times> bytes) option) \<Rightarrow> nat \<Rightarrow> bytes \<Rightarrow> ('a list \<times> bytes) option" where
  "decode_many dec 0 bs = Some ([], bs)"
| "decode_many dec (Suc n) bs =
     (case dec bs of
        None \<Rightarrow> None
      | Some (x, rest) \<Rightarrow>
          (case decode_many dec n rest of
             None \<Rightarrow> None
           | Some (xs, rest') \<Rightarrow> Some (x # xs, rest')))"

locale codec =
  fixes enc :: "'a \<Rightarrow> bytes"
    and dec :: "bytes \<Rightarrow> ('a \<times> bytes) option"
    and ok :: "'a \<Rightarrow> bool"
  assumes dec_enc: "ok x \<Longrightarrow> dec (enc x @ rest) = Some (x, rest)"
begin

lemma dec_enc_exact: "ok x \<Longrightarrow> dec (enc x) = Some (x, [])"
  using dec_enc [of x "[]"] by simp

lemma enc_append_inj:
  assumes "ok x" "ok y" "enc x @ r = enc y @ s"
  shows "x = y \<and> r = s"
proof -
  have "Some (x, r) = Some (y, s)"
    using assms dec_enc by metis
  then show ?thesis by simp
qed

lemma enc_inj: "ok x \<Longrightarrow> ok y \<Longrightarrow> enc x = enc y \<Longrightarrow> x = y"
  using enc_append_inj [of x y "[]" "[]"] by simp

lemma decode_many_concat:
  "list_all ok xs \<Longrightarrow> decode_many dec (length xs) (concat (map enc xs) @ rest) = Some (xs, rest)"
  by (induction xs) (simp_all add: dec_enc)

end

section \<open>Order-preserving codes\<close>

locale order_code =
  fixes enc :: "'a \<Rightarrow> bytes"
    and lt :: "'a \<Rightarrow> 'a \<Rightarrow> bool"
    and same :: "'a \<Rightarrow> 'a \<Rightarrow> bool"
  assumes less_append: "enc x @ r < enc y @ s \<longleftrightarrow> lt x y \<or> same x y \<and> r < s"
begin

lemma less_iff: "enc x < enc y \<longleftrightarrow> lt x y"
  using less_append [of x "[]" y "[]"] by simp

lemma not_lt_refl: "\<not> lt x x"
  using less_iff [of x x] by simp

lemma same_refl: "same x x"
  using less_append [of x "[]" x "[0]"] list_less_append_same [of "enc x" "enc x" "[]" "[0]"]
  by (simp add: not_lt_refl)

lemma trans: "lt x y \<Longrightarrow> lt y z \<Longrightarrow> lt x z"
  by (metis less_iff order_less_trans)

lemma pair_less:
  "enc x @ enc x' < enc y @ enc y' \<longleftrightarrow> lt x y \<or> same x y \<and> lt x' y'"
  by (simp add: less_append less_iff)

end

section \<open>Three-way comparators\<close>

locale comparator =
  fixes cmp :: "'a \<Rightarrow> 'a \<Rightarrow> int"
  assumes range: "cmp x y = -1 \<or> cmp x y = 0 \<or> cmp x y = 1"
    and eq0: "cmp x y = 0 \<longleftrightarrow> x = y"
    and anti: "cmp y x = - cmp x y"
    and lt_trans: "cmp x y = -1 \<Longrightarrow> cmp y z = -1 \<Longrightarrow> cmp x z = -1"
begin

lemma refl0: "cmp x x = 0"
  by (simp add: eq0)

lemma le_trans:
  assumes "cmp x y \<le> 0" "cmp y z \<le> 0"
  shows "cmp x z \<le> 0"
proof -
  have "cmp x y = 0 \<or> cmp x y = -1" and "cmp y z = 0 \<or> cmp y z = -1"
    using assms range [of x y] range [of y z] by auto
  then show ?thesis
    using eq0 lt_trans assms by (metis less_eq_int_code(1) linorder_not_le neg_0_less_iff_less zero_less_one)
qed

lemma total: "cmp x y \<le> 0 \<or> cmp y x \<le> 0"
  using anti [of y x] by linarith

lemma antisym: "cmp x y \<le> 0 \<Longrightarrow> cmp y x \<le> 0 \<Longrightarrow> x = y"
  using anti [of y x] eq0 [of x y] by linarith

end

end
