(* ===== verification/Float64.thy ===== *)
theory Float64
  imports Prelude
begin

text \<open>
  A Go \<^verbatim>\<open>float64\<close> as its IEEE 754 bit pattern (\<^verbatim>\<open>math.Float64bits\<close>), with the comparisons
  the modelled code makes. Comparisons are exact; float arithmetic is not modelled and is a
  parameter wherever the code uses it.
\<close>

section \<open>IEEE 754 comparison on bit patterns\<close>

type_synonym f64 = "64 word"

definition f64_sign :: "f64 \<Rightarrow> bool" where
  "f64_sign w = bit w 63"

definition f64_mag :: "f64 \<Rightarrow> nat" where
  "f64_mag w = unat (take_bit 63 w)"

definition f64_is_nan :: "f64 \<Rightarrow> bool" where
  "f64_is_nan w \<longleftrightarrow> 9218868437227405312 < f64_mag w"

text \<open>
  The magnitude bits of the finite values and infinities grow with the absolute value, so the
  signed magnitude orders them; both zeros get 0.
\<close>

definition f64_ord :: "f64 \<Rightarrow> int" where
  "f64_ord w = (if f64_sign w then - int (f64_mag w) else int (f64_mag w))"

definition f64_lt :: "f64 \<Rightarrow> f64 \<Rightarrow> bool" where
  "f64_lt a b \<longleftrightarrow> \<not> f64_is_nan a \<and> \<not> f64_is_nan b \<and> f64_ord a < f64_ord b"

definition f64_eq :: "f64 \<Rightarrow> f64 \<Rightarrow> bool" where
  "f64_eq a b \<longleftrightarrow> \<not> f64_is_nan a \<and> \<not> f64_is_nan b \<and> f64_ord a = f64_ord b"

text \<open>
  The total order on bit patterns that refines the numeric order: it separates the two zeros,
  the negative one first.
\<close>

definition f64_total_lt :: "f64 \<Rightarrow> f64 \<Rightarrow> bool" where
  "f64_total_lt a b \<longleftrightarrow>
     f64_ord a < f64_ord b \<or> f64_ord a = f64_ord b \<and> f64_sign a \<and> \<not> f64_sign b"

text \<open>
  The integer part of a finite value (\<^verbatim>\<open>int64(f)\<close> where it fits) and whether the value is whole,
  read off the exponent and the mantissa.
\<close>

definition f64_is_inf :: "f64 \<Rightarrow> bool" where
  "f64_is_inf w \<longleftrightarrow> f64_mag w = 9218868437227405312"

definition f64_trunc :: "f64 \<Rightarrow> int" where
  "f64_trunc w =
     (let e = f64_mag w div 2 ^ 52; m = f64_mag w mod 2 ^ 52;
          k = (if e = 0 then 0
               else if e \<ge> 1075 then (2 ^ 52 + m) * 2 ^ (e - 1075)
               else (2 ^ 52 + m) div 2 ^ (1075 - e))
      in if f64_sign w then - int k else int k)"

definition f64_is_whole :: "f64 \<Rightarrow> bool" where
  "f64_is_whole w \<longleftrightarrow>
     (let e = f64_mag w div 2 ^ 52; m = f64_mag w mod 2 ^ 52
      in if e = 0 then m = 0 else e \<ge> 1075 \<or> 2 ^ (1075 - e) dvd 2 ^ 52 + m)"

lemma f64_lt_total: "f64_lt a b \<Longrightarrow> f64_total_lt a b"
  by (simp add: f64_lt_def f64_total_lt_def)

lemma uint_f64: "uint w = int (f64_mag w) + (if f64_sign w then 2 ^ 63 else 0)"
proof -
  have "take_bit 64 (uint w) = uint w"
    using unsigned_less [of w, where ?'a = int] by (simp add: take_bit_int_eq_self)
  moreover have "take_bit 64 (uint w) = take_bit 63 (uint w) + (if bit (uint w) 63 then 2 ^ 63 else 0)"
    using take_bit_Suc_from_most [of 63 "uint w"] by simp
  moreover have "take_bit 63 (uint w) = int (f64_mag w)"
    by (simp add: f64_mag_def unsigned_take_bit_eq of_nat_take_bit)
  ultimately show ?thesis
    by (simp add: f64_sign_def bit_unsigned_iff)
qed

lemma sint_f64: "sint w = int (f64_mag w) - (if f64_sign w then 2 ^ 63 else 0)"
proof -
  have "sint w = take_bit 63 (uint w) - (if bit (uint w) 63 then 2 ^ 63 else 0)"
    using take_bit_Suc_from_most [of 63 "uint w"]
    by (simp add: sint_uint signed_take_bit_eq_take_bit_minus)
  moreover have "take_bit 63 (uint w) = int (f64_mag w)"
    by (simp add: f64_mag_def unsigned_take_bit_eq of_nat_take_bit)
  ultimately show ?thesis
    by (simp add: f64_sign_def bit_unsigned_iff)
qed

lemma f64_mag_lt: "f64_mag w < 2 ^ 63"
  using take_bit_nat_less_exp [of 63 "unat w"] by (simp add: f64_mag_def unsigned_take_bit_eq)

end
