(* ===== verification/Sql_Encoding.thy ===== *)
theory Sql_Encoding
  imports Interfaces Float64 "HOL-Library.Sublist"
begin

text \<open>
  The value and key encodings of the SQL front end, \<^verbatim>\<open>sql/encoding.go\<close>: column affinities,
  the order-preserving index encoding, the self-terminating tuple encoding for composite keys
  and the primary-key codec built from them.

  \<^verbatim>\<open>sqlite.Value\<close> belongs to a third-party package. It is a type parameter \<open>'v\<close>, and the
  methods and constructors the code calls are the fields of the record \<open>sqlite_api\<close>; what the
  package documents about them is the predicate \<open>sqlite_laws\<close>.
\<close>

section \<open>Values and affinities\<close>

datatype sqlite_type = TypeInteger | TypeFloat | TypeText | TypeBlob | TypeNull

record 'v sqlite_api =
  val_type :: "'v \<Rightarrow> sqlite_type"
  val_int64 :: "'v \<Rightarrow> i64"
  val_float :: "'v \<Rightarrow> f64"
  val_text :: "'v \<Rightarrow> bytes"
  val_blob :: "'v \<Rightarrow> bytes"
  integerValue :: "i64 \<Rightarrow> 'v"
  floatValue :: "f64 \<Rightarrow> 'v"
  textValue :: "bytes \<Rightarrow> 'v"
  blobValue :: "bytes \<Rightarrow> 'v"
  zeroValue :: "'v"

definition sqlite_laws :: "('v, 'z) sqlite_api_scheme \<Rightarrow> bool" where
  "sqlite_laws S \<longleftrightarrow>
     (\<forall>i. val_type S (integerValue S i) = TypeInteger \<and> val_int64 S (integerValue S i) = i) \<and>
     (\<forall>f. val_type S (floatValue S f) = TypeFloat \<and> val_float S (floatValue S f) = f) \<and>
     (\<forall>t. val_type S (textValue S t) = TypeText \<and> val_text S (textValue S t) = t) \<and>
     (\<forall>b. val_type S (blobValue S b) = TypeBlob \<and> val_blob S (blobValue S b) = b) \<and>
     val_type S (zeroValue S) = TypeNull"

definition affinityInteger :: bytes where "affinityInteger = bstr ''INTEGER''"
definition affinityReal :: bytes where "affinityReal = bstr ''REAL''"
definition affinityText :: bytes where "affinityText = bstr ''TEXT''"
definition affinityBlob :: bytes where "affinityBlob = bstr ''BLOB''"
definition affinityNumeric :: bytes where "affinityNumeric = bstr ''NUMERIC''"

lemmas affinity_defs = affinityInteger_def affinityReal_def affinityText_def affinityBlob_def
  affinityNumeric_def

lemma affinity_distinct [simp]:
  "affinityInteger \<noteq> affinityReal" "affinityInteger \<noteq> affinityText"
  "affinityInteger \<noteq> affinityBlob" "affinityInteger \<noteq> affinityNumeric"
  "affinityReal \<noteq> affinityInteger" "affinityReal \<noteq> affinityText"
  "affinityReal \<noteq> affinityBlob" "affinityReal \<noteq> affinityNumeric"
  "affinityText \<noteq> affinityInteger" "affinityText \<noteq> affinityReal"
  "affinityText \<noteq> affinityBlob" "affinityText \<noteq> affinityNumeric"
  "affinityBlob \<noteq> affinityInteger" "affinityBlob \<noteq> affinityReal"
  "affinityBlob \<noteq> affinityText" "affinityBlob \<noteq> affinityNumeric"
  "affinityNumeric \<noteq> affinityInteger" "affinityNumeric \<noteq> affinityReal"
  "affinityNumeric \<noteq> affinityText" "affinityNumeric \<noteq> affinityBlob"
  by (simp_all add: affinity_defs bstr_def)

text \<open>\<^verbatim>\<open>strings.Contains(s, sub)\<close>.\<close>

fun contains :: "bytes \<Rightarrow> bytes \<Rightarrow> bool" where
  "contains [] sub = (sub = [])"
| "contains (c # s) sub = (prefix sub (c # s) \<or> contains s sub)"

definition sqliteAffinity :: "bytes \<Rightarrow> bytes" where
  "sqliteAffinity declType =
     (let up = str_upper declType in
      if contains up (bstr ''INT'') then affinityInteger
      else if contains up (bstr ''CHAR'') \<or> contains up (bstr ''CLOB'') \<or> contains up (bstr ''TEXT'')
        then affinityText
      else if contains up (bstr ''BLOB'') \<or> up = [] then affinityBlob
      else if contains up (bstr ''REAL'') \<or> contains up (bstr ''FLOA'') \<or> contains up (bstr ''DOUB'')
        then affinityReal
      else affinityNumeric)"

section \<open>Column values in data effects\<close>

text \<open>
  The \<^verbatim>\<open>Value\<close> oneof of a \<^verbatim>\<open>pb.DataEffect\<close>; \<open>None\<close> is the unset oneof.
\<close>

datatype effect_value = IntVal i64 | FloatVal f64 | Raw bytes

text \<open>
  \<open>setEncodedValue\<close> returns the new oneof and whether something was written; on NULL the effect's
  old value is left alone.
\<close>

definition setEncodedValue ::
  "('v, 'z) sqlite_api_scheme \<Rightarrow> effect_value option \<Rightarrow> 'v \<Rightarrow> effect_value option \<times> bool" where
  "setEncodedValue S eff v =
     (case val_type S v of
        TypeInteger \<Rightarrow> (Some (IntVal (val_int64 S v)), True)
      | TypeFloat \<Rightarrow> (Some (FloatVal (val_float S v)), True)
      | TypeText \<Rightarrow> (Some (Raw (val_text S v)), True)
      | TypeBlob \<Rightarrow> (Some (Raw (val_blob S v)), True)
      | TypeNull \<Rightarrow> (eff, False))"

definition decodeValue ::
  "('v, 'z) sqlite_api_scheme \<Rightarrow> effect_value option \<Rightarrow> bytes \<Rightarrow> 'v" where
  "decodeValue S eff affinity =
     (case eff of
        None \<Rightarrow> zeroValue S
      | Some (IntVal i) \<Rightarrow> integerValue S i
      | Some (FloatVal f) \<Rightarrow> floatValue S f
      | Some (Raw r) \<Rightarrow> if affinity = affinityBlob then blobValue S r else textValue S r)"

section \<open>The order-preserving index encoding\<close>

text \<open>The bit flips of the INTEGER and REAL encodings.\<close>

definition sign_bit :: u64 where
  "sign_bit = push_bit 63 1"

definition flip_int :: "i64 \<Rightarrow> u64" where
  "flip_int v = v XOR sign_bit"

definition flip_real :: "f64 \<Rightarrow> u64" where
  "flip_real b = (if b AND sign_bit \<noteq> 0 then NOT b else b XOR sign_bit)"

definition unflip_real :: "u64 \<Rightarrow> f64" where
  "unflip_real b = (if b AND sign_bit \<noteq> 0 then b XOR sign_bit else NOT b)"

definition encodeIndexValue :: "('v, 'z) sqlite_api_scheme \<Rightarrow> 'v \<Rightarrow> bytes \<Rightarrow> bytes" where
  "encodeIndexValue S v affinity =
     (if affinity = affinityInteger then be64 (flip_int (val_int64 S v))
      else if affinity = affinityReal then be64 (flip_real (val_float S v))
      else if affinity = affinityText then val_text S v
      else if affinity = affinityBlob then val_blob S v
      else val_text S v)"

section \<open>The tuple encoding\<close>

fun encodeTupleBytes :: "bytes \<Rightarrow> bytes" where
  "encodeTupleBytes [] = [0, 0]"
| "encodeTupleBytes (b # raw) =
     (if b = 0 then 0 # 1 # encodeTupleBytes raw else b # encodeTupleBytes raw)"

text \<open>
  The decoder's loop; \<open>out\<close> is the accumulator. Each branch is one of the loop's: an ordinary
  byte, a lone trailing zero, the terminator, the escape, any other byte after a zero.
\<close>

fun decodeTupleBytes_loop :: "bytes \<Rightarrow> bytes \<Rightarrow> (bytes \<times> bytes) option" where
  "decodeTupleBytes_loop out [] = None"
| "decodeTupleBytes_loop out [b] =
     (if b \<noteq> 0 then decodeTupleBytes_loop (out @ [b]) [] else None)"
| "decodeTupleBytes_loop out (b # nxt # buf) =
     (if b \<noteq> 0 then decodeTupleBytes_loop (out @ [b]) (nxt # buf)
      else if nxt = 0 then Some (out, buf)
      else if nxt = 1 then decodeTupleBytes_loop (out @ [0]) buf
      else None)"

definition decodeTupleBytes :: "bytes \<Rightarrow> (bytes \<times> bytes) option" where
  "decodeTupleBytes buf = decodeTupleBytes_loop [] buf"

definition encodeTupleComponent :: "('v, 'z) sqlite_api_scheme \<Rightarrow> 'v \<Rightarrow> bytes \<Rightarrow> bytes" where
  "encodeTupleComponent S v affinity =
     (if affinity = affinityInteger \<or> affinity = affinityReal then encodeIndexValue S v affinity
      else if affinity = affinityText then encodeTupleBytes (val_text S v)
      else if affinity = affinityBlob then encodeTupleBytes (val_blob S v)
      else encodeTupleBytes (val_text S v))"

definition decodeTupleComponent ::
  "('v, 'z) sqlite_api_scheme \<Rightarrow> bytes \<Rightarrow> bytes \<Rightarrow> ('v \<times> bytes) option" where
  "decodeTupleComponent S buf affinity =
     (if affinity = affinityInteger then
        (if length buf < 8 then None
         else Some (integerValue S (be64_read (take 8 buf) XOR sign_bit), drop 8 buf))
      else if affinity = affinityReal then
        (if length buf < 8 then None
         else Some (floatValue S (unflip_real (be64_read (take 8 buf))), drop 8 buf))
      else if affinity = affinityText \<or> affinity = affinityBlob then
        (case decodeTupleBytes buf of
           None \<Rightarrow> None
         | Some (raw, rest) \<Rightarrow>
             Some (if affinity = affinityBlob then blobValue S raw else textValue S raw, rest))
      else
        (case decodeTupleBytes buf of
           None \<Rightarrow> None
         | Some (raw, rest) \<Rightarrow> Some (textValue S raw, rest)))"

text \<open>
  The loops over a tuple's columns. \<open>None\<close> is the index panic on \<^verbatim>\<open>affinities[i]\<close>.
\<close>

fun encodeTuple :: "('v, 'z) sqlite_api_scheme \<Rightarrow> 'v list \<Rightarrow> bytes list \<Rightarrow> bytes option" where
  "encodeTuple S [] affs = Some []"
| "encodeTuple S (v # vs) [] = None"
| "encodeTuple S (v # vs) (a # affs) =
     (case encodeTuple S vs affs of
        None \<Rightarrow> None
      | Some rest \<Rightarrow> Some (encodeTupleComponent S v a @ rest))"

section \<open>Primary keys and index keys\<close>

datatype encode_error = EncodePKArity nat nat | IndexPanic

definition encodePK ::
  "('v, 'z) sqlite_api_scheme \<Rightarrow> 'v list \<Rightarrow> bytes list \<Rightarrow> encode_error + bytes" where
  "encodePK S values affs =
     (if length values \<noteq> length affs then Inl (EncodePKArity (length values) (length affs))
      else case (values, affs) of
        ([v], [a]) \<Rightarrow>
          Inr (if a = affinityInteger \<or> a = affinityReal then encodeIndexValue S v a
               else if a = affinityText then val_text S v
               else if a = affinityBlob then val_blob S v
               else val_text S v)
      | _ \<Rightarrow> (case encodeTuple S values affs of None \<Rightarrow> Inl IndexPanic | Some b \<Rightarrow> Inr b))"

definition decodeSinglePK :: "('v, 'z) sqlite_api_scheme \<Rightarrow> bytes \<Rightarrow> bytes \<Rightarrow> 'v" where
  "decodeSinglePK S pk affinity =
     (if affinity = affinityInteger then
        (if length pk \<noteq> 8 then textValue S pk
         else integerValue S (be64_read pk XOR sign_bit))
      else if affinity = affinityReal then
        (if length pk \<noteq> 8 then textValue S pk
         else floatValue S (unflip_real (be64_read pk)))
      else if affinity = affinityBlob then blobValue S pk
      else textValue S pk)"

text \<open>
  The loop of \<^verbatim>\<open>decodePK\<close>: on malformed input the remaining columns are NULL.
\<close>

fun decodePK_loop :: "('v, 'z) sqlite_api_scheme \<Rightarrow> bytes \<Rightarrow> bytes list \<Rightarrow> 'v list" where
  "decodePK_loop S buf [] = []"
| "decodePK_loop S buf (a # affs) =
     (case decodeTupleComponent S buf a of
        None \<Rightarrow> replicate (length (a # affs)) (zeroValue S)
      | Some (v, rest) \<Rightarrow> v # decodePK_loop S rest affs)"

definition decodePK :: "('v, 'z) sqlite_api_scheme \<Rightarrow> bytes \<Rightarrow> bytes list \<Rightarrow> 'v list" where
  "decodePK S pk affs =
     (case affs of
        [a] \<Rightarrow> [decodeSinglePK S pk a]
      | _ \<Rightarrow> decodePK_loop S pk affs)"

definition encodeIndexKeyTuple ::
  "('v, 'z) sqlite_api_scheme \<Rightarrow> 'v list \<Rightarrow> bytes list \<Rightarrow> bytes option" where
  "encodeIndexKeyTuple S vals affs =
     (case vals of
        [v] \<Rightarrow> (case affs of [] \<Rightarrow> None | a # _ \<Rightarrow> Some (encodeIndexValue S v a))
      | _ \<Rightarrow> encodeTuple S vals affs)"

definition encodeIndexKeyPrefix ::
  "('v, 'z) sqlite_api_scheme \<Rightarrow> 'v list \<Rightarrow> bytes list \<Rightarrow> int \<Rightarrow> bytes option" where
  "encodeIndexKeyPrefix S vals affs prefixCount =
     (if prefixCount \<le> 0 then Some []
      else
        let n = (if prefixCount > int (length vals) then int (length vals) else prefixCount) in
        if n = 1 \<and> length affs = 1 then
          (case vals of [] \<Rightarrow> None | v # _ \<Rightarrow> Some (encodeIndexValue S v (hd affs)))
        else encodeTuple S (take (nat n) vals) affs)"

section \<open>The bit flips\<close>

lemma uint_sign_bit: "uint sign_bit = 2 ^ 63"
  by (simp add: sign_bit_def)

lemma bit_sign_bit: "bit sign_bit n \<longleftrightarrow> n = 63"
  unfolding sign_bit_def by (subst bit_push_bit_iff) (auto simp: bit_1_iff)

lemma and_sign_bit: "w AND sign_bit \<noteq> 0 \<longleftrightarrow> bit w 63"
proof
  assume "bit w 63"
  then have "bit (w AND sign_bit) 63" by (simp add: bit_and_iff bit_sign_bit)
  then show "w AND sign_bit \<noteq> 0" by auto
next
  assume "w AND sign_bit \<noteq> 0"
  then obtain n where "bit (w AND sign_bit) n"
    using bit_word_eqI [of "w AND sign_bit" 0] by auto
  then show "bit w 63"
    by (auto simp: bit_and_iff bit_sign_bit)
qed

lemma sign_xor: "f64_sign (w XOR sign_bit) \<longleftrightarrow> \<not> f64_sign w"
  by (simp add: f64_sign_def bit_xor_iff bit_sign_bit)

lemma mag_xor: "f64_mag (w XOR sign_bit) = f64_mag w"
proof -
  have "take_bit 63 (w XOR sign_bit) = take_bit 63 w"
    by (rule bit_word_eqI) (auto simp: bit_take_bit_iff bit_xor_iff bit_sign_bit)
  then show ?thesis by (simp add: f64_mag_def)
qed

lemma sign_not: "f64_sign (NOT w) \<longleftrightarrow> \<not> f64_sign w"
  by (simp add: f64_sign_def bit_not_iff)

lemma uint_not64: "uint (NOT (w :: u64)) = 2 ^ 64 - 1 - uint w"
proof -
  have "NOT w = - 1 - w"
    by (simp add: not_eq_complement)
  moreover have "uint (- 1 - w) = uint (- 1 :: u64) - uint w"
    by (subst uint_minus_simple_iff [symmetric]) simp
  ultimately show ?thesis
    by (simp add: unsigned_minus_1_eq_mask mask_eq_exp_minus_1)
qed

lemma mag_not: "int (f64_mag (NOT w)) = 2 ^ 63 - 1 - int (f64_mag w)"
  using uint_f64 [of w] uint_f64 [of "NOT w"] uint_not64 [of w] sign_not [of w]
  by (simp split: if_splits)

lemma uint_flip_int: "uint (flip_int v) = sint v + 2 ^ 63"
  using uint_f64 [of "flip_int v"] sint_f64 [of v]
  by (simp add: flip_int_def mag_xor sign_xor split: if_splits)

lemma flip_int_less_iff: "flip_int v < flip_int w \<longleftrightarrow> sint v < sint w"
  by (simp add: word_less_def uint_flip_int)

lemma flip_int_flip [simp]: "flip_int v XOR sign_bit = v"
  by (simp add: flip_int_def xor.assoc)

lemma unflip_flip_real [simp]: "unflip_real (flip_real b) = b"
  by (simp add: unflip_real_def flip_real_def and_sign_bit bit_not_iff bit_xor_iff bit_sign_bit
      xor.assoc)

lemma uint_flip_real:
  "uint (flip_real b) =
     (if f64_sign b then 2 ^ 63 - 1 - int (f64_mag b) else 2 ^ 63 + int (f64_mag b))"
  using uint_f64 [of "flip_real b"] mag_not [of b]
  by (simp add: flip_real_def and_sign_bit mag_xor sign_xor sign_not flip: f64_sign_def
      split: if_splits)

lemma flip_real_less_iff: "flip_real a < flip_real b \<longleftrightarrow> f64_total_lt a b"
  by (auto simp: word_less_def uint_flip_real f64_total_lt_def f64_ord_def)

section \<open>The encoders meet the contracts\<close>

lemma decodeTupleBytes_loop_enc:
  "decodeTupleBytes_loop out (encodeTupleBytes raw @ rest) = Some (out @ raw, rest)"
proof (induction raw arbitrary: out)
  case (Cons b raw)
  have "encodeTupleBytes raw @ rest \<noteq> []"
    by (cases raw) auto
  then obtain c cs where "encodeTupleBytes raw @ rest = c # cs"
    by (cases "encodeTupleBytes raw @ rest") auto
  with Cons.IH [of "out @ [b]"] show ?case
    by (cases "b = 0") auto
qed simp

interpretation tuple_bytes: codec encodeTupleBytes decodeTupleBytes "\<lambda>_. True"
  by unfold_locales (simp add: decodeTupleBytes_def decodeTupleBytes_loop_enc)

lemma encodeTupleBytes_less:
  "encodeTupleBytes x @ r < encodeTupleBytes y @ s \<longleftrightarrow> x < y \<or> x = y \<and> r < s"
proof (induction x arbitrary: y)
  case Nil
  show ?case by (cases y) (auto simp: word_gt_0)
next
  case (Cons b x)
  show ?case
  proof (cases y)
    case Nil
    then show ?thesis by auto
  next
    case (Cons c y')
    then show ?thesis
      by (auto simp: Cons.IH word_gt_0)
  qed
qed

interpretation tuple_order: order_code encodeTupleBytes "(<)" "(=)"
  by unfold_locales (rule encodeTupleBytes_less)

lemma be64_append_less: "be64 v @ r < be64 w @ s \<longleftrightarrow> v < w \<or> v = w \<and> r < s"
  by (simp add: list_less_append_same be64_less_iff)

lemma flip_int_inj [simp]: "flip_int v = flip_int w \<longleftrightarrow> v = w"
  by (metis flip_int_flip)

lemma flip_real_inj [simp]: "flip_real v = flip_real w \<longleftrightarrow> v = w"
  by (metis unflip_flip_real)

interpretation int_order: order_code "\<lambda>v. be64 (flip_int v)" "\<lambda>v w. sint v < sint w" "(=)"
  by unfold_locales (simp add: be64_append_less flip_int_less_iff)

interpretation real_order: order_code "\<lambda>b. be64 (flip_real b)" f64_total_lt "(=)"
  by unfold_locales (simp add: be64_append_less flip_real_less_iff)

text \<open>
  The order of a column: what SQL compares for a column of the given affinity, and the
  lexicographic order of tuples.
\<close>

definition comp_lt :: "('v, 'z) sqlite_api_scheme \<Rightarrow> bytes \<Rightarrow> 'v \<Rightarrow> 'v \<Rightarrow> bool" where
  "comp_lt S a v w =
     (if a = affinityInteger then sint (val_int64 S v) < sint (val_int64 S w)
      else if a = affinityReal then f64_total_lt (val_float S v) (val_float S w)
      else if a = affinityBlob then val_blob S v < val_blob S w
      else val_text S v < val_text S w)"

definition comp_same :: "('v, 'z) sqlite_api_scheme \<Rightarrow> bytes \<Rightarrow> 'v \<Rightarrow> 'v \<Rightarrow> bool" where
  "comp_same S a v w =
     (if a = affinityInteger then val_int64 S v = val_int64 S w
      else if a = affinityReal then val_float S v = val_float S w
      else if a = affinityBlob then val_blob S v = val_blob S w
      else val_text S v = val_text S w)"

fun tuple_lt :: "('v, 'z) sqlite_api_scheme \<Rightarrow> bytes list \<Rightarrow> 'v list \<Rightarrow> 'v list \<Rightarrow> bool" where
  "tuple_lt S (a # affs) (v # vs) (w # ws) =
     (comp_lt S a v w \<or> comp_same S a v w \<and> tuple_lt S affs vs ws)"
| "tuple_lt S _ _ _ = False"

interpretation component_order: order_code
  "\<lambda>v. encodeTupleComponent S v a" "comp_lt S a" "comp_same S a" for S a
  by unfold_locales
    (simp add: encodeTupleComponent_def encodeIndexValue_def comp_lt_def comp_same_def
      tuple_order.less_append int_order.less_append real_order.less_append)

lemma encodeTuple_less:
  "encodeTuple S vs affs = Some p \<Longrightarrow> encodeTuple S ws affs = Some q \<Longrightarrow>
   length vs = length affs \<Longrightarrow> length ws = length affs \<Longrightarrow>
   p < q \<longleftrightarrow> tuple_lt S affs vs ws"
proof (induction affs arbitrary: vs ws p q)
  case (Cons a affs)
  obtain v vs' w ws' where [simp]: "vs = v # vs'" "ws = w # ws'"
    using Cons.prems(3,4) by (metis length_Suc_conv)
  obtain p' q' where "encodeTuple S vs' affs = Some p'" "p = encodeTupleComponent S v a @ p'"
      "encodeTuple S ws' affs = Some q'" "q = encodeTupleComponent S w a @ q'"
    using Cons.prems(1,2) by (auto split: option.splits)
  with Cons show ?case
    by (simp add: component_order.less_append)
qed simp

lemma encodeTuple_Some: "length vs \<le> length affs \<Longrightarrow> \<exists>b. encodeTuple S vs affs = Some b"
  by (induction S vs affs rule: encodeTuple.induct) auto

lemma encodePK_single_less:
  "encodePK S [v] [a] = Inr p \<Longrightarrow> encodePK S [w] [a] = Inr q \<Longrightarrow> p < q \<longleftrightarrow> comp_lt S a v w"
  by (auto simp: encodePK_def comp_lt_def encodeIndexValue_def int_order.less_iff real_order.less_iff
      split: if_splits)

lemma encodePK_cases:
  assumes "encodePK S vs affs = Inr p"
  obtains (single) v a where "vs = [v]" "affs = [a]"
  | (tuple) "length vs = length affs" "length affs \<noteq> 1" "encodeTuple S vs affs = Some p"
  using assms
  by (cases vs; cases affs; cases "tl vs"; cases "tl affs")
    (auto simp: encodePK_def split: if_splits option.splits list.splits)

text \<open>
  The value a column of the given affinity holds when it was built by the constructor for that
  affinity.
\<close>

definition wf_value :: "('v, 'z) sqlite_api_scheme \<Rightarrow> bytes \<Rightarrow> 'v \<Rightarrow> bool" where
  "wf_value S a v \<longleftrightarrow>
     (if a = affinityInteger then \<exists>i. v = integerValue S i
      else if a = affinityReal then \<exists>f. v = floatValue S f
      else if a = affinityBlob then \<exists>b. v = blobValue S b
      else \<exists>t. v = textValue S t)"

lemma decode_encode_component:
  assumes "sqlite_laws S" "wf_value S a v"
  shows "decodeTupleComponent S (encodeTupleComponent S v a @ rest) a = Some (v, rest)"
  using assms
  by (auto simp: decodeTupleComponent_def encodeTupleComponent_def encodeIndexValue_def wf_value_def
      sqlite_laws_def tuple_bytes.dec_enc split: if_splits)

lemma decode_encode_tuple:
  assumes "sqlite_laws S"
  shows "list_all2 (wf_value S) affs vs \<Longrightarrow> encodeTuple S vs affs = Some p \<Longrightarrow>
     decodePK_loop S p affs = vs"
proof (induction affs arbitrary: vs p)
  case (Cons a affs)
  then obtain v vs' where [simp]: "vs = v # vs'" and wf: "wf_value S a v" "list_all2 (wf_value S) affs vs'"
    by (auto simp: list_all2_Cons1)
  obtain p' where p': "encodeTuple S vs' affs = Some p'" "p = encodeTupleComponent S v a @ p'"
    using Cons.prems(2) by (auto split: option.splits)
  with Cons.IH [OF wf(2) p'(1)] assms wf(1) show ?case
    by (simp add: decode_encode_component)
qed simp

lemma decode_encode_single:
  assumes "sqlite_laws S" "wf_value S a v" "encodePK S [v] [a] = Inr p"
  shows "decodeSinglePK S p a = v"
  using assms
  by (auto simp: encodePK_def decodeSinglePK_def encodeIndexValue_def wf_value_def sqlite_laws_def
      split: if_splits)

lemma component_append_inj:
  assumes "encodeTupleComponent S v a @ r = encodeTupleComponent S w a @ s"
  shows "comp_same S a v w \<and> r = s"
  using assms
  by (auto simp: encodeTupleComponent_def encodeIndexValue_def comp_same_def split: if_splits
      dest: tuple_bytes.enc_append_inj [OF TrueI TrueI])

lemma component_same_eq:
  "comp_same S a v w \<Longrightarrow> encodeTupleComponent S v a = encodeTupleComponent S w a"
  by (auto simp: encodeTupleComponent_def encodeIndexValue_def comp_same_def split: if_splits)

text \<open>Which rows share the first columns of a tuple.\<close>

fun tuple_same :: "('v, 'z) sqlite_api_scheme \<Rightarrow> bytes list \<Rightarrow> 'v list \<Rightarrow> 'v list \<Rightarrow> bool" where
  "tuple_same S (a # affs) (v # vs) (w # ws) = (comp_same S a v w \<and> tuple_same S affs vs ws)"
| "tuple_same S affs [] ws = True"
| "tuple_same S _ _ _ = False"

lemma encodeTuple_prefix_iff:
  "encodeTuple S vs affs = Some p \<Longrightarrow> encodeTuple S ws affs = Some k \<Longrightarrow>
   length vs \<le> length ws \<Longrightarrow> length ws = length affs \<Longrightarrow>
   prefix p k \<longleftrightarrow> tuple_same S affs vs ws"
proof (induction affs arbitrary: vs ws p k)
  case (Cons a affs)
  show ?case
  proof (cases vs)
    case Nil
    with Cons.prems show ?thesis by simp
  next
    case (Cons v vs')
    then obtain w ws' p' k' where [simp]: "ws = w # ws'" and
      enc: "encodeTuple S vs' affs = Some p'" "encodeTuple S ws' affs = Some k'" and
      pk: "p = encodeTupleComponent S v a @ p'" "k = encodeTupleComponent S w a @ k'"
      using Cons.prems by (cases ws) (auto split: option.splits)
    have ih: "prefix p' k' \<longleftrightarrow> tuple_same S affs vs' ws'"
      using enc Cons Cons.prems by (intro Cons.IH) auto
    have "prefix p k \<longleftrightarrow> comp_same S a v w \<and> prefix p' k'"
    proof
      assume "prefix p k"
      then obtain z where
        "encodeTupleComponent S w a @ k' = encodeTupleComponent S v a @ (p' @ z)"
        using pk by (auto simp: prefix_def)
      then have "encodeTupleComponent S v a @ (p' @ z) = encodeTupleComponent S w a @ k'"
        by simp
      from component_append_inj [OF this] show "comp_same S a v w \<and> prefix p' k'"
        by (auto simp: prefix_def)
    qed (auto simp: pk dest: component_same_eq)
    with ih Cons show ?thesis by simp
  qed
qed simp

section \<open>Properties\<close>

text \<open>
  Claim C6. Decoding an encoded primary key, single-column or composite, gives back the column
  values it was built from, for every affinity and every byte content (embedded zeros included).
\<close>

theorem decodePK_encodePK:
  assumes "sqlite_laws S"
    and "list_all2 (wf_value S) affs vs"
    and "encodePK S vs affs = Inr pk"
  shows "decodePK S pk affs = vs"
  using assms(3)
proof (cases rule: encodePK_cases)
  case (single v a)
  with assms show ?thesis
    by (simp add: decodePK_def decode_encode_single)
next
  case tuple
  then have "decodePK S pk affs = decodePK_loop S pk affs"
    by (auto simp: decodePK_def split: list.splits)
  with tuple assms show ?thesis
    by (simp add: decode_encode_tuple)
qed

text \<open>
  A concrete stand-in for the package's value type, for the witnesses: a tagged union with the
  constructors' accessors; other accessors return zero values.
\<close>

datatype sval = SNull | SInt i64 | SFloat f64 | SText bytes | SBlob bytes

definition sval_api :: "sval sqlite_api" where
  "sval_api = \<lparr>
     val_type = (\<lambda>v. case v of SNull \<Rightarrow> TypeNull | SInt _ \<Rightarrow> TypeInteger | SFloat _ \<Rightarrow> TypeFloat
                    | SText _ \<Rightarrow> TypeText | SBlob _ \<Rightarrow> TypeBlob),
     val_int64 = (\<lambda>v. case v of SInt i \<Rightarrow> i | _ \<Rightarrow> 0),
     val_float = (\<lambda>v. case v of SFloat f \<Rightarrow> f | _ \<Rightarrow> 0),
     val_text = (\<lambda>v. case v of SText t \<Rightarrow> t | _ \<Rightarrow> []),
     val_blob = (\<lambda>v. case v of SBlob b \<Rightarrow> b | _ \<Rightarrow> []),
     integerValue = SInt, floatValue = SFloat, textValue = SText, blobValue = SBlob,
     zeroValue = SNull\<rparr>"

lemma sval_laws: "sqlite_laws sval_api"
  by (simp add: sqlite_laws_def sval_api_def)

theorem decodePK_encodePK_witness:
  "decodePK sval_api [97, 0, 1, 98, 0, 0, 127, 255, 255, 255, 255, 255, 255, 255]
     [affinityText, affinityInteger] = [SText [97, 0, 98], SInt (- 1)]"
proof (rule decodePK_encodePK [OF sval_laws])
  show "list_all2 (wf_value sval_api) [affinityText, affinityInteger] [SText [97, 0, 98], SInt (- 1)]"
    by (simp add: wf_value_def sval_api_def)
  show "encodePK sval_api [SText [97, 0, 98], SInt (- 1)] [affinityText, affinityInteger]
      = Inr [97, 0, 1, 98, 0, 0, 127, 255, 255, 255, 255, 255, 255, 255]"
    by (simp add: encodePK_def encodeTupleComponent_def encodeIndexValue_def sval_api_def flip_int_def
        sign_bit_def be64_def)
qed

text \<open>
  Claim C7. The byte order of encoded primary keys is the column-by-column order of the tuples:
  signed order for INTEGER, IEEE order (negative zero first) for REAL, bytewise for TEXT and BLOB. A NUMERIC column is
  encoded as its text, so its order is the bytewise order of that text and not the order of the numbers.
\<close>

theorem encodePK_order:
  assumes "encodePK S vs affs = Inr p" and "encodePK S ws affs = Inr q"
  shows "p < q \<longleftrightarrow> tuple_lt S affs vs ws"
  using assms(1)
proof (cases rule: encodePK_cases)
  case (single v a)
  have "length ws = length affs"
    using assms(2) by (simp add: encodePK_def split: if_splits)
  with single obtain w where "ws = [w]"
    by (auto simp: length_Suc_conv)
  with single assms show ?thesis
    using encodePK_single_less [of S v a p w q] by simp
next
  case tuple
  with assms(2) have "length ws = length affs" "encodeTuple S ws affs = Some q"
    by (auto elim: encodePK_cases)
  with tuple show ?thesis
    by (simp add: encodeTuple_less)
qed

theorem encodePK_order_witness:
  "[127, 255, 255, 255, 255, 255, 255, 251] < [128, 0, 0, 0, 0, 0, 0, 3 :: byte] \<longleftrightarrow>
     tuple_lt sval_api [affinityInteger] [SInt (- 5)] [SInt 3]"
proof (rule encodePK_order)
  show "encodePK sval_api [SInt (- 5)] [affinityInteger] = Inr [127, 255, 255, 255, 255, 255, 255, 251]"
    by (simp add: encodePK_def encodeIndexValue_def sval_api_def flip_int_def sign_bit_def be64_def)
  show "encodePK sval_api [SInt 3] [affinityInteger] = Inr [128, 0, 0, 0, 0, 0, 0, 3]"
    by (simp add: encodePK_def encodeIndexValue_def sval_api_def flip_int_def sign_bit_def be64_def)
qed

text \<open>
  Encoding a primary key fails exactly when the number of values differs from the
  number of key columns, and then reports both numbers; it never indexes out of range.
\<close>

theorem encodePK_error_iff:
  "encodePK S vs affs = Inl e \<longleftrightarrow>
     length vs \<noteq> length affs \<and> e = EncodePKArity (length vs) (length affs)"
proof (cases "length vs = length affs")
  case True
  then obtain b where "encodeTuple S vs affs = Some b"
    using encodeTuple_Some [of vs affs S] by auto
  with True show ?thesis
    by (auto simp: encodePK_def split: list.splits)
qed (auto simp: encodePK_def)

text \<open>
  Prefix scans of a composite index are exact: the encoded prefix of the first columns
  is a prefix of an entry's key if and only if the entry's first columns hold the same values.
\<close>

theorem encodeIndexKeyPrefix_scan:
  assumes "2 \<le> length affs" and "length ws = length affs" and "length vs \<le> length ws"
    and "encodeIndexKeyPrefix S vs affs n = Some p" and "encodeIndexKeyTuple S ws affs = Some k"
  shows "prefix p k \<longleftrightarrow> tuple_same S affs (take (nat n) vs) ws"
proof (cases "n \<le> 0")
  case True
  with assms(4) show ?thesis by (cases affs) (auto simp: encodeIndexKeyPrefix_def)
next
  case False
  have k: "encodeTuple S ws affs = Some k"
    using assms(1,2,5) by (auto simp: encodeIndexKeyTuple_def split: list.splits)
  have p: "encodeTuple S (take (nat n) vs) affs = Some p"
    using assms(1,4) False
    by (auto simp: encodeIndexKeyPrefix_def Let_def split: if_splits)
  from p k assms(2,3) show ?thesis
    by (intro encodeTuple_prefix_iff) auto
qed

theorem encodeIndexKeyPrefix_scan_witness:
  "prefix [97, 0, 0] [97, 0, 0, 98, 0, 0 :: byte] \<longleftrightarrow>
     tuple_same sval_api [affinityText, affinityText] (take (nat 1) [SText [97]]) [SText [97], SText [98]]"
proof (rule encodeIndexKeyPrefix_scan)
  show "encodeIndexKeyPrefix sval_api [SText [97]] [affinityText, affinityText] 1 = Some [97, 0, 0]"
    by (simp add: encodeIndexKeyPrefix_def encodeTupleComponent_def sval_api_def)
  show "encodeIndexKeyTuple sval_api [SText [97], SText [98]] [affinityText, affinityText]
      = Some [97, 0, 0, 98, 0, 0]"
    by (simp add: encodeIndexKeyTuple_def encodeTupleComponent_def sval_api_def)
qed simp_all

end
