(* ===== verification/Sql_Keys.thy ===== *)
theory Sql_Keys
  imports Sql_Encoding
begin

text \<open>
  The key-space layout of the SQL front end, \<^verbatim>\<open>sql/keys.go\<close>: how table and index
  identifiers are framed in row and index-entry keys, how a row key is parsed back, and how scan
  patterns are built. The glob matcher of the storage engine is a parameter.
\<close>

section \<open>Definitions\<close>

definition prefixRow :: bytes where "prefixRow = bstr ''r''"
definition prefixIndex :: bytes where "prefixIndex = bstr ''i''"
definition prefixSchema :: bytes where "prefixSchema = bstr ''s''"
definition prefixXIndex :: bytes where "prefixXIndex = bstr ''x''"
definition prefixView :: bytes where "prefixView = bstr ''v''"

lemmas key_prefix_defs = prefixRow_def prefixIndex_def prefixSchema_def prefixXIndex_def prefixView_def

text \<open>\<^verbatim>\<open>uint32(len(id))\<close> truncates; identifiers are 16 bytes in practice.\<close>

definition encodeIDHeader :: "bytes \<Rightarrow> bytes \<Rightarrow> bytes" where
  "encodeIDHeader pre ident = hd pre # be32 (of_nat (length ident)) @ ident"

definition indexKeyPrefix :: "bytes \<Rightarrow> bytes" where
  "indexKeyPrefix indexID = encodeIDHeader prefixIndex indexID"

definition indexKey :: "bytes \<Rightarrow> bytes \<Rightarrow> bytes" where
  "indexKey indexID encoded = encodeIDHeader prefixIndex indexID @ encoded"

definition rowKeyPrefix :: "bytes \<Rightarrow> bytes" where
  "rowKeyPrefix tableID = encodeIDHeader prefixRow tableID"

definition rowKey :: "bytes \<Rightarrow> bytes \<Rightarrow> bytes" where
  "rowKey tableID pk = encodeIDHeader prefixRow tableID @ pk"

definition parseRowKey :: "bytes \<Rightarrow> bytes \<Rightarrow> bytes option" where
  "parseRowKey key tableID =
     (let header = rowKeyPrefix tableID in
      if length key < length header then None
      else if take (length header) key \<noteq> header then None
      else Some (drop (length header) key))"

definition escapeByte :: "byte \<Rightarrow> bytes" where
  "escapeByte c = (if c = 42 \<or> c = 63 \<or> c = 91 \<or> c = 92 then [92, c] else [c])"

fun escapeGlob :: "bytes \<Rightarrow> bytes" where
  "escapeGlob [] = []"
| "escapeGlob (c # s) = escapeByte c @ escapeGlob s"

definition glob :: "bytes \<Rightarrow> bytes" where
  "glob pre = escapeGlob pre @ [42]"

definition rowKeyPattern :: "bytes \<Rightarrow> bytes" where
  "rowKeyPattern tableID = escapeGlob (rowKeyPrefix tableID) @ [42]"

definition indexKeyPattern :: "bytes \<Rightarrow> bytes" where
  "indexKeyPattern indexID = escapeGlob (indexKeyPrefix indexID) @ [42]"

definition schemaKey :: "bytes \<Rightarrow> bytes" where
  "schemaKey table = prefixSchema @ bstr ''/'' @ table"

definition indexMetaKey :: "bytes \<Rightarrow> bytes" where
  "indexMetaKey index = prefixXIndex @ bstr ''/'' @ index"

definition viewMetaKey :: "bytes \<Rightarrow> bytes" where
  "viewMetaKey view = prefixView @ bstr ''/'' @ view"

section \<open>Framing\<close>

lemma encodeIDHeader_inj:
  assumes "encodeIDHeader p a @ x = encodeIDHeader q b @ y"
    and "length a < 2 ^ 32" "length b < 2 ^ 32"
  shows "hd p = hd q \<and> a = b \<and> x = y"
proof -
  have "hd p = hd q" and be: "be32 (of_nat (length a)) = be32 (of_nat (length b))"
    and rest: "a @ x = b @ y"
    using assms(1) by (auto simp: encodeIDHeader_def append_eq_append_conv_if split: if_splits)
  from be have "length a = length b"
    using assms(2,3) by (simp add: word_unat_eq_iff unat_of_nat)
  with rest \<open>hd p = hd q\<close> show ?thesis by simp
qed

lemma row_header_not_index: "encodeIDHeader prefixRow a @ x \<noteq> encodeIDHeader prefixIndex b @ y"
  by (simp add: encodeIDHeader_def key_prefix_defs bstr_def)

lemma parseRowKey_iff: "parseRowKey key t = Some pk \<longleftrightarrow> key = rowKey t pk"
proof
  assume "parseRowKey key t = Some pk"
  then have "take (length (rowKeyPrefix t)) key = rowKeyPrefix t" "drop (length (rowKeyPrefix t)) key = pk"
    by (auto simp: parseRowKey_def Let_def split: if_splits)
  then show "key = rowKey t pk"
    by (metis append_take_drop_id rowKey_def rowKeyPrefix_def)
qed (simp add: parseRowKey_def rowKey_def rowKeyPrefix_def)

section \<open>Scan patterns\<close>

text \<open>
  What the code relies on of the engine's \<^verbatim>\<open>keytrie.MatchGlob\<close>, whose metacharacters are \<^verbatim>\<open>*\<close>, \<^verbatim>\<open>?\<close>, \<^verbatim>\<open>[\<close> and the backslash: a final star matches
  anything, a question mark one byte, a class of one letter or digit that byte, a backslash quotes the next byte, and every other
  byte matches itself.
\<close>

definition match_byte :: "(byte \<Rightarrow> bool) \<Rightarrow> (bytes \<Rightarrow> bool) \<Rightarrow> bytes \<Rightarrow> bool" where
  "match_byte P m s = (case s of [] \<Rightarrow> False | d # t \<Rightarrow> P d \<and> m t)"

definition glob_laws :: "(bytes \<Rightarrow> bytes \<Rightarrow> bool) \<Rightarrow> bool" where
  "glob_laws matchGlob \<longleftrightarrow>
     (\<forall>s. matchGlob (bstr ''*'') s) \<and>
     (\<forall>p s. matchGlob (bstr ''?'' @ p) s = match_byte (\<lambda>_. True) (matchGlob p) s) \<and>
     (\<forall>c p s. [c] \<in> set (map (\<lambda>x. bstr [x]) ''abcxyz0123456789'') \<longrightarrow>
        matchGlob (bstr ''['' @ [c] @ bstr '']'' @ p) s = match_byte (\<lambda>d. d = c) (matchGlob p) s) \<and>
     (\<forall>c p s. matchGlob (92 # c # p) s = match_byte (\<lambda>d. d = c) (matchGlob p) s) \<and>
     (\<forall>c p s. [c] \<notin> {bstr ''*'', bstr ''?'', bstr ''['', [92]} \<longrightarrow>
        matchGlob (c # p) s = match_byte (\<lambda>d. d = c) (matchGlob p) s)"

lemma glob_match_prefix:
  assumes "glob_laws matchGlob"
  shows "matchGlob (escapeGlob pre @ [42]) s \<longleftrightarrow> prefix pre s"
proof (induction pre arbitrary: s)
  case Nil
  show ?case using assms by (simp add: glob_laws_def bytes_simps)
next
  case (Cons c pre)
  have quoted: "matchGlob (92 # c # escapeGlob pre @ [42]) s = match_byte (\<lambda>d. d = c) (matchGlob (escapeGlob pre @ [42])) s"
    using assms by (simp add: glob_laws_def)
  have plain: "matchGlob (c # escapeGlob pre @ [42]) s = match_byte (\<lambda>d. d = c) (matchGlob (escapeGlob pre @ [42])) s"
    if "c \<noteq> 42" "c \<noteq> 63" "c \<noteq> 91" "c \<noteq> 92"
    using assms that by (simp add: glob_laws_def bytes_simps)
  have "matchGlob (escapeGlob (c # pre) @ [42]) s = match_byte (\<lambda>d. d = c) (matchGlob (escapeGlob pre @ [42])) s"
    using quoted plain by (auto simp: escapeByte_def)
  then show ?case by (cases s) (auto simp: match_byte_def Cons.IH)
qed

section \<open>Properties\<close>

text \<open>
  Claim C20. Row keys frame their table and primary key unambiguously: \<open>parseRowKey\<close> accepts
  exactly the keys \<open>rowKey\<close> makes for that table and returns the primary key, two tables (or
  two keys of one table) never share a row key, and no row key is an index key.
\<close>

theorem row_keys_unambiguous:
  assumes "length t < 2 ^ 32" and "length t' < 2 ^ 32"
  shows "(parseRowKey key t = Some pk \<longleftrightarrow> key = rowKey t pk)
    \<and> (rowKey t pk = rowKey t' pk' \<longleftrightarrow> t = t' \<and> pk = pk')
    \<and> (indexKey t e = indexKey t' e' \<longleftrightarrow> t = t' \<and> e = e')
    \<and> rowKey t pk \<noteq> indexKey t' e"
proof -
  have "rowKey t pk = rowKey t' pk' \<longleftrightarrow> t = t' \<and> pk = pk'"
    using encodeIDHeader_inj [of prefixRow t pk prefixRow t' pk'] assms by (auto simp: rowKey_def)
  moreover have "indexKey t e = indexKey t' e' \<longleftrightarrow> t = t' \<and> e = e'"
    using encodeIDHeader_inj [of prefixIndex t e prefixIndex t' e'] assms by (auto simp: indexKey_def)
  ultimately show ?thesis
    using parseRowKey_iff row_header_not_index by (simp add: rowKey_def indexKey_def)
qed

theorem row_keys_unambiguous_witness:
  "(parseRowKey [114, 0, 0, 0, 1, 7, 9] [7] = Some [9] \<longleftrightarrow> [114, 0, 0, 0, 1, 7, 9] = rowKey [7] [9])
    \<and> (rowKey [7] [9] = rowKey [7, 9] [] \<longleftrightarrow> [7] = [7, 9 :: byte] \<and> [9] = ([] :: bytes))
    \<and> (indexKey [7] [1] = indexKey [7, 9] [2] \<longleftrightarrow> [7] = [7, 9 :: byte] \<and> [1] = [2 :: byte])
    \<and> rowKey [7] [9] \<noteq> indexKey [7, 9] [1]"
  by (rule row_keys_unambiguous) simp_all

text \<open>
  Claim C21. A scan pattern matches exactly the keys with the literal prefix it was made from, so identifier bytes that happen to be
  metacharacters of the matcher, a star, a question mark, a bracket or a backslash, are never read as pattern syntax.
\<close>

theorem scan_patterns_exact:
  assumes "glob_laws matchGlob"
  shows "(matchGlob (glob pre) key \<longleftrightarrow> prefix pre key)
    \<and> (matchGlob (rowKeyPattern t) key \<longleftrightarrow> (\<exists>pk. key = rowKey t pk))
    \<and> (matchGlob (indexKeyPattern t) key \<longleftrightarrow> (\<exists>e. key = indexKey t e))"
  using assms
  by (auto simp: glob_def rowKeyPattern_def indexKeyPattern_def glob_match_prefix prefix_def
      rowKeyPrefix_def rowKey_def indexKeyPrefix_def indexKey_def)

text \<open>A concrete matcher with these laws, for the witness: stars anywhere, classes without ranges.\<close>

function plain_glob :: "bytes \<Rightarrow> bytes \<Rightarrow> bool" where
  "plain_glob [] s = (s = [])"
| "plain_glob (c # p) s =
     (if c = 42 then list_ex (\<lambda>i. plain_glob p (drop i s)) [0..<length s + 1]
      else if c = 63 then match_byte (\<lambda>_. True) (plain_glob p) s
      else if c = 91 then match_byte (\<lambda>d. d \<in> set (takeWhile (\<lambda>x. x \<noteq> 93) p)) (plain_glob (drop 1 (dropWhile (\<lambda>x. x \<noteq> 93) p))) s
      else if c = 92 \<and> p \<noteq> [] then match_byte (\<lambda>d. d = hd p) (plain_glob (tl p)) s
      else match_byte (\<lambda>d. d = c) (plain_glob p) s)"
  by pat_completeness auto
termination
proof (relation "measure (\<lambda>(p, s). length p)")
  fix c :: byte and p t :: bytes
  show "((drop 1 (dropWhile (\<lambda>x. x \<noteq> 93) p), t), (c # p, s)) \<in> measure (\<lambda>(p, s). length p)" for s
    using length_dropWhile_le [of "\<lambda>x. x \<noteq> 93" p] by simp
qed simp_all

declare plain_glob.simps(2) [simp del]

lemma plain_glob_laws: "glob_laws plain_glob"
  unfolding glob_laws_def
proof (intro conjI allI impI)
  fix s :: bytes
  show "plain_glob (bstr ''*'') s" by (auto simp: bytes_simps plain_glob.simps(2) list_ex_iff intro!: bexI [of _ "length s"])
next
  fix c :: byte and p s :: bytes
  assume "[c] \<in> set (map (\<lambda>x. bstr [x]) ''abcxyz0123456789'')"
  then show "plain_glob (bstr ''['' @ [c] @ bstr '']'' @ p) s = match_byte (\<lambda>d. d = c) (plain_glob p) s"
    by (auto simp: bytes_simps plain_glob.simps(2))
next
  fix c :: byte and p s :: bytes
  assume "[c] \<notin> {bstr ''*'', bstr ''?'', bstr ''['', [92]}"
  then show "plain_glob (c # p) s = match_byte (\<lambda>d. d = c) (plain_glob p) s"
    by (simp add: bytes_simps plain_glob.simps(2))
qed (simp_all add: bytes_simps plain_glob.simps(2))

theorem scan_patterns_exact_witness:
  "(plain_glob (glob (bstr ''a?'')) (bstr ''ab'') \<longleftrightarrow> prefix (bstr ''a?'') (bstr ''ab''))
   \<and> (plain_glob (rowKeyPattern [42]) [114, 0, 0, 0, 1, 43] \<longleftrightarrow>
        (\<exists>pk. [114, 0, 0, 0, 1, 43] = rowKey [42] pk))"
  using scan_patterns_exact [OF plain_glob_laws] by blast

end
