(* ===== verification/Commands.thy ===== *)
theory Commands
  imports Prelude
begin

text \<open>
  The command vocabulary of the Redis front end: the \<^verbatim>\<open>CommandType\<close> enumeration, the name
  tables and the parsing of command names of \<^verbatim>\<open>redis/shared/command.go\<close>, the category table of
  \<^verbatim>\<open>redis/shared/acl_categories.go\<close>, and the key-extraction helpers of
  \<^verbatim>\<open>redis/shared/registry.go\<close>. A \<^verbatim>\<open>CommandType\<close> is represented by the name of its
  enumerator; its Go value is the position of that name in \<open>commandEnum\<close>.
\<close>

type_synonym CommandType = string

section \<open>The enumeration and the name tables\<close>

definition commandEnum_1 :: "CommandType list" where
  "commandEnum_1 = [
    ''CmdUnknown'', ''CmdNoop'', ''CmdPing'', ''CmdEcho'', ''CmdAuth'', ''CmdSelect'',
    ''CmdQuit'', ''CmdHello'', ''CmdGet'', ''CmdSet'', ''CmdDel'', ''CmdDelEx'', ''CmdExists'',
    ''CmdExpire'', ''CmdExpireAt'', ''CmdPExpire'', ''CmdPExpireAt'', ''CmdTTL'', ''CmdPTTL'',
    ''CmdExpireTime'', ''CmdPExpireTime'', ''CmdPersist'', ''CmdRename'', ''CmdRenameNX'',
    ''CmdIncr'', ''CmdDecr'', ''CmdIncrBy'', ''CmdDecrBy'', ''CmdIncrByFloat'', ''CmdAppend'',
    ''CmdGetSet'', ''CmdGetDel'', ''CmdGetEx'', ''CmdMGet'', ''CmdMSet'', ''CmdMSetNX'',
    ''CmdMSetEX'', ''CmdSetNX'', ''CmdSetEX'', ''CmdPSetEX'', ''CmdStrLen'', ''CmdSetRange'',
    ''CmdGetRange'', ''CmdSubstr'', ''CmdLcs'', ''CmdDigest'', ''CmdType'', ''CmdSetBit'',
    ''CmdGetBit'', ''CmdBitCount'', ''CmdBitPos'', ''CmdBitOp'', ''CmdBitField'',
    ''CmdBitFieldRO'', ''CmdLPush'', ''CmdLPushX'', ''CmdRPush'', ''CmdRPushX'', ''CmdLPop'',
    ''CmdRPop'', ''CmdBLPop'', ''CmdBRPop'', ''CmdLMPop'', ''CmdBLMPop'', ''CmdLMove'',
    ''CmdBLMove'', ''CmdRPopLPush'', ''CmdBRPopLPush'', ''CmdLLen'', ''CmdLRange'', ''CmdLIndex'',
    ''CmdLSet'', ''CmdLRem'', ''CmdLTrim'', ''CmdLInsert'', ''CmdLPos'', ''CmdHGet'', ''CmdHSet'',
    ''CmdHSetNX'', ''CmdHDel'', ''CmdHExists'', ''CmdHGetAll'', ''CmdHKeys'', ''CmdHVals'',
    ''CmdHLen'', ''CmdHMGet'', ''CmdHMSet'', ''CmdHIncrBy'', ''CmdHIncrByFloat'', ''CmdHStrLen'',
    ''CmdHRandField'', ''CmdHScan'', ''CmdHGetDel'', ''CmdHExpire'', ''CmdHPExpire'',
    ''CmdHExpireAt'', ''CmdHPExpireAt'', ''CmdHTTL'', ''CmdHPTTL'', ''CmdHExpireTime'',
    ''CmdHPExpireTime'', ''CmdHPersist'', ''CmdHSetEx'', ''CmdHGetEx'', ''CmdSAdd'', ''CmdSCard'',
    ''CmdSIsMember'', ''CmdSMIsMember'', ''CmdSMembers'', ''CmdSPop'', ''CmdSRem'',
    ''CmdSRandMember'', ''CmdSInter'', ''CmdSInterStore'', ''CmdSInterCard'', ''CmdSUnion'',
    ''CmdSUnionStore'', ''CmdSDiff'', ''CmdSDiffStore'', ''CmdSMove'', ''CmdZAdd'', ''CmdZRem'',
    ''CmdZScore'', ''CmdZCard'', ''CmdZRank'', ''CmdZRevRank'', ''CmdZRange'', ''CmdZRevRange'',
    ''CmdZRangeByScore'', ''CmdZRevRangeByScore'', ''CmdZCount'', ''CmdZIncrBy'', ''CmdZPopMin'',
    ''CmdZPopMax'', ''CmdZMPop'']"

definition commandEnum_2 :: "CommandType list" where
  "commandEnum_2 = [
    ''CmdZMScore'', ''CmdBZPopMin'', ''CmdBZPopMax'', ''CmdBZMPop'', ''CmdZRangeByLex'',
    ''CmdZRevRangeByLex'', ''CmdZLexCount'', ''CmdZRemRangeByScore'', ''CmdZRemRangeByRank'',
    ''CmdZRemRangeByLex'', ''CmdZUnionStore'', ''CmdZInterStore'', ''CmdZUnion'', ''CmdZInter'',
    ''CmdZInterCard'', ''CmdZDiff'', ''CmdZDiffStore'', ''CmdZRangeStore'', ''CmdZRandMember'',
    ''CmdCopy'', ''CmdMove'', ''CmdRandomKey'', ''CmdSort'', ''CmdSortRO'', ''CmdInfo'',
    ''CmdDBSize'', ''CmdFlushDB'', ''CmdFlushAll'', ''CmdTime'', ''CmdKeys'', ''CmdScan'',
    ''CmdCommand'', ''CmdConfig'', ''CmdClient'', ''CmdDebug'', ''CmdMemory'', ''CmdShutdown'',
    ''CmdMulti'', ''CmdExec'', ''CmdDiscard'', ''CmdWatch'', ''CmdUnwatch'', ''CmdFunction'',
    ''CmdScript'', ''CmdEval'', ''CmdEvalSha'', ''CmdEvalRO'', ''CmdEvalShaRO'', ''CmdFcall'',
    ''CmdFcallRO'', ''CmdSync'', ''CmdPSync'', ''CmdReplConf'', ''CmdWait'', ''CmdWaitAof'',
    ''CmdSubscribe'', ''CmdUnsubscribe'', ''CmdPSubscribe'', ''CmdPUnsubscribe'', ''CmdPublish'',
    ''CmdPubSub'', ''CmdSwapDB'', ''CmdXAdd'', ''CmdXLen'', ''CmdXRange'', ''CmdXRevRange'',
    ''CmdXRead'', ''CmdXGroup'', ''CmdXReadGroup'', ''CmdXAck'', ''CmdXPending'', ''CmdXTrim'',
    ''CmdXDel'', ''CmdXInfo'', ''CmdXSetId'', ''CmdXDelEx'', ''CmdXAckDel'', ''CmdXClaim'',
    ''CmdXAutoClaim'', ''CmdXIdmpRecord'', ''CmdXCfgSet'', ''CmdPFAdd'', ''CmdPFCount'',
    ''CmdPFMerge'', ''CmdPFSelfTest'', ''CmdPFDebug'', ''CmdGeoAdd'', ''CmdGeoDist'',
    ''CmdGeoHash'', ''CmdGeoPos'', ''CmdGeoRadius'', ''CmdGeoRadiusRO'', ''CmdGeoRadiusByMember'',
    ''CmdGeoRadiusByMemberRO'', ''CmdGeoSearch'', ''CmdGeoSearchStore'', ''CmdAcl'',
    ''CmdJSONSet'', ''CmdJSONGet'', ''CmdJSONMGet'', ''CmdJSONMSet'', ''CmdJSONMerge'',
    ''CmdJSONDel'', ''CmdJSONForget'', ''CmdJSONClear'', ''CmdJSONType'', ''CmdJSONNumIncrBy'',
    ''CmdJSONNumMultBy'', ''CmdJSONNumPowBy'', ''CmdJSONArrLen'', ''CmdJSONArrAppend'',
    ''CmdJSONArrInsert'', ''CmdJSONArrPop'', ''CmdJSONArrTrim'', ''CmdJSONArrIndex'',
    ''CmdJSONStrLen'', ''CmdJSONStrAppend'', ''CmdJSONObjKeys'', ''CmdJSONObjLen'',
    ''CmdJSONToggle'', ''CmdJSONResp'', ''CmdJSONDebug'', ''CmdUnlink'', ''CmdMax'']"

definition commandEnum :: "CommandType list" where
  "commandEnum = commandEnum_1 @ commandEnum_2"

text \<open>\<^verbatim>\<open>commandNames\<close>: upper-case name to command.\<close>

definition commandNames_1 :: "(string \<times> CommandType) list" where
  "commandNames_1 = [
    (''PING'', ''CmdPing''), (''ECHO'', ''CmdEcho''), (''AUTH'', ''CmdAuth''),
    (''SELECT'', ''CmdSelect''), (''QUIT'', ''CmdQuit''), (''HELLO'', ''CmdHello''),
    (''GET'', ''CmdGet''), (''SET'', ''CmdSet''), (''DEL'', ''CmdDel''),
    (''UNLINK'', ''CmdUnlink''), (''DELEX'', ''CmdDelEx''), (''EXISTS'', ''CmdExists''),
    (''EXPIRE'', ''CmdExpire''), (''EXPIREAT'', ''CmdExpireAt''), (''PEXPIRE'', ''CmdPExpire''),
    (''PEXPIREAT'', ''CmdPExpireAt''), (''TTL'', ''CmdTTL''), (''PTTL'', ''CmdPTTL''),
    (''EXPIRETIME'', ''CmdExpireTime''), (''PEXPIRETIME'', ''CmdPExpireTime''),
    (''PERSIST'', ''CmdPersist''), (''RENAME'', ''CmdRename''), (''RENAMENX'', ''CmdRenameNX''),
    (''INCR'', ''CmdIncr''), (''DECR'', ''CmdDecr''), (''INCRBY'', ''CmdIncrBy''),
    (''DECRBY'', ''CmdDecrBy''), (''INCRBYFLOAT'', ''CmdIncrByFloat''),
    (''APPEND'', ''CmdAppend''), (''GETSET'', ''CmdGetSet''), (''GETDEL'', ''CmdGetDel''),
    (''GETEX'', ''CmdGetEx''), (''MGET'', ''CmdMGet''), (''MSET'', ''CmdMSet''),
    (''MSETNX'', ''CmdMSetNX''), (''MSETEX'', ''CmdMSetEX''), (''SETNX'', ''CmdSetNX''),
    (''SETEX'', ''CmdSetEX''), (''PSETEX'', ''CmdPSetEX''), (''STRLEN'', ''CmdStrLen''),
    (''SETRANGE'', ''CmdSetRange''), (''GETRANGE'', ''CmdGetRange''), (''SUBSTR'', ''CmdSubstr''),
    (''LCS'', ''CmdLcs''), (''DIGEST'', ''CmdDigest''), (''TYPE'', ''CmdType''),
    (''SETBIT'', ''CmdSetBit''), (''GETBIT'', ''CmdGetBit''), (''BITCOUNT'', ''CmdBitCount''),
    (''BITPOS'', ''CmdBitPos''), (''BITOP'', ''CmdBitOp''), (''BITFIELD'', ''CmdBitField''),
    (''BITFIELD_RO'', ''CmdBitFieldRO''), (''LPUSH'', ''CmdLPush''), (''LPUSHX'', ''CmdLPushX''),
    (''RPUSH'', ''CmdRPush''), (''RPUSHX'', ''CmdRPushX''), (''LPOP'', ''CmdLPop''),
    (''RPOP'', ''CmdRPop''), (''BLPOP'', ''CmdBLPop''), (''BRPOP'', ''CmdBRPop''),
    (''LMPOP'', ''CmdLMPop''), (''BLMPOP'', ''CmdBLMPop''), (''LMOVE'', ''CmdLMove'')]"

definition commandNames_2 :: "(string \<times> CommandType) list" where
  "commandNames_2 = [
    (''BLMOVE'', ''CmdBLMove''), (''RPOPLPUSH'', ''CmdRPopLPush''),
    (''BRPOPLPUSH'', ''CmdBRPopLPush''), (''LLEN'', ''CmdLLen''), (''LRANGE'', ''CmdLRange''),
    (''LINDEX'', ''CmdLIndex''), (''LSET'', ''CmdLSet''), (''LREM'', ''CmdLRem''),
    (''LTRIM'', ''CmdLTrim''), (''LINSERT'', ''CmdLInsert''), (''LPOS'', ''CmdLPos''),
    (''HGET'', ''CmdHGet''), (''HSET'', ''CmdHSet''), (''HSETNX'', ''CmdHSetNX''),
    (''HDEL'', ''CmdHDel''), (''HEXISTS'', ''CmdHExists''), (''HGETALL'', ''CmdHGetAll''),
    (''HKEYS'', ''CmdHKeys''), (''HVALS'', ''CmdHVals''), (''HLEN'', ''CmdHLen''),
    (''HMGET'', ''CmdHMGet''), (''HMSET'', ''CmdHMSet''), (''HINCRBY'', ''CmdHIncrBy''),
    (''HINCRBYFLOAT'', ''CmdHIncrByFloat''), (''HSTRLEN'', ''CmdHStrLen''),
    (''HRANDFIELD'', ''CmdHRandField''), (''HSCAN'', ''CmdHScan''), (''HGETDEL'', ''CmdHGetDel''),
    (''HEXPIRE'', ''CmdHExpire''), (''HPEXPIRE'', ''CmdHPExpire''),
    (''HEXPIREAT'', ''CmdHExpireAt''), (''HPEXPIREAT'', ''CmdHPExpireAt''),
    (''HTTL'', ''CmdHTTL''), (''HPTTL'', ''CmdHPTTL''), (''HEXPIRETIME'', ''CmdHExpireTime''),
    (''HPEXPIRETIME'', ''CmdHPExpireTime''), (''HPERSIST'', ''CmdHPersist''),
    (''HSETEX'', ''CmdHSetEx''), (''HGETEX'', ''CmdHGetEx''), (''SADD'', ''CmdSAdd''),
    (''SCARD'', ''CmdSCard''), (''SISMEMBER'', ''CmdSIsMember''),
    (''SMISMEMBER'', ''CmdSMIsMember''), (''SMEMBERS'', ''CmdSMembers''), (''SPOP'', ''CmdSPop''),
    (''SREM'', ''CmdSRem''), (''SRANDMEMBER'', ''CmdSRandMember''), (''SINTER'', ''CmdSInter''),
    (''SINTERSTORE'', ''CmdSInterStore''), (''SINTERCARD'', ''CmdSInterCard''),
    (''SUNION'', ''CmdSUnion''), (''SUNIONSTORE'', ''CmdSUnionStore''), (''SDIFF'', ''CmdSDiff''),
    (''SDIFFSTORE'', ''CmdSDiffStore''), (''SMOVE'', ''CmdSMove''), (''ZADD'', ''CmdZAdd''),
    (''ZREM'', ''CmdZRem''), (''ZSCORE'', ''CmdZScore''), (''ZCARD'', ''CmdZCard''),
    (''ZRANK'', ''CmdZRank''), (''ZREVRANK'', ''CmdZRevRank''), (''ZRANGE'', ''CmdZRange''),
    (''ZREVRANGE'', ''CmdZRevRange''), (''ZRANGEBYSCORE'', ''CmdZRangeByScore'')]"

definition commandNames_3 :: "(string \<times> CommandType) list" where
  "commandNames_3 = [
    (''ZREVRANGEBYSCORE'', ''CmdZRevRangeByScore''), (''ZCOUNT'', ''CmdZCount''),
    (''ZINCRBY'', ''CmdZIncrBy''), (''ZPOPMIN'', ''CmdZPopMin''), (''ZPOPMAX'', ''CmdZPopMax''),
    (''ZMPOP'', ''CmdZMPop''), (''ZMSCORE'', ''CmdZMScore''), (''BZPOPMIN'', ''CmdBZPopMin''),
    (''BZPOPMAX'', ''CmdBZPopMax''), (''BZMPOP'', ''CmdBZMPop''),
    (''ZRANGEBYLEX'', ''CmdZRangeByLex''), (''ZREVRANGEBYLEX'', ''CmdZRevRangeByLex''),
    (''ZLEXCOUNT'', ''CmdZLexCount''), (''ZREMRANGEBYSCORE'', ''CmdZRemRangeByScore''),
    (''ZREMRANGEBYRANK'', ''CmdZRemRangeByRank''), (''ZREMRANGEBYLEX'', ''CmdZRemRangeByLex''),
    (''ZUNIONSTORE'', ''CmdZUnionStore''), (''ZINTERSTORE'', ''CmdZInterStore''),
    (''ZUNION'', ''CmdZUnion''), (''ZINTER'', ''CmdZInter''), (''ZINTERCARD'', ''CmdZInterCard''),
    (''ZDIFF'', ''CmdZDiff''), (''ZDIFFSTORE'', ''CmdZDiffStore''),
    (''ZRANGESTORE'', ''CmdZRangeStore''), (''ZRANDMEMBER'', ''CmdZRandMember''),
    (''COPY'', ''CmdCopy''), (''MOVE'', ''CmdMove''), (''RANDOMKEY'', ''CmdRandomKey''),
    (''SORT'', ''CmdSort''), (''SORT_RO'', ''CmdSortRO''), (''INFO'', ''CmdInfo''),
    (''DBSIZE'', ''CmdDBSize''), (''FLUSHDB'', ''CmdFlushDB''), (''FLUSHALL'', ''CmdFlushAll''),
    (''TIME'', ''CmdTime''), (''KEYS'', ''CmdKeys''), (''SCAN'', ''CmdScan''),
    (''COMMAND'', ''CmdCommand''), (''CONFIG'', ''CmdConfig''), (''CLIENT'', ''CmdClient''),
    (''DEBUG'', ''CmdDebug''), (''MEMORY'', ''CmdMemory''), (''SHUTDOWN'', ''CmdShutdown''),
    (''MULTI'', ''CmdMulti''), (''EXEC'', ''CmdExec''), (''DISCARD'', ''CmdDiscard''),
    (''WATCH'', ''CmdWatch''), (''UNWATCH'', ''CmdUnwatch''), (''FUNCTION'', ''CmdFunction''),
    (''SCRIPT'', ''CmdScript''), (''EVAL'', ''CmdEval''), (''EVALSHA'', ''CmdEvalSha''),
    (''EVAL_RO'', ''CmdEvalRO''), (''EVALSHA_RO'', ''CmdEvalShaRO''), (''FCALL'', ''CmdFcall''),
    (''FCALL_RO'', ''CmdFcallRO''), (''SYNC'', ''CmdSync''), (''PSYNC'', ''CmdPSync''),
    (''REPLCONF'', ''CmdReplConf''), (''WAIT'', ''CmdWait''), (''WAITAOF'', ''CmdWaitAof''),
    (''SUBSCRIBE'', ''CmdSubscribe''), (''UNSUBSCRIBE'', ''CmdUnsubscribe''),
    (''PSUBSCRIBE'', ''CmdPSubscribe'')]"

definition commandNames_4 :: "(string \<times> CommandType) list" where
  "commandNames_4 = [
    (''PUNSUBSCRIBE'', ''CmdPUnsubscribe''), (''PUBLISH'', ''CmdPublish''),
    (''PUBSUB'', ''CmdPubSub''), (''SWAPDB'', ''CmdSwapDB''), (''XADD'', ''CmdXAdd''),
    (''XLEN'', ''CmdXLen''), (''XRANGE'', ''CmdXRange''), (''XREVRANGE'', ''CmdXRevRange''),
    (''XREAD'', ''CmdXRead''), (''XGROUP'', ''CmdXGroup''), (''XREADGROUP'', ''CmdXReadGroup''),
    (''XACK'', ''CmdXAck''), (''XPENDING'', ''CmdXPending''), (''XTRIM'', ''CmdXTrim''),
    (''XDEL'', ''CmdXDel''), (''XINFO'', ''CmdXInfo''), (''XSETID'', ''CmdXSetId''),
    (''XDELEX'', ''CmdXDelEx''), (''XACKDEL'', ''CmdXAckDel''), (''XCLAIM'', ''CmdXClaim''),
    (''XAUTOCLAIM'', ''CmdXAutoClaim''), (''XIDMPRECORD'', ''CmdXIdmpRecord''),
    (''XCFGSET'', ''CmdXCfgSet''), (''PFADD'', ''CmdPFAdd''), (''PFCOUNT'', ''CmdPFCount''),
    (''PFMERGE'', ''CmdPFMerge''), (''PFSELFTEST'', ''CmdPFSelfTest''),
    (''PFDEBUG'', ''CmdPFDebug''), (''GEOADD'', ''CmdGeoAdd''), (''GEODIST'', ''CmdGeoDist''),
    (''GEOHASH'', ''CmdGeoHash''), (''GEOPOS'', ''CmdGeoPos''), (''GEORADIUS'', ''CmdGeoRadius''),
    (''GEORADIUS_RO'', ''CmdGeoRadiusRO''), (''GEORADIUSBYMEMBER'', ''CmdGeoRadiusByMember''),
    (''GEORADIUSBYMEMBER_RO'', ''CmdGeoRadiusByMemberRO''), (''GEOSEARCH'', ''CmdGeoSearch''),
    (''GEOSEARCHSTORE'', ''CmdGeoSearchStore''), (''ACL'', ''CmdAcl''),
    (''JSON.SET'', ''CmdJSONSet''), (''JSON.GET'', ''CmdJSONGet''),
    (''JSON.MGET'', ''CmdJSONMGet''), (''JSON.MSET'', ''CmdJSONMSet''),
    (''JSON.MERGE'', ''CmdJSONMerge''), (''JSON.DEL'', ''CmdJSONDel''),
    (''JSON.FORGET'', ''CmdJSONForget''), (''JSON.CLEAR'', ''CmdJSONClear''),
    (''JSON.TYPE'', ''CmdJSONType''), (''JSON.NUMINCRBY'', ''CmdJSONNumIncrBy''),
    (''JSON.NUMMULTBY'', ''CmdJSONNumMultBy''), (''JSON.NUMPOWBY'', ''CmdJSONNumPowBy''),
    (''JSON.ARRLEN'', ''CmdJSONArrLen''), (''JSON.ARRAPPEND'', ''CmdJSONArrAppend''),
    (''JSON.ARRINSERT'', ''CmdJSONArrInsert''), (''JSON.ARRPOP'', ''CmdJSONArrPop''),
    (''JSON.ARRTRIM'', ''CmdJSONArrTrim''), (''JSON.ARRINDEX'', ''CmdJSONArrIndex''),
    (''JSON.STRLEN'', ''CmdJSONStrLen''), (''JSON.STRAPPEND'', ''CmdJSONStrAppend''),
    (''JSON.OBJKEYS'', ''CmdJSONObjKeys''), (''JSON.OBJLEN'', ''CmdJSONObjLen''),
    (''JSON.TOGGLE'', ''CmdJSONToggle''), (''JSON.RESP'', ''CmdJSONResp''),
    (''JSON.DEBUG'', ''CmdJSONDebug'')]"

definition commandNames :: "(string \<times> CommandType) list" where
  "commandNames = commandNames_1 @ commandNames_2 @ commandNames_3 @ commandNames_4"

text \<open>\<^verbatim>\<open>commandStrings\<close>: command to display name.\<close>

definition commandStrings_1 :: "(CommandType \<times> string) list" where
  "commandStrings_1 = [
    (''CmdPing'', ''ping''), (''CmdEcho'', ''echo''), (''CmdAuth'', ''auth''),
    (''CmdSelect'', ''select''), (''CmdQuit'', ''quit''), (''CmdHello'', ''hello''),
    (''CmdGet'', ''get''), (''CmdSet'', ''set''), (''CmdDel'', ''del''),
    (''CmdUnlink'', ''unlink''), (''CmdDelEx'', ''delex''), (''CmdExists'', ''exists''),
    (''CmdExpire'', ''expire''), (''CmdExpireAt'', ''expireat''), (''CmdPExpire'', ''pexpire''),
    (''CmdPExpireAt'', ''pexpireat''), (''CmdTTL'', ''ttl''), (''CmdPTTL'', ''pttl''),
    (''CmdExpireTime'', ''expiretime''), (''CmdPExpireTime'', ''pexpiretime''),
    (''CmdPersist'', ''persist''), (''CmdRename'', ''rename''), (''CmdRenameNX'', ''renamenx''),
    (''CmdIncr'', ''incr''), (''CmdDecr'', ''decr''), (''CmdIncrBy'', ''incrby''),
    (''CmdDecrBy'', ''decrby''), (''CmdIncrByFloat'', ''incrbyfloat''),
    (''CmdAppend'', ''append''), (''CmdGetSet'', ''getset''), (''CmdGetDel'', ''getdel''),
    (''CmdGetEx'', ''getex''), (''CmdMGet'', ''mget''), (''CmdMSet'', ''mset''),
    (''CmdMSetNX'', ''msetnx''), (''CmdMSetEX'', ''msetex''), (''CmdSetNX'', ''setnx''),
    (''CmdSetEX'', ''setex''), (''CmdPSetEX'', ''psetex''), (''CmdStrLen'', ''strlen''),
    (''CmdSetRange'', ''setrange''), (''CmdGetRange'', ''getrange''), (''CmdSubstr'', ''substr''),
    (''CmdLcs'', ''lcs''), (''CmdDigest'', ''digest''), (''CmdType'', ''type''),
    (''CmdSetBit'', ''setbit''), (''CmdGetBit'', ''getbit''), (''CmdBitCount'', ''bitcount''),
    (''CmdBitPos'', ''bitpos''), (''CmdBitOp'', ''bitop''), (''CmdBitField'', ''bitfield''),
    (''CmdBitFieldRO'', ''bitfield_ro''), (''CmdLPush'', ''lpush''), (''CmdLPushX'', ''lpushx''),
    (''CmdRPush'', ''rpush''), (''CmdRPushX'', ''rpushx''), (''CmdLPop'', ''lpop''),
    (''CmdRPop'', ''rpop''), (''CmdBLPop'', ''blpop''), (''CmdBRPop'', ''brpop''),
    (''CmdLMPop'', ''lmpop''), (''CmdBLMPop'', ''blmpop''), (''CmdLMove'', ''lmove'')]"

definition commandStrings_2 :: "(CommandType \<times> string) list" where
  "commandStrings_2 = [
    (''CmdBLMove'', ''blmove''), (''CmdRPopLPush'', ''rpoplpush''),
    (''CmdBRPopLPush'', ''brpoplpush''), (''CmdLLen'', ''llen''), (''CmdLRange'', ''lrange''),
    (''CmdLIndex'', ''lindex''), (''CmdLSet'', ''lset''), (''CmdLRem'', ''lrem''),
    (''CmdLTrim'', ''ltrim''), (''CmdLInsert'', ''linsert''), (''CmdLPos'', ''lpos''),
    (''CmdHGet'', ''hget''), (''CmdHSet'', ''hset''), (''CmdHSetNX'', ''hsetnx''),
    (''CmdHDel'', ''hdel''), (''CmdHExists'', ''hexists''), (''CmdHGetAll'', ''hgetall''),
    (''CmdHKeys'', ''hkeys''), (''CmdHVals'', ''hvals''), (''CmdHLen'', ''hlen''),
    (''CmdHMGet'', ''hmget''), (''CmdHMSet'', ''hmset''), (''CmdHIncrBy'', ''hincrby''),
    (''CmdHIncrByFloat'', ''hincrbyfloat''), (''CmdHStrLen'', ''hstrlen''),
    (''CmdHRandField'', ''hrandfield''), (''CmdHScan'', ''hscan''), (''CmdHGetDel'', ''hgetdel''),
    (''CmdHExpire'', ''hexpire''), (''CmdHPExpire'', ''hpexpire''),
    (''CmdHExpireAt'', ''hexpireat''), (''CmdHPExpireAt'', ''hpexpireat''),
    (''CmdHTTL'', ''httl''), (''CmdHPTTL'', ''hpttl''), (''CmdHExpireTime'', ''hexpiretime''),
    (''CmdHPExpireTime'', ''hpexpiretime''), (''CmdHPersist'', ''hpersist''),
    (''CmdHSetEx'', ''hsetex''), (''CmdHGetEx'', ''hgetex''), (''CmdSAdd'', ''sadd''),
    (''CmdSCard'', ''scard''), (''CmdSIsMember'', ''sismember''),
    (''CmdSMIsMember'', ''smismember''), (''CmdSMembers'', ''smembers''), (''CmdSPop'', ''spop''),
    (''CmdSRem'', ''srem''), (''CmdSRandMember'', ''srandmember''), (''CmdSInter'', ''sinter''),
    (''CmdSInterStore'', ''sinterstore''), (''CmdSInterCard'', ''sintercard''),
    (''CmdSUnion'', ''sunion''), (''CmdSUnionStore'', ''sunionstore''), (''CmdSDiff'', ''sdiff''),
    (''CmdSDiffStore'', ''sdiffstore''), (''CmdSMove'', ''smove''), (''CmdZAdd'', ''zadd''),
    (''CmdZRem'', ''zrem''), (''CmdZScore'', ''zscore''), (''CmdZCard'', ''zcard''),
    (''CmdZRank'', ''zrank''), (''CmdZRevRank'', ''zrevrank''), (''CmdZRange'', ''zrange''),
    (''CmdZRevRange'', ''zrevrange''), (''CmdZRangeByScore'', ''zrangebyscore'')]"

definition commandStrings_3 :: "(CommandType \<times> string) list" where
  "commandStrings_3 = [
    (''CmdZRevRangeByScore'', ''zrevrangebyscore''), (''CmdZCount'', ''zcount''),
    (''CmdZIncrBy'', ''zincrby''), (''CmdZPopMin'', ''zpopmin''), (''CmdZPopMax'', ''zpopmax''),
    (''CmdZMPop'', ''zmpop''), (''CmdZMScore'', ''zmscore''), (''CmdBZPopMin'', ''bzpopmin''),
    (''CmdBZPopMax'', ''bzpopmax''), (''CmdBZMPop'', ''bzmpop''),
    (''CmdZRangeByLex'', ''zrangebylex''), (''CmdZRevRangeByLex'', ''zrevrangebylex''),
    (''CmdZLexCount'', ''zlexcount''), (''CmdZRemRangeByScore'', ''zremrangebyscore''),
    (''CmdZRemRangeByRank'', ''zremrangebyrank''), (''CmdZRemRangeByLex'', ''zremrangebylex''),
    (''CmdZUnionStore'', ''zunionstore''), (''CmdZInterStore'', ''zinterstore''),
    (''CmdZUnion'', ''zunion''), (''CmdZInter'', ''zinter''), (''CmdZInterCard'', ''zintercard''),
    (''CmdZDiff'', ''zdiff''), (''CmdZDiffStore'', ''zdiffstore''),
    (''CmdZRangeStore'', ''zrangestore''), (''CmdZRandMember'', ''zrandmember''),
    (''CmdCopy'', ''copy''), (''CmdMove'', ''move''), (''CmdRandomKey'', ''randomkey''),
    (''CmdSort'', ''sort''), (''CmdSortRO'', ''sort_ro''), (''CmdInfo'', ''info''),
    (''CmdDBSize'', ''dbsize''), (''CmdFlushDB'', ''flushdb''), (''CmdFlushAll'', ''flushall''),
    (''CmdTime'', ''time''), (''CmdKeys'', ''keys''), (''CmdScan'', ''scan''),
    (''CmdCommand'', ''command''), (''CmdConfig'', ''config''), (''CmdClient'', ''client''),
    (''CmdDebug'', ''debug''), (''CmdMemory'', ''memory''), (''CmdShutdown'', ''shutdown''),
    (''CmdMulti'', ''multi''), (''CmdExec'', ''exec''), (''CmdDiscard'', ''discard''),
    (''CmdWatch'', ''watch''), (''CmdUnwatch'', ''unwatch''), (''CmdFunction'', ''function''),
    (''CmdScript'', ''script''), (''CmdEval'', ''eval''), (''CmdEvalSha'', ''evalsha''),
    (''CmdEvalRO'', ''eval_ro''), (''CmdEvalShaRO'', ''evalsha_ro''), (''CmdFcall'', ''fcall''),
    (''CmdFcallRO'', ''fcall_ro''), (''CmdSync'', ''sync''), (''CmdPSync'', ''psync''),
    (''CmdReplConf'', ''replconf''), (''CmdWait'', ''wait''), (''CmdWaitAof'', ''waitaof''),
    (''CmdSubscribe'', ''subscribe''), (''CmdUnsubscribe'', ''unsubscribe''),
    (''CmdPSubscribe'', ''psubscribe'')]"

definition commandStrings_4 :: "(CommandType \<times> string) list" where
  "commandStrings_4 = [
    (''CmdPUnsubscribe'', ''punsubscribe''), (''CmdPublish'', ''publish''),
    (''CmdPubSub'', ''pubsub''), (''CmdSwapDB'', ''swapdb''), (''CmdXAdd'', ''xadd''),
    (''CmdXLen'', ''xlen''), (''CmdXRange'', ''xrange''), (''CmdXRevRange'', ''xrevrange''),
    (''CmdXRead'', ''xread''), (''CmdXGroup'', ''xgroup''), (''CmdXReadGroup'', ''xreadgroup''),
    (''CmdXAck'', ''xack''), (''CmdXPending'', ''xpending''), (''CmdXTrim'', ''xtrim''),
    (''CmdXDel'', ''xdel''), (''CmdXInfo'', ''xinfo''), (''CmdXSetId'', ''xsetid''),
    (''CmdXDelEx'', ''xdelex''), (''CmdXAckDel'', ''xackdel''), (''CmdXClaim'', ''xclaim''),
    (''CmdXAutoClaim'', ''xautoclaim''), (''CmdXIdmpRecord'', ''xidmprecord''),
    (''CmdXCfgSet'', ''xcfgset''), (''CmdPFAdd'', ''pfadd''), (''CmdPFCount'', ''pfcount''),
    (''CmdPFMerge'', ''pfmerge''), (''CmdPFSelfTest'', ''pfselftest''),
    (''CmdPFDebug'', ''pfdebug''), (''CmdGeoAdd'', ''geoadd''), (''CmdGeoDist'', ''geodist''),
    (''CmdGeoHash'', ''geohash''), (''CmdGeoPos'', ''geopos''), (''CmdGeoRadius'', ''georadius''),
    (''CmdGeoRadiusRO'', ''georadius_ro''), (''CmdGeoRadiusByMember'', ''georadiusbymember''),
    (''CmdGeoRadiusByMemberRO'', ''georadiusbymember_ro''), (''CmdGeoSearch'', ''geosearch''),
    (''CmdGeoSearchStore'', ''geosearchstore''), (''CmdAcl'', ''acl''),
    (''CmdJSONSet'', ''json.set''), (''CmdJSONGet'', ''json.get''),
    (''CmdJSONMGet'', ''json.mget''), (''CmdJSONMSet'', ''json.mset''),
    (''CmdJSONMerge'', ''json.merge''), (''CmdJSONDel'', ''json.del''),
    (''CmdJSONForget'', ''json.forget''), (''CmdJSONClear'', ''json.clear''),
    (''CmdJSONType'', ''json.type''), (''CmdJSONNumIncrBy'', ''json.numincrby''),
    (''CmdJSONNumMultBy'', ''json.nummultby''), (''CmdJSONNumPowBy'', ''json.numpowby''),
    (''CmdJSONArrLen'', ''json.arrlen''), (''CmdJSONArrAppend'', ''json.arrappend''),
    (''CmdJSONArrInsert'', ''json.arrinsert''), (''CmdJSONArrPop'', ''json.arrpop''),
    (''CmdJSONArrTrim'', ''json.arrtrim''), (''CmdJSONArrIndex'', ''json.arrindex''),
    (''CmdJSONStrLen'', ''json.strlen''), (''CmdJSONStrAppend'', ''json.strappend''),
    (''CmdJSONObjKeys'', ''json.objkeys''), (''CmdJSONObjLen'', ''json.objlen''),
    (''CmdJSONToggle'', ''json.toggle''), (''CmdJSONResp'', ''json.resp''),
    (''CmdJSONDebug'', ''json.debug'')]"

definition commandStrings :: "(CommandType \<times> string) list" where
  "commandStrings = commandStrings_1 @ commandStrings_2 @ commandStrings_3 @ commandStrings_4"

section \<open>Command categories\<close>

datatype CommandCategory =
    CatRead | CatWrite | CatSet | CatSortedSet | CatList | CatHash
  | CatString | CatBitmap | CatHyperLogLog | CatGeo | CatStream | CatPubSub
  | CatAdmin | CatFast | CatSlow | CatBlocking | CatDangerous | CatConnection
  | CatTransaction | CatScripting | CatKeyspace | CatAll

definition categoryNames :: "(string \<times> CommandCategory) list" where
  "categoryNames = [
    (''read'', CatRead), (''write'', CatWrite), (''set'', CatSet), (''sortedset'', CatSortedSet),
    (''list'', CatList), (''hash'', CatHash), (''string'', CatString), (''bitmap'', CatBitmap),
    (''hyperloglog'', CatHyperLogLog), (''geo'', CatGeo), (''stream'', CatStream),
    (''pubsub'', CatPubSub), (''admin'', CatAdmin), (''fast'', CatFast), (''slow'', CatSlow),
    (''blocking'', CatBlocking), (''dangerous'', CatDangerous), (''connection'', CatConnection),
    (''transaction'', CatTransaction), (''scripting'', CatScripting), (''keyspace'', CatKeyspace),
    (''all'', CatAll)]"

definition categoryToName :: "(CommandCategory \<times> string) list" where
  "categoryToName = [
    (CatRead, ''read''), (CatWrite, ''write''), (CatSet, ''set''), (CatSortedSet, ''sortedset''),
    (CatList, ''list''), (CatHash, ''hash''), (CatString, ''string''), (CatBitmap, ''bitmap''),
    (CatHyperLogLog, ''hyperloglog''), (CatGeo, ''geo''), (CatStream, ''stream''),
    (CatPubSub, ''pubsub''), (CatAdmin, ''admin''), (CatFast, ''fast''), (CatSlow, ''slow''),
    (CatBlocking, ''blocking''), (CatDangerous, ''dangerous''), (CatConnection, ''connection''),
    (CatTransaction, ''transaction''), (CatScripting, ''scripting''), (CatKeyspace, ''keyspace''),
    (CatAll, ''all'')]"

definition commandCategories_1 :: "(CommandType \<times> CommandCategory list) list" where
  "commandCategories_1 = [
    (''CmdPing'', [CatFast, CatConnection]), (''CmdEcho'', [CatFast, CatConnection]),
    (''CmdAuth'', [CatFast, CatConnection]), (''CmdSelect'', [CatFast, CatConnection]),
    (''CmdQuit'', [CatFast, CatConnection]), (''CmdHello'', [CatFast, CatConnection]),
    (''CmdGet'', [CatRead, CatString, CatFast]), (''CmdMGet'', [CatRead, CatString, CatFast]),
    (''CmdStrLen'', [CatRead, CatString, CatFast]),
    (''CmdGetRange'', [CatRead, CatString, CatSlow]),
    (''CmdSubstr'', [CatRead, CatString, CatSlow]), (''CmdSet'', [CatWrite, CatString, CatSlow]),
    (''CmdSetNX'', [CatWrite, CatString, CatFast]),
    (''CmdSetEX'', [CatWrite, CatString, CatSlow]),
    (''CmdPSetEX'', [CatWrite, CatString, CatSlow]),
    (''CmdMSet'', [CatWrite, CatString, CatSlow]),
    (''CmdMSetNX'', [CatWrite, CatString, CatSlow]),
    (''CmdMSetEX'', [CatWrite, CatString, CatSlow]),
    (''CmdGetSet'', [CatWrite, CatString, CatFast]),
    (''CmdGetDel'', [CatWrite, CatString, CatFast]),
    (''CmdGetEx'', [CatWrite, CatString, CatFast]),
    (''CmdAppend'', [CatWrite, CatString, CatFast]),
    (''CmdSetRange'', [CatWrite, CatString, CatSlow]),
    (''CmdIncr'', [CatWrite, CatString, CatFast]), (''CmdDecr'', [CatWrite, CatString, CatFast]),
    (''CmdIncrBy'', [CatWrite, CatString, CatFast]),
    (''CmdDecrBy'', [CatWrite, CatString, CatFast]),
    (''CmdIncrByFloat'', [CatWrite, CatString, CatFast]),
    (''CmdLcs'', [CatRead, CatString, CatSlow]), (''CmdDigest'', [CatRead, CatString, CatFast]),
    (''CmdDel'', [CatWrite, CatKeyspace, CatFast]),
    (''CmdUnlink'', [CatWrite, CatKeyspace, CatFast]),
    (''CmdDelEx'', [CatWrite, CatKeyspace, CatFast]),
    (''CmdExists'', [CatRead, CatKeyspace, CatFast]),
    (''CmdExpire'', [CatWrite, CatKeyspace, CatFast]),
    (''CmdExpireAt'', [CatWrite, CatKeyspace, CatFast]),
    (''CmdPExpire'', [CatWrite, CatKeyspace, CatFast]),
    (''CmdPExpireAt'', [CatWrite, CatKeyspace, CatFast]),
    (''CmdTTL'', [CatRead, CatKeyspace, CatFast]), (''CmdPTTL'', [CatRead, CatKeyspace, CatFast]),
    (''CmdExpireTime'', [CatRead, CatKeyspace, CatFast]),
    (''CmdPExpireTime'', [CatRead, CatKeyspace, CatFast]),
    (''CmdPersist'', [CatWrite, CatKeyspace, CatFast]),
    (''CmdRename'', [CatWrite, CatKeyspace, CatSlow]),
    (''CmdRenameNX'', [CatWrite, CatKeyspace, CatSlow]),
    (''CmdType'', [CatRead, CatKeyspace, CatFast]),
    (''CmdCopy'', [CatWrite, CatKeyspace, CatSlow]),
    (''CmdMove'', [CatWrite, CatKeyspace, CatSlow]),
    (''CmdRandomKey'', [CatRead, CatKeyspace, CatSlow]),
    (''CmdSort'', [CatWrite, CatKeyspace, CatSlow, CatDangerous]),
    (''CmdSortRO'', [CatRead, CatKeyspace, CatSlow]),
    (''CmdSetBit'', [CatWrite, CatBitmap, CatSlow]),
    (''CmdGetBit'', [CatRead, CatBitmap, CatFast]),
    (''CmdBitCount'', [CatRead, CatBitmap, CatSlow]),
    (''CmdBitPos'', [CatRead, CatBitmap, CatSlow]),
    (''CmdBitOp'', [CatWrite, CatBitmap, CatSlow]),
    (''CmdBitField'', [CatWrite, CatBitmap, CatSlow]),
    (''CmdBitFieldRO'', [CatRead, CatBitmap, CatSlow]),
    (''CmdLLen'', [CatRead, CatList, CatFast]), (''CmdLRange'', [CatRead, CatList, CatSlow]),
    (''CmdLIndex'', [CatRead, CatList, CatSlow]), (''CmdLPos'', [CatRead, CatList, CatSlow]),
    (''CmdLPush'', [CatWrite, CatList, CatFast]), (''CmdLPushX'', [CatWrite, CatList, CatFast]),
    (''CmdRPush'', [CatWrite, CatList, CatFast]), (''CmdRPushX'', [CatWrite, CatList, CatFast]),
    (''CmdLPop'', [CatWrite, CatList, CatFast]), (''CmdRPop'', [CatWrite, CatList, CatFast]),
    (''CmdLSet'', [CatWrite, CatList, CatSlow]), (''CmdLRem'', [CatWrite, CatList, CatSlow]),
    (''CmdLTrim'', [CatWrite, CatList, CatSlow]), (''CmdLInsert'', [CatWrite, CatList, CatSlow]),
    (''CmdLMove'', [CatWrite, CatList, CatSlow]),
    (''CmdRPopLPush'', [CatWrite, CatList, CatSlow]),
    (''CmdLMPop'', [CatWrite, CatList, CatSlow]),
    (''CmdBLPop'', [CatWrite, CatList, CatSlow, CatBlocking]),
    (''CmdBRPop'', [CatWrite, CatList, CatSlow, CatBlocking]),
    (''CmdBLMPop'', [CatWrite, CatList, CatSlow, CatBlocking]),
    (''CmdBLMove'', [CatWrite, CatList, CatSlow, CatBlocking]),
    (''CmdBRPopLPush'', [CatWrite, CatList, CatSlow, CatBlocking]),
    (''CmdHGet'', [CatRead, CatHash, CatFast]), (''CmdHExists'', [CatRead, CatHash, CatFast]),
    (''CmdHGetAll'', [CatRead, CatHash, CatSlow]), (''CmdHKeys'', [CatRead, CatHash, CatSlow]),
    (''CmdHVals'', [CatRead, CatHash, CatSlow]), (''CmdHLen'', [CatRead, CatHash, CatFast]),
    (''CmdHMGet'', [CatRead, CatHash, CatFast]), (''CmdHStrLen'', [CatRead, CatHash, CatFast]),
    (''CmdHRandField'', [CatRead, CatHash, CatSlow]), (''CmdHScan'', [CatRead, CatHash, CatSlow]),
    (''CmdHTTL'', [CatRead, CatHash, CatFast]), (''CmdHPTTL'', [CatRead, CatHash, CatFast]),
    (''CmdHExpireTime'', [CatRead, CatHash, CatFast]),
    (''CmdHPExpireTime'', [CatRead, CatHash, CatFast]),
    (''CmdHSet'', [CatWrite, CatHash, CatFast]), (''CmdHSetNX'', [CatWrite, CatHash, CatFast]),
    (''CmdHDel'', [CatWrite, CatHash, CatFast]), (''CmdHMSet'', [CatWrite, CatHash, CatFast]),
    (''CmdHIncrBy'', [CatWrite, CatHash, CatFast]),
    (''CmdHIncrByFloat'', [CatWrite, CatHash, CatFast]),
    (''CmdHGetDel'', [CatWrite, CatHash, CatFast]),
    (''CmdHExpire'', [CatWrite, CatHash, CatFast]),
    (''CmdHPExpire'', [CatWrite, CatHash, CatFast]),
    (''CmdHExpireAt'', [CatWrite, CatHash, CatFast]),
    (''CmdHPExpireAt'', [CatWrite, CatHash, CatFast]),
    (''CmdHPersist'', [CatWrite, CatHash, CatFast]),
    (''CmdHSetEx'', [CatWrite, CatHash, CatFast]), (''CmdHGetEx'', [CatWrite, CatHash, CatFast]),
    (''CmdSCard'', [CatRead, CatSet, CatFast]), (''CmdSIsMember'', [CatRead, CatSet, CatFast]),
    (''CmdSMIsMember'', [CatRead, CatSet, CatFast]),
    (''CmdSMembers'', [CatRead, CatSet, CatSlow]),
    (''CmdSRandMember'', [CatRead, CatSet, CatSlow]), (''CmdSInter'', [CatRead, CatSet, CatSlow]),
    (''CmdSUnion'', [CatRead, CatSet, CatSlow]), (''CmdSDiff'', [CatRead, CatSet, CatSlow]),
    (''CmdSInterCard'', [CatRead, CatSet, CatSlow]), (''CmdSAdd'', [CatWrite, CatSet, CatFast]),
    (''CmdSPop'', [CatWrite, CatSet, CatFast]), (''CmdSRem'', [CatWrite, CatSet, CatFast]),
    (''CmdSInterStore'', [CatWrite, CatSet, CatSlow]),
    (''CmdSUnionStore'', [CatWrite, CatSet, CatSlow]),
    (''CmdSDiffStore'', [CatWrite, CatSet, CatSlow]), (''CmdSMove'', [CatWrite, CatSet, CatFast]),
    (''CmdZScore'', [CatRead, CatSortedSet, CatFast]),
    (''CmdZCard'', [CatRead, CatSortedSet, CatFast])]"

definition commandCategories_2 :: "(CommandType \<times> CommandCategory list) list" where
  "commandCategories_2 = [
    (''CmdZRank'', [CatRead, CatSortedSet, CatFast]),
    (''CmdZRevRank'', [CatRead, CatSortedSet, CatFast]),
    (''CmdZRange'', [CatRead, CatSortedSet, CatSlow]),
    (''CmdZRevRange'', [CatRead, CatSortedSet, CatSlow]),
    (''CmdZRangeByScore'', [CatRead, CatSortedSet, CatSlow]),
    (''CmdZRevRangeByScore'', [CatRead, CatSortedSet, CatSlow]),
    (''CmdZCount'', [CatRead, CatSortedSet, CatFast]),
    (''CmdZMScore'', [CatRead, CatSortedSet, CatFast]),
    (''CmdZRangeByLex'', [CatRead, CatSortedSet, CatSlow]),
    (''CmdZRevRangeByLex'', [CatRead, CatSortedSet, CatSlow]),
    (''CmdZLexCount'', [CatRead, CatSortedSet, CatFast]),
    (''CmdZRandMember'', [CatRead, CatSortedSet, CatSlow]),
    (''CmdZUnion'', [CatRead, CatSortedSet, CatSlow]),
    (''CmdZInter'', [CatRead, CatSortedSet, CatSlow]),
    (''CmdZDiff'', [CatRead, CatSortedSet, CatSlow]),
    (''CmdZInterCard'', [CatRead, CatSortedSet, CatSlow]),
    (''CmdZAdd'', [CatWrite, CatSortedSet, CatFast]),
    (''CmdZRem'', [CatWrite, CatSortedSet, CatFast]),
    (''CmdZIncrBy'', [CatWrite, CatSortedSet, CatFast]),
    (''CmdZPopMin'', [CatWrite, CatSortedSet, CatFast]),
    (''CmdZPopMax'', [CatWrite, CatSortedSet, CatFast]),
    (''CmdZMPop'', [CatWrite, CatSortedSet, CatSlow]),
    (''CmdZRemRangeByScore'', [CatWrite, CatSortedSet, CatSlow]),
    (''CmdZRemRangeByRank'', [CatWrite, CatSortedSet, CatSlow]),
    (''CmdZRemRangeByLex'', [CatWrite, CatSortedSet, CatSlow]),
    (''CmdZUnionStore'', [CatWrite, CatSortedSet, CatSlow]),
    (''CmdZInterStore'', [CatWrite, CatSortedSet, CatSlow]),
    (''CmdZDiffStore'', [CatWrite, CatSortedSet, CatSlow]),
    (''CmdZRangeStore'', [CatWrite, CatSortedSet, CatSlow]),
    (''CmdBZPopMin'', [CatWrite, CatSortedSet, CatSlow, CatBlocking]),
    (''CmdBZPopMax'', [CatWrite, CatSortedSet, CatSlow, CatBlocking]),
    (''CmdBZMPop'', [CatWrite, CatSortedSet, CatSlow, CatBlocking]),
    (''CmdXLen'', [CatRead, CatStream, CatFast]), (''CmdXRange'', [CatRead, CatStream, CatSlow]),
    (''CmdXRevRange'', [CatRead, CatStream, CatSlow]),
    (''CmdXRead'', [CatRead, CatStream, CatSlow, CatBlocking]),
    (''CmdXPending'', [CatRead, CatStream, CatSlow]),
    (''CmdXInfo'', [CatRead, CatStream, CatSlow]), (''CmdXAdd'', [CatWrite, CatStream, CatFast]),
    (''CmdXGroup'', [CatWrite, CatStream, CatSlow]),
    (''CmdXReadGroup'', [CatWrite, CatStream, CatSlow, CatBlocking]),
    (''CmdXAck'', [CatWrite, CatStream, CatFast]), (''CmdXTrim'', [CatWrite, CatStream, CatSlow]),
    (''CmdXDel'', [CatWrite, CatStream, CatFast]),
    (''CmdXSetId'', [CatWrite, CatStream, CatFast]),
    (''CmdXDelEx'', [CatWrite, CatStream, CatFast]),
    (''CmdXAckDel'', [CatWrite, CatStream, CatFast]),
    (''CmdXClaim'', [CatWrite, CatStream, CatFast]),
    (''CmdXAutoClaim'', [CatWrite, CatStream, CatFast]),
    (''CmdXIdmpRecord'', [CatWrite, CatStream, CatFast]),
    (''CmdXCfgSet'', [CatWrite, CatStream, CatFast]),
    (''CmdPFAdd'', [CatWrite, CatHyperLogLog, CatFast]),
    (''CmdPFCount'', [CatRead, CatHyperLogLog, CatSlow]),
    (''CmdPFMerge'', [CatWrite, CatHyperLogLog, CatSlow]),
    (''CmdPFSelfTest'', [CatRead, CatHyperLogLog, CatSlow, CatAdmin]),
    (''CmdPFDebug'', [CatRead, CatHyperLogLog, CatSlow, CatAdmin]),
    (''CmdGeoAdd'', [CatWrite, CatGeo, CatSlow]), (''CmdGeoDist'', [CatRead, CatGeo, CatFast]),
    (''CmdGeoHash'', [CatRead, CatGeo, CatFast]), (''CmdGeoPos'', [CatRead, CatGeo, CatFast]),
    (''CmdGeoRadius'', [CatWrite, CatGeo, CatSlow]),
    (''CmdGeoRadiusRO'', [CatRead, CatGeo, CatSlow]),
    (''CmdGeoRadiusByMember'', [CatWrite, CatGeo, CatSlow]),
    (''CmdGeoRadiusByMemberRO'', [CatRead, CatGeo, CatSlow]),
    (''CmdGeoSearch'', [CatRead, CatGeo, CatSlow]),
    (''CmdGeoSearchStore'', [CatWrite, CatGeo, CatSlow]),
    (''CmdSubscribe'', [CatPubSub, CatSlow]), (''CmdUnsubscribe'', [CatPubSub, CatSlow]),
    (''CmdPSubscribe'', [CatPubSub, CatSlow]), (''CmdPUnsubscribe'', [CatPubSub, CatSlow]),
    (''CmdPublish'', [CatPubSub, CatFast]), (''CmdPubSub'', [CatPubSub, CatSlow]),
    (''CmdInfo'', [CatRead, CatAdmin, CatSlow]), (''CmdDBSize'', [CatRead, CatAdmin, CatFast]),
    (''CmdFlushDB'', [CatWrite, CatAdmin, CatSlow, CatDangerous]),
    (''CmdFlushAll'', [CatWrite, CatAdmin, CatSlow, CatDangerous]),
    (''CmdTime'', [CatRead, CatAdmin, CatFast]),
    (''CmdKeys'', [CatRead, CatKeyspace, CatSlow, CatDangerous]),
    (''CmdScan'', [CatRead, CatKeyspace, CatSlow]),
    (''CmdCommand'', [CatRead, CatAdmin, CatSlow]),
    (''CmdConfig'', [CatAdmin, CatSlow, CatDangerous]), (''CmdClient'', [CatAdmin, CatSlow]),
    (''CmdDebug'', [CatAdmin, CatSlow, CatDangerous]),
    (''CmdMemory'', [CatRead, CatAdmin, CatSlow]),
    (''CmdShutdown'', [CatAdmin, CatSlow, CatDangerous]),
    (''CmdSwapDB'', [CatWrite, CatAdmin, CatSlow, CatDangerous]),
    (''CmdMulti'', [CatTransaction, CatFast]), (''CmdExec'', [CatTransaction, CatSlow]),
    (''CmdDiscard'', [CatTransaction, CatFast]), (''CmdWatch'', [CatTransaction, CatFast]),
    (''CmdUnwatch'', [CatTransaction, CatFast]), (''CmdFunction'', [CatScripting, CatSlow]),
    (''CmdScript'', [CatScripting, CatSlow]), (''CmdEval'', [CatScripting, CatSlow]),
    (''CmdEvalSha'', [CatScripting, CatSlow]), (''CmdEvalRO'', [CatScripting, CatSlow, CatRead]),
    (''CmdEvalShaRO'', [CatScripting, CatSlow, CatRead]), (''CmdFcall'', [CatScripting, CatSlow]),
    (''CmdFcallRO'', [CatScripting, CatSlow, CatRead]), (''CmdSync'', [CatAdmin, CatSlow]),
    (''CmdPSync'', [CatAdmin, CatSlow]), (''CmdReplConf'', [CatAdmin, CatSlow]),
    (''CmdWait'', [CatSlow, CatBlocking]), (''CmdWaitAof'', [CatSlow, CatBlocking]),
    (''CmdAcl'', [CatAdmin, CatSlow, CatDangerous])]"

definition commandCategories :: "(CommandType \<times> CommandCategory list) list" where
  "commandCategories = commandCategories_1 @ commandCategories_2"

section \<open>Lookups\<close>

text \<open>Go map lookups on the tables; names are byte strings.\<close>

definition LookupCommandName :: "bytes \<Rightarrow> CommandType option" where
  "LookupCommandName name = map_of (map (\<lambda>(s, c). (bstr s, c)) commandNames) name"

definition CommandType_String :: "CommandType \<Rightarrow> bytes" where
  "CommandType_String c = (case map_of commandStrings c of Some s \<Rightarrow> bstr s | None \<Rightarrow> bstr ''unknown'')"

text \<open>
  \<^verbatim>\<open>ToUpper\<close> of \<^verbatim>\<open>command.go\<close>: returns its argument when no byte needs conversion, a converted
  copy otherwise.
\<close>

definition ToUpper :: "bytes \<Rightarrow> bytes" where
  "ToUpper b =
     (if \<not> list_ex (\<lambda>c. 97 \<le> c \<and> c \<le> 122) b then b
      else map (\<lambda>c. if 97 \<le> c \<and> c \<le> 122 then c - 32 else c) b)"

definition ParseCommandType :: "bytes \<Rightarrow> CommandType" where
  "ParseCommandType name =
     (case LookupCommandName (ToUpper name) of Some c \<Rightarrow> c | None \<Rightarrow> ''CmdUnknown'')"

definition GetCategoryByName :: "bytes \<Rightarrow> CommandCategory option" where
  "GetCategoryByName name = map_of (map (\<lambda>(s, c). (bstr s, c)) categoryNames) (str_lower name)"

definition GetCategoryName :: "CommandCategory \<Rightarrow> bytes" where
  "GetCategoryName cat = (case map_of categoryToName cat of Some s \<Rightarrow> bstr s | None \<Rightarrow> bstr ''unknown'')"

definition GetCommandCategories :: "CommandType \<Rightarrow> CommandCategory list" where
  "GetCommandCategories cmd = (case map_of commandCategories cmd of Some cats \<Rightarrow> cats | None \<Rightarrow> [])"

definition CommandHasCategory :: "CommandType \<Rightarrow> CommandCategory \<Rightarrow> bool" where
  "CommandHasCategory cmd cat =
     (case map_of commandCategories cmd of Some cats \<Rightarrow> cat \<in> set cats | None \<Rightarrow> False)"

section \<open>Key extraction for ACL checks\<close>

text \<open>
  The helpers of \<^verbatim>\<open>redis/shared/registry.go\<close> that list the keys a command touches, on the
  argument list after the command name. Go's \<^verbatim>\<open>nil\<close> slice and an empty slice are both \<open>[]\<close>.
\<close>

definition KeysAllButLast :: "bytes list \<Rightarrow> bytes list" where
  "KeysAllButLast args = (if length args < 2 then [] else butlast args)"

definition KeysFirstTwo :: "bytes list \<Rightarrow> bytes list" where
  "KeysFirstTwo args = (if length args < 2 then [] else [args ! 0, args ! 1])"

definition KeysFirst :: "bytes list \<Rightarrow> bytes list" where
  "KeysFirst args = (if length args < 1 then [] else [args ! 0])"

fun skip_to_streams :: "bytes list \<Rightarrow> bytes list option" where
  "skip_to_streams [] = None"
| "skip_to_streams (a # args) = (if equal_fold a (bstr ''STREAMS'') then Some args else skip_to_streams args)"

definition KeysAfterStreams :: "bytes list \<Rightarrow> bytes list" where
  "KeysAfterStreams args =
     (case skip_to_streams args of
        None \<Rightarrow> []
      | Some remaining \<Rightarrow>
          if remaining = [] \<or> length remaining mod 2 \<noteq> 0 then []
          else take (length remaining div 2) remaining)"

definition KeysAll :: "bytes list \<Rightarrow> bytes list" where
  "KeysAll args = args"

fun every_other :: "'a list \<Rightarrow> 'a list" where
  "every_other [] = []"
| "every_other [x] = [x]"
| "every_other (x # y # xs) = x # every_other xs"

definition KeysMSetStyle :: "bytes list \<Rightarrow> bytes list" where
  "KeysMSetStyle args = (if length args < 2 then [] else every_other args)"

fun sort_store :: "bytes list \<Rightarrow> bytes list" where
  "sort_store [] = []"
| "sort_store [a] = []"
| "sort_store (a # b # args) = (if equal_fold a (bstr ''STORE'') then [b] else sort_store (b # args))"

definition KeysSortCmd :: "bytes list \<Rightarrow> bytes list" where
  "KeysSortCmd args = (case args of [] \<Rightarrow> [] | k # rest \<Rightarrow> k # sort_store rest)"

lemma ToUpper_eq: "ToUpper b = upper b"
  by (auto simp: ToUpper_def upper_def upper_byte_def list_ex_iff intro!: map_idI [symmetric])

lemmas name_tables =
  commandNames_1_def commandNames_2_def commandNames_3_def commandNames_4_def
  commandStrings_1_def commandStrings_2_def commandStrings_3_def commandStrings_4_def

end
