(* ===== verification/Command_Facts.thy ===== *)
theory Command_Facts
  imports Commands
begin

text \<open>
  Consistency of the command tables: the display name of every command, in any letter case,
  parses back to that command.
\<close>

lemma unat_of_char: "unat (of_char c :: byte) = of_char c"
proof -
  have "unat (of_nat (of_char c) :: byte) = of_char c"
    by (simp add: unat_of_nat)
  then show ?thesis by (simp add: of_nat_of_char)
qed

lemma inj_of_char: "inj (of_char :: char \<Rightarrow> byte)"
proof (rule injI)
  fix c d :: char
  assume "(of_char c :: byte) = of_char d"
  then have "(of_char c :: nat) = of_char d"
    by (simp flip: unat_of_char)
  then show "c = d" by simp
qed

lemma bstr_eq_iff [simp]: "bstr x = bstr y \<longleftrightarrow> x = y"
  by (simp add: bstr_def inj_map_eq_map inj_of_char)

text \<open>Upper case on characters: clears bit 5 of the bytes from 0x61 to 0x7A.\<close>

fun upper_char :: "char \<Rightarrow> char" where
  "upper_char (Char b0 b1 b2 b3 b4 b5 b6 b7) =
     Char b0 b1 b2 b3 b4
       (b5 \<and> \<not> (b6 \<and> \<not> b7 \<and> (b0 \<or> b1 \<or> b2 \<or> b3 \<or> b4) \<and> \<not> (b3 \<and> b4 \<and> (b2 \<or> b1 \<and> b0))))
       b6 b7"

lemma upper_byte_of_char: "upper_byte (of_char c) = of_char (upper_char c)"
proof -
  have "\<forall>b0 b1 b2 b3 b4 b5 b6 b7. upper_byte (of_char (Char b0 b1 b2 b3 b4 b5 b6 b7)) =
      of_char (upper_char (Char b0 b1 b2 b3 b4 b5 b6 b7))"
    by (simp add: all_bool_eq upper_byte_def of_char_def word_le_nat_alt)
  then show ?thesis by (cases c) simp
qed

lemma upper_bstr: "upper (bstr s) = bstr (map upper_char s)"
  by (simp add: upper_def bstr_def upper_byte_of_char)

definition same_entry :: "CommandType \<times> string \<Rightarrow> string \<times> CommandType \<Rightarrow> bool" where
  "same_entry p q \<longleftrightarrow> fst p = snd q \<and> map upper_char (snd p) = fst q"

lemma same_entries_1: "list_all2 same_entry commandStrings_1 commandNames_1"
  unfolding name_tables by (simp add: same_entry_def)

lemma same_entries_2: "list_all2 same_entry commandStrings_2 commandNames_2"
  unfolding name_tables by (simp add: same_entry_def)

lemma same_entries_3: "list_all2 same_entry commandStrings_3 commandNames_3"
  unfolding name_tables by (simp add: same_entry_def)

lemma same_entries_4: "list_all2 same_entry commandStrings_4 commandNames_4"
  unfolding name_tables by (simp add: same_entry_def)

lemma distinct_names_1: "distinct (map fst commandNames_1)"
  unfolding name_tables by simp

lemma distinct_names_2: "distinct (map fst commandNames_2)"
  unfolding name_tables by simp

lemma distinct_names_3: "distinct (map fst commandNames_3)"
  unfolding name_tables by simp

lemma distinct_names_4: "distinct (map fst commandNames_4)"
  unfolding name_tables by simp

lemma disjoint_names_12: "set (map fst commandNames_1) \<inter> set (map fst commandNames_2) = {}"
  unfolding name_tables by simp

lemma disjoint_names_13: "set (map fst commandNames_1) \<inter> set (map fst commandNames_3) = {}"
  unfolding name_tables by simp

lemma disjoint_names_14: "set (map fst commandNames_1) \<inter> set (map fst commandNames_4) = {}"
  unfolding name_tables by simp

lemma disjoint_names_23: "set (map fst commandNames_2) \<inter> set (map fst commandNames_3) = {}"
  unfolding name_tables by simp

lemma disjoint_names_24: "set (map fst commandNames_2) \<inter> set (map fst commandNames_4) = {}"
  unfolding name_tables by simp

lemma disjoint_names_34: "set (map fst commandNames_3) \<inter> set (map fst commandNames_4) = {}"
  unfolding name_tables by simp

lemma distinct_commands_1: "distinct (map fst commandStrings_1)"
  unfolding name_tables by simp

lemma distinct_commands_2: "distinct (map fst commandStrings_2)"
  unfolding name_tables by simp

lemma distinct_commands_3: "distinct (map fst commandStrings_3)"
  unfolding name_tables by simp

lemma distinct_commands_4: "distinct (map fst commandStrings_4)"
  unfolding name_tables by simp

lemma disjoint_commands_12: "set (map fst commandStrings_1) \<inter> set (map fst commandStrings_2) = {}"
  unfolding name_tables by simp

lemma disjoint_commands_13: "set (map fst commandStrings_1) \<inter> set (map fst commandStrings_3) = {}"
  unfolding name_tables by simp

lemma disjoint_commands_14: "set (map fst commandStrings_1) \<inter> set (map fst commandStrings_4) = {}"
  unfolding name_tables by simp

lemma disjoint_commands_23: "set (map fst commandStrings_2) \<inter> set (map fst commandStrings_3) = {}"
  unfolding name_tables by simp

lemma disjoint_commands_24: "set (map fst commandStrings_2) \<inter> set (map fst commandStrings_4) = {}"
  unfolding name_tables by simp

lemma disjoint_commands_34: "set (map fst commandStrings_3) \<inter> set (map fst commandStrings_4) = {}"
  unfolding name_tables by simp

lemma known_commands_1: "''CmdUnknown'' \<notin> set (map fst commandStrings_1)"
  unfolding name_tables by simp

lemma known_commands_2: "''CmdUnknown'' \<notin> set (map fst commandStrings_2)"
  unfolding name_tables by simp

lemma known_commands_3: "''CmdUnknown'' \<notin> set (map fst commandStrings_3)"
  unfolding name_tables by simp

lemma known_commands_4: "''CmdUnknown'' \<notin> set (map fst commandStrings_4)"
  unfolding name_tables by simp

lemma same_entries: "list_all2 same_entry commandStrings commandNames"
  unfolding commandStrings_def commandNames_def
  by (intro list_all2_appendI same_entries_1 same_entries_2 same_entries_3 same_entries_4)

lemma distinct_names: "distinct (map fst commandNames)"
  unfolding commandNames_def map_append distinct_append set_append Int_Un_distrib
  using distinct_names_1 distinct_names_2 distinct_names_3 distinct_names_4
    disjoint_names_12 disjoint_names_13 disjoint_names_14
    disjoint_names_23 disjoint_names_24 disjoint_names_34
  by blast

lemma distinct_commands: "distinct (map fst commandStrings)"
  unfolding commandStrings_def map_append distinct_append set_append Int_Un_distrib
  using distinct_commands_1 distinct_commands_2 distinct_commands_3 distinct_commands_4
    disjoint_commands_12 disjoint_commands_13 disjoint_commands_14
    disjoint_commands_23 disjoint_commands_24 disjoint_commands_34
  by blast

lemma known_commands: "''CmdUnknown'' \<notin> set (map fst commandStrings)"
  unfolding commandStrings_def map_append set_append
  using known_commands_1 known_commands_2 known_commands_3 known_commands_4 by blast

section \<open>Names and commands\<close>

lemma name_of_string: "(c, s) \<in> set commandStrings \<Longrightarrow> (map upper_char s, c) \<in> set commandNames"
  using same_entries by (fastforce simp: list_all2_conv_all_nth in_set_conv_nth same_entry_def)

lemma string_of_name:
  assumes "(n, c) \<in> set commandNames"
  shows "\<exists>s. (c, s) \<in> set commandStrings \<and> map upper_char s = n"
proof -
  obtain i where i: "i < length commandNames" "commandNames ! i = (n, c)"
    using assms by (auto simp: in_set_conv_nth)
  with same_entries have "i < length commandStrings" "same_entry (commandStrings ! i) (n, c)"
    by (metis list_all2_lengthD, metis list_all2_nthD2)
  then show ?thesis
    by (metis fst_conv nth_mem prod.collapse same_entry_def snd_conv)
qed

lemma CommandType_String_known:
  "(c, s) \<in> set commandStrings \<Longrightarrow> CommandType_String c = bstr s"
  by (simp add: CommandType_String_def map_of_is_SomeI distinct_commands)

lemma LookupCommandName_iff: "LookupCommandName b = Some c \<longleftrightarrow> (\<exists>n. b = bstr n \<and> (n, c) \<in> set commandNames)"
proof -
  have "distinct (map fst (map (\<lambda>(s, c). (bstr s, c)) commandNames))"
    using distinct_names by (auto simp: distinct_map inj_on_def case_prod_beta comp_def)
  then have "LookupCommandName b = Some c \<longleftrightarrow> (b, c) \<in> set (map (\<lambda>(s, c). (bstr s, c)) commandNames)"
    unfolding LookupCommandName_def by (rule map_of_eq_Some_iff)
  then show ?thesis by auto
qed

text \<open>
  Claim C22. The name table and the display table agree: for every command of the display table, a
  name parses to that command exactly when it is the command's display name up to letter case. So
  no display name is missing from the parser, none is shadowed by another entry, and the reply of
  an introspection command can be sent back as a command.
\<close>

theorem ParseCommandType_iff_String:
  assumes "c \<in> fst ` set commandStrings"
  shows "ParseCommandType b = c \<longleftrightarrow> ToUpper b = ToUpper (CommandType_String c)"
proof -
  obtain s where s: "(c, s) \<in> set commandStrings" using assms by auto
  have name: "ToUpper (CommandType_String c) = bstr (map upper_char s)"
    by (simp add: ToUpper_eq CommandType_String_known [OF s] upper_bstr)
  have "c \<noteq> ''CmdUnknown''" using known_commands assms by (metis set_map)
  then have "ParseCommandType b = c \<longleftrightarrow> LookupCommandName (ToUpper b) = Some c"
    by (auto simp: ParseCommandType_def split: option.splits)
  also have "\<dots> \<longleftrightarrow> (\<exists>n. ToUpper b = bstr n \<and> (n, c) \<in> set commandNames)"
    by (rule LookupCommandName_iff)
  also have "\<dots> \<longleftrightarrow> ToUpper b = bstr (map upper_char s)"
  proof
    assume "\<exists>n. ToUpper b = bstr n \<and> (n, c) \<in> set commandNames"
    then obtain n s' where "ToUpper b = bstr n" "(c, s') \<in> set commandStrings" "map upper_char s' = n"
      using string_of_name by blast
    with s distinct_commands show "ToUpper b = bstr (map upper_char s)"
      by (metis eq_key_imp_eq_value)
  next
    assume "ToUpper b = bstr (map upper_char s)"
    with name_of_string [OF s] show "\<exists>n. ToUpper b = bstr n \<and> (n, c) \<in> set commandNames" by blast
  qed
  finally show ?thesis by (simp add: name)
qed

theorem ParseCommandType_iff_String_witness:
  "ParseCommandType (bstr ''GeT'') = ''CmdGet''"
proof -
  have "map_of commandStrings_1 ''CmdGet'' = Some ''get''"
    by (simp add: name_tables)
  then have g: "(''CmdGet'', ''get'') \<in> set commandStrings"
    unfolding commandStrings_def by (auto dest: map_of_SomeD)
  then have "''CmdGet'' \<in> fst ` set commandStrings" by force
  from ParseCommandType_iff_String [OF this, of "bstr ''GeT''"] show ?thesis
    by (simp add: CommandType_String_known [OF g] ToUpper_eq upper_bstr)
qed

end
