(* ===== verification/Acl.thy ===== *)
theory Acl
  imports Commands "HOL-Library.Sublist"
begin

text \<open>
  Access control: \<^verbatim>\<open>redis/shared/acl_types.go\<close> and \<^verbatim>\<open>redis/acl.go\<close>. A Go map is a partial function.
  \<^verbatim>\<open>bcrypt\<close> is a parameter: \<open>cmp h pw\<close> says that \<^verbatim>\<open>CompareHashAndPassword\<close> returns nil, and
  \<open>hash pw\<close> is the result of \<^verbatim>\<open>GenerateFromPassword\<close>, \<open>None\<close> for an error. The locks of the manager
  and the files it reads and writes are not modelled; a file is the list of its lines.
\<close>

section \<open>Users\<close>

datatype KeyPatternType = KeyPatternReadWrite | KeyPatternReadOnly | KeyPatternWriteOnly

record KeyPattern =
  kp_Pattern :: bytes
  kp_Type :: KeyPatternType

record ACLSelector =
  sel_Commands :: "CommandType \<rightharpoonup> bool"
  sel_Categories :: "CommandCategory \<rightharpoonup> bool"
  sel_AllCommands :: bool
  sel_KeyPatterns :: "KeyPattern list"
  sel_AllKeys :: bool

record ACLUser =
  u_Name :: bytes
  u_Enabled :: bool
  u_PasswordHashes :: "bytes list"
  u_NoPass :: bool
  u_AllCommands :: bool
  u_Categories :: "CommandCategory \<rightharpoonup> bool"
  u_Commands :: "CommandType \<rightharpoonup> bool"
  u_Subcommands :: "CommandType \<rightharpoonup> (bytes \<rightharpoonup> bool)"
  u_AllKeys :: bool
  u_KeyPatterns :: "KeyPattern list"
  u_AllChannels :: bool
  u_ChannelPatterns :: "bytes list"
  u_Selectors :: "ACLSelector list"

definition empty_user :: "bytes \<Rightarrow> ACLUser" where
  "empty_user name = \<lparr>u_Name = name, u_Enabled = False, u_PasswordHashes = [], u_NoPass = False,
     u_AllCommands = False, u_Categories = Map.empty, u_Commands = Map.empty, u_Subcommands = Map.empty,
     u_AllKeys = False, u_KeyPatterns = [], u_AllChannels = False, u_ChannelPatterns = [], u_Selectors = []\<rparr>"

definition defaultUsername :: bytes where
  "defaultUsername = bstr ''default''"

definition default_user :: ACLUser where
  "default_user = (empty_user defaultUsername)\<lparr>u_Enabled := True, u_NoPass := True,
     u_AllCommands := True, u_AllKeys := True, u_AllChannels := True\<rparr>"

datatype acl_error =
    ErrUserNotFound | ErrUserDisabled | ErrWrongPassword | ErrNoPermission | ErrNoKeyPermission
  | ErrNoChanPermission

record ACLLogEntry =
  le_Count :: nat
  le_Reason :: bytes
  le_Context :: bytes
  le_Object :: bytes
  le_Username :: bytes
  le_ClientInfo :: bytes
  le_EntryID :: nat
  le_TimestampUsec :: int

record ACLManager =
  m_users :: "bytes \<rightharpoonup> ACLUser"
  m_log :: "ACLLogEntry list"
  m_logMaxLen :: nat
  m_nextLogID :: nat
  m_aclFile :: bytes

definition NewACLManager :: ACLManager where
  "NewACLManager = \<lparr>m_users = [defaultUsername \<mapsto> default_user], m_log = [], m_logMaxLen = 128, m_nextLogID = 0, m_aclFile = []\<rparr>"

definition SetUser :: "ACLUser \<Rightarrow> ACLManager \<Rightarrow> ACLManager" where
  "SetUser user m = m\<lparr>m_users := (m_users m)(u_Name user \<mapsto> user)\<rparr>"

definition DeleteUser :: "bytes \<Rightarrow> ACLManager \<Rightarrow> bool \<times> ACLManager" where
  "DeleteUser name m =
     (if name = defaultUsername then (False, m)
      else if m_users m name \<noteq> None then (True, m\<lparr>m_users := (m_users m)(name := None)\<rparr>)
      else (False, m))"

section \<open>Authentication\<close>

definition Authenticate ::
  "(bytes \<Rightarrow> bytes \<Rightarrow> bool) \<Rightarrow> ACLManager \<Rightarrow> bytes \<Rightarrow> bytes \<Rightarrow> acl_error + ACLUser" where
  "Authenticate cmp m username password =
     (case m_users m username of
        None \<Rightarrow> Inl ErrUserNotFound
      | Some user \<Rightarrow>
          if \<not> u_Enabled user then Inl ErrUserDisabled
          else if u_NoPass user then Inr user
          else if list_ex (\<lambda>h. cmp h password) (u_PasswordHashes user) then Inr user
          else Inl ErrWrongPassword)"

definition AuthenticateDefault :: "ACLManager \<Rightarrow> ACLUser option" where
  "AuthenticateDefault m =
     (case m_users m defaultUsername of
        None \<Rightarrow> None
      | Some user \<Rightarrow> if \<not> u_Enabled user then None else if u_NoPass user then Some user else None)"

definition RequiresAuth :: "ACLManager \<Rightarrow> bool" where
  "RequiresAuth m =
     (case m_users m defaultUsername of
        None \<Rightarrow> True
      | Some user \<Rightarrow> if \<not> u_Enabled user then True else \<not> u_NoPass user)"

section \<open>Glob matching\<close>

text \<open>
  \<^verbatim>\<open>aclMatchGlobRecursive\<close> with the suffixes \<^verbatim>\<open>pattern[pi:]\<close> and \<^verbatim>\<open>str[si:]\<close> in place of the indices.
  \<open>class_scan c p\<close> is the loop over a character class: it returns whether \<open>c\<close> matched and the
  pattern after the closing bracket.
\<close>

fun class_scan :: "byte \<Rightarrow> bytes \<Rightarrow> bool \<times> bytes" where
  "class_scan c [] = (False, [])"
| "class_scan c (a # p) =
     (if a = 93 then (False, p)
      else
        case p of
          b # e # q \<Rightarrow>
            if b = 45 then
              (case class_scan c q of (m, rest) \<Rightarrow> (a \<le> c \<and> c \<le> e \<or> m, rest))
            else (case class_scan c p of (m, rest) \<Rightarrow> (a = c \<or> m, rest))
        | _ \<Rightarrow> (case class_scan c p of (m, rest) \<Rightarrow> (a = c \<or> m, rest)))"

declare class_scan.simps(2) [simp del]

lemma class_scan_length: "length (snd (class_scan c p)) \<le> length p"
proof (induction c p rule: class_scan.induct)
  case (2 c a p)
  then show ?case
    by (subst class_scan.simps) (fastforce split: list.splits prod.splits)
qed simp

definition class_start :: "bytes \<Rightarrow> bool \<times> bytes" where
  "class_start p = (case p of c # q \<Rightarrow> if c = 94 then (True, q) else (False, p) | [] \<Rightarrow> (False, []))"

lemma class_start_length: "length (snd (class_start p)) \<le> length p"
  by (auto simp: class_start_def split: list.splits)

fun tails :: "'a list \<Rightarrow> 'a list list" where
  "tails [] = [[]]"
| "tails (x # xs) = (x # xs) # tails xs"

function aclMatchGlobRecursive :: "bytes \<Rightarrow> bytes \<Rightarrow> bool" where
  "aclMatchGlobRecursive [] s = (s = [])"
| "aclMatchGlobRecursive (c # p) [] = list_all (\<lambda>d. d = 42) (c # p)"
| "aclMatchGlobRecursive (c # p) (d # s) =
     (if c = 42 then list_ex (aclMatchGlobRecursive p) (tails (d # s))
      else if c = 63 then aclMatchGlobRecursive p s
      else if c = 91 then
        (let (negated, q) = class_start p;
             (matched, rest) = class_scan d q
         in if matched = negated then False else aclMatchGlobRecursive rest s)
      else if c \<noteq> d then False
      else aclMatchGlobRecursive p s)"
  by pat_completeness auto
termination
proof (relation "measure (\<lambda>(p, s). length p)")
  fix c d :: byte and p s q rest :: bytes and negated matched x x'
  assume "x = class_start p" "(negated, q) = x" "x' = class_scan d q" "(matched, rest) = x'"
  then show "((rest, s), (c # p, d # s)) \<in> measure (\<lambda>(p, s). length p)"
    using class_start_length [of p] class_scan_length [of d q] 
    by (cases "class_start p"; cases "class_scan d q") auto
qed simp_all

definition aclMatchGlob :: "bytes \<Rightarrow> bytes \<Rightarrow> bool" where
  "aclMatchGlob pattern str = aclMatchGlobRecursive pattern str"

section \<open>Permission checks\<close>

definition CheckCommand :: "ACLUser option \<Rightarrow> CommandType \<Rightarrow> acl_error option" where
  "CheckCommand user cmd =
     (case user of
        None \<Rightarrow> Some ErrNoPermission
      | Some u \<Rightarrow>
          if \<not> u_Enabled u then Some ErrUserDisabled
          else if u_AllCommands u then None
          else
            case u_Commands u cmd of
              Some allowed \<Rightarrow> if allowed then None else Some ErrNoPermission
            | None \<Rightarrow>
                let cats = GetCommandCategories cmd in
                if list_ex (\<lambda>cat. u_Categories u cat = Some True) cats then None
                else if list_ex (\<lambda>cat. u_Categories u cat = Some True) cats then None
                else Some ErrNoPermission)"

definition pattern_allows :: "bytes \<Rightarrow> bool \<Rightarrow> KeyPattern \<Rightarrow> bool" where
  "pattern_allows key isWrite kp \<longleftrightarrow>
     aclMatchGlob (kp_Pattern kp) key \<and>
     (case kp_Type kp of
        KeyPatternReadWrite \<Rightarrow> True
      | KeyPatternReadOnly \<Rightarrow> \<not> isWrite
      | KeyPatternWriteOnly \<Rightarrow> isWrite)"

definition CheckKey :: "ACLUser option \<Rightarrow> bytes \<Rightarrow> bool \<Rightarrow> acl_error option" where
  "CheckKey user key isWrite =
     (case user of
        None \<Rightarrow> Some ErrNoKeyPermission
      | Some u \<Rightarrow>
          if u_AllKeys u then None
          else if list_ex (pattern_allows key isWrite) (u_KeyPatterns u) then None
          else if list_ex (\<lambda>sel. sel_AllKeys sel \<or> list_ex (pattern_allows key isWrite) (sel_KeyPatterns sel))
                    (u_Selectors u) then None
          else Some ErrNoKeyPermission)"

definition CheckChannel :: "ACLUser option \<Rightarrow> bytes \<Rightarrow> acl_error option" where
  "CheckChannel user channel =
     (case user of
        None \<Rightarrow> Some ErrNoChanPermission
      | Some u \<Rightarrow>
          if u_AllChannels u then None
          else if list_ex (\<lambda>pattern. aclMatchGlob pattern channel) (u_ChannelPatterns u) then None
          else Some ErrNoChanPermission)"

section \<open>The security log\<close>

text \<open>
  \<open>now\<close> is \<^verbatim>\<open>time.Now().UnixMicro()\<close>. The age of an entry, a float recomputed on every read from the
  time stamp, is not kept.
\<close>

definition same_denial :: "bytes \<Rightarrow> bytes \<Rightarrow> bytes \<Rightarrow> bytes \<Rightarrow> ACLLogEntry \<Rightarrow> bool" where
  "same_denial reason ctxt object username e \<longleftrightarrow>
     le_Reason e = reason \<and> le_Object e = object \<and> le_Username e = username \<and> le_Context e = ctxt"

fun bump_entry :: "(ACLLogEntry \<Rightarrow> bool) \<Rightarrow> int \<Rightarrow> ACLLogEntry list \<Rightarrow> ACLLogEntry list option" where
  "bump_entry P now [] = None"
| "bump_entry P now (e # es) =
     (if P e then Some (e\<lparr>le_Count := le_Count e + 1, le_TimestampUsec := now\<rparr> # es)
      else map_option (\<lambda>es'. e # es') (bump_entry P now es))"

definition new_entry :: "int \<Rightarrow> bytes \<Rightarrow> bytes \<Rightarrow> bytes \<Rightarrow> bytes \<Rightarrow> bytes \<Rightarrow> nat \<Rightarrow> ACLLogEntry" where
  "new_entry now reason ctxt object username clientInfo eid =
     \<lparr>le_Count = 1, le_Reason = reason, le_Context = ctxt, le_Object = object, le_Username = username,
      le_ClientInfo = clientInfo, le_EntryID = eid, le_TimestampUsec = now\<rparr>"

definition LogDenied :: "int \<Rightarrow> bytes \<Rightarrow> bytes \<Rightarrow> bytes \<Rightarrow> bytes \<Rightarrow> bytes \<Rightarrow> ACLManager \<Rightarrow> ACLManager" where
  "LogDenied now reason ctxt object username clientInfo m =
     (case bump_entry (same_denial reason ctxt object username) now (m_log m) of
        Some log \<Rightarrow> m\<lparr>m_log := log\<rparr>
      | None \<Rightarrow>
          let log = new_entry now reason ctxt object username clientInfo (m_nextLogID m) # m_log m
          in m\<lparr>m_nextLogID := m_nextLogID m + 1,
               m_log := (if length log > m_logMaxLen m then take (m_logMaxLen m) log else log)\<rparr>)"

definition GetLog :: "int \<Rightarrow> ACLManager \<Rightarrow> ACLLogEntry list" where
  "GetLog count m =
     (let n = (if count \<le> 0 \<or> count > int (length (m_log m)) then length (m_log m) else nat count)
      in take n (m_log m))"

definition ResetLog :: "ACLManager \<Rightarrow> ACLManager" where
  "ResetLog m = m\<lparr>m_log := []\<rparr>"

end
