(* ===== verification/Acl_Rules.thy ===== *)
theory Acl_Rules
  imports Acl
begin

text \<open>
  The rule language of \<^verbatim>\<open>redis/acl.go\<close>: applying rules to a user, reading rule lines and writing a
  user back as a line. Keywords are compared with \<^verbatim>\<open>strings.ToLower\<close> of the rule; the payload after
  a prefix comes from the rule itself.
\<close>

section \<open>Applying rules\<close>

datatype rule_error =
    HashFailed | UnknownCategory bytes | UnknownCommand bytes | UnknownRule bytes | InvalidLine

text \<open>\<^verbatim>\<open>strings.Index(s, "|")\<close> with a positive result splits the string.\<close>

definition split_bar :: "bytes \<Rightarrow> (bytes \<times> bytes) option" where
  "split_bar s =
     (let i = length (takeWhile (\<lambda>c. c \<noteq> 124) s)
      in if i < length s \<and> i > 0 then Some (take i s, drop (Suc i) s) else None)"

text \<open>The rules \<^verbatim>\<open>+cmd\<close>, \<^verbatim>\<open>+cmd|sub\<close>, \<^verbatim>\<open>-cmd\<close> and \<^verbatim>\<open>-cmd|sub\<close>, with the flag they store.\<close>

definition command_rule :: "bool \<Rightarrow> bytes \<Rightarrow> ACLUser \<Rightarrow> rule_error + ACLUser" where
  "command_rule allow cmdStr user =
     (case split_bar cmdStr of
        Some (cmdName, subName) \<Rightarrow>
          (case LookupCommandName (str_upper cmdName) of
             None \<Rightarrow> Inl (UnknownCommand cmdName)
           | Some cmd \<Rightarrow>
               let subs = (case u_Subcommands user cmd of None \<Rightarrow> Map.empty | Some m \<Rightarrow> m)
               in Inr (user\<lparr>u_Subcommands := (u_Subcommands user)(cmd \<mapsto> subs(str_lower subName \<mapsto> allow))\<rparr>))
      | None \<Rightarrow>
          (case LookupCommandName (str_upper cmdStr) of
             None \<Rightarrow> Inl (UnknownCommand cmdStr)
           | Some cmd \<Rightarrow> Inr (user\<lparr>u_Commands := (u_Commands user)(cmd \<mapsto> allow)\<rparr>)))"

definition category_rule :: "bool \<Rightarrow> bytes \<Rightarrow> ACLUser \<Rightarrow> rule_error + ACLUser" where
  "category_rule allow catName user =
     (case GetCategoryByName catName of
        None \<Rightarrow> Inl (UnknownCategory catName)
      | Some cat \<Rightarrow>
          if cat = CatAll then Inr (user\<lparr>u_AllCommands := allow\<rparr>)
          else Inr (user\<lparr>u_Categories := (u_Categories user)(cat \<mapsto> allow)\<rparr>))"

definition add_pattern :: "bytes \<Rightarrow> KeyPatternType \<Rightarrow> ACLUser \<Rightarrow> ACLUser" where
  "add_pattern pattern ty user =
     user\<lparr>u_KeyPatterns := u_KeyPatterns user @ [\<lparr>kp_Pattern = pattern, kp_Type = ty\<rparr>]\<rparr>"

definition reset_user :: "ACLUser \<Rightarrow> ACLUser" where
  "reset_user user = user\<lparr>u_Enabled := False, u_NoPass := False, u_PasswordHashes := [],
     u_AllCommands := False, u_AllKeys := False, u_AllChannels := False,
     u_Categories := Map.empty, u_Commands := Map.empty, u_KeyPatterns := [],
     u_ChannelPatterns := [], u_Selectors := []\<rparr>"

text \<open>\<open>keyword_rule\<close> is the first half of the switch, the rules that are a keyword.\<close>

definition keyword_rule :: "bytes \<Rightarrow> ACLUser \<Rightarrow> ACLUser option" where
  "keyword_rule low user =
     (if low = bstr ''on'' then Some (user\<lparr>u_Enabled := True\<rparr>)
      else if low = bstr ''off'' then Some (user\<lparr>u_Enabled := False\<rparr>)
      else if low = bstr ''nopass'' then Some (user\<lparr>u_NoPass := True\<rparr>)
      else if low = bstr ''resetpass'' then Some (user\<lparr>u_PasswordHashes := [], u_NoPass := False\<rparr>)
      else if low = bstr ''allkeys'' \<or> low = bstr ''~*'' then Some (user\<lparr>u_AllKeys := True\<rparr>)
      else if low = bstr ''resetkeys'' then Some (user\<lparr>u_AllKeys := False, u_KeyPatterns := []\<rparr>)
      else if low = bstr ''allchannels'' \<or> low = bstr ''&*'' then Some (user\<lparr>u_AllChannels := True\<rparr>)
      else if low = bstr ''resetchannels'' then Some (user\<lparr>u_AllChannels := False, u_ChannelPatterns := []\<rparr>)
      else if low = bstr ''allcommands'' \<or> low = bstr ''+@all'' then Some (user\<lparr>u_AllCommands := True\<rparr>)
      else if low = bstr ''nocommands'' \<or> low = bstr ''-@all''
        then Some (user\<lparr>u_AllCommands := False, u_Categories := Map.empty, u_Commands := Map.empty\<rparr>)
      else if low = bstr ''reset'' then Some (reset_user user)
      else None)"

definition applyACLRule ::
  "(bytes \<Rightarrow> bytes option) \<Rightarrow> (bytes \<Rightarrow> bytes \<Rightarrow> bool) \<Rightarrow> ACLUser \<Rightarrow> bytes \<Rightarrow> rule_error + ACLUser" where
  "applyACLRule hash cmp user rule =
     (let low = str_lower rule in
      case keyword_rule low user of
        Some user' \<Rightarrow> Inr user'
      | None \<Rightarrow>
          if prefix (bstr ''>'') low then
            (case hash (drop 1 rule) of
               None \<Rightarrow> Inl HashFailed
             | Some h \<Rightarrow> Inr (user\<lparr>u_PasswordHashes := u_PasswordHashes user @ [h], u_NoPass := False\<rparr>))
          else if prefix (bstr ''#'') low then
            Inr (user\<lparr>u_PasswordHashes := u_PasswordHashes user @ [drop 1 rule], u_NoPass := False\<rparr>)
          else if prefix (bstr ''<'') low then
            Inr (user\<lparr>u_PasswordHashes := filter (\<lambda>h. \<not> cmp h (drop 1 rule)) (u_PasswordHashes user)\<rparr>)
          else if prefix (bstr ''!'') low then
            Inr (user\<lparr>u_PasswordHashes := filter (\<lambda>h. h \<noteq> drop 1 rule) (u_PasswordHashes user)\<rparr>)
          else if prefix (bstr ''+@'') low then category_rule True (drop 2 rule) user
          else if prefix (bstr ''-@'') low then category_rule False (drop 2 rule) user
          else if prefix (bstr ''+'') low then command_rule True (drop 1 rule) user
          else if prefix (bstr ''-'') low then command_rule False (drop 1 rule) user
          else if prefix (bstr ''~'') low then Inr (add_pattern (drop 1 rule) KeyPatternReadWrite user)
          else if prefix (bstr ''%r~'') low then Inr (add_pattern (drop 3 rule) KeyPatternReadOnly user)
          else if prefix (bstr ''%w~'') low then Inr (add_pattern (drop 3 rule) KeyPatternWriteOnly user)
          else if prefix (bstr ''&'') low then
            (if drop 1 rule = bstr ''*'' then Inr (user\<lparr>u_AllChannels := True\<rparr>)
             else Inr (user\<lparr>u_ChannelPatterns := u_ChannelPatterns user @ [drop 1 rule]\<rparr>))
          else Inl (UnknownRule rule))"

text \<open>
  \<^verbatim>\<open>applyACLRules\<close> works on a pointer: when a rule fails, the effects of the rules before it stay.
  The second component is the user as it is left behind.
\<close>

fun applyACLRules ::
  "(bytes \<Rightarrow> bytes option) \<Rightarrow> (bytes \<Rightarrow> bytes \<Rightarrow> bool) \<Rightarrow> ACLUser \<Rightarrow> bytes list \<Rightarrow> rule_error option \<times> ACLUser" where
  "applyACLRules hash cmp user [] = (None, user)"
| "applyACLRules hash cmp user (rule # rules) =
     (case applyACLRule hash cmp user rule of
        Inl e \<Rightarrow> (Some e, user)
      | Inr user' \<Rightarrow> applyACLRules hash cmp user' rules)"

section \<open>Rule lines\<close>

text \<open>
  \<^verbatim>\<open>strings.Fields\<close>: maximal runs between white space. \<open>space_len s\<close> is the number of bytes of the
  white-space rune at the start of \<open>s\<close> in UTF-8, 0 if there is none (\<^verbatim>\<open>unicode.IsSpace\<close>).
\<close>

definition space_len :: "bytes \<Rightarrow> nat" where
  "space_len s =
     (if s = [] then 0
      else if (9 \<le> hd s \<and> hd s \<le> 13) \<or> hd s = 32 then 1
      else if take 2 s = [0xC2, 0x85] \<or> take 2 s = [0xC2, 0xA0] then 2
      else if take 3 s = [0xE1, 0x9A, 0x80] \<or> take 3 s = [0xE2, 0x81, 0x9F] \<or> take 3 s = [0xE3, 0x80, 0x80]
              \<or> take 2 s = [0xE2, 0x80] \<and> length s \<ge> 3 \<and>
                  (0x80 \<le> s ! 2 \<and> s ! 2 \<le> 0x8A \<or> s ! 2 = 0xA8 \<or> s ! 2 = 0xA9 \<or> s ! 2 = 0xAF)
        then 3
      else 0)"

function go_fields :: "bytes \<Rightarrow> bytes \<Rightarrow> bytes list" where
  "go_fields cur s =
     (if s = [] then (if cur = [] then [] else [cur])
      else if space_len s > 0 then
        (if cur = [] then [] else [cur]) @ go_fields [] (drop (space_len s) s)
      else go_fields (cur @ [hd s]) (tl s))"
  by pat_completeness auto
termination
  by (relation "measure (\<lambda>(cur, s). length s)") auto

declare go_fields.simps [simp del]

definition string_fields :: "bytes \<Rightarrow> bytes list" where
  "string_fields s = go_fields [] s"

definition parseACLLine ::
  "(bytes \<Rightarrow> bytes option) \<Rightarrow> (bytes \<Rightarrow> bytes \<Rightarrow> bool) \<Rightarrow> (bytes \<rightharpoonup> ACLUser) \<Rightarrow> bytes \<Rightarrow>
     rule_error option \<times> (bytes \<rightharpoonup> ACLUser)" where
  "parseACLLine hash cmp users line =
     (let fields = string_fields line in
      if length fields < 2 \<or> str_lower (fields ! 0) \<noteq> bstr ''user'' then (Some InvalidLine, users)
      else
        let username = fields ! 1;
            user = (case users username of Some u \<Rightarrow> u | None \<Rightarrow> empty_user username);
            (e, user') = applyACLRules hash cmp user (drop 2 fields)
        in (e, users(username \<mapsto> user')))"

text \<open>
  The loop of \<^verbatim>\<open>LoadFromFile\<close> over the lines of the file. A \<^verbatim>\<open>bufio.Scanner\<close> stops at a line that does not fit with its line end
  into its buffer of 64 KiB. A line is skipped when it is blank or its first character that is not white space is a hash
  sign; since \<^verbatim>\<open>strings.Fields\<close> ignores white space at both ends, \<^verbatim>\<open>TrimSpace\<close> has no other effect. An error of a
  rule carries the line number.
\<close>

datatype load_error = OpenFailed | LineError nat rule_error | LineTooLong | ReadFailed

fun load_lines ::
  "(bytes \<Rightarrow> bytes option) \<Rightarrow> (bytes \<Rightarrow> bytes \<Rightarrow> bool) \<Rightarrow> nat \<Rightarrow> bytes list \<Rightarrow> (bytes \<rightharpoonup> ACLUser) \<Rightarrow>
     load_error option \<times> (bytes \<rightharpoonup> ACLUser)" where
  "load_lines hash cmp lineNum [] users = (None, users)"
| "load_lines hash cmp lineNum (line # lines) users =
     (if 65536 \<le> length line then (Some LineTooLong, users)
      else if string_fields line = [] \<or> hd (hd (string_fields line)) = 35
      then load_lines hash cmp (Suc lineNum) lines users
      else
        case parseACLLine hash cmp users line of
          (Some e, users') \<Rightarrow> (Some (LineError (Suc lineNum) e), users')
        | (None, users') \<Rightarrow> load_lines hash cmp (Suc lineNum) lines users')"

text \<open>
  The file is \<open>None\<close> when \<^verbatim>\<open>os.Open\<close> fails, and otherwise its lines and whether reading fails after them. An error of a rule returns
  at once; the others come from the scanner, after the default user is in place.
\<close>

definition LoadFromFile ::
  "(bytes \<Rightarrow> bytes option) \<Rightarrow> (bytes \<Rightarrow> bytes \<Rightarrow> bool) \<Rightarrow> bytes \<Rightarrow> (bytes list \<times> bool) option \<Rightarrow> ACLManager \<Rightarrow>
     load_error option \<times> ACLManager" where
  "LoadFromFile hash cmp path file m =
     (case file of
        None \<Rightarrow> (Some OpenFailed, m)
      | Some (lines, readFails) \<Rightarrow>
          (case load_lines hash cmp 0 lines Map.empty of
             (Some (LineError n e), users) \<Rightarrow> (Some (LineError n e), m\<lparr>m_users := users\<rparr>)
           | (err, users) \<Rightarrow>
               (if err = None \<and> readFails then Some ReadFailed else err,
                m\<lparr>m_users := (if users defaultUsername = None then users(defaultUsername \<mapsto> default_user) else users),
                  m_aclFile := path\<rparr>)))"

section \<open>Writing users\<close>

text \<open>
  Go iterates over a map in an unspecified order; \<open>cats\<close> and \<open>cmds\<close> list the entries of the two maps
  in the order of the iteration.
\<close>

fun join_space :: "bytes list \<Rightarrow> bytes" where
  "join_space [] = []"
| "join_space [p] = p"
| "join_space (p # q # ps) = p @ 32 # join_space (q # ps)"

definition key_pattern_rule :: "KeyPattern \<Rightarrow> bytes" where
  "key_pattern_rule kp =
     (case kp_Type kp of
        KeyPatternReadWrite \<Rightarrow> bstr ''~'' @ kp_Pattern kp
      | KeyPatternReadOnly \<Rightarrow> bstr ''%R~'' @ kp_Pattern kp
      | KeyPatternWriteOnly \<Rightarrow> bstr ''%W~'' @ kp_Pattern kp)"

definition user_rules ::
  "(CommandCategory \<times> bool) list \<Rightarrow> (CommandType \<times> bool) list \<Rightarrow> ACLUser \<Rightarrow> bytes list" where
  "user_rules cats cmds user =
     (if u_Enabled user then [bstr ''on''] else [bstr ''off'']) @
     (if u_NoPass user then [bstr ''nopass''] else []) @
     map (\<lambda>h. bstr ''#'' @ h) (u_PasswordHashes user) @
     (if u_AllKeys user then [bstr ''~*''] else map key_pattern_rule (u_KeyPatterns user)) @
     (if u_AllChannels user then [bstr ''&*''] else map (\<lambda>cp. bstr ''&'' @ cp) (u_ChannelPatterns user)) @
     (if u_AllCommands user then [bstr ''+@all'']
      else map (\<lambda>(cat, allowed). bstr (if allowed then ''+@'' else ''-@'') @ GetCategoryName cat) cats @
           map (\<lambda>(cmd, allowed). bstr (if allowed then ''+'' else ''-'') @ CommandType_String cmd) cmds)"

definition formatUserRule ::
  "(CommandCategory \<times> bool) list \<Rightarrow> (CommandType \<times> bool) list \<Rightarrow> ACLUser \<Rightarrow> bytes" where
  "formatUserRule cats cmds user =
     join_space ([bstr ''user'', u_Name user] @ user_rules cats cmds user)"

text \<open>
  The lines \<^verbatim>\<open>SaveToFile\<close> writes: \<open>names\<close> are the keys of the user map, \<open>cats\<close> and \<open>cmds\<close> the iteration
  orders for each user.
\<close>

definition SaveToFile ::
  "(ACLUser \<Rightarrow> (CommandCategory \<times> bool) list) \<Rightarrow> (ACLUser \<Rightarrow> (CommandType \<times> bool) list) \<Rightarrow>
     bytes list \<Rightarrow> ACLManager \<Rightarrow> bytes list" where
  "SaveToFile cats cmds names m =
     map (\<lambda>n. let user = the (m_users m n) in formatUserRule (cats user) (cmds user) user) (sort names)"

end
