(* ===== verification/Acl_Facts.thy ===== *)
theory Acl_Facts
  imports Acl_Rules
begin

text \<open>
  Correctness of access control: the glob matcher against the language of a pattern, the well-formedness that rules
  keep, and the bounds of the security log.
\<close>

section \<open>The language of a glob pattern\<close>

text \<open>
  A pattern means a list of tokens: a star, a question mark, a class, possibly negated, of single bytes and ranges, or a byte
  that stands for itself. Their notation in a pattern is \<open>glob_print\<close>.
\<close>

datatype class_item = Single byte | Range byte byte

datatype gtok = GStar | GAny | GClass bool "class_item list" | GLit byte

fun item_print :: "class_item \<Rightarrow> bytes" where
  "item_print (Single a) = [a]"
| "item_print (Range a e) = [a] @ bstr ''-'' @ [e]"

fun tok_print :: "gtok \<Rightarrow> bytes" where
  "tok_print GStar = bstr ''*''"
| "tok_print GAny = bstr ''?''"
| "tok_print (GLit c) = [c]"
| "tok_print (GClass negated is) = bstr ''['' @ (if negated then bstr ''^'' else []) @ concat (map item_print is) @ bstr '']''"

definition glob_print :: "gtok list \<Rightarrow> bytes" where
  "glob_print ts = concat (map tok_print ts)"

text \<open>
  What can be written: the special bytes do not stand for themselves outside of a class, in a class no item begins with the closing
  bracket, a class that is not negated does not begin with a caret, and a single byte is not followed by a hyphen.
\<close>

fun items_ok :: "class_item list \<Rightarrow> bool" where
  "items_ok [] = True"
| "items_ok (Single a # is) = ([a] \<noteq> bstr '']'' \<and> take 1 (concat (map item_print is)) \<noteq> bstr ''-'' \<and> items_ok is)"
| "items_ok (Range a e # is) = ([a] \<noteq> bstr '']'' \<and> items_ok is)"

fun tok_ok :: "gtok \<Rightarrow> bool" where
  "tok_ok (GLit c) = ([c] \<notin> {bstr ''*'', bstr ''?'', bstr ''[''})"
| "tok_ok (GClass negated is) = (items_ok is \<and> (negated \<or> take 1 (concat (map item_print is)) \<noteq> bstr ''^''))"
| "tok_ok _ = True"

text \<open>The tokens of an arbitrary pattern, also of one that was not written this way.\<close>

fun class_items :: "bytes \<Rightarrow> class_item list \<times> bytes" where
  "class_items [] = ([], [])"
| "class_items (a # p) =
     (if a = 93 then ([], p)
      else
        case p of
          b # e # q \<Rightarrow>
            if b = 45 then (case class_items q of (is, rest) \<Rightarrow> (Range a e # is, rest))
            else (case class_items p of (is, rest) \<Rightarrow> (Single a # is, rest))
        | _ \<Rightarrow> (case class_items p of (is, rest) \<Rightarrow> (Single a # is, rest)))"

declare class_items.simps(2) [simp del]

fun in_item :: "byte \<Rightarrow> class_item \<Rightarrow> bool" where
  "in_item c (Single a) = (c = a)"
| "in_item c (Range lo hi) = (lo \<le> c \<and> c \<le> hi)"

definition in_class :: "byte \<Rightarrow> class_item list \<Rightarrow> bool" where
  "in_class c is \<longleftrightarrow> (\<exists>i \<in> set is. in_item c i)"

lemma class_scan_items: "class_scan c p = (in_class c (fst (class_items p)), snd (class_items p))"
proof (induction c p rule: class_scan.induct)
  case (2 c a p)
  then show ?case
    unfolding class_scan.simps(2) [of c a p] class_items.simps(2) [of a p]
    by (auto simp: in_class_def split: list.splits prod.splits)
qed (simp add: in_class_def)

definition after_caret :: "bytes \<Rightarrow> bytes" where
  "after_caret p = (if take 1 p = bstr ''^'' then drop 1 p else p)"

lemma class_start_eq: "class_start p = (take 1 p = bstr ''^'', after_caret p)"
  by (cases p) (auto simp: class_start_def after_caret_def bytes_simps)

lemma class_items_length: "length (snd (class_items (after_caret p))) \<le> length p"
  using class_scan_length [of 0 "after_caret p"] by (simp add: class_scan_items after_caret_def split: if_splits)

function glob_tokens :: "bytes \<Rightarrow> gtok list" where
  "glob_tokens [] = []"
| "glob_tokens (c # p) =
     (if c = 42 then GStar # glob_tokens p
      else if c = 63 then GAny # glob_tokens p
      else if c = 91 then
        GClass (take 1 p = bstr ''^'') (fst (class_items (after_caret p))) # glob_tokens (snd (class_items (after_caret p)))
      else GLit c # glob_tokens p)"
  by pat_completeness auto

termination
  by (relation "measure length") (auto simp: class_items_length less_Suc_eq_le)

text \<open>What is written is read back.\<close>

lemma class_items_single:
  assumes "a \<noteq> 93" "take 1 p \<noteq> [45]"
  shows "class_items (a # p) = (Single a # fst (class_items p), snd (class_items p))"
  using assms by (auto simp: class_items.simps(2) [of a p] split: list.splits prod.splits)

lemma class_items_print: "items_ok is \<Longrightarrow> class_items (concat (map item_print is) @ 93 # q) = (is, q)"
proof (induction "is")
  case Nil
  show ?case by (simp add: class_items.simps(2))
next
  case (Cons i "is")
  let ?p = "concat (map item_print is) @ 93 # q"
  show ?case
  proof (cases i)
    case (Single a)
    have "take 1 (x @ 93 # q) \<noteq> [45]" if "take 1 x \<noteq> [45]" for x :: bytes using that by (cases x) simp_all
    then have "a \<noteq> 93" "take 1 ?p \<noteq> [45]" "items_ok is" using Cons.prems Single by (simp_all add: bytes_simps)
    with class_items_single [of a ?p] Cons.IH show ?thesis by (simp add: Single)
  next
    case (Range a e)
    then have "a \<noteq> 93" "items_ok is" using Cons.prems by (simp_all add: bytes_simps)
    with Cons.IH show ?thesis by (simp add: Range class_items.simps(2) [of a] bytes_simps)
  qed
qed

lemma after_caret_print:
  assumes "negated \<or> take 1 x \<noteq> bstr ''^''"
  shows "after_caret ((if negated then bstr ''^'' else []) @ x @ 93 # q) = x @ 93 # q"
    "(take 1 ((if negated then bstr ''^'' else []) @ x @ 93 # q) = bstr ''^'') = negated"
  using assms by (cases negated; cases x; simp add: after_caret_def bytes_simps)+

lemma glob_tokens_print: "list_all tok_ok ts \<Longrightarrow> glob_tokens (glob_print ts) = ts"
proof (induction ts)
  case (Cons t ts)
  have IH: "glob_tokens (glob_print ts) = ts" using Cons by simp
  show ?case
  proof (cases t)
    case (GClass negated "is")
    let ?q = "glob_print ts"
    have p: "glob_print (t # ts) = 91 # (if negated then bstr ''^'' else []) @ concat (map item_print is) @ 93 # ?q"
      by (simp add: glob_print_def GClass bytes_simps)
    have ok: "negated \<or> take 1 (concat (map item_print is)) \<noteq> bstr ''^''" "items_ok is" using Cons.prems GClass by simp_all
    show ?thesis
      unfolding p glob_tokens.simps(2) after_caret_print [OF ok(1), of ?q] class_items_print [OF ok(2), of ?q]
      by (simp add: GClass IH)
  qed (use Cons IH in \<open>simp_all add: glob_print_def bytes_simps\<close>)
qed (simp add: glob_print_def)

text \<open>A string matches when its characters can be dealt out to the tokens of the pattern.\<close>

inductive glob_matches :: "gtok list \<Rightarrow> bytes \<Rightarrow> bool" where
  gm_empty: "glob_matches [] []"
| gm_star: "glob_matches ts s \<Longrightarrow> glob_matches (GStar # ts) (u @ s)"
| gm_any: "glob_matches ts s \<Longrightarrow> glob_matches (GAny # ts) (c # s)"
| gm_class: "in_class c is \<noteq> negated \<Longrightarrow> glob_matches ts s \<Longrightarrow> glob_matches (GClass negated is # ts) (c # s)"
| gm_lit: "glob_matches ts s \<Longrightarrow> glob_matches (GLit c # ts) (c # s)"

inductive_simps glob_matches_simps:
  "glob_matches [] s"
  "glob_matches (GStar # ts) s"
  "glob_matches (GAny # ts) s"
  "glob_matches (GClass negated is # ts) s"
  "glob_matches (GLit c # ts) s"

lemma set_tails: "t \<in> set (tails s) \<longleftrightarrow> (\<exists>u. s = u @ t)"
proof (induction s)
  case (Cons x s)
  then show ?case by (auto simp: Cons_eq_append_conv)
qed auto

lemma glob_matches_empty: "glob_matches (glob_tokens p) [] \<longleftrightarrow> list_all (\<lambda>d. d = 42) p"
  by (induction p rule: glob_tokens.induct) (auto simp: glob_matches_simps)

lemma aclMatchGlobRecursive_matches: "aclMatchGlobRecursive p s \<longleftrightarrow> glob_matches (glob_tokens p) s"
proof (induction p s rule: aclMatchGlobRecursive.induct)
  case (2 c p)
  show ?case by (simp only: glob_matches_empty aclMatchGlobRecursive.simps)
next
  case (3 c p d s)
  consider "c = 42" | "c = 63" | "c = 91" | "c \<noteq> 42" "c \<noteq> 63" "c \<noteq> 91" by blast
  then show ?case
  proof cases
    case 1
    then show ?thesis
      using 3 by (auto simp: glob_matches_simps list_ex_iff set_tails simp del: tails.simps)
  next
    case 3
    then show ?thesis
      using "3.IH"(3) [OF _ _ _ refl _ refl] by (auto simp: class_start_eq glob_matches_simps class_scan_items)
  qed (use "3.IH" in \<open>auto simp: glob_matches_simps\<close>)
qed (simp add: glob_matches_simps)

text \<open>
  Claim C13. The glob matcher of the ACL decides the language of the pattern: a pattern that is written as a sequence of stars,
  question marks, classes \<^verbatim>\<open>[...]\<close> and \<^verbatim>\<open>[^...]\<close> of bytes and ranges \<^verbatim>\<open>a-z\<close>, and other bytes is matched by a string exactly when the string
  can be split among them, a star taking any run of bytes, a question mark one byte, a class one byte in (or, negated,
  outside) it, and any other byte itself. The backtracking search always ends.
\<close>

theorem aclMatchGlob_language:
  assumes "list_all tok_ok ts"
  shows "aclMatchGlob (glob_print ts) s \<longleftrightarrow> glob_matches ts s"
  by (simp add: aclMatchGlob_def aclMatchGlobRecursive_matches glob_tokens_print [OF assms])

theorem aclMatchGlob_language_witness:
  "glob_print [GLit 117, GClass True [Range 48 57, Single 95], GStar] = bstr ''u[^0-9_]*'' \<and>
   \<not> aclMatchGlob (bstr ''u[^0-9_]*'') (bstr ''u7x'') \<and> aclMatchGlob (bstr ''u[^0-9_]*'') (bstr ''uax'')"
proof -
  let ?ts = "[GLit 117, GClass True [Range 48 57, Single 95], GStar]"
  have p: "glob_print ?ts = bstr ''u[^0-9_]*''" by (simp add: glob_print_def bytes_simps)
  have "list_all tok_ok ?ts" by (simp add: bytes_simps)
  note lang = aclMatchGlob_language [OF this, unfolded p]
  show ?thesis unfolding p lang by (simp add: glob_matches_simps in_class_def bytes_simps)
qed

section \<open>Well-formed users\<close>

text \<open>
  What every rule keeps: the category map has no entry for \<^verbatim>\<open>@all\<close>, the command map has entries for
  known commands only, and the universal patterns are flags, never list entries.
\<close>

definition acl_wf :: "ACLUser \<Rightarrow> bool" where
  "acl_wf u \<longleftrightarrow>
     u_Categories u CatAll = None \<and>
     (\<forall>c. u_Commands u c \<noteq> None \<longrightarrow> c \<in> snd ` set commandNames) \<and>
     list_all (\<lambda>kp. kp_Type kp = KeyPatternReadWrite \<longrightarrow> kp_Pattern kp \<noteq> bstr ''*'') (u_KeyPatterns u) \<and>
     bstr ''*'' \<notin> set (u_ChannelPatterns u)"

lemma acl_wf_empty [simp]: "acl_wf (empty_user n)" "acl_wf default_user"
  by (simp_all add: acl_wf_def empty_user_def default_user_def)

lemma LookupCommandName_known: "LookupCommandName n = Some c \<Longrightarrow> c \<in> snd ` set commandNames"
  by (force simp: LookupCommandName_def dest!: map_of_SomeD)

lemma keyword_rule_wf: "keyword_rule low u = Some u' \<Longrightarrow> acl_wf u \<Longrightarrow> acl_wf u'"
  by (auto simp: keyword_rule_def acl_wf_def reset_user_def split: if_splits)

lemma category_rule_wf: "category_rule b c u = Inr u' \<Longrightarrow> acl_wf u \<Longrightarrow> acl_wf u'"
  by (auto simp: category_rule_def acl_wf_def split: option.splits if_splits)

lemma command_rule_wf: "command_rule b c u = Inr u' \<Longrightarrow> acl_wf u \<Longrightarrow> acl_wf u'"
  by (auto simp: command_rule_def acl_wf_def Let_def simp del: image_iff intro: LookupCommandName_known
      split: option.splits prod.splits if_splits)

lemma star_rule:
  assumes "drop 1 rule = bstr ''*''" "prefix (bstr ''~'') (str_lower rule)"
  shows "str_lower rule = bstr ''~*''"
proof -
  obtain x where "rule = [x, 42]" using assms(1) by (cases rule) (auto simp: bytes_simps)
  then have "str_lower rule = [lower_byte x, 42]" by (simp add: lower_byte_def)
  with assms(2) show ?thesis by (simp add: bytes_simps)
qed

lemma applyACLRule_keyword: "keyword_rule (str_lower rule) u = None \<Longrightarrow> str_lower rule \<noteq> bstr ''~*''"
  by (simp add: keyword_rule_def split: if_split_asm)

lemma add_pattern_wf:
  "acl_wf u \<Longrightarrow> ty = KeyPatternReadWrite \<longrightarrow> p \<noteq> bstr ''*'' \<Longrightarrow> acl_wf (add_pattern p ty u)"
  by (simp add: acl_wf_def add_pattern_def)

lemma applyACLRule_wf:
  assumes "applyACLRule hash cmp u rule = Inr u'" "acl_wf u"
  shows "acl_wf u'"
proof (cases "keyword_rule (str_lower rule) u")
  case (Some v)
  with assms show ?thesis by (auto simp: applyACLRule_def dest: keyword_rule_wf)
next
  case None
  have pw: "acl_wf (u\<lparr>u_PasswordHashes := hs\<rparr>)" "acl_wf (u\<lparr>u_PasswordHashes := hs, u_NoPass := b\<rparr>)"
    "acl_wf (u\<lparr>u_AllChannels := b\<rparr>)" for hs b
    using assms(2) by (simp_all add: acl_wf_def)
  have star: "drop 1 rule = bstr ''*'' \<longrightarrow> \<not> prefix (bstr ''~'') (str_lower rule)"
    using star_rule applyACLRule_keyword [OF None] by blast
  have chan: "acl_wf (u\<lparr>u_ChannelPatterns := u_ChannelPatterns u @ [p]\<rparr>)" if "p \<noteq> bstr ''*''" for p
    using assms(2) that by (simp add: acl_wf_def)
  show ?thesis
    using assms star unfolding applyACLRule_def Let_def None
    by (auto split: if_splits option.splits intro: pw chan add_pattern_wf category_rule_wf command_rule_wf)
qed

text \<open>
  Every rule keeps a user well-formed, so every user built from rules is: no category
  entry for all commands, command entries for known commands only, no universal pattern in a list.
\<close>

theorem applyACLRules_wf:
  assumes "acl_wf u"
  shows "acl_wf (snd (applyACLRules hash cmp u rules))"
  using assms
proof (induction rules arbitrary: u)
  case (Cons rule rules)
  then show ?case
    by (cases "applyACLRule hash cmp u rule") (auto dest: applyACLRule_wf)
qed simp

theorem applyACLRules_wf_witness:
  "acl_wf (snd (applyACLRules (\<lambda>_. None) (\<lambda>_ _. False) (empty_user [97]) [bstr ''on'', bstr ''~a*'', bstr ''&*'']))"
  by (rule applyACLRules_wf) simp

section \<open>The security log\<close>

definition denial_key :: "ACLLogEntry \<Rightarrow> bytes \<times> bytes \<times> bytes \<times> bytes" where
  "denial_key e = (le_Reason e, le_Context e, le_Object e, le_Username e)"

definition entries_ok :: "nat \<Rightarrow> ACLLogEntry list \<Rightarrow> bool" where
  "entries_ok next es \<longleftrightarrow>
     distinct (map denial_key es) \<and>
     sorted_wrt (\<lambda>e e'. le_EntryID e' < le_EntryID e) es \<and>
     list_all (\<lambda>e. 0 < le_Count e \<and> le_EntryID e < next) es"

definition log_ok :: "ACLManager \<Rightarrow> bool" where
  "log_ok m \<longleftrightarrow> length (m_log m) \<le> m_logMaxLen m \<and> entries_ok (m_nextLogID m) (m_log m)"

lemma entries_ok_take: "entries_ok k es \<Longrightarrow> entries_ok k (take n es)"
  by (auto simp: entries_ok_def list_all_iff sorted_wrt_take take_map [symmetric] dest: in_set_takeD)

lemma entries_ok_Cons:
  "entries_ok k es \<Longrightarrow> denial_key e \<notin> denial_key ` set es \<Longrightarrow> le_EntryID e = k \<Longrightarrow> 0 < le_Count e \<Longrightarrow>
   entries_ok (Suc k) (e # es)"
  by (auto simp: entries_ok_def list_all_iff less_Suc_eq)

lemma same_denial_key: "same_denial reason ctxt object username e \<longleftrightarrow> denial_key e = (reason, ctxt, object, username)"
  by (auto simp: same_denial_def denial_key_def)

lemma bump_entry_None: "bump_entry P now es = None \<longleftrightarrow> list_all (\<lambda>e. \<not> P e) es"
  by (induction es) auto

lemma bump_entry_Some:
  assumes "bump_entry P now es = Some es'"
  shows "\<exists>pre e post. es = pre @ e # post \<and> P e \<and>
    es' = pre @ e\<lparr>le_Count := le_Count e + 1, le_TimestampUsec := now\<rparr> # post"
  using assms
proof (induction es arbitrary: es')
  case (Cons e es)
  show ?case
  proof (cases "P e")
    case True
    with Cons.prems show ?thesis by (intro exI [of _ "[]"]) auto
  next
    case False
    with Cons.prems obtain es1 where "bump_entry P now es = Some es1" "es' = e # es1" by auto
    with Cons.IH show ?thesis by (metis append_Cons)
  qed
qed simp

lemma bump_entry_recorded:
  "bump_entry (same_denial reason ctxt object username) now es = Some es' \<Longrightarrow>
   \<exists>e. e \<in> set es' \<and> denial_key e = (reason, ctxt, object, username) \<and> le_TimestampUsec e = now"
  using bump_entry_Some [of "same_denial reason ctxt object username" now es es']
  by (auto simp: same_denial_def denial_key_def)

lemma new_entry_key [simp]:
  "denial_key (new_entry now reason ctxt object username client k) = (reason, ctxt, object, username)"
  "le_EntryID (new_entry now reason ctxt object username client k) = k"
  "le_Count (new_entry now reason ctxt object username client k) = 1"
  "le_TimestampUsec (new_entry now reason ctxt object username client k) = now"
  by (simp_all add: new_entry_def denial_key_def)

lemma LogDenied_new_eq:
  "bump_entry (same_denial reason ctxt object username) now (m_log m) = None \<Longrightarrow>
   LogDenied now reason ctxt object username client m =
     m\<lparr>m_nextLogID := Suc (m_nextLogID m),
       m_log := take (m_logMaxLen m) (new_entry now reason ctxt object username client (m_nextLogID m) # m_log m)\<rparr>"
  by (simp add: LogDenied_def Let_def)

lemma LogDenied_new:
  assumes "bump_entry (same_denial reason ctxt object username) now (m_log m) = None" "log_ok m"
  shows "log_ok (LogDenied now reason ctxt object username client m)"
proof -
  let ?e = "new_entry now reason ctxt object username client (m_nextLogID m)"
  have "denial_key ?e \<notin> denial_key ` set (m_log m)"
    using assms(1) by (auto simp: bump_entry_None list_all_iff same_denial_key)
  with assms(2) have "entries_ok (Suc (m_nextLogID m)) (?e # m_log m)"
    by (intro entries_ok_Cons) (simp_all add: log_ok_def)
  from entries_ok_take [OF this] show ?thesis
    unfolding LogDenied_new_eq [OF assms(1)] log_ok_def by simp
qed

lemma LogDenied_bump:
  assumes "bump_entry (same_denial reason ctxt object username) now (m_log m) = Some log" "log_ok m"
  shows "log_ok (LogDenied now reason ctxt object username client m)"
proof -
  obtain pre e post where "m_log m = pre @ e # post"
    "log = pre @ e\<lparr>le_Count := le_Count e + 1, le_TimestampUsec := now\<rparr> # post"
    using bump_entry_Some [OF assms(1)] by blast
  with assms show ?thesis
    by (simp add: LogDenied_def log_ok_def entries_ok_def sorted_wrt_append denial_key_def list_all_iff)
qed

text \<open>
  The security log stays bounded and free of duplicates: recording a denial keeps at most
  \<^verbatim>\<open>logMaxLen\<close> entries, one per reason, context, object and user, newest identifier first, and (if
  the log may hold anything) the denial just recorded is in the log with the current time.
\<close>

theorem LogDenied_bounded:
  assumes "log_ok m" "0 < m_logMaxLen m"
  shows "log_ok (LogDenied now reason ctxt object username client m) \<and>
    (\<exists>e. e \<in> set (m_log (LogDenied now reason ctxt object username client m)) \<and>
       denial_key e = (reason, ctxt, object, username) \<and> le_TimestampUsec e = now)"
proof (cases "bump_entry (same_denial reason ctxt object username) now (m_log m)")
  case None
  let ?e = "new_entry now reason ctxt object username client (m_nextLogID m)"
  have "?e \<in> set (m_log (LogDenied now reason ctxt object username client m))"
    unfolding LogDenied_new_eq [OF None] using assms(2) by (cases "m_logMaxLen m") simp_all
  then show ?thesis using LogDenied_new [OF None assms(1)] by (auto intro: exI [of _ ?e])
next
  case (Some log)
  then show ?thesis
    using LogDenied_bump [OF Some assms(1)] bump_entry_recorded [OF Some] by (simp add: LogDenied_def)
qed

theorem LogDenied_bounded_witness:
  "log_ok (LogDenied 5 [1] [2] [3] [4] [] (LogDenied 4 [1] [2] [3] [4] [] NewACLManager))"
proof -
  have "log_ok NewACLManager" "0 < m_logMaxLen NewACLManager" by (simp_all add: NewACLManager_def log_ok_def entries_ok_def)
  then have "log_ok (LogDenied 4 [1] [2] [3] [4] [] NewACLManager)" using LogDenied_bounded by blast
  moreover have "0 < m_logMaxLen (LogDenied 4 [1] [2] [3] [4] [] NewACLManager)"
    by (simp add: NewACLManager_def LogDenied_def)
  ultimately show ?thesis using LogDenied_bounded by blast
qed

end
