(* ===== verification/Acl_Save.thy ===== *)
theory Acl_Save
  imports Command_Facts Acl_Facts
begin

text \<open>
  Saving and loading the users: the lines that \<^verbatim>\<open>SaveToFile\<close> writes are read back by
  \<^verbatim>\<open>LoadFromFile\<close> as users with the same permissions.
\<close>

section \<open>Fields of a line\<close>

fun no_space :: "bytes \<Rightarrow> bool" where
  "no_space [] = True"
| "no_space (c # s) = (space_len (c # s) = 0 \<and> no_space s)"

lemma space_len_append:
  assumes "space_len (c # s) = 0"
  shows "space_len (c # s @ 32 # r) = 0"
proof -
  consider "s = []" | d where "s = [d]" | d e t where "s = d # e # t"
    by (metis neq_Nil_conv)
  then show ?thesis
    using assms by cases (auto simp: space_len_def split: if_splits)
qed

lemma go_fields_token:
  "no_space t \<Longrightarrow> cur @ t \<noteq> [] \<Longrightarrow> go_fields cur (t @ 32 # r) = (cur @ t) # go_fields [] r"
proof (induction t arbitrary: cur)
  case Nil
  then show ?case by (subst go_fields.simps) (simp add: space_len_def)
next
  case (Cons c t)
  then have "space_len (c # t @ 32 # r) = 0" by (intro space_len_append) simp
  with Cons show ?case by (subst go_fields.simps) simp
qed

lemma go_fields_last: "no_space t \<Longrightarrow> cur @ t \<noteq> [] \<Longrightarrow> go_fields cur t = [cur @ t]"
proof (induction t arbitrary: cur)
  case Nil
  then show ?case by (subst go_fields.simps) simp
next
  case (Cons c t)
  then show ?case by (subst go_fields.simps) simp
qed

lemma string_fields_join:
  "list_all (\<lambda>t. t \<noteq> [] \<and> no_space t) ts \<Longrightarrow> string_fields (join_space ts) = ts"
proof (induction ts rule: join_space.induct)
  case 1
  then show ?case by (simp add: string_fields_def go_fields.simps)
next
  case (2 p)
  then show ?case by (simp add: string_fields_def go_fields_last)
next
  case (3 p q ps)
  then show ?case by (simp add: string_fields_def go_fields_token)
qed

lemma no_space_ascii: "list_all (\<lambda>c. 32 < c \<and> c < 0x80) s \<Longrightarrow> no_space s"
proof (induction s)
  case (Cons c s)
  then have "\<not> (9 \<le> c \<and> c \<le> 13)" "c \<noteq> 32" "c \<noteq> 0xC2" "c \<noteq> 0xE1" "c \<noteq> 0xE2" "c \<noteq> 0xE3"
    by (auto simp: word_less_nat_alt word_le_nat_alt)
  with Cons show ?case by (auto simp: space_len_def)
qed simp

lemma no_space_mark: "32 < c \<Longrightarrow> c < 0x80 \<Longrightarrow> no_space s \<Longrightarrow> no_space (c # s)"
  using no_space_ascii [of "[c]"] by (auto simp: space_len_def split: if_splits)

section \<open>Names\<close>

text \<open>The characters of command names: printable ASCII other than the at sign and the bar.\<close>

fun name_char :: "char \<Rightarrow> bool" where
  "name_char (Char b0 b1 b2 b3 b4 b5 b6 b7) =
     (\<not> b7 \<and> (b6 \<or> b5 \<and> (b0 \<or> b1 \<or> b2 \<or> b3 \<or> b4)) \<and>
      (b0 \<or> b1 \<or> b2 \<or> b3 \<or> b4 \<or> b5) \<and> \<not> (b6 \<and> b5 \<and> b4 \<and> b3 \<and> b2 \<and> \<not> b1 \<and> \<not> b0))"

lemma name_char_byte:
  assumes "name_char c"
  shows "32 < (of_char c :: byte) \<and> (of_char c :: byte) < 0x80 \<and> (of_char c :: byte) \<noteq> 64 \<and> (of_char c :: byte) \<noteq> 124"
proof -
  have "\<forall>b0 b1 b2 b3 b4 b5 b6 b7. name_char (Char b0 b1 b2 b3 b4 b5 b6 b7) \<longrightarrow>
      32 < (of_char (Char b0 b1 b2 b3 b4 b5 b6 b7) :: byte) \<and> (of_char (Char b0 b1 b2 b3 b4 b5 b6 b7) :: byte) < 0x80 \<and>
      (of_char (Char b0 b1 b2 b3 b4 b5 b6 b7) :: byte) \<noteq> 64 \<and> (of_char (Char b0 b1 b2 b3 b4 b5 b6 b7) :: byte) \<noteq> 124"
    by (simp add: all_bool_eq of_char_def word_less_nat_alt)
  with assms show ?thesis by (cases c) blast
qed

definition name_ok :: "string \<Rightarrow> bool" where
  "name_ok s \<longleftrightarrow> s \<noteq> [] \<and> list_all name_char s"

lemma names_ok_1: "list_all (\<lambda>p. name_ok (snd p)) commandStrings_1"
  unfolding name_tables by (simp add: name_ok_def)

lemma names_ok_2: "list_all (\<lambda>p. name_ok (snd p)) commandStrings_2"
  unfolding name_tables by (simp add: name_ok_def)

lemma names_ok_3: "list_all (\<lambda>p. name_ok (snd p)) commandStrings_3"
  unfolding name_tables by (simp add: name_ok_def)

lemma names_ok_4: "list_all (\<lambda>p. name_ok (snd p)) commandStrings_4"
  unfolding name_tables by (simp add: name_ok_def)

lemma names_ok: "(c, s) \<in> set commandStrings \<Longrightarrow> name_ok s"
  using names_ok_1 names_ok_2 names_ok_3 names_ok_4
  by (auto simp: commandStrings_def list_all_iff)

lemma str_upper_ascii: "list_all (\<lambda>c. c < 0x80) s \<Longrightarrow> str_upper s = upper s"
proof (induction s rule: str_upper.induct)
  case (3 a b s)
  then have "a \<noteq> 0xC5" "a \<noteq> 0xC4" by (auto simp: word_less_nat_alt)
  with 3 show ?case by (simp add: upper_def)
qed (simp_all add: upper_def)

lemma known_command:
  assumes "c \<in> snd ` set commandNames"
  obtains s where "CommandType_String c = bstr s" "name_ok s" "LookupCommandName (str_upper (bstr s)) = Some c"
proof -
  obtain s where s: "(c, s) \<in> set commandStrings"
    using assms string_of_name by (metis imageE prod.collapse)
  have ok: "name_ok s" using names_ok [OF s] .
  then have "list_all (\<lambda>b. b < 0x80) (bstr s)"
    by (auto simp: name_ok_def list_all_iff bstr_def dest: name_char_byte)
  then have "LookupCommandName (str_upper (bstr s)) = Some c"
    using name_of_string [OF s] by (auto simp: str_upper_ascii upper_bstr LookupCommandName_iff)
  with that ok CommandType_String_known [OF s] show thesis by blast
qed

section \<open>Each written rule, applied\<close>

lemma str_lower_mark:
  "c < 0x80 \<Longrightarrow> str_lower (c # s) = lower_byte c # str_lower s"
proof -
  assume "c < 0x80"
  then have "c \<noteq> 0xE2" "c \<noteq> 0xC4" by (auto simp: word_less_nat_alt)
  then show ?thesis by simp
qed

lemma str_lower_star: "str_lower p = [42] \<longleftrightarrow> p = [42]"
proof (cases p)
  case (Cons a s)
  have "str_lower s = [] \<longleftrightarrow> s = []" for s by (cases s) auto
  moreover have "lower_byte a = 42 \<longleftrightarrow> a = 42"
    by (auto simp: lower_byte_def word_le_nat_alt word_unat_eq_iff unat_word_ariths split: if_splits)
  ultimately show ?thesis by (auto simp: Cons)
qed simp

definition marks :: "byte set" where
  "marks = {33, 35, 37, 38, 43, 45, 60, 62, 126}"

lemma str_lower_marks [simp]: "c \<in> marks \<Longrightarrow> str_lower (c # p) = c # str_lower p"
  by (subst str_lower_mark) (auto simp: marks_def lower_byte_def)

lemma keyword_hd: "keyword_rule (c # p) u = None" if "c = 33 \<or> c = 35 \<or> c = 37 \<or> c = 60 \<or> c = 62"
  using that by (elim disjE; simp only: keyword_rule_def bytes_simps; simp)

lemma keyword_star: "p \<noteq> [42] \<Longrightarrow> c = 38 \<or> c = 126 \<Longrightarrow> keyword_rule (c # p) u = None"
  by (elim disjE; simp only: keyword_rule_def bytes_simps; simp)

lemma apply_hash:
  "applyACLRule hash cmp u (bstr ''#'' @ h) =
     Inr (u\<lparr>u_PasswordHashes := u_PasswordHashes u @ [h], u_NoPass := False\<rparr>)"
  by (simp add: applyACLRule_def bytes_simps marks_def keyword_hd)

lemma apply_key_pattern:
  assumes "kp_Type kp = KeyPatternReadWrite \<longrightarrow> kp_Pattern kp \<noteq> bstr ''*''"
  shows "applyACLRule hash cmp u (key_pattern_rule kp) = Inr (u\<lparr>u_KeyPatterns := u_KeyPatterns u @ [kp]\<rparr>)"
proof (cases "kp_Type kp")
  case KeyPatternReadWrite
  then have "str_lower (kp_Pattern kp) \<noteq> [42]" using assms by (simp add: str_lower_star bytes_simps)
  with KeyPatternReadWrite show ?thesis
    by (cases kp) (simp add: applyACLRule_def key_pattern_rule_def add_pattern_def bytes_simps marks_def keyword_star)
next
  case KeyPatternReadOnly
  then show ?thesis
    by (cases kp) (simp add: applyACLRule_def key_pattern_rule_def add_pattern_def bytes_simps marks_def keyword_hd
        str_lower_mark lower_byte_def word_less_nat_alt)
next
  case KeyPatternWriteOnly
  then show ?thesis
    by (cases kp) (simp add: applyACLRule_def key_pattern_rule_def add_pattern_def bytes_simps marks_def keyword_hd
        str_lower_mark lower_byte_def word_less_nat_alt)
qed

lemma apply_channel_pattern:
  assumes "p \<noteq> bstr ''*''"
  shows "applyACLRule hash cmp u (bstr ''&'' @ p) = Inr (u\<lparr>u_ChannelPatterns := u_ChannelPatterns u @ [p]\<rparr>)"
proof -
  have "str_lower p \<noteq> [42]" using assms by (simp add: str_lower_star bytes_simps)
  then show ?thesis
    using assms by (simp add: applyACLRule_def bytes_simps marks_def keyword_star)
qed

lemma keyword_sign: "p \<noteq> bstr ''@all'' \<Longrightarrow> c = 43 \<or> c = 45 \<Longrightarrow> keyword_rule (c # p) u = None"
  by (elim disjE; simp only: keyword_rule_def bytes_simps; simp)

lemma category_names:
  "GetCategoryByName (GetCategoryName cat) = Some cat"
  "str_lower (GetCategoryName cat) = GetCategoryName cat"
  "no_space (GetCategoryName cat)"
  "cat \<noteq> CatAll \<Longrightarrow> GetCategoryName cat \<noteq> bstr ''all''"
  by (cases cat; simp add: GetCategoryName_def GetCategoryByName_def categoryToName_def categoryNames_def
      bytes_simps space_len_def)+

lemma apply_category:
  assumes "cat \<noteq> CatAll"
  shows "applyACLRule hash cmp u (bstr (if b then ''+@'' else ''-@'') @ GetCategoryName cat) =
     Inr (u\<lparr>u_Categories := (u_Categories u)(cat \<mapsto> b)\<rparr>)"
proof -
  have "64 # GetCategoryName cat \<noteq> bstr ''@all''"
    using category_names(4) [OF assms] by (simp add: bytes_simps)
  then show ?thesis
    using assms category_names(1,2) [of cat]
    by (simp add: applyACLRule_def bytes_simps marks_def keyword_sign category_rule_def str_lower_mark
        lower_byte_def word_less_nat_alt)
qed

lemma name_no_bar: "name_ok s \<Longrightarrow> split_bar (bstr s) = None"
proof -
  assume "name_ok s"
  then have "\<forall>c \<in> set (bstr s). c \<noteq> 124" by (auto simp: name_ok_def list_all_iff bstr_def dest: name_char_byte)
  then have "takeWhile (\<lambda>c. c \<noteq> 124) (bstr s) = bstr s" by (simp add: takeWhile_eq_all_conv)
  then show ?thesis unfolding split_bar_def Let_def by (simp only:) simp
qed

lemma name_start: "name_ok s \<Longrightarrow> \<exists>c t. bstr s = c # t \<and> c \<noteq> 64 \<and> c < 0x80"
  by (cases s) (auto simp: name_ok_def bstr_def dest: name_char_byte)

lemma lower_byte_at: "lower_byte c \<noteq> 64" if "c \<noteq> 64" for c
proof (cases "65 \<le> c \<and> c \<le> 90")
  case True
  then have "unat (c + 32) = unat c + 32" by (auto simp: word_le_nat_alt unat_word_ariths)
  with True show ?thesis by (auto simp: lower_byte_def word_le_nat_alt word_unat_eq_iff)
qed (use that in \<open>auto simp: lower_byte_def\<close>)

lemma known_command_bytes:
  assumes "c \<in> snd ` set commandNames"
  obtains n d t where "CommandType_String c = n" "LookupCommandName (str_upper n) = Some c" "split_bar n = None"
    "n = d # t" "d \<noteq> 64" "d < 0x80" "no_space n"
proof -
  obtain s where s: "CommandType_String c = bstr s" "name_ok s" "LookupCommandName (str_upper (bstr s)) = Some c"
    using known_command [OF assms] .
  have "no_space (bstr s)"
    using s(2) by (intro no_space_ascii) (auto simp: name_ok_def list_all_iff bstr_def dest: name_char_byte)
  with s that name_no_bar [OF s(2)] name_start [OF s(2)] show thesis by metis
qed

lemma apply_command:
  assumes "c \<in> snd ` set commandNames"
  shows "applyACLRule hash cmp u (bstr (if b then ''+'' else ''-'') @ CommandType_String c) =
     Inr (u\<lparr>u_Commands := (u_Commands u)(c \<mapsto> b)\<rparr>)"
proof -
  obtain n d t where n: "CommandType_String c = n" "LookupCommandName (str_upper n) = Some c" "split_bar n = None"
    "n = d # t" "d \<noteq> 64" "d < 0x80" by (rule known_command_bytes [OF assms])
  have low: "str_lower n = lower_byte d # str_lower t"
    unfolding n(4) using n(6) by (rule str_lower_mark)
  have at: "lower_byte d \<noteq> 64" using lower_byte_at [OF n(5)] .
  then have "str_lower n \<noteq> bstr ''@all''" unfolding low by (simp add: bytes_simps)
  then have kw: "keyword_rule (43 # str_lower n) u = None" "keyword_rule (45 # str_lower n) u = None"
    by (auto intro: keyword_sign)
  have cr: "command_rule b n u = Inr (u\<lparr>u_Commands := (u_Commands u)(c \<mapsto> b)\<rparr>)" for b
    using n(2,3) by (simp add: command_rule_def)
  have sign: "bstr ''+'' = [43]" "bstr ''-'' = [45]" by (simp_all add: bytes_simps)
  have marks: "str_lower (43 # n) = 43 # str_lower n" "str_lower (45 # n) = 45 # str_lower n"
    by (simp_all add: marks_def del: str_lower.simps)
  have "applyACLRule hash cmp u (43 # n) = command_rule True n u"
    unfolding applyACLRule_def marks Let_def low using at kw [unfolded low] by (simp add: bytes_simps del: lower_byte_def)
  moreover have "applyACLRule hash cmp u (45 # n) = command_rule False n u"
    unfolding applyACLRule_def marks Let_def low using at kw [unfolded low] by (simp add: bytes_simps del: lower_byte_def)
  ultimately show ?thesis by (cases b) (simp_all add: n(1) sign cr)
qed

section \<open>All rules of a user\<close>

lemma applyACLRules_append:
  "applyACLRules hash cmp u (xs @ ys) =
     (case applyACLRules hash cmp u xs of (None, u') \<Rightarrow> applyACLRules hash cmp u' ys | r \<Rightarrow> r)"
  by (induction xs arbitrary: u) (auto split: sum.splits)

lemma apply_hashes:
  "applyACLRules hash cmp u (map (\<lambda>h. bstr ''#'' @ h) hs) =
     (None, if hs = [] then u else u\<lparr>u_PasswordHashes := u_PasswordHashes u @ hs, u_NoPass := False\<rparr>)"
  by (induction hs arbitrary: u) (auto simp: apply_hash)

lemma apply_key_patterns:
  "list_all (\<lambda>kp. kp_Type kp = KeyPatternReadWrite \<longrightarrow> kp_Pattern kp \<noteq> bstr ''*'') kps \<Longrightarrow>
   applyACLRules hash cmp u (map key_pattern_rule kps) = (None, u\<lparr>u_KeyPatterns := u_KeyPatterns u @ kps\<rparr>)"
  by (induction kps arbitrary: u) (auto simp: apply_key_pattern)

lemma apply_channel_patterns:
  "bstr ''*'' \<notin> set ps \<Longrightarrow>
   applyACLRules hash cmp u (map (\<lambda>cp. bstr ''&'' @ cp) ps) = (None, u\<lparr>u_ChannelPatterns := u_ChannelPatterns u @ ps\<rparr>)"
  by (induction ps arbitrary: u) (auto simp: apply_channel_pattern)

lemma apply_categories:
  "CatAll \<notin> fst ` set cs \<Longrightarrow>
   applyACLRules hash cmp u (map (\<lambda>(cat, allowed). bstr (if allowed then ''+@'' else ''-@'') @ GetCategoryName cat) cs) =
     (None, u\<lparr>u_Categories := (u_Categories u)(map fst cs [\<mapsto>] map snd cs)\<rparr>)"
proof (induction cs arbitrary: u)
  case (Cons c cs)
  obtain cat b where "c = (cat, b)" by fastforce
  with Cons show ?case using apply_category [of cat hash cmp u b] by (cases b) auto
qed simp

lemma apply_commands:
  "fst ` set cs \<subseteq> snd ` set commandNames \<Longrightarrow>
   applyACLRules hash cmp u (map (\<lambda>(cmd, allowed). bstr (if allowed then ''+'' else ''-'') @ CommandType_String cmd) cs) =
     (None, u\<lparr>u_Commands := (u_Commands u)(map fst cs [\<mapsto>] map snd cs)\<rparr>)"
proof (induction cs arbitrary: u)
  case (Cons c cs)
  obtain cmd b where "c = (cmd, b)" by fastforce
  with Cons show ?case using apply_command [of cmd hash cmp u b] by (cases b) simp_all
qed simp

text \<open>The user that is read back: what the flags make redundant is gone, and so are the subcommand rules.\<close>

definition saved_user :: "ACLUser \<Rightarrow> ACLUser" where
  "saved_user u = (empty_user (u_Name u))
     \<lparr>u_Enabled := u_Enabled u, u_NoPass := u_NoPass u \<and> u_PasswordHashes u = [],
      u_PasswordHashes := u_PasswordHashes u, u_AllCommands := u_AllCommands u, u_AllKeys := u_AllKeys u,
      u_AllChannels := u_AllChannels u,
      u_Categories := (if u_AllCommands u then Map.empty else u_Categories u),
      u_Commands := (if u_AllCommands u then Map.empty else u_Commands u),
      u_KeyPatterns := (if u_AllKeys u then [] else u_KeyPatterns u),
      u_ChannelPatterns := (if u_AllChannels u then [] else u_ChannelPatterns u)\<rparr>"

text \<open>An enumeration of a Go map.\<close>

definition enumerates :: "('k \<times> 'v) list \<Rightarrow> ('k \<rightharpoonup> 'v) \<Rightarrow> bool" where
  "enumerates kvs m \<longleftrightarrow> distinct (map fst kvs) \<and> map_of kvs = m"

lemma map_upds_distinct:
  "distinct (map fst kvs) \<Longrightarrow> m(map fst kvs [\<mapsto>] map snd kvs) = m ++ map_of kvs"
proof (induction kvs arbitrary: m)
  case (Cons kv kvs)
  obtain k v where kv: "kv = (k, v)" by fastforce
  with Cons.prems have "map_of kvs k = None" by (simp add: map_of_eq_None_iff)
  with Cons kv show ?case by (auto simp: map_add_def fun_eq_iff split: option.splits)
qed simp

lemma enumerates_upds: "enumerates kvs m \<Longrightarrow> Map.empty(map fst kvs [\<mapsto>] map snd kvs) = m"
  by (simp add: enumerates_def map_upds_distinct)

lemma enumerates_dom: "enumerates kvs m \<Longrightarrow> k \<in> fst ` set kvs \<longleftrightarrow> m k \<noteq> None"
  by (metis domIff dom_map_of_conv_image_fst enumerates_def)

lemma apply_keywords:
  "applyACLRules hash cmp u (if b then [bstr ''on''] else [bstr ''off'']) = (None, u\<lparr>u_Enabled := b\<rparr>)"
  "applyACLRules hash cmp u (if b then [bstr ''nopass''] else []) = (None, if b then u\<lparr>u_NoPass := True\<rparr> else u)"
  "applyACLRule hash cmp u (bstr ''~*'') = Inr (u\<lparr>u_AllKeys := True\<rparr>)"
  "applyACLRule hash cmp u (bstr ''&*'') = Inr (u\<lparr>u_AllChannels := True\<rparr>)"
  "applyACLRule hash cmp u (bstr ''+@all'') = Inr (u\<lparr>u_AllCommands := True\<rparr>)"
  by (auto simp: applyACLRule_def keyword_rule_def bytes_simps)

lemma apply_user_rules:
  assumes "acl_wf u" "enumerates cats (u_Categories u)" "enumerates cmds (u_Commands u)"
  shows "applyACLRules hash cmp (empty_user (u_Name u)) (user_rules cats cmds u) = (None, saved_user u)"
proof -
  have cat: "CatAll \<notin> fst ` set cats"
    using assms(1) by (simp add: enumerates_dom [OF assms(2)] acl_wf_def)
  have cmd: "fst ` set cmds \<subseteq> snd ` set commandNames"
    using assms(1) by (auto simp only: subset_iff enumerates_dom [OF assms(3)] acl_wf_def)
  have wf: "list_all (\<lambda>kp. kp_Type kp = KeyPatternReadWrite \<longrightarrow> kp_Pattern kp \<noteq> bstr ''*'') (u_KeyPatterns u)"
    "bstr ''*'' \<notin> set (u_ChannelPatterns u)" using assms(1) by (simp_all add: acl_wf_def)
  show ?thesis
    using cat apply_categories [of cats hash cmp] apply_commands [OF cmd, of hash cmp]
      enumerates_upds [OF assms(2)] enumerates_upds [OF assms(3)] apply_key_patterns [OF wf(1)]
      apply_channel_patterns [OF wf(2)]
    unfolding user_rules_def
    by (simp add: applyACLRules_append apply_keywords apply_hashes saved_user_def empty_user_def)
qed

section \<open>The file\<close>

text \<open>The texts of a user can be written to a line: no white space in them, and a name.\<close>

definition writable :: "ACLUser \<Rightarrow> bool" where
  "writable u \<longleftrightarrow> u_Name u \<noteq> [] \<and> no_space (u_Name u) \<and> list_all no_space (u_PasswordHashes u) \<and>
     list_all (\<lambda>kp. no_space (kp_Pattern kp)) (u_KeyPatterns u) \<and> list_all no_space (u_ChannelPatterns u)"

lemma no_space_bstr:
  "no_space s \<Longrightarrow> no_space (bstr ''#'' @ s)" "no_space s \<Longrightarrow> no_space (bstr ''~'' @ s)"
  "no_space s \<Longrightarrow> no_space (bstr ''&'' @ s)" "no_space s \<Longrightarrow> no_space (bstr ''%R~'' @ s)"
  "no_space s \<Longrightarrow> no_space (bstr ''%W~'' @ s)" "no_space s \<Longrightarrow> no_space (bstr ''+'' @ s)"
  "no_space s \<Longrightarrow> no_space (bstr ''-'' @ s)" "no_space s \<Longrightarrow> no_space (bstr ''+@'' @ s)"
  "no_space s \<Longrightarrow> no_space (bstr ''-@'' @ s)"
  by (simp_all add: bytes_simps no_space_mark word_less_nat_alt del: no_space.simps)

lemma bstr_eq_Nil [simp]: "bstr s = [] \<longleftrightarrow> s = []"
  by (simp add: bstr_def)

lemma keyword_fields:
  "no_space (bstr ''on'')" "no_space (bstr ''off'')" "no_space (bstr ''nopass'')" "no_space (bstr ''~*'')"
  "no_space (bstr ''&*'')" "no_space (bstr ''+@all'')" "no_space (bstr ''user'')"
  by (simp_all add: bytes_simps space_len_def)

lemma key_pattern_fields: "no_space (kp_Pattern kp) \<Longrightarrow> key_pattern_rule kp \<noteq> [] \<and> no_space (key_pattern_rule kp)"
  by (cases "kp_Type kp") (simp_all add: key_pattern_rule_def no_space_bstr)

lemma user_rules_fields:
  assumes "writable u" "fst ` set cmds \<subseteq> snd ` set commandNames"
  shows "list_all (\<lambda>t. t \<noteq> [] \<and> no_space t) (user_rules cats cmds u)"
proof -
  have "no_space (CommandType_String c)" if "(c, b) \<in> set cmds" for c b
    using assms(2) that known_command_bytes [of c] by (metis fst_conv imageI subsetD)
  then have cmd: "list_all (\<lambda>t. t \<noteq> [] \<and> no_space t)
      (map (\<lambda>(cmd, allowed). bstr (if allowed then ''+'' else ''-'') @ CommandType_String cmd) cmds)"
    by (fastforce simp: list_all_iff no_space_bstr split: if_splits)
  have cat: "list_all (\<lambda>t. t \<noteq> [] \<and> no_space t)
      (map (\<lambda>(cat, allowed). bstr (if allowed then ''+@'' else ''-@'') @ GetCategoryName cat) cats)"
    by (auto simp: list_all_iff no_space_bstr category_names(3) split: if_splits)
  have "list_all (\<lambda>t. t \<noteq> [] \<and> no_space t) (map (\<lambda>h. bstr ''#'' @ h) (u_PasswordHashes u))"
    "list_all (\<lambda>t. t \<noteq> [] \<and> no_space t) (map (\<lambda>cp. bstr ''&'' @ cp) (u_ChannelPatterns u))"
    "list_all (\<lambda>t. t \<noteq> [] \<and> no_space t) (map key_pattern_rule (u_KeyPatterns u))"
    using assms(1) key_pattern_fields by (auto simp: writable_def list_all_iff no_space_bstr)
  with cmd cat show ?thesis
    by (simp add: user_rules_def keyword_fields)
qed

lemma parseACLLine_saved:
  assumes "acl_wf u" "writable u" "enumerates cats (u_Categories u)" "enumerates cmds (u_Commands u)"
    and "users (u_Name u) = None"
  shows "parseACLLine hash cmp users (formatUserRule cats cmds u) = (None, users(u_Name u \<mapsto> saved_user u))"
    and "string_fields (formatUserRule cats cmds u) = [bstr ''user'', u_Name u] @ user_rules cats cmds u"
proof -
  have "fst ` set cmds \<subseteq> snd ` set commandNames"
    using assms(1) by (auto simp only: subset_iff enumerates_dom [OF assms(4)] acl_wf_def)
  then have "list_all (\<lambda>t. t \<noteq> [] \<and> no_space t) ([bstr ''user'', u_Name u] @ user_rules cats cmds u)"
    using assms(2) user_rules_fields [OF assms(2)]
    by (simp add: writable_def keyword_fields)
  then show fields: "string_fields (formatUserRule cats cmds u) = [bstr ''user'', u_Name u] @ user_rules cats cmds u"
    unfolding formatUserRule_def by (rule string_fields_join)
  have "str_lower (bstr ''user'') = bstr ''user''" by (simp add: bytes_simps)
  then show "parseACLLine hash cmp users (formatUserRule cats cmds u) = (None, users(u_Name u \<mapsto> saved_user u))"
    using assms(5) apply_user_rules [OF assms(1,3,4)] by (simp add: parseACLLine_def fields)
qed

lemma load_saved_lines:
  assumes "distinct ns"
    and "\<And>n. n \<in> set ns \<Longrightarrow> \<exists>u. m n = Some u \<and> u_Name u = n \<and> acl_wf u \<and> writable u \<and>
      enumerates (cats u) (u_Categories u) \<and> enumerates (cmds u) (u_Commands u) \<and> length (formatUserRule (cats u) (cmds u) u) < 65536"
    and "\<And>n. n \<in> set ns \<Longrightarrow> users n = None"
  shows "load_lines hash cmp k (map (\<lambda>n. let user = the (m n) in formatUserRule (cats user) (cmds user) user) ns) users =
    (None, \<lambda>n. if n \<in> set ns then map_option saved_user (m n) else users n)"
  using assms
proof (induction ns arbitrary: k users)
  case (Cons n ns)
  obtain u where u: "m n = Some u" "u_Name u = n" "acl_wf u" "writable u"
    "enumerates (cats u) (u_Categories u)" "enumerates (cmds u) (u_Commands u)" "length (formatUserRule (cats u) (cmds u) u) < 65536"
    using Cons.prems(2) [of n] by auto
  have "users (u_Name u) = None" using Cons.prems(3) u(2) by simp
  note line = parseACLLine_saved(1) [where users = users, OF u(3-6) this, of hash cmp]
    parseACLLine_saved(2) [where users = users, OF u(3-6) this]
  have rest: "load_lines hash cmp (Suc k) (map (\<lambda>n. let user = the (m n) in formatUserRule (cats user) (cmds user) user) ns)
      (users(n \<mapsto> saved_user u)) =
    (None, \<lambda>n'. if n' \<in> set ns then map_option saved_user (m n') else (users(n \<mapsto> saved_user u)) n')"
    using Cons.prems by (intro Cons.IH) auto
  have "bstr ''user'' \<noteq> []" "hd (bstr ''user'') \<noteq> 35" by (simp_all add: bytes_simps)
  then show ?case
    using line rest u(1,2,7) by (auto simp: fun_eq_iff)
qed simp

definition same_permissions :: "ACLUser \<Rightarrow> ACLUser \<Rightarrow> bool" where
  "same_permissions u v \<longleftrightarrow>
     u_Name u = u_Name v \<and> u_Enabled u = u_Enabled v \<and> u_NoPass u = u_NoPass v \<and>
     u_PasswordHashes u = u_PasswordHashes v \<and>
     (\<forall>cmd. CheckCommand (Some u) cmd = CheckCommand (Some v) cmd) \<and>
     (\<forall>key w. CheckKey (Some u) key w = CheckKey (Some v) key w) \<and>
     (\<forall>ch. CheckChannel (Some u) ch = CheckChannel (Some v) ch)"

lemma saved_user_sel [simp]:
  "u_Name (saved_user u) = u_Name u" "u_Enabled (saved_user u) = u_Enabled u"
  "u_NoPass (saved_user u) = (u_NoPass u \<and> u_PasswordHashes u = [])"
  "u_PasswordHashes (saved_user u) = u_PasswordHashes u" "u_AllCommands (saved_user u) = u_AllCommands u"
  "u_AllKeys (saved_user u) = u_AllKeys u" "u_AllChannels (saved_user u) = u_AllChannels u"
  "u_Categories (saved_user u) = (if u_AllCommands u then Map.empty else u_Categories u)"
  "u_Commands (saved_user u) = (if u_AllCommands u then Map.empty else u_Commands u)"
  "u_KeyPatterns (saved_user u) = (if u_AllKeys u then [] else u_KeyPatterns u)"
  "u_ChannelPatterns (saved_user u) = (if u_AllChannels u then [] else u_ChannelPatterns u)"
  "u_Selectors (saved_user u) = []"
  by (simp_all add: saved_user_def empty_user_def)

lemma saved_user_same:
  "u_NoPass u \<longrightarrow> u_PasswordHashes u = [] \<Longrightarrow> u_Selectors u = [] \<Longrightarrow> same_permissions u (saved_user u)"
  by (auto simp: same_permissions_def CheckCommand_def CheckKey_def CheckChannel_def Let_def cong: option.case_cong)

text \<open>What the round trip needs of each user, and of the iteration orders of its maps.\<close>

definition savable ::
  "(ACLUser \<Rightarrow> (CommandCategory \<times> bool) list) \<Rightarrow> (ACLUser \<Rightarrow> (CommandType \<times> bool) list) \<Rightarrow> bytes \<Rightarrow> ACLUser \<Rightarrow> bool" where
  "savable cats cmds n u \<longleftrightarrow>
     u_Name u = n \<and> acl_wf u \<and> writable u \<and> u_Selectors u = [] \<and>
     (u_NoPass u \<longrightarrow> u_PasswordHashes u = []) \<and>
     enumerates (cats u) (u_Categories u) \<and> enumerates (cmds u) (u_Commands u) \<and>
     length (formatUserRule (cats u) (cmds u) u) < 65536"



text \<open>
  The combination that the round trip excludes is not kept: a user made with a password
  hash and then \<^verbatim>\<open>nopass\<close> needs no password, but the line written for it sets \<^verbatim>\<open>nopass\<close> before the
  hash, and reading the hash back clears the flag.
\<close>

theorem nopass_with_password_not_saved:
  "u_NoPass (snd (applyACLRules hash cmp (empty_user [97]) [bstr ''#h'', bstr ''nopass''])) \<and>
   \<not> u_NoPass (snd (applyACLRules hash cmp (empty_user [97])
        (user_rules [] [] (snd (applyACLRules hash cmp (empty_user [97]) [bstr ''#h'', bstr ''nopass''])))))"
proof -
  have "applyACLRule hash cmp u (bstr ''nopass'') = Inr (u\<lparr>u_NoPass := True\<rparr>)" for u
    by (simp add: applyACLRule_def keyword_rule_def bytes_simps)
  moreover have "bstr ''#h'' = bstr ''#'' @ bstr ''h''" by (simp add: bytes_simps)
  ultimately have u: "snd (applyACLRules hash cmp (empty_user [97]) [bstr ''#h'', bstr ''nopass'']) =
      (empty_user [97])\<lparr>u_PasswordHashes := [bstr ''h''], u_NoPass := True\<rparr>" (is "_ = ?u")
    by (simp add: apply_hash empty_user_def)
  have "applyACLRules hash cmp (empty_user (u_Name ?u)) (user_rules [] [] ?u) = (None, saved_user ?u)"
    by (rule apply_user_rules) (simp_all add: acl_wf_def empty_user_def enumerates_def)
  then show ?thesis
    unfolding u by (simp add: saved_user_def empty_user_def)
qed

text \<open>A line of 64 KiB stops the load: the users after it are lost and only the error tells.\<close>

lemma long_line_not_loaded:
  assumes "65536 \<le> length line"
  shows "LoadFromFile hash cmp path (Some (line # lines, False)) m =
    (Some LineTooLong, m\<lparr>m_users := [defaultUsername \<mapsto> default_user], m_aclFile := path\<rparr>)"
  using assms by (simp add: LoadFromFile_def)

text \<open>
  Claim C37. An explicit denial does not restrict a user with all commands: after the rules
  \<^verbatim>\<open>on +@all -flushall\<close> the denial is stored, and \<^verbatim>\<open>FLUSHALL\<close> is still allowed.
\<close>

theorem denial_after_all_commands_ignored:
  "\<exists>u. applyACLRules hash cmp (empty_user n) [bstr ''on'', bstr ''+@all'', bstr ''-flushall''] = (None, u) \<and>
     u_Commands u ''CmdFlushAll'' = Some False \<and> CheckCommand (Some u) ''CmdFlushAll'' = None"
proof -
  have "(''CmdFlushAll'', ''flushall'') \<in> set commandStrings_3 \<union> set commandStrings_4 \<union> set commandStrings_2 \<union> set commandStrings_1"
    unfolding name_tables by simp
  then have s: "(''CmdFlushAll'', ''flushall'') \<in> set commandStrings" by (auto simp: commandStrings_def)
  then have "''CmdFlushAll'' \<in> snd ` set commandNames" using name_of_string by force
  from apply_command [OF this, of hash cmp _ False] CommandType_String_known [OF s]
  have "applyACLRule hash cmp u (bstr ''-flushall'') = Inr (u\<lparr>u_Commands := (u_Commands u)(''CmdFlushAll'' \<mapsto> False)\<rparr>)" for u
    by (simp add: bstr_def)
  moreover have "applyACLRule hash cmp u (bstr ''on'') = Inr (u\<lparr>u_Enabled := True\<rparr>)" for u
    by (simp add: applyACLRule_def keyword_rule_def bytes_simps)
  ultimately show ?thesis
    by (simp add: apply_keywords(5) CheckCommand_def)
qed

text \<open>
  A rule file with one bad line replaces the users in force by those read before the
  error: \<^verbatim>\<open>LoadFromFile\<close> reports the error, and the default user is gone.
\<close>

theorem failed_load_drops_users:
  "\<exists>m2 e. LoadFromFile hash cmp path (Some ([bstr ''bogus line''], False)) m = (Some (LineError 1 e), m2) \<and> m_users m2 = Map.empty"
proof -
  have "string_fields (join_space [bstr ''bogus'', bstr ''line'']) = [bstr ''bogus'', bstr ''line'']"
    by (rule string_fields_join) (simp add: bytes_simps space_len_def)
  moreover have "join_space [bstr ''bogus'', bstr ''line''] = bstr ''bogus line''" by (simp add: bytes_simps)
  ultimately have "string_fields (bstr ''bogus line'') = [bstr ''bogus'', bstr ''line'']" by simp
  moreover have "hd (bstr ''bogus'') \<noteq> 35" "str_lower (bstr ''bogus'') \<noteq> bstr ''user''" by (simp_all add: bytes_simps)
  ultimately show ?thesis by (simp add: LoadFromFile_def parseACLLine_def)
qed

end
