(* ===== verification/Protocol.thy ===== *)
theory Protocol
  imports Commands Interfaces
begin

text \<open>
  The RESP request parser of \<^verbatim>\<open>redis/shared/protocol.go\<close>. The connection is modelled by the bytes
  that are still to be read and the capacity of the \<^verbatim>\<open>bufio.Reader\<close> (\<open>n\<close> below, \<^verbatim>\<open>ReadBufSize\<close> in
  production); every parsing function returns an error or its result, and in both cases the bytes it
  leaves unread, because the connection loop keeps reading after a protocol error.
  \<^verbatim>\<open>[]byte(nil)\<close>, the value of a null bulk string, is \<open>None\<close>. The buffer pool that
  \<^verbatim>\<open>GetDataBuf\<close> and \<^verbatim>\<open>PutDataBuf\<close> maintain is not part of the model.
\<close>

section \<open>Data\<close>

datatype proto_error =
    ErrInvalidProtocol | ErrInvalidBulkLength | ErrInvalidArrayCount | ErrLineTooLong
  | io_EOF | io_ErrUnexpectedEOF

record Command =
  cmd_Type :: CommandType
  cmd_Args :: "bytes option list"
  cmd_RawName :: "bytes option"

definition RESPArray :: byte where "RESPArray = 42"
definition RESPBulkString :: byte where "RESPBulkString = 36"

definition defaultProtoMaxBulkLen :: int where
  "defaultProtoMaxBulkLen = 512 * 1024 * 1024"

definition maxArrayCount :: int where
  "maxArrayCount = 1048576"

definition ReadBufSize :: nat where
  "ReadBufSize = 65536"

section \<open>Integers\<close>

fun ParseInt64_loop :: "bool \<Rightarrow> u64 \<Rightarrow> bytes \<Rightarrow> u64 option" where
  "ParseInt64_loop neg n [] = Some n"
| "ParseInt64_loop neg n (c # cs) =
     (if c < 48 \<or> c > 57 then None
      else if n > 0x8000000000000000 div 10 then None
      else let n' = n * 10 + ucast (c - 48) in
        if \<not> neg \<and> n' > 0x7FFFFFFFFFFFFFFF then None
        else if neg \<and> n' > 0x8000000000000000 then None
        else ParseInt64_loop neg n' cs)"

definition ParseInt64 :: "bytes \<Rightarrow> i64 option" where
  "ParseInt64 b =
     (if b = [] then None
      else
        let neg = (hd b = 45);
            i = (if hd b = 45 \<or> hd b = 43 then 1 else 0)
        in if i \<ge> length b then None
           else map_option (\<lambda>n. if neg then - n else n) (ParseInt64_loop neg 0 (drop i b)))"

fun ParseUint64_loop :: "u64 \<Rightarrow> bytes \<Rightarrow> u64 option" where
  "ParseUint64_loop n [] = Some n"
| "ParseUint64_loop n (c # cs) =
     (if c < 48 \<or> c > 57 then None else ParseUint64_loop (n * 10 + ucast (c - 48)) cs)"

definition ParseUint64 :: "bytes \<Rightarrow> u64 option" where
  "ParseUint64 b = (if b = [] then None else ParseUint64_loop 0 b)"

section \<open>Lines\<close>

text \<open>
  \<^verbatim>\<open>bufio.Reader.ReadSlice\<close> with the delimiter LF: the bytes up to and including the first LF, an
  error when the buffer is full without one, and end of file when the input ends first.
\<close>

definition ReadSlice :: "nat \<Rightarrow> bytes \<Rightarrow> (proto_error + bytes) \<times> bytes" where
  "ReadSlice n inp =
     (let line = takeWhile (\<lambda>c. c \<noteq> LF) (take n inp) in
      if length line < length (take n inp)
      then (Inr (take (Suc (length line)) inp), drop (Suc (length line)) inp)
      else if n \<le> length inp then (Inl ErrLineTooLong, drop n inp)
      else (Inl io_EOF, []))"

definition trim_crlf :: "bytes \<Rightarrow> bytes" where
  "trim_crlf line =
     (let l1 = (if line \<noteq> [] \<and> last line = LF then butlast line else line)
      in if l1 \<noteq> [] \<and> last l1 = CR then butlast l1 else l1)"

definition readLine :: "nat \<Rightarrow> bytes \<Rightarrow> (proto_error + bytes) \<times> bytes" where
  "readLine n inp =
     (case ReadSlice n inp of
        (Inl e, rest) \<Rightarrow> (Inl e, rest)
      | (Inr line, rest) \<Rightarrow> (Inr (trim_crlf line), rest))"

section \<open>Bulk strings and arrays\<close>

definition readBulkString :: "nat \<Rightarrow> bytes \<Rightarrow> (proto_error + bytes option) \<times> bytes" where
  "readBulkString n inp =
     (case readLine n inp of
        (Inl e, rest) \<Rightarrow> (Inl e, rest)
      | (Inr line, rest) \<Rightarrow>
          if line = [] \<or> hd line \<noteq> RESPBulkString then (Inl ErrInvalidProtocol, rest)
          else
            (case ParseInt64 (tl line) of
               None \<Rightarrow> (Inl ErrInvalidBulkLength, rest)
             | Some len \<Rightarrow>
                 if len = - 1 then (Inr None, rest)
                 else if sint len < 0 then (Inl ErrInvalidBulkLength, rest)
                 else if sint len > defaultProtoMaxBulkLen then (Inl ErrInvalidBulkLength, rest)
                 else if length rest < unat len
                   then (Inl (if rest = [] then io_EOF else io_ErrUnexpectedEOF), [])
                 else if length rest < unat len + 2 then (Inl io_EOF, [])
                 else (Inr (Some (take (unat len) rest)), drop (unat len + 2) rest)))"

fun readBulkStrings :: "nat \<Rightarrow> nat \<Rightarrow> bytes \<Rightarrow> (proto_error + bytes option list) \<times> bytes" where
  "readBulkStrings n 0 inp = (Inr [], inp)"
| "readBulkStrings n (Suc k) inp =
     (case readBulkString n inp of
        (Inl e, rest) \<Rightarrow> (Inl e, rest)
      | (Inr arg, rest) \<Rightarrow>
          (case readBulkStrings n k rest of
             (Inl e, rest') \<Rightarrow> (Inl e, rest')
           | (Inr args, rest') \<Rightarrow> (Inr (arg # args), rest')))"

text \<open>
  The end of both command readers: the first element is the command name, which is kept as the raw
  name when it is not known, and the others are the arguments.
\<close>

definition take_name :: "Command \<Rightarrow> bytes option list \<Rightarrow> Command" where
  "take_name cmd args =
     (case args of
        [] \<Rightarrow> cmd\<lparr>cmd_Args := []\<rparr>
      | name # rest \<Rightarrow>
          let ty = ParseCommandType (case name of None \<Rightarrow> [] | Some b \<Rightarrow> b)
          in cmd\<lparr>cmd_Type := ty,
                 cmd_RawName := (if ty = ''CmdUnknown'' then name else cmd_RawName cmd),
                 cmd_Args := rest\<rparr>)"

definition readArrayCommand :: "nat \<Rightarrow> Command \<Rightarrow> bytes \<Rightarrow> (proto_error + Command) \<times> bytes" where
  "readArrayCommand n cmd inp =
     (case readLine n inp of
        (Inl e, rest) \<Rightarrow> (Inl e, rest)
      | (Inr line, rest) \<Rightarrow>
          if line = [] \<or> hd line \<noteq> RESPArray then (Inl ErrInvalidProtocol, rest)
          else
            (case ParseInt64 (tl line) of
               None \<Rightarrow> (Inl ErrInvalidArrayCount, rest)
             | Some count \<Rightarrow>
                 if sint count < 0 then (Inl ErrInvalidArrayCount, rest)
                 else if sint count > maxArrayCount then (Inl ErrInvalidArrayCount, rest)
                 else if count = 0 then (Inr (cmd\<lparr>cmd_Type := ''CmdUnknown''\<rparr>), rest)
                 else
                   (case readBulkStrings n (unat count) rest of
                      (Inl e, rest') \<Rightarrow> (Inl e, rest')
                    | (Inr args, rest') \<Rightarrow> (Inr (take_name cmd args), rest'))))"

section \<open>Inline commands\<close>

definition NextToken :: "bytes \<Rightarrow> (bytes \<times> bytes) option" where
  "NextToken b =
     (let b' = dropWhile (\<lambda>c. c = 32) b in
      if b' = [] then None
      else Some (takeWhile (\<lambda>c. c \<noteq> 32) b', drop 1 (dropWhile (\<lambda>c. c \<noteq> 32) b')))"

lemma NextToken_shorter: "NextToken b = Some (tok, rest) \<Longrightarrow> length rest < length b"
proof -
  assume nt: "NextToken b = Some (tok, rest)"
  let ?b = "dropWhile (\<lambda>c. c = 32) b"
  have "?b \<noteq> []" "rest = drop 1 (dropWhile (\<lambda>c. c \<noteq> 32) ?b)"
    using nt by (auto simp: NextToken_def Let_def split: if_splits)
  moreover have "length ?b \<le> length b" by (rule length_dropWhile_le)
  moreover have "length (dropWhile (\<lambda>c. c \<noteq> 32) ?b) \<le> length ?b" by (rule length_dropWhile_le)
  ultimately show "length rest < length b" by (cases ?b) auto
qed

function inline_tokens :: "bytes \<Rightarrow> bytes list" where
  "inline_tokens b = (case NextToken b of None \<Rightarrow> [] | Some (tok, rest) \<Rightarrow> tok # inline_tokens rest)"
  by pat_completeness auto
termination
  by (relation "measure length") (auto dest: NextToken_shorter)

declare inline_tokens.simps [simp del]

definition readInlineCommand :: "nat \<Rightarrow> Command \<Rightarrow> bytes \<Rightarrow> (proto_error + Command) \<times> bytes" where
  "readInlineCommand n cmd inp =
     (case readLine n inp of
        (Inl e, rest) \<Rightarrow> (Inl e, rest)
      | (Inr line, rest) \<Rightarrow>
          if line = [] then (Inr (cmd\<lparr>cmd_Type := ''CmdNoop''\<rparr>), rest)
          else
            let args = map Some (inline_tokens line) in
            if args = [] then (Inr (cmd\<lparr>cmd_Args := [], cmd_Type := ''CmdNoop''\<rparr>), rest)
            else (Inr (take_name cmd args), rest))"

definition ReadCommandInto :: "nat \<Rightarrow> Command \<Rightarrow> bytes \<Rightarrow> (proto_error + Command) \<times> bytes" where
  "ReadCommandInto n cmd inp =
     (case inp of
        [] \<Rightarrow> (Inl io_EOF, [])
      | b # _ \<Rightarrow> if b = RESPArray then readArrayCommand n cmd inp else readInlineCommand n cmd inp)"

text \<open>A command fresh from the pool: \<^verbatim>\<open>Command.Reset\<close> leaves every field at its zero value.\<close>

definition fresh_Command :: Command where
  "fresh_Command = \<lparr>cmd_Type = ''CmdUnknown'', cmd_Args = [], cmd_RawName = None\<rparr>"

definition ReadCommand :: "nat \<Rightarrow> bytes \<Rightarrow> (proto_error + Command) \<times> bytes" where
  "ReadCommand n inp = ReadCommandInto n fresh_Command inp"

end
