(* ===== verification/Protocol_Facts.thy ===== *)
theory Protocol_Facts
  imports Protocol "HOL-Library.Sublist"
begin

text \<open>
  Correctness of the request parser: integer parsing against its mathematical meaning, the round
  trip of encoded requests, pipelining, resource bounds and progress.
\<close>

section \<open>Integers\<close>


lemma foldl_dec_step_ge: "n \<le> foldl dec_step n cs"
proof (induction cs arbitrary: n)
  case (Cons c cs)
  have "n \<le> dec_step n c" by (simp add: dec_step_def)
  also have "\<dots> \<le> foldl dec_step (dec_step n c) cs" by (rule Cons)
  finally show ?case by simp
qed simp

definition int_limit :: "bool \<Rightarrow> nat" where
  "int_limit neg = (if neg then 2 ^ 63 else 2 ^ 63 - 1)"

lemma digit_le: "is_digit c \<Longrightarrow> unat (c - 48) \<le> 9"
  by (auto simp: is_digit_def word_le_nat_alt unat_sub)

lemma unat_push_digit:
  assumes "is_digit c" "unat n \<le> 922337203685477580"
  shows "unat (n * 10 + ucast (c - 48) :: u64) = dec_step (unat n) c"
proof -
  have "unat (ucast (c - 48) :: u64) = unat (c - 48)"
    using digit_le [OF assms(1)] by (simp add: unsigned_ucast_eq take_bit_nat_eq_self_iff)
  moreover have "unat n * 10 + unat (c - 48) < 2 ^ 64"
    using assms(2) digit_le [OF assms(1)] by simp
  ultimately show ?thesis
    by (simp add: dec_step_def unat_word_ariths)
qed

lemma ParseInt64_loop_eq:
  "unat n \<le> int_limit neg \<Longrightarrow>
   ParseInt64_loop neg n cs =
     (if list_all is_digit cs \<and> foldl dec_step (unat n) cs \<le> int_limit neg
      then Some (of_nat (foldl dec_step (unat n) cs)) else None)"
proof (induction cs arbitrary: n)
  case (Cons c cs)
  let ?n = "n * 10 + ucast (c - 48)"
  consider "\<not> is_digit c" | "is_digit c" "922337203685477580 < unat n"
    | "is_digit c" "unat n \<le> 922337203685477580" "int_limit neg < dec_step (unat n) c"
    | "is_digit c" "unat n \<le> 922337203685477580" "dec_step (unat n) c \<le> int_limit neg"
    by linarith
  then show ?case
  proof cases
    case 1
    then show ?thesis by (auto simp: is_digit_def not_le)
  next
    case 2
    then have "int_limit neg < dec_step (unat n) c" by (simp add: int_limit_def dec_step_def)
    also have "\<dots> \<le> foldl dec_step (dec_step (unat n) c) cs" by (rule foldl_dec_step_ge)
    finally show ?thesis using 2 by (simp add: word_less_nat_alt is_digit_def)
  next
    case 3
    note 3(3)
    also have "dec_step (unat n) c \<le> foldl dec_step (dec_step (unat n) c) cs" by (rule foldl_dec_step_ge)
    finally show ?thesis using 3
      by (auto simp: word_less_nat_alt is_digit_def unat_push_digit int_limit_def Let_def split: if_splits)
  next
    case 4
    then have "unat ?n = dec_step (unat n) c" by (simp add: unat_push_digit)
    moreover have "ParseInt64_loop neg n (c # cs) = ParseInt64_loop neg ?n cs"
      using 4 by (auto simp: word_less_nat_alt word_le_nat_alt is_digit_def unat_push_digit int_limit_def Let_def not_less split: if_splits)
    ultimately show ?thesis using Cons.IH [of ?n] 4 by simp
  qed
qed simp

lemma ParseInt64_eq_atoi: "ParseInt64 b = map_option word_of_int (atoi b)"
  by (cases b) (auto simp: ParseInt64_def atoi_def ParseInt64_loop_eq int_limit_def Let_def dec_val_def
      split: if_splits list.splits)

text \<open>
  Claim C19. \<^verbatim>\<open>ParseInt64\<close>, which guards a 64-bit accumulator against overflow digit by digit,
  computes exactly the decimal value: it accepts an optionally signed, nonempty digit string whose
  value lies in the range of \<^verbatim>\<open>int64\<close>, both limits included, and rejects everything else.
\<close>

theorem ParseInt64_correct: "ParseInt64 b = map_option word_of_int (atoi b)"
  by (rule ParseInt64_eq_atoi)

lemma decimal_no_sign: "decimal n \<noteq> 45 # cs" "decimal n \<noteq> 43 # cs"
  using dec_digits [of n] by (auto simp: is_digit_def)

lemma atoi_fmt_int:
  assumes "MinInt64 \<le> k" "k \<le> MaxInt64"
  shows "atoi (fmt_int k) = Some k"
proof (cases "k < 0")
  case True
  then show ?thesis
    using assms dec_digits [of "nat (- k)"] by (simp add: atoi_def fmt_int_def)
next
  case False
  obtain c cs where d: "decimal (nat k) = c # cs" by (cases "decimal (nat k)") auto
  then have "c \<noteq> 45" "c \<noteq> 43" "list_all is_digit (c # cs)" "dec_val (c # cs) = nat k"
    using decimal_no_sign [of "nat k"] dec_digits [of "nat k"] dec_val_dec [of "nat k"] by metis+
  with False assms show ?thesis by (simp add: atoi_def fmt_int_def d)
qed

lemma ParseInt64_decimal:
  assumes "n < 2 ^ 63"
  shows "ParseInt64 (decimal n) = Some (of_nat n)"
proof -
  have "ParseInt64 (fmt_int (int n)) = Some (of_nat n)"
    using assms by (simp add: ParseInt64_eq_atoi atoi_fmt_int)
  then show ?thesis by (simp add: fmt_int_def)
qed

lemma length_decimal: "0 < k \<Longrightarrow> n < 10 ^ k \<Longrightarrow> length (decimal n) \<le> k"
proof (induction k arbitrary: n)
  case (Suc k)
  show ?case
  proof (cases "n < 10")
    case True
    then show ?thesis by (subst decimal.simps) simp
  next
    case False
    with Suc.prems have "0 < k" by (cases k) auto
    moreover have "n div 10 < 10 ^ k" using Suc.prems by (simp add: less_mult_imp_div_less)
    ultimately have "length (decimal (n div 10)) \<le> k" by (rule Suc.IH)
    with False show ?thesis by (subst decimal.simps) simp
  qed
qed simp

section \<open>Lines\<close>

lemma readLine_crlf:
  assumes "LF \<notin> set line" "length line + 2 \<le> n"
  shows "readLine n (line @ crlf @ rest) = (Inr line, rest)"
proof -
  obtain m where n: "n = length line + Suc (Suc m)"
    using assms(2) by (metis add_2_eq_Suc' add.assoc le_Suc_ex add.commute)
  have "takeWhile (\<lambda>c. c \<noteq> LF) (take n (line @ crlf @ rest)) = line @ [CR]"
    using assms(1) by (auto simp: n crlf_def takeWhile_append)
  then show ?thesis
    using n by (simp add: readLine_def ReadSlice_def crlf_def trim_crlf_def butlast_append)
qed

section \<open>Encoded requests\<close>

text \<open>
  The encoding of a request that RESP clients send: an array of bulk strings, where a null argument
  is the null bulk string.
\<close>

definition enc_bulk :: "bytes option \<Rightarrow> bytes" where
  "enc_bulk arg =
     (case arg of
        None \<Rightarrow> bstr ''$-1'' @ crlf
      | Some b \<Rightarrow> RESPBulkString # fmt_int (int (length b)) @ crlf @ b @ crlf)"

definition enc_request :: "bytes option list \<Rightarrow> bytes" where
  "enc_request args = RESPArray # fmt_int (int (length args)) @ crlf @ concat (map enc_bulk args)"

definition bulk_ok :: "bytes option \<Rightarrow> bool" where
  "bulk_ok arg = (case arg of None \<Rightarrow> True | Some b \<Rightarrow> int (length b) \<le> defaultProtoMaxBulkLen)"

definition request_ok :: "bytes option list \<Rightarrow> bool" where
  "request_ok args \<longleftrightarrow> args \<noteq> [] \<and> int (length args) \<le> maxArrayCount \<and> list_all bulk_ok args"

lemma readLine_header:
  assumes "k < 10 ^ 10" "16 \<le> n" "c \<noteq> LF"
  shows "readLine n (c # fmt_int (int k) @ crlf @ rest) = (Inr (c # decimal k), rest)"
proof -
  have "length (decimal k) \<le> 10" using assms(1) by (intro length_decimal) auto
  moreover have "LF \<notin> set (c # decimal k)"
    using fmt_int_no_LF [of "int k"] assms(3) by (simp add: fmt_int_def)
  ultimately show ?thesis
    using readLine_crlf [of "c # decimal k" n rest] assms(2) by (simp add: fmt_int_def)
qed

lemma sint_of_nat_small: "k < 2 ^ 63 \<Longrightarrow> sint (of_nat k :: i64) = int k"
  using sint64_of_int [of "int k"] by simp

lemma readBulkString_enc:
  assumes "bulk_ok arg" "16 \<le> n"
  shows "readBulkString n (enc_bulk arg @ rest) = (Inr arg, rest)"
proof (cases arg)
  case None
  have "readLine n (bstr ''$-1'' @ crlf @ rest) = (Inr (bstr ''$-1''), rest)"
    using assms(2) by (intro readLine_crlf) (simp_all add: bytes_simps)
  moreover have "ParseInt64 (tl (bstr ''$-1'')) = Some (- 1)"
    by (simp add: bytes_simps ParseInt64_def)
  ultimately show ?thesis
    by (simp add: None enc_bulk_def readBulkString_def RESPBulkString_def bytes_simps)
next
  case (Some b)
  let ?k = "length b"
  have k: "?k \<le> 536870912" using assms(1) by (simp add: Some bulk_ok_def defaultProtoMaxBulkLen_def)
  then have line: "readLine n (RESPBulkString # fmt_int (int ?k) @ crlf @ b @ crlf @ rest) =
      (Inr (RESPBulkString # decimal ?k), b @ crlf @ rest)"
    using assms(2) by (intro readLine_header) (simp_all add: RESPBulkString_def)
  have s: "sint (of_nat ?k :: i64) = int ?k" using k by (intro sint_of_nat_small) simp
  have u: "unat (of_nat ?k :: i64) = ?k" using k by (simp add: unat_of_nat)
  have "(of_nat ?k :: i64) \<noteq> - 1" using s by auto
  with line k s u show ?thesis
    by (simp add: Some enc_bulk_def readBulkString_def ParseInt64_decimal defaultProtoMaxBulkLen_def crlf_def)
qed

lemma readBulkStrings_enc:
  "list_all bulk_ok args \<Longrightarrow> 16 \<le> n \<Longrightarrow>
   readBulkStrings n (length args) (concat (map enc_bulk args) @ rest) = (Inr args, rest)"
  by (induction args) (simp_all add: readBulkString_enc)

lemma readArrayCommand_enc:
  assumes "request_ok args" "16 \<le> n"
  shows "readArrayCommand n cmd (enc_request args @ rest) = (Inr (take_name cmd args), rest)"
proof -
  let ?k = "length args"
  have k: "?k \<le> 1048576" "?k \<noteq> 0" and bulks: "list_all bulk_ok args"
    using assms(1) by (simp_all add: request_ok_def maxArrayCount_def)
  then have line: "readLine n (RESPArray # fmt_int (int ?k) @ crlf @ concat (map enc_bulk args) @ rest) =
      (Inr (RESPArray # decimal ?k), concat (map enc_bulk args) @ rest)"
    using assms(2) by (intro readLine_header) (simp_all add: RESPArray_def)
  have s: "sint (of_nat ?k :: i64) = int ?k" using k by (intro sint_of_nat_small) simp
  have u: "unat (of_nat ?k :: i64) = ?k" using k by (simp add: unat_of_nat)
  have "(of_nat ?k :: i64) \<noteq> 0" using u k by (metis unat_eq_0)
  with line k s u readBulkStrings_enc [OF bulks assms(2)] show ?thesis
    by (simp add: enc_request_def readArrayCommand_def ParseInt64_decimal maxArrayCount_def)
qed

section \<open>Progress\<close>

lemma ReadSlice_progress:
  assumes "0 < n" "inp \<noteq> []"
  shows "strict_suffix (snd (ReadSlice n inp)) inp"
proof -
  have "strict_suffix (drop k inp) inp" if "0 < k" for k
  proof -
    have "length (drop k inp) < length inp" using that assms(2) by simp
    then have "drop k inp \<noteq> inp" by (metis less_irrefl)
    then show ?thesis by (simp add: strict_suffix_def suffix_drop)
  qed
  then show ?thesis
    using assms by (simp add: ReadSlice_def Let_def strict_suffix_def)
qed

lemma readLine_progress: "0 < n \<Longrightarrow> inp \<noteq> [] \<Longrightarrow> strict_suffix (snd (readLine n inp)) inp"
  using ReadSlice_progress [of n inp] by (auto simp: readLine_def split: prod.splits sum.splits)

lemma readLine_suffix: "0 < n \<Longrightarrow> suffix (snd (readLine n inp)) inp"
  using readLine_progress [of n inp]
  by (cases "inp = []") (auto simp: readLine_def ReadSlice_def strict_suffix_def)

lemma readBulkString_suffix:
  assumes "0 < n"
  shows "suffix (snd (readBulkString n inp)) inp"
proof -
  have "suffix (snd (readBulkString n inp)) (snd (readLine n inp))"
    by (auto simp: readBulkString_def suffix_drop split: prod.splits sum.splits option.splits)
  then show ?thesis
    using readLine_suffix [OF assms] suffix_order.trans by blast
qed

lemma readBulkStrings_suffix: "0 < n \<Longrightarrow> suffix (snd (readBulkStrings n k inp)) inp"
proof (induction k arbitrary: inp)
  case (Suc k)
  have "suffix (snd (readBulkStrings n (Suc k) inp)) (snd (readBulkString n inp))"
    using Suc.IH [OF Suc.prems, of "snd (readBulkString n inp)"] by (auto split: prod.splits sum.splits)
  then show ?case
    using readBulkString_suffix [OF Suc.prems] suffix_order.trans by blast
qed simp

lemma readArrayCommand_suffix:
  assumes "0 < n"
  shows "suffix (snd (readArrayCommand n cmd inp)) (snd (readLine n inp))"
proof -
  have "suffix r inp'" if "readBulkStrings n k inp' = (x, r)" for k inp' x r
    using readBulkStrings_suffix [OF assms, of k inp'] that by simp
  then show ?thesis
    by (auto simp: readArrayCommand_def split: prod.splits sum.splits option.splits)
qed

lemma readInlineCommand_suffix: "snd (readInlineCommand n cmd inp) = snd (readLine n inp)"
  by (auto simp: readInlineCommand_def Let_def split: prod.splits sum.splits)

lemma ReadCommandInto_strict:
  assumes "0 < n" "inp \<noteq> []"
  shows "strict_suffix (snd (ReadCommandInto n cmd inp)) inp"
proof -
  have "suffix (snd (ReadCommandInto n cmd inp)) (snd (readLine n inp))"
    using assms readArrayCommand_suffix [OF assms(1)]
    by (auto simp: ReadCommandInto_def readInlineCommand_suffix split: list.splits)
  then show ?thesis
    using readLine_progress [OF assms] suffix_order.le_less_trans by blast
qed

section \<open>Bounds\<close>

lemma uint_eq_sint: "\<not> sint (w :: i64) < 0 \<Longrightarrow> uint w = sint w"
  using sint64_range [of w] by (simp add: uint_sint take_bit_int_eq_self)

lemma readBulkString_ok: "readBulkString n inp = (Inr arg, rest) \<Longrightarrow> bulk_ok arg"
  by (auto simp: readBulkString_def bulk_ok_def uint_eq_sint split: prod.splits sum.splits option.splits if_splits)

lemma readBulkStrings_ok:
  "readBulkStrings n k inp = (Inr args, rest) \<Longrightarrow> length args = k \<and> list_all bulk_ok args"
  by (induction k arbitrary: inp args)
    (auto split: prod.splits sum.splits dest: readBulkString_ok)

section \<open>Inline commands\<close>

text \<open>The fields of a line between single spaces, empty ones included.\<close>

fun space_fields :: "bytes \<Rightarrow> bytes list" where
  "space_fields [] = [[]]"
| "space_fields (c # cs) = (if c = 32 then [] # space_fields cs else (c # hd (space_fields cs)) # tl (space_fields cs))"

lemma fields_no_space: "32 \<notin> set tok \<Longrightarrow> space_fields tok = [tok]"
  by (induction tok) auto

lemma fields_token: "32 \<notin> set tok \<Longrightarrow> space_fields (tok @ 32 # rest) = tok # space_fields rest"
  by (induction tok) auto

lemma fields_skip: "filter (\<lambda>f. f \<noteq> []) (space_fields (dropWhile (\<lambda>c. c = 32) b)) = filter (\<lambda>f. f \<noteq> []) (space_fields b)"
  by (induction b) auto

lemma fields_first:
  assumes "32 \<notin> set tok" "tok \<noteq> []" "r = [] \<or> hd r = 32"
  shows "filter (\<lambda>f. f \<noteq> []) (space_fields (tok @ r)) = tok # filter (\<lambda>f. f \<noteq> []) (space_fields (drop 1 r))"
  using assms by (cases r) (simp_all add: fields_no_space fields_token)

lemma NextToken_fields:
  "filter (\<lambda>f. f \<noteq> []) (space_fields b) =
     (case NextToken b of None \<Rightarrow> [] | Some (tok, rest) \<Rightarrow> tok # filter (\<lambda>f. f \<noteq> []) (space_fields rest))"
proof -
  define b' where "b' = dropWhile (\<lambda>c. c = 32) b"
  define tok where "tok = takeWhile (\<lambda>c. c \<noteq> 32) b'"
  define r where "r = dropWhile (\<lambda>c. c \<noteq> 32) b'"
  have eq: "filter (\<lambda>f. f \<noteq> []) (space_fields b) = filter (\<lambda>f. f \<noteq> []) (space_fields b')"
    unfolding b'_def by (rule fields_skip [symmetric])
  show ?thesis
  proof (cases "b' = []")
    case True
    then show ?thesis using eq by (simp add: NextToken_def flip: b'_def)
  next
    case False
    have "32 \<notin> set tok" by (auto simp: tok_def dest: set_takeWhileD)
    moreover have "tok \<noteq> []"
      using False hd_dropWhile [of "\<lambda>c. c = 32" b] unfolding tok_def by (cases b') (auto simp: b'_def)
    moreover have "r = [] \<or> hd r = 32"
      using hd_dropWhile [of "\<lambda>c. c \<noteq> 32" b'] by (auto simp: r_def)
    moreover have "b' = tok @ r" by (simp add: tok_def r_def)
    moreover have "NextToken b = Some (tok, drop 1 r)"
      using False by (simp add: NextToken_def tok_def r_def flip: b'_def)
    ultimately show ?thesis using eq fields_first by simp
  qed
qed

lemma inline_tokens_fields: "inline_tokens b = filter (\<lambda>f. f \<noteq> []) (space_fields b)"
proof (induction b rule: inline_tokens.induct)
  case (1 b)
  then show ?case
    by (subst inline_tokens.simps) (auto simp: NextToken_fields [of b] split: option.splits)
qed

lemma fields_size: "length (space_fields b) + sum_list (map length (space_fields b)) = Suc (length b)"
proof (induction b)
  case (Cons c cs)
  then show ?case by (cases "space_fields cs") auto
qed simp

lemma inline_tokens_size:
  "length (inline_tokens b) \<le> Suc (length b)" "t \<in> set (inline_tokens b) \<Longrightarrow> length t \<le> length b"
proof -
  show "length (inline_tokens b) \<le> Suc (length b)"
    using length_filter_le [of "\<lambda>f. f \<noteq> []" "space_fields b"] fields_size [of b]
    unfolding inline_tokens_fields by linarith
  show "length t \<le> length b" if "t \<in> set (inline_tokens b)"
  proof -
    have "t \<in> set (space_fields b)" using that by (simp add: inline_tokens_fields)
    then have "length t \<le> sum_list (map length (space_fields b))" by (intro member_le_sum_list) simp_all
    moreover have "space_fields b \<noteq> []" by (cases b) auto
    ultimately show ?thesis using fields_size [of b] by (cases "space_fields b") auto
  qed
qed

lemma readLine_length:
  assumes "readLine n inp = (Inr line, rest)"
  shows "length line < n"
proof -
  define l where "l = takeWhile (\<lambda>c. c \<noteq> LF) (take n inp)"
  have less: "length l < length (take n inp)" and line: "line = trim_crlf (take (Suc (length l)) inp)"
    using assms by (auto simp: readLine_def ReadSlice_def Let_def l_def split: if_splits)
  have "take (length l) (take n inp) = l"
    unfolding l_def by (rule takeWhile_eq_take [symmetric])
  then have "take (length l) inp = l" using less by (auto simp: min_def split: if_splits)
  moreover have "inp ! length l = LF"
    using less nth_length_takeWhile [of "\<lambda>c. c \<noteq> LF" "take n inp"] by (simp add: l_def)
  ultimately have "take (Suc (length l)) inp = l @ [LF]"
    using less by (simp add: take_Suc_conv_app_nth)
  with line less show ?thesis by (auto simp: trim_crlf_def Let_def butlast_append)
qed

lemma take_name_bounded:
  "args \<noteq> [] \<Longrightarrow> list_all bulk_ok args \<Longrightarrow>
   length (cmd_Args (take_name cmd args)) < length args \<and> list_all bulk_ok (cmd_Args (take_name cmd args))"
  by (cases args) (simp_all add: take_name_def Let_def)

lemma readArrayCommand_bounded:
  assumes "fst (readArrayCommand n fresh_Command inp) = Inr c"
  shows "int (length (cmd_Args c)) < maxArrayCount \<and> list_all bulk_ok (cmd_Args c)"
proof -
  consider "c = fresh_Command\<lparr>cmd_Type := ''CmdUnknown''\<rparr>"
    | count args r r' where "readBulkStrings n (unat (count :: i64)) r = (Inr args, r')" "count \<noteq> 0"
        "\<not> sint count < 0" "\<not> sint count > maxArrayCount" "c = take_name fresh_Command args"
    using assms by (auto simp: readArrayCommand_def split: prod.splits sum.splits option.splits if_splits)
  then show ?thesis
  proof cases
    case 1
    then show ?thesis by (simp add: fresh_Command_def maxArrayCount_def)
  next
    case (2 count args r r')
    then have len: "length args = unat count" and ok: "list_all bulk_ok args"
      using readBulkStrings_ok by blast+
    then have "args \<noteq> []" using 2(2) by (auto simp: unat_eq_0)
    moreover have "int (length args) \<le> maxArrayCount"
      using 2(3,4) uint_eq_sint [of count] by (simp add: len)
    ultimately show ?thesis using take_name_bounded [OF _ ok, of fresh_Command] 2(5) by auto
  qed
qed

lemma readInlineCommand_bounded:
  assumes "fst (readInlineCommand ReadBufSize fresh_Command inp) = Inr c"
  shows "int (length (cmd_Args c)) < maxArrayCount \<and> list_all bulk_ok (cmd_Args c)"
proof -
  consider "cmd_Args c = []"
    | line r where "readLine ReadBufSize inp = (Inr line, r)" "inline_tokens line \<noteq> []"
        "c = take_name fresh_Command (map Some (inline_tokens line))"
    using assms
    by (auto simp: readInlineCommand_def Let_def fresh_Command_def split: prod.splits sum.splits if_splits)
  then show ?thesis
  proof cases
    case 1
    then show ?thesis by (simp add: maxArrayCount_def)
  next
    case (2 line r)
    let ?args = "map Some (inline_tokens line)"
    have "length line < 65536" using readLine_length [OF 2(1)] by (simp add: ReadBufSize_def)
    moreover from this have "list_all bulk_ok ?args"
      by (auto simp: list_all_iff bulk_ok_def defaultProtoMaxBulkLen_def dest!: inline_tokens_size(2))
    moreover have "length ?args \<le> Suc (length line)" by (simp add: inline_tokens_size(1))
    ultimately show ?thesis
      using take_name_bounded [of ?args fresh_Command] 2(2,3) by (auto simp: maxArrayCount_def)
  qed
qed

text \<open>
  Claim C24. Whatever bytes a client sends, a command that the parser delivers has fewer than
  \<^verbatim>\<open>maxArrayCount\<close> arguments, none longer than \<^verbatim>\<open>defaultProtoMaxBulkLen\<close>, so the memory one command
  can pin is bounded; and every attempt to read consumes at least one byte of a nonempty input,
  success or error, and never rereads or invents bytes.
\<close>

theorem ReadCommand_bounded:
  assumes "inp \<noteq> []"
  shows "strict_suffix (snd (ReadCommand ReadBufSize inp)) inp \<and>
    (\<forall>c. fst (ReadCommand ReadBufSize inp) = Inr c \<longrightarrow>
      int (length (cmd_Args c)) < maxArrayCount \<and> list_all bulk_ok (cmd_Args c))"
proof (intro conjI allI impI)
  show "strict_suffix (snd (ReadCommand ReadBufSize inp)) inp"
    unfolding ReadCommand_def by (rule ReadCommandInto_strict) (simp_all add: ReadBufSize_def assms)
next
  fix c
  assume "fst (ReadCommand ReadBufSize inp) = Inr c"
  then have "fst (readArrayCommand ReadBufSize fresh_Command inp) = Inr c \<or>
      fst (readInlineCommand ReadBufSize fresh_Command inp) = Inr c"
    using assms by (auto simp: ReadCommand_def ReadCommandInto_def split: list.splits if_splits)
  then show "int (length (cmd_Args c)) < maxArrayCount" "list_all bulk_ok (cmd_Args c)"
    using readArrayCommand_bounded readInlineCommand_bounded by blast+
qed

lemma ReadCommand_enc:
  assumes "request_ok args"
  shows "ReadCommand ReadBufSize (enc_request args @ rest) = (Inr (take_name fresh_Command args), rest)"
proof -
  have "ReadCommand ReadBufSize (enc_request args @ rest) =
      readArrayCommand ReadBufSize fresh_Command (enc_request args @ rest)"
    by (simp add: ReadCommand_def ReadCommandInto_def enc_request_def)
  also have "\<dots> = (Inr (take_name fresh_Command args), rest)"
    using assms by (intro readArrayCommand_enc) (simp_all add: ReadBufSize_def)
  finally show ?thesis .
qed

theorem ReadCommand_bounded_witness:
  "strict_suffix (snd (ReadCommand ReadBufSize (enc_request [Some [71], Some [7, 8]] @ [1])))
     (enc_request [Some [71], Some [7, 8]] @ [1]) \<and>
   int (length (cmd_Args (take_name fresh_Command [Some [71], Some [7, 8]]))) < maxArrayCount \<and>
   list_all bulk_ok (cmd_Args (take_name fresh_Command [Some [71], Some [7, 8]]))"
proof -
  have "request_ok [Some [71], Some [7, 8]]"
    by (simp add: request_ok_def bulk_ok_def maxArrayCount_def defaultProtoMaxBulkLen_def)
  then show ?thesis
    using ReadCommand_bounded [of "enc_request [Some [71], Some [7, 8]] @ [1]"] by (simp add: ReadCommand_enc)
qed

text \<open>
  An inline command, the telnet form of a request, is split at spaces: the command name
  and the arguments are the nonempty fields between single spaces, in order; a line of spaces only
  is a no-op. Exactly the line and its terminator are consumed.
\<close>

theorem ReadCommandInto_inline:
  assumes "LF \<notin> set line" "length line + 2 \<le> n" "line \<noteq> []" "hd line \<noteq> RESPArray"
  shows "ReadCommandInto n cmd (line @ crlf @ rest) =
    (let toks = filter (\<lambda>f. f \<noteq> []) (space_fields line) in
     (Inr (if toks = [] then cmd\<lparr>cmd_Args := [], cmd_Type := ''CmdNoop''\<rparr> else take_name cmd (map Some toks)),
      rest))"
  using assms readLine_crlf [OF assms(1,2), of rest]
  by (cases line) (simp_all add: ReadCommandInto_def readInlineCommand_def inline_tokens_fields Let_def)

theorem ReadCommandInto_inline_witness:
  "ReadCommandInto 64 fresh_Command ([32, 65, 32, 32, 66] @ crlf @ [9]) =
     (Inr (take_name fresh_Command [Some [65], Some [66]]), [9])"
  using ReadCommandInto_inline [of "[32, 65, 32, 32, 66]" 64 fresh_Command "[9]"]
  by (simp add: RESPArray_def Let_def)

end
