(* ===== verification/Resp_Writer.thy ===== *)
theory Resp_Writer
  imports Protocol_Facts Float64
begin

text \<open>
  The RESP reply writer of \<^verbatim>\<open>redis/shared/writer.go\<close> as state passing over the \<^verbatim>\<open>Writer\<close> struct.
  The statistics object is the list of error prefixes passed to \<^verbatim>\<open>Stats.RecordError\<close>, latest first
  (\<open>None\<close> for a nil pointer). \<^verbatim>\<open>strconv.AppendFloat(_, f, 'g', -1, 64)\<close> is the parameter \<open>fmt_g\<close>.
  The reusable scratch buffer is not part of the state.
\<close>

datatype ProtocolVersion = RESP2 | RESP3

record Writer =
  w_buf :: bytes
  w_protocol :: ProtocolVersion
  w_stats :: "bytes list option"
  w_wroteError :: bool
  w_errorCount :: u64
  w_errorStart :: nat
  w_errorEnd :: nat

definition NewWriter :: "bytes \<Rightarrow> Writer" where
  "NewWriter b = \<lparr>w_buf = b, w_protocol = RESP2, w_stats = None, w_wroteError = False,
     w_errorCount = 0, w_errorStart = 0, w_errorEnd = 0\<rparr>"

section \<open>Error tracking\<close>

definition ResetErrorFlag :: "Writer \<Rightarrow> Writer" where
  "ResetErrorFlag w = w\<lparr>w_wroteError := False\<rparr>"

definition recordError :: "nat \<Rightarrow> Writer \<Rightarrow> Writer" where
  "recordError start w =
     w\<lparr>w_wroteError := True, w_errorCount := w_errorCount w + 1,
       w_errorStart := start, w_errorEnd := length (w_buf w)\<rparr>"

definition DiscardPartialReply :: "nat \<Rightarrow> u64 \<Rightarrow> Writer \<Rightarrow> bool \<times> Writer" where
  "DiscardPartialReply start previousErrors w =
     (if w_errorCount w = previousErrors then (False, w)
      else
        let reply = take (w_errorEnd w - w_errorStart w) (drop (w_errorStart w) (w_buf w));
            buf = take start (w_buf w) @ reply
        in (True, w\<lparr>w_buf := buf, w_errorStart := start, w_errorEnd := length buf\<rparr>))"

definition put :: "bytes \<Rightarrow> Writer \<Rightarrow> Writer" where
  "put b w = w\<lparr>w_buf := w_buf w @ b\<rparr>"

definition writeErrorReply :: "bytes \<Rightarrow> Writer \<Rightarrow> Writer" where
  "writeErrorReply reply w = recordError (length (w_buf w)) (put reply w)"

definition SetProtocol :: "ProtocolVersion \<Rightarrow> Writer \<Rightarrow> Writer" where
  "SetProtocol p w = w\<lparr>w_protocol := p\<rparr>"

definition RecordError :: "bytes \<Rightarrow> Writer \<Rightarrow> Writer" where
  "RecordError pre w = w\<lparr>w_stats := map_option (\<lambda>log. pre # log) (w_stats w)\<rparr>"

section \<open>Replies\<close>

definition WriteRaw :: "bytes \<Rightarrow> Writer \<Rightarrow> Writer" where
  "WriteRaw data = put data"

definition WriteSimpleString :: "bytes \<Rightarrow> Writer \<Rightarrow> Writer" where
  "WriteSimpleString s = put (bstr ''+'' @ s @ crlf)"

definition error_prefix :: "bytes \<Rightarrow> bytes" where
  "error_prefix msg =
     (let i = length (takeWhile (\<lambda>c. c \<noteq> 32) msg)
      in if i < length msg \<and> i > 0 then take i msg else msg)"

definition WriteError :: "bytes \<Rightarrow> Writer \<Rightarrow> Writer" where
  "WriteError msg w = RecordError (error_prefix msg) (writeErrorReply (bstr ''-'' @ msg @ crlf) w)"

definition WriteErrorf :: "bytes \<Rightarrow> Writer \<Rightarrow> Writer" where
  "WriteErrorf format w = RecordError (bstr ''ERR'') (writeErrorReply (bstr ''-ERR '' @ format @ crlf) w)"

definition WriteInteger :: "i64 \<Rightarrow> Writer \<Rightarrow> Writer" where
  "WriteInteger n = put (bstr '':'' @ fmt_int (sint n) @ crlf)"

definition WriteBulkString :: "bytes \<Rightarrow> Writer \<Rightarrow> Writer" where
  "WriteBulkString b = put (RESPBulkString # fmt_int (int (length b)) @ crlf @ b @ crlf)"

definition WriteBulkStringStr :: "bytes \<Rightarrow> Writer \<Rightarrow> Writer" where
  "WriteBulkStringStr s = put (RESPBulkString # fmt_int (int (length s)) @ crlf @ s @ crlf)"

definition nullBulkString :: bytes where "nullBulkString = bstr ''$-1'' @ crlf"
definition nullArray :: bytes where "nullArray = bstr ''*-1'' @ crlf"
definition respOK :: bytes where "respOK = bstr ''+OK'' @ crlf"
definition respPong :: bytes where "respPong = bstr ''+PONG'' @ crlf"
definition respQueued :: bytes where "respQueued = bstr ''+QUEUED'' @ crlf"
definition respZero :: bytes where "respZero = bstr '':0'' @ crlf"
definition respOne :: bytes where "respOne = bstr '':1'' @ crlf"
definition respWrongType :: bytes where
  "respWrongType = bstr ''-WRONGTYPE Operation against a key holding the wrong kind of value'' @ crlf"
definition respNoAuth :: bytes where "respNoAuth = bstr ''-NOAUTH Authentication required.'' @ crlf"
definition respSyntaxError :: bytes where "respSyntaxError = bstr ''-ERR syntax error'' @ crlf"
definition respNotInteger :: bytes where
  "respNotInteger = bstr ''-ERR value is not an integer or out of range'' @ crlf"
definition respOutOfRange :: bytes where "respOutOfRange = bstr ''-ERR index out of range'' @ crlf"
definition resp3Null :: bytes where "resp3Null = bstr ''_'' @ crlf"
definition resp3True :: bytes where "resp3True = bstr ''#t'' @ crlf"
definition resp3False :: bytes where "resp3False = bstr ''#f'' @ crlf"

definition WriteNullBulkString :: "Writer \<Rightarrow> Writer" where
  "WriteNullBulkString w = put (if w_protocol w = RESP3 then resp3Null else nullBulkString) w"

definition WriteNull :: "Writer \<Rightarrow> Writer" where
  "WriteNull w = put (if w_protocol w = RESP3 then resp3Null else nullBulkString) w"

definition WriteDouble :: "(f64 \<Rightarrow> bytes) \<Rightarrow> f64 \<Rightarrow> Writer \<Rightarrow> Writer" where
  "WriteDouble fmt_g f w =
     (if w_protocol w = RESP3 then put (bstr '','' @ fmt_g f @ crlf) w
      else WriteBulkString (fmt_g f) w)"

text \<open>
  The text of a score. \<^verbatim>\<open>f == float64(int64(f))\<close> together with the bounds of 2^53 in absolute value
  holds exactly for whole values in these bounds; both zeros print as 0.
\<close>

definition score_text :: "(f64 \<Rightarrow> bytes) \<Rightarrow> f64 \<Rightarrow> bytes" where
  "score_text fmt_g f =
     (if f64_is_nan f then bstr ''nan''
      else if f64_is_inf f then (if f64_sign f then bstr ''-inf'' else bstr ''inf'')
      else if f64_is_whole f \<and> \<bar>f64_trunc f\<bar> \<le> 9007199254740992 then fmt_int (f64_trunc f)
      else fmt_g f)"

definition WriteScore :: "(f64 \<Rightarrow> bytes) \<Rightarrow> f64 \<Rightarrow> Writer \<Rightarrow> Writer" where
  "WriteScore fmt_g f w =
     (if w_protocol w = RESP3 then put (bstr '','' @ score_text fmt_g f @ crlf) w
      else WriteBulkString (score_text fmt_g f) w)"

definition WriteZero :: "Writer \<Rightarrow> Writer" where "WriteZero = put respZero"
definition WriteOne :: "Writer \<Rightarrow> Writer" where "WriteOne = put respOne"
definition WriteOK :: "Writer \<Rightarrow> Writer" where "WriteOK = put respOK"
definition WritePong :: "Writer \<Rightarrow> Writer" where "WritePong = put respPong"
definition WriteQueued :: "Writer \<Rightarrow> Writer" where "WriteQueued = put respQueued"

definition WriteBoolean :: "bool \<Rightarrow> Writer \<Rightarrow> Writer" where
  "WriteBoolean b w =
     (if w_protocol w = RESP3 then put (if b then resp3True else resp3False) w
      else if b then WriteOne w else WriteZero w)"

definition header :: "string \<Rightarrow> i64 \<Rightarrow> bytes" where
  "header mark count = bstr mark @ fmt_int (sint count) @ crlf"

definition WriteArray :: "i64 \<Rightarrow> Writer \<Rightarrow> Writer" where
  "WriteArray count = put (header ''*'' count)"

definition WriteMap :: "i64 \<Rightarrow> Writer \<Rightarrow> Writer" where
  "WriteMap count w = (if w_protocol w = RESP3 then put (header ''%'' count) w else WriteArray (count * 2) w)"

definition WriteSet :: "i64 \<Rightarrow> Writer \<Rightarrow> Writer" where
  "WriteSet count w = (if w_protocol w = RESP3 then put (header ''~'' count) w else WriteArray count w)"

definition WriteBlobError :: "bytes \<Rightarrow> bytes \<Rightarrow> Writer \<Rightarrow> Writer" where
  "WriteBlobError errType msg w =
     (let fullMsg = errType @ bstr '' '' @ msg in
      if w_protocol w = RESP3
      then writeErrorReply (bstr ''!'' @ fmt_int (int (length fullMsg)) @ crlf @ fullMsg @ crlf) w
      else WriteError fullMsg w)"

definition WriteVerbatimString :: "bytes \<Rightarrow> bytes \<Rightarrow> Writer \<Rightarrow> Writer" where
  "WriteVerbatimString encoding data w =
     (if w_protocol w = RESP3
      then
        let enc = (if length encoding \<noteq> 3 then bstr ''txt'' else encoding)
        in put (bstr ''='' @ fmt_int (int (3 + 1 + length data)) @ crlf @ enc @ bstr '':'' @ data @ crlf) w
      else WriteBulkString data w)"

definition WriteBigNumber :: "bytes \<Rightarrow> Writer \<Rightarrow> Writer" where
  "WriteBigNumber n w =
     (if w_protocol w = RESP3 then put (bstr ''('' @ n @ crlf) w else WriteBulkStringStr n w)"

definition WritePush :: "i64 \<Rightarrow> Writer \<Rightarrow> Writer" where
  "WritePush count = put (header ''>'' count)"

definition WriteAttribute :: "i64 \<Rightarrow> Writer \<Rightarrow> Writer" where
  "WriteAttribute count w = (if w_protocol w = RESP3 then put (header ''|'' count) w else w)"

definition WriteNullArray :: "Writer \<Rightarrow> Writer" where
  "WriteNullArray w = put (if w_protocol w = RESP3 then resp3Null else nullArray) w"

definition WriteWrongType :: "Writer \<Rightarrow> Writer" where "WriteWrongType = writeErrorReply respWrongType"
definition WriteNoAuth :: "Writer \<Rightarrow> Writer" where "WriteNoAuth = writeErrorReply respNoAuth"
definition WriteSyntaxError :: "Writer \<Rightarrow> Writer" where "WriteSyntaxError = writeErrorReply respSyntaxError"
definition WriteNotInteger :: "Writer \<Rightarrow> Writer" where "WriteNotInteger = writeErrorReply respNotInteger"
definition WriteOutOfRange :: "Writer \<Rightarrow> Writer" where "WriteOutOfRange = writeErrorReply respOutOfRange"

definition WriteWrongNumArguments :: "bytes \<Rightarrow> Writer \<Rightarrow> Writer" where
  "WriteWrongNumArguments cmd =
     writeErrorReply (bstr ''-ERR wrong number of arguments for '' @ [39] @ cmd @ [39] @ bstr '' command'' @ crlf)"

definition WriteWrongNumArgs :: "bytes \<Rightarrow> Writer \<Rightarrow> Writer" where
  "WriteWrongNumArgs cmd =
     writeErrorReply (bstr ''-ERR wrong number of args for '' @ [39] @ cmd @ [39] @ bstr '' command'' @ crlf)"

text \<open>The quoted arguments of the unknown-command error: at most three, then an ellipsis.\<close>

fun unknown_args :: "nat \<Rightarrow> bytes list \<Rightarrow> bytes" where
  "unknown_args i [] = []"
| "unknown_args i (arg # args) =
     (if i > 0 then [32] else []) @ [39] @ arg @ [39] @
     (if i \<ge> 2 then bstr ''...'' else unknown_args (Suc i) args)"

definition WriteUnknownCommand :: "bytes \<Rightarrow> bytes list \<Rightarrow> Writer \<Rightarrow> Writer" where
  "WriteUnknownCommand cmd args =
     writeErrorReply (bstr ''-ERR unknown command '' @ [39] @ cmd @ [39] @
       bstr '', with args beginning with: '' @ unknown_args 0 args @ crlf)"

lemmas reply_defs =
  WriteRaw_def WriteSimpleString_def WriteInteger_def WriteBulkString_def WriteBulkStringStr_def
  WriteNullBulkString_def WriteNull_def WriteDouble_def WriteScore_def WriteZero_def WriteOne_def
  WriteOK_def WritePong_def WriteQueued_def WriteBoolean_def WriteArray_def WriteMap_def WriteSet_def
  WriteVerbatimString_def WriteBigNumber_def WritePush_def WriteAttribute_def WriteNullArray_def

lemmas error_defs =
  WriteError_def WriteErrorf_def WriteWrongType_def WriteNoAuth_def WriteSyntaxError_def
  WriteNotInteger_def WriteOutOfRange_def WriteWrongNumArguments_def WriteWrongNumArgs_def
  WriteUnknownCommand_def

section \<open>Sequences of writer calls\<close>

text \<open>
  What a handler does to the writer: reply fragments that only append, and error replies that also
  record their position. Every \<^verbatim>\<open>Write\<close> method is one of the two.
\<close>

datatype wop = Append bytes | Err bytes "bytes option"

definition run_wop :: "wop \<Rightarrow> Writer \<Rightarrow> Writer" where
  "run_wop op w =
     (case op of
        Append b \<Rightarrow> put b w
      | Err b None \<Rightarrow> writeErrorReply b w
      | Err b (Some pre) \<Rightarrow> RecordError pre (writeErrorReply b w))"

definition run_wops :: "wop list \<Rightarrow> Writer \<Rightarrow> Writer" where
  "run_wops ops w = fold run_wop ops w"

fun wop_bytes :: "wop \<Rightarrow> bytes" where
  "wop_bytes (Append b) = b"
| "wop_bytes (Err b _) = b"

fun is_err :: "wop \<Rightarrow> bool" where
  "is_err (Append _) = False"
| "is_err (Err _ _) = True"

lemma append_methods:
  "\<exists>b. WriteRaw data w = run_wop (Append b) w"
  "\<exists>b. WriteSimpleString s w = run_wop (Append b) w"
  "\<exists>b. WriteInteger n w = run_wop (Append b) w"
  "\<exists>b. WriteBulkString data w = run_wop (Append b) w"
  "\<exists>b. WriteBulkStringStr s w = run_wop (Append b) w"
  "\<exists>b. WriteNullBulkString w = run_wop (Append b) w"
  "\<exists>b. WriteNull w = run_wop (Append b) w"
  "\<exists>b. WriteDouble fmt_g f w = run_wop (Append b) w"
  "\<exists>b. WriteScore fmt_g f w = run_wop (Append b) w"
  "\<exists>b. WriteBoolean v w = run_wop (Append b) w"
  "\<exists>b. WriteMap n w = run_wop (Append b) w"
  "\<exists>b. WriteSet n w = run_wop (Append b) w"
  "\<exists>b. WriteArray n w = run_wop (Append b) w"
  "\<exists>b. WriteNullArray w = run_wop (Append b) w"
  "\<exists>b. WriteVerbatimString s data w = run_wop (Append b) w"
  "\<exists>b. WriteBigNumber s w = run_wop (Append b) w"
  "\<exists>b. WritePush n w = run_wop (Append b) w"
  "\<exists>b. WriteAttribute n w = run_wop (Append b) w"
  by (auto simp: reply_defs run_wop_def Let_def put_def intro: exI [of _ "[]"])

lemma error_methods:
  "\<exists>b p. WriteError msg w = run_wop (Err b p) w"
  "\<exists>b p. WriteErrorf msg w = run_wop (Err b p) w"
  "\<exists>b p. WriteBlobError ty msg w = run_wop (Err b p) w"
  "\<exists>b p. WriteWrongType w = run_wop (Err b p) w"
  "\<exists>b p. WriteUnknownCommand cmd args w = run_wop (Err b p) w"
  "\<exists>b p. WriteWrongNumArguments cmd w = run_wop (Err b p) w"
proof -
  have none: "\<exists>b' p. writeErrorReply b w = run_wop (Err b' p) w" for b
    by (rule exI [of _ b], rule exI [of _ None]) (simp add: run_wop_def)
  have some: "\<exists>b' p. RecordError q (writeErrorReply b w) = run_wop (Err b' p) w" for b q
    by (rule exI [of _ b], rule exI [of _ "Some q"]) (simp add: run_wop_def)
  show "\<exists>b p. WriteError msg w = run_wop (Err b p) w"
    "\<exists>b p. WriteErrorf msg w = run_wop (Err b p) w"
    "\<exists>b p. WriteBlobError ty msg w = run_wop (Err b p) w"
    "\<exists>b p. WriteWrongType w = run_wop (Err b p) w"
    "\<exists>b p. WriteUnknownCommand cmd args w = run_wop (Err b p) w"
    "\<exists>b p. WriteWrongNumArguments cmd w = run_wop (Err b p) w"
    unfolding error_defs WriteBlobError_def Let_def by (auto intro: none some)
qed

lemma run_wop_fields [simp]:
  "w_buf (run_wop op w) = w_buf w @ wop_bytes op"
  "w_errorCount (run_wop op w) = w_errorCount w + (if is_err op then 1 else 0)"
  "w_errorStart (run_wop op w) = (if is_err op then length (w_buf w) else w_errorStart w)"
  "w_errorEnd (run_wop op w) = (if is_err op then length (w_buf w) + length (wop_bytes op) else w_errorEnd w)"
  by (cases op; auto simp: run_wop_def put_def writeErrorReply_def recordError_def RecordError_def
      split: option.splits)+

lemma run_wops_fields:
  "w_buf (run_wops ops w) = w_buf w @ concat (map wop_bytes ops)"
  "w_errorCount (run_wops ops w) = w_errorCount w + of_nat (length (filter is_err ops))"
  by (induction ops arbitrary: w) (auto simp: run_wops_def)

text \<open>The recorded interval is the last error written.\<close>

lemma run_wops_last_error:
  assumes "\<not> list_ex is_err post"
  shows "w_errorStart (run_wops (pre @ Err b p # post) w) = length (w_buf w) + length (concat (map wop_bytes pre))"
    and "w_errorEnd (run_wops (pre @ Err b p # post) w) =
           length (w_buf w) + length (concat (map wop_bytes pre)) + length b"
proof -
  have keep: "w_errorStart (run_wops post w') = w_errorStart w' \<and> w_errorEnd (run_wops post w') = w_errorEnd w'" for w'
    using assms by (induction post arbitrary: w') (auto simp: run_wops_def)
  let ?w = "run_wop (Err b p) (run_wops pre w)"
  have split: "run_wops (pre @ Err b p # post) w = run_wops post ?w" by (simp add: run_wops_def)
  show "w_errorStart (run_wops (pre @ Err b p # post) w) = length (w_buf w) + length (concat (map wop_bytes pre))"
    unfolding split using keep [of ?w] by (simp add: run_wops_fields)
  show "w_errorEnd (run_wops (pre @ Err b p # post) w) =
      length (w_buf w) + length (concat (map wop_bytes pre)) + length b"
    unfolding split using keep [of ?w] by (simp add: run_wops_fields)
qed

text \<open>
  When a command fails half-way, only its error reaches the client: after any sequence
  of writer calls whose last error is \<open>b\<close>, \<^verbatim>\<open>DiscardPartialReply\<close> leaves exactly the replies that
  were buffered before the command followed by \<open>b\<close>; without an error it changes nothing. (The
  error counter is 64 bits wide, hence the bound on the number of errors.)
\<close>

theorem DiscardPartialReply_keeps_last_error:
  assumes "\<not> list_ex is_err post" "length (filter is_err pre) < 2 ^ 64 - 1"
  shows "fst (DiscardPartialReply (length (w_buf w)) (w_errorCount w) (run_wops (pre @ Err b p # post) w)) \<and>
    w_buf (snd (DiscardPartialReply (length (w_buf w)) (w_errorCount w) (run_wops (pre @ Err b p # post) w))) =
      w_buf w @ b \<and>
    DiscardPartialReply (length (w_buf w)) (w_errorCount w) (run_wops post w) = (False, run_wops post w)"
proof -
  let ?w = "run_wops (pre @ Err b p # post) w"
  have none: "filter is_err post = []" using assms(1) by (induction post) auto
  have "(of_nat (Suc (length (filter is_err pre))) :: u64) \<noteq> 0"
    using assms(2) by (auto simp: word_of_nat_eq_0_iff simp del: of_nat_Suc dest: dvd_imp_le)
  then have count: "w_errorCount ?w \<noteq> w_errorCount w"
    by (simp add: run_wops_fields none)
  have buf: "w_buf ?w = w_buf w @ concat (map wop_bytes pre) @ b @ concat (map wop_bytes post)"
    by (simp add: run_wops_fields)
  have last: "w_errorStart ?w = length (w_buf w) + length (concat (map wop_bytes pre))"
    "w_errorEnd ?w = length (w_buf w) + length (concat (map wop_bytes pre)) + length b"
    using run_wops_last_error [OF assms(1)] by blast+
  have same: "w_errorCount (run_wops post w) = w_errorCount w"
    by (simp add: run_wops_fields none)
  show ?thesis
    unfolding DiscardPartialReply_def last buf by (simp add: count same)
qed

theorem DiscardPartialReply_keeps_last_error_witness:
  "w_buf (snd (DiscardPartialReply (length (w_buf (NewWriter [1]))) (w_errorCount (NewWriter [1]))
     (run_wops ([Append [2]] @ Err [3, 4] None # [Append [5]]) (NewWriter [1])))) = [1, 3, 4]"
  using DiscardPartialReply_keeps_last_error [of "[Append [5]]" "[Append [2]]" "NewWriter [1]" "[3, 4]" None]
  by (simp add: NewWriter_def)

section \<open>Framing\<close>

text \<open>
  A reply as a tree, the calls that write it, and a reference reader of the protocol, the way a
  client decodes it. Line-based replies must not contain a line feed.
\<close>

datatype reply =
    Simple bytes | Error bytes | Integer i64 | Bulk bytes | Nil | Bool bool
  | Array "reply list" | SetR "reply list"

fun write_reply :: "reply \<Rightarrow> Writer \<Rightarrow> Writer" where
  "write_reply (Simple s) w = WriteSimpleString s w"
| "write_reply (Error s) w = WriteError s w"
| "write_reply (Integer n) w = WriteInteger n w"
| "write_reply (Bulk b) w = WriteBulkString b w"
| "write_reply Nil w = WriteNull w"
| "write_reply (Bool b) w = WriteBoolean b w"
| "write_reply (Array rs) w = fold write_reply rs (WriteArray (of_nat (length rs)) w)"
| "write_reply (SetR rs) w = fold write_reply rs (WriteSet (of_nat (length rs)) w)"

text \<open>Reading a line: the bytes before the first CR LF pair.\<close>

fun split_line :: "bytes \<Rightarrow> (bytes \<times> bytes) option" where
  "split_line (c # d # bs) =
     (if c = CR \<and> d = LF then Some ([], bs)
      else case split_line (d # bs) of None \<Rightarrow> None | Some (l, r) \<Rightarrow> Some (c # l, r))"
| "split_line _ = None"

fun read_reply :: "nat \<Rightarrow> bytes \<Rightarrow> (reply \<times> bytes) option" where
  "read_reply 0 bs = None"
| "read_reply (Suc d) bs =
     (case split_line bs of
        None \<Rightarrow> None
      | Some ([], _) \<Rightarrow> None
      | Some (c # line, rest) \<Rightarrow>
          if c = 43 then Some (Simple line, rest)
          else if c = 45 then Some (Error line, rest)
          else if c = 95 then Some (Nil, rest)
          else if c = 35 then Some (Bool (line = [116]), rest)
          else
            case atoi line of
              None \<Rightarrow> None
            | Some n \<Rightarrow>
                if c = 58 then Some (Integer (of_int n), rest)
                else if c = 36 \<and> n < 0 then Some (Nil, rest)
                else if c = 36 then
                  (if length rest < nat n + 2 then None
                   else Some (Bulk (take (nat n) rest), drop (nat n + 2) rest))
                else if c = 42 \<or> c = 126 then
                  (case decode_many (read_reply d) (nat n) rest of
                     None \<Rightarrow> None
                   | Some (rs, rest') \<Rightarrow> Some (if c = 42 then Array rs else SetR rs, rest'))
                else None)"

text \<open>What a RESP2 client sees: booleans are integers and sets are arrays.\<close>

fun view :: "ProtocolVersion \<Rightarrow> reply \<Rightarrow> reply" where
  "view p (Bool b) = (if p = RESP3 then Bool b else Integer (if b then 1 else 0))"
| "view p (Array rs) = Array (map (view p) rs)"
| "view p (SetR rs) = (if p = RESP3 then SetR (map (view p) rs) else Array (map (view p) rs))"
| "view p r = r"

fun depth :: "reply \<Rightarrow> nat" where
  "depth (Array rs) = Suc (Max (set (0 # map depth rs)))"
| "depth (SetR rs) = Suc (Max (set (0 # map depth rs)))"
| "depth _ = 1"

fun clean :: "reply \<Rightarrow> bool" where
  "clean (Simple s) = (LF \<notin> set s)"
| "clean (Error s) = (LF \<notin> set s)"
| "clean (Bulk b) = (length b < 2 ^ 63)"
| "clean (Array rs) = (length rs < 2 ^ 63 \<and> list_all clean rs)"
| "clean (SetR rs) = (length rs < 2 ^ 63 \<and> list_all clean rs)"
| "clean _ = True"

lemma split_line_crlf: "LF \<notin> set line \<Longrightarrow> split_line (line @ crlf @ rest) = Some (line, rest)"
proof (induction line)
  case (Cons c line)
  then show ?case by (cases line) (auto simp: crlf_def)
qed (simp add: crlf_def)

fun enc_reply :: "ProtocolVersion \<Rightarrow> reply \<Rightarrow> bytes" where
  "enc_reply p (Simple s) = bstr ''+'' @ s @ crlf"
| "enc_reply p (Error s) = bstr ''-'' @ s @ crlf"
| "enc_reply p (Integer n) = bstr '':'' @ fmt_int (sint n) @ crlf"
| "enc_reply p (Bulk b) = RESPBulkString # fmt_int (int (length b)) @ crlf @ b @ crlf"
| "enc_reply p Nil = (if p = RESP3 then resp3Null else nullBulkString)"
| "enc_reply p (Bool b) =
     (if p = RESP3 then if b then resp3True else resp3False else if b then respOne else respZero)"
| "enc_reply p (Array rs) = header ''*'' (of_nat (length rs)) @ concat (map (enc_reply p) rs)"
| "enc_reply p (SetR rs) =
     header (if p = RESP3 then ''~'' else ''*'') (of_nat (length rs)) @ concat (map (enc_reply p) rs)"

lemma put_simps [simp]: "w_buf (put b w) = w_buf w @ b" "w_protocol (put b w) = w_protocol w"
  by (simp_all add: put_def)

lemma write_reply_enc:
  "w_buf (write_reply r w) = w_buf w @ enc_reply (w_protocol w) r \<and> w_protocol (write_reply r w) = w_protocol w"
proof (induction r arbitrary: w)
  case (Array rs)
  have "w_buf (fold write_reply rs w) = w_buf w @ concat (map (enc_reply (w_protocol w)) rs) \<and>
      w_protocol (fold write_reply rs w) = w_protocol w" for w
    using Array by (induction rs arbitrary: w) auto
  then show ?case by (simp add: WriteArray_def)
next
  case (SetR rs)
  have "w_buf (fold write_reply rs w) = w_buf w @ concat (map (enc_reply (w_protocol w)) rs) \<and>
      w_protocol (fold write_reply rs w) = w_protocol w" for w
    using SetR by (induction rs arbitrary: w) auto
  then show ?case by (simp add: WriteSet_def WriteArray_def)
qed (simp_all add: reply_defs WriteError_def RecordError_def writeErrorReply_def recordError_def)

lemma split_header:
  "split_line (header [m] k @ rest) = Some (of_char m # fmt_int (sint k), rest)" if "of_char m \<noteq> LF"
  using split_line_crlf [of "of_char m # fmt_int (sint k)" rest] fmt_int_no_LF [of "sint k"] that
  by (simp add: header_def bstr_def)

lemma decode_many_read:
  assumes "\<And>r rest. r \<in> set rs \<Longrightarrow> dec (enc r @ rest) = Some (f r, rest)"
  shows "decode_many dec (length rs) (concat (map enc rs) @ rest) = Some (map f rs, rest)"
  using assms by (induction rs) simp_all

lemma atoi_length: "k < 2 ^ 63 \<Longrightarrow> atoi (fmt_int (sint (of_nat k :: i64))) = Some (int k)"
  by (simp add: sint_of_nat_small atoi_fmt_int)

lemma read_reply_line:
  assumes "LF \<notin> set line" "c \<noteq> LF"
  shows "split_line ((c # line) @ crlf @ rest) = Some (c # line, rest)"
  using assms by (intro split_line_crlf) simp

lemma depth_member: "r \<in> set rs \<Longrightarrow> Suc (Max (set (0 # map depth rs))) \<le> Suc d \<Longrightarrow> depth r \<le> d"
  by (auto simp: Max_ge_iff dest: Max_ge [rotated])

lemma read_reply_aggregate:
  assumes "\<And>r rest. r \<in> set rs \<Longrightarrow> read_reply d (enc_reply p r @ rest) = Some (view p r, rest)"
    and "length rs < 2 ^ 63" "m = CHR ''*'' \<or> m = CHR ''~''"
  shows "read_reply (Suc d) (header [m] (of_nat (length rs)) @ concat (map (enc_reply p) rs) @ rest) =
    Some ((if m = CHR ''*'' then Array else SetR) (map (view p) rs), rest)"
proof -
  let ?body = "concat (map (enc_reply p) rs) @ rest"
  have "decode_many (read_reply d) (length rs) ?body = Some (map (view p) rs, rest)"
    using assms(1) by (rule decode_many_read)
  moreover have "split_line (header [m] (of_nat (length rs)) @ ?body) =
      Some (of_char m # fmt_int (sint (of_nat (length rs) :: i64)), ?body)"
    using assms(3) by (intro split_header) (auto simp: of_char_def)
  ultimately show ?thesis
    using assms(2,3) by (auto simp: atoi_length of_char_def)
qed

lemma read_reply_enc: "clean r \<Longrightarrow> depth r \<le> d \<Longrightarrow> read_reply d (enc_reply p r @ rest) = Some (view p r, rest)"
proof (induction r arbitrary: d rest)
  case (Simple s)
  then show ?case
    using read_reply_line [of s 43 rest] by (cases d) (simp_all add: bytes_simps)
next
  case (Error s)
  then show ?case
    using read_reply_line [of s 45 rest] by (cases d) (simp_all add: bytes_simps)
next
  case (Integer n)
  then show ?case
    using read_reply_line [of "fmt_int (sint n)" 58 rest] sint64_range [of n]
    by (cases d) (simp_all add: bytes_simps fmt_int_no_LF atoi_fmt_int)
next
  case (Bulk b)
  then have "split_line (RESPBulkString # fmt_int (int (length b)) @ crlf @ b @ crlf @ rest) =
      Some (RESPBulkString # fmt_int (int (length b)), b @ crlf @ rest)"
    using read_reply_line [of "fmt_int (int (length b))" 36 "b @ crlf @ rest"]
    by (simp add: RESPBulkString_def fmt_int_no_LF)
  with Bulk show ?case
    by (cases d) (simp_all add: atoi_fmt_int RESPBulkString_def crlf_def)
next
  case Nil
  then show ?case
    using read_reply_line [of "[]" 95 rest] read_reply_line [of "[45, 49]" 36 rest]
    by (cases d) (simp_all add: resp3Null_def nullBulkString_def bytes_simps atoi_def dec_val_def dec_step_def is_digit_def)
next
  case (Bool b)
  then show ?case
    using read_reply_line [of "[116]" 35 rest] read_reply_line [of "[102]" 35 rest]
      read_reply_line [of "[49]" 58 rest] read_reply_line [of "[48]" 58 rest]
    by (cases d) (simp_all add: resp3True_def resp3False_def respOne_def respZero_def bytes_simps
        atoi_def dec_val_def dec_step_def is_digit_def)
next
  case (Array rs)
  then obtain d' where "d = Suc d'" by (cases d) auto
  moreover have "\<And>r rest. r \<in> set rs \<Longrightarrow> read_reply d' (enc_reply p r @ rest) = Some (view p r, rest)"
    using Array calculation by (auto simp: list_all_iff dest: depth_member)
  ultimately show ?case
    using Array.prems read_reply_aggregate [of rs d' p "CHR ''*''" rest] by simp
next
  case (SetR rs)
  then obtain d' where "d = Suc d'" by (cases d) auto
  moreover have "\<And>r rest. r \<in> set rs \<Longrightarrow> read_reply d' (enc_reply p r @ rest) = Some (view p r, rest)"
    using SetR calculation by (auto simp: list_all_iff dest: depth_member)
  ultimately show ?case
    using SetR.prems read_reply_aggregate [of rs d' p "CHR ''*''" rest]
      read_reply_aggregate [of rs d' p "CHR ''~''" rest] by (cases p) simp_all
qed

text \<open>
  Claim C25. Replies are self-delimiting in both protocol versions: the bytes that the writer
  appends for a reply tree are read back by a RESP client as that tree (booleans and sets in their
  RESP2 form under RESP2), and reading stops exactly where the next reply starts.
\<close>

theorem write_reply_framed:
  assumes "clean r" "depth r \<le> d"
  shows "\<exists>bs. w_buf (write_reply r w) = w_buf w @ bs \<and>
    read_reply d (bs @ rest) = Some (view (w_protocol w) r, rest)"
  using write_reply_enc [of r w] read_reply_enc [OF assms] by blast

theorem write_reply_framed_witness:
  "\<exists>bs. w_buf (write_reply (Array [Bulk [104], Nil, SetR [Bool True]]) (NewWriter [])) = [] @ bs \<and>
     read_reply 3 (bs @ [1]) = Some (Array [Bulk [104], Nil, Array [Integer 1]], [1])"
  using write_reply_framed [of "Array [Bulk [104], Nil, SetR [Bool True]]" 3 "NewWriter []" "[1]"]
  by (simp add: NewWriter_def)

text \<open>
  The unknown-command error copies the client's arguments into a line-based reply
  without escaping them. An argument with a line break ends the reply early: the client sees the
  error followed by a second reply of the sender's choosing.
\<close>

theorem WriteUnknownCommand_splits:
  "\<exists>e. read_reply 1 (w_buf (WriteUnknownCommand (bstr ''unknown'') [crlf @ x] (NewWriter []))) =
     Some (Error e, x @ [39] @ crlf)"
proof -
  let ?e = "bstr ''ERR unknown command '' @ [39] @ bstr ''unknown'' @ [39] @
    bstr '', with args beginning with: '' @ [39]"
  have "w_buf (WriteUnknownCommand (bstr ''unknown'') [crlf @ x] (NewWriter [])) =
      (45 # ?e) @ crlf @ x @ [39] @ crlf"
    by (simp add: WriteUnknownCommand_def writeErrorReply_def recordError_def NewWriter_def bytes_simps)
  moreover have "split_line ((45 # ?e) @ crlf @ x @ [39] @ crlf) = Some (45 # ?e, x @ [39] @ crlf)"
    by (rule read_reply_line) (simp_all add: bytes_simps)
  ultimately show ?thesis by simp
qed

end
