(* ===== verification/Acl_Handlers.thy ===== *)
theory Acl_Handlers
  imports Acl_Facts Resp_Writer
begin

text \<open>
  The \<^verbatim>\<open>ACL\<close> subcommands of \<^verbatim>\<open>redis/acl_handlers.go\<close> as functions of the manager and the writer.
  \<open>names\<close> is the key list of the user map in sorted order (\<^verbatim>\<open>GetUsers\<close> followed by \<^verbatim>\<open>sort.Strings\<close>),
  \<open>cats\<close> and \<open>cmds\<close> are the iteration orders of a user's maps, \<open>hashErr\<close> is the text of a \<^verbatim>\<open>bcrypt\<close>
  error. Names that \<^verbatim>\<open>strings.ToUpper\<close> produces are exact in error texts for ASCII names only.
  \<^verbatim>\<open>GENPASS\<close>, which draws random bytes, and \<^verbatim>\<open>HELP\<close> are not modelled.
\<close>

section \<open>Replies\<close>

fun rule_error_text :: "bytes \<Rightarrow> rule_error \<Rightarrow> bytes" where
  "rule_error_text hashErr HashFailed = bstr ''failed to hash password: '' @ hashErr"
| "rule_error_text hashErr (UnknownCategory c) = bstr ''unknown category: '' @ c"
| "rule_error_text hashErr (UnknownCommand c) = bstr ''unknown command: '' @ c"
| "rule_error_text hashErr (UnknownRule r) = bstr ''unknown ACL rule: '' @ r"
| "rule_error_text hashErr InvalidLine = bstr ''invalid ACL line: must start with '' @ [39] @ bstr ''user'' @ [39]"

definition acl_error_text :: "acl_error \<Rightarrow> bytes" where
  "acl_error_text e =
     (case e of
        ErrUserNotFound \<Rightarrow> bstr ''ERR User not found''
      | ErrUserDisabled \<Rightarrow> bstr ''WRONGPASS invalid username-password pair or user is disabled''
      | ErrWrongPassword \<Rightarrow> bstr ''WRONGPASS invalid username-password pair or user is disabled''
      | ErrNoPermission \<Rightarrow> bstr ''NOPERM this user has no permissions to run the command''
      | ErrNoKeyPermission \<Rightarrow> bstr ''NOPERM this user has no permissions to access one of the keys''
      | ErrNoChanPermission \<Rightarrow> bstr ''NOPERM this user has no permissions to access one of the channels'')"

definition arity_error :: "string \<Rightarrow> Writer \<Rightarrow> Writer" where
  "arity_error cmd = WriteError (bstr ''ERR wrong number of arguments for '' @ [39] @ bstr cmd @ [39] @ bstr '' command'')"

definition write_bulks :: "bytes list \<Rightarrow> Writer \<Rightarrow> Writer" where
  "write_bulks bs w = fold WriteBulkStringStr bs (WriteArray (of_nat (length bs)) w)"

section \<open>Users\<close>

definition handleAclSetUser ::
  "(bytes \<Rightarrow> bytes option) \<Rightarrow> (bytes \<Rightarrow> bytes \<Rightarrow> bool) \<Rightarrow> bytes \<Rightarrow> bytes list \<Rightarrow> ACLManager \<times> Writer \<Rightarrow> ACLManager \<times> Writer" where
  "handleAclSetUser hash cmp hashErr args st =
     (case st of (m, w) \<Rightarrow>
      if length args < 2 then (m, arity_error ''acl|setuser'' w)
      else
        let username = args ! 1;
            user = (case m_users m username of Some u \<Rightarrow> u | None \<Rightarrow> empty_user username);
            (err, user') = applyACLRules hash cmp user (drop 2 args);
            m' = m\<lparr>m_users := (m_users m)(username \<mapsto> user')\<rparr>
        in case err of
             Some e \<Rightarrow> (m', WriteError (bstr ''ERR '' @ rule_error_text hashErr e) w)
           | None \<Rightarrow> (m', WriteOK w))"

fun delete_users :: "bytes list \<Rightarrow> nat \<Rightarrow> ACLManager \<Rightarrow> nat \<times> ACLManager" where
  "delete_users [] count m = (count, m)"
| "delete_users (username # args) count m =
     (if username = defaultUsername then delete_users args count m
      else case DeleteUser username m of
             (True, m') \<Rightarrow> delete_users args (Suc count) m'
           | (False, m') \<Rightarrow> delete_users args count m')"

definition handleAclDelUser :: "bytes list \<Rightarrow> ACLManager \<times> Writer \<Rightarrow> ACLManager \<times> Writer" where
  "handleAclDelUser args st =
     (case st of (m, w) \<Rightarrow>
      if length args < 2 then (m, arity_error ''acl|deluser'' w)
      else case delete_users (drop 1 args) 0 m of (count, m') \<Rightarrow> (m', WriteInteger (of_nat count) w))"

definition getFlags :: "ACLUser \<Rightarrow> bytes list" where
  "getFlags u =
     (if u_Enabled u then [bstr ''on''] else [bstr ''off'']) @
     (if u_AllKeys u then [bstr ''allkeys''] else []) @
     (if u_AllChannels u then [bstr ''allchannels''] else []) @
     (if u_AllCommands u then [bstr ''allcommands''] else []) @
     (if u_NoPass u then [bstr ''nopass''] else if u_PasswordHashes u = [] then [bstr ''nopass''] else [])"

record user_info =
  i_flags :: "bytes list"
  i_passwords :: "bytes list"
  i_commands :: bytes
  i_keys :: "bytes list"
  i_channels :: "bytes list"

definition GetUserForDisplay ::
  "(CommandCategory \<times> bool) list \<Rightarrow> (CommandType \<times> bool) list \<Rightarrow> ACLUser \<Rightarrow> user_info" where
  "GetUserForDisplay cats cmds u =
     \<lparr>i_flags = getFlags u,
      i_passwords = u_PasswordHashes u,
      i_commands =
        (if u_AllCommands u then bstr ''+@all''
         else join_space
           (map (\<lambda>(cat, allowed). bstr (if allowed then ''+@'' else ''-@'') @ GetCategoryName cat) cats @
            map (\<lambda>(cmd, allowed). bstr (if allowed then ''+'' else ''-'') @ CommandType_String cmd) cmds)),
      i_keys = (if u_AllKeys u then [bstr ''~*''] else map key_pattern_rule (u_KeyPatterns u)),
      i_channels = (if u_AllChannels u then [bstr ''&*''] else map (\<lambda>cp. bstr ''&'' @ cp) (u_ChannelPatterns u))\<rparr>"

definition handleAclGetUser ::
  "(ACLUser \<Rightarrow> (CommandCategory \<times> bool) list) \<Rightarrow> (ACLUser \<Rightarrow> (CommandType \<times> bool) list) \<Rightarrow>
     ProtocolVersion \<Rightarrow> bytes list \<Rightarrow> ACLManager \<times> Writer \<Rightarrow> ACLManager \<times> Writer" where
  "handleAclGetUser cats cmds protocol args st =
     (case st of (m, w) \<Rightarrow>
      if length args \<noteq> 2 then (m, arity_error ''acl|getuser'' w)
      else
        case m_users m (args ! 1) of
          None \<Rightarrow> (m, WriteNullBulkString w)
        | Some user \<Rightarrow>
            let info = GetUserForDisplay (cats user) (cmds user) user;
                w1 = (if protocol = RESP3 then WriteMap 5 w else WriteArray 10 w);
                w2 = write_bulks (i_flags info) (WriteBulkStringStr (bstr ''flags'') w1);
                w3 = write_bulks (i_passwords info) (WriteBulkStringStr (bstr ''passwords'') w2);
                w4 = WriteBulkStringStr (i_commands info) (WriteBulkStringStr (bstr ''commands'') w3);
                w5 = write_bulks (i_keys info) (WriteBulkStringStr (bstr ''keys'') w4);
                w6 = write_bulks (i_channels info) (WriteBulkStringStr (bstr ''channels'') w5)
            in (m, w6))"

definition handleAclUsers :: "bytes list \<Rightarrow> ACLManager \<times> Writer \<Rightarrow> ACLManager \<times> Writer" where
  "handleAclUsers names st = (case st of (m, w) \<Rightarrow> (m, write_bulks names w))"

definition handleAclList ::
  "(ACLUser \<Rightarrow> (CommandCategory \<times> bool) list) \<Rightarrow> (ACLUser \<Rightarrow> (CommandType \<times> bool) list) \<Rightarrow>
     bytes list \<Rightarrow> ACLManager \<times> Writer \<Rightarrow> ACLManager \<times> Writer" where
  "handleAclList cats cmds names st =
     (case st of (m, w) \<Rightarrow>
      (m, fold (\<lambda>n w. case m_users m n of
                        None \<Rightarrow> w
                      | Some u \<Rightarrow> WriteBulkStringStr (formatUserRule (cats u) (cmds u) u) w)
            names (WriteArray (of_nat (length names)) w)))"

definition handleAclWhoami :: "ACLUser option \<Rightarrow> ACLManager \<times> Writer \<Rightarrow> ACLManager \<times> Writer" where
  "handleAclWhoami user st =
     (case st of (m, w) \<Rightarrow>
      (m, WriteBulkStringStr (case user of None \<Rightarrow> defaultUsername | Some u \<Rightarrow> u_Name u) w))"

section \<open>Log, load and dry run\<close>

text \<open>\<open>age\<close> is the text of \<^verbatim>\<open>entry.AgeSeconds\<close> with three decimals.\<close>

definition writeACLLogEntry :: "(ACLLogEntry \<Rightarrow> bytes) \<Rightarrow> ACLLogEntry \<Rightarrow> Writer \<Rightarrow> Writer" where
  "writeACLLogEntry age e w =
     (let w1 = WriteInteger (of_nat (le_Count e)) (WriteBulkStringStr (bstr ''count'') (WriteMap 8 w));
          w2 = WriteBulkStringStr (le_Reason e) (WriteBulkStringStr (bstr ''reason'') w1);
          w3 = WriteBulkStringStr (le_Context e) (WriteBulkStringStr (bstr ''context'') w2);
          w4 = WriteBulkStringStr (le_Object e) (WriteBulkStringStr (bstr ''object'') w3);
          w5 = WriteBulkStringStr (le_Username e) (WriteBulkStringStr (bstr ''username'') w4);
          w6 = WriteBulkStringStr (age e) (WriteBulkStringStr (bstr ''age-seconds'') w5);
          w7 = WriteBulkStringStr (le_ClientInfo e) (WriteBulkStringStr (bstr ''client-info'') w6)
      in WriteInteger (of_nat (le_EntryID e)) (WriteBulkStringStr (bstr ''entry-id'') w7))"

definition writeACLLogEntries :: "(ACLLogEntry \<Rightarrow> bytes) \<Rightarrow> ACLLogEntry list \<Rightarrow> Writer \<Rightarrow> Writer" where
  "writeACLLogEntries age entries w =
     fold (writeACLLogEntry age) entries (WriteArray (of_nat (length entries)) w)"

definition handleAclLog ::
  "(ACLLogEntry \<Rightarrow> bytes) \<Rightarrow> bytes list \<Rightarrow> ACLManager \<times> Writer \<Rightarrow> ACLManager \<times> Writer" where
  "handleAclLog age args st =
     (case st of (m, w) \<Rightarrow>
      if length args \<ge> 2 then
        (if str_upper (args ! 1) = bstr ''RESET'' then (ResetLog m, WriteOK w)
         else case atoi (args ! 1) of
                None \<Rightarrow> (m, WriteError (bstr ''ERR invalid count argument'') w)
              | Some count \<Rightarrow> (m, writeACLLogEntries age (GetLog count m) w))
      else (m, writeACLLogEntries age (GetLog 10 m) w))"

text \<open>
  \<^verbatim>\<open>ACL DRYRUN\<close>: \<open>keys\<close> and \<open>isWrite\<close> are the key extraction and the write flag of the registry entry.
\<close>

definition handleAclDryrun ::
  "(CommandType \<Rightarrow> bytes list \<Rightarrow> bytes list) \<Rightarrow> (CommandType \<Rightarrow> bool) \<Rightarrow> bytes list \<Rightarrow>
     ACLManager \<times> Writer \<Rightarrow> ACLManager \<times> Writer" where
  "handleAclDryrun keys isWrite args st =
     (case st of (m, w) \<Rightarrow>
      if length args < 3 then (m, arity_error ''acl|dryrun'' w)
      else
        case m_users m (args ! 1) of
          None \<Rightarrow> (m, WriteError (bstr ''ERR User '' @ [39] @ args ! 1 @ [39] @ bstr '' not found'') w)
        | Some user \<Rightarrow>
            let cmdName = str_upper (args ! 2) in
            case LookupCommandName cmdName of
              None \<Rightarrow> (m, WriteError (bstr ''ERR unknown command '' @ [39] @ cmdName @ [39]) w)
            | Some cmdType \<Rightarrow>
                case CheckCommand (Some user) cmdType of
                  Some e \<Rightarrow> (m, WriteBulkStringStr (acl_error_text e) w)
                | None \<Rightarrow>
                    if list_ex (\<lambda>key. CheckKey (Some user) key (isWrite cmdType) \<noteq> None) (keys cmdType (drop 3 args))
                    then (m, WriteBulkStringStr (acl_error_text ErrNoKeyPermission) w)
                    else (m, WriteOK w))"

section \<open>What the commands keep and change\<close>

definition users_ok :: "ACLManager \<Rightarrow> bool" where
  "users_ok m \<longleftrightarrow>
     m_users m defaultUsername \<noteq> None \<and>
     (\<forall>n u. m_users m n = Some u \<longrightarrow> u_Name u = n \<and> acl_wf u)"

lemma empty_user_name [simp]: "u_Name (empty_user n) = n"
  by (simp add: empty_user_def)

lemma rule_names:
  "keyword_rule low u = Some u' \<Longrightarrow> u_Name u' = u_Name u"
  "category_rule b c u = Inr u' \<Longrightarrow> u_Name u' = u_Name u"
  "command_rule b c u = Inr u' \<Longrightarrow> u_Name u' = u_Name u"
  "u_Name (add_pattern p ty u) = u_Name u"
  by (auto simp: keyword_rule_def reset_user_def category_rule_def command_rule_def add_pattern_def Let_def
      split: option.splits if_splits prod.splits)

lemma applyACLRule_name: "applyACLRule hash cmp u rule = Inr u' \<Longrightarrow> u_Name u' = u_Name u"
  by (auto simp: applyACLRule_def Let_def rule_names split: option.splits if_splits)

lemma applyACLRules_keeps:
  "acl_wf u \<Longrightarrow> acl_wf (snd (applyACLRules hash cmp u rules)) \<and> u_Name (snd (applyACLRules hash cmp u rules)) = u_Name u"
proof (induction rules arbitrary: u)
  case (Cons rule rules)
  show ?case
  proof (cases "applyACLRule hash cmp u rule")
    case (Inr u')
    then show ?thesis
      using Cons.IH [OF applyACLRule_wf [OF Inr Cons.prems]] applyACLRule_name [OF Inr] by simp
  qed (use Cons.prems in simp)
qed simp

lemma SetUser_users_ok:
  assumes "users_ok m"
  shows "users_ok (fst (handleAclSetUser hash cmp hashErr args (m, w)))"
proof (cases "length args < 2")
  case False
  define user where "user = (case m_users m (args ! 1) of Some u \<Rightarrow> u | None \<Rightarrow> empty_user (args ! 1))"
  obtain err user' where e: "applyACLRules hash cmp user (drop 2 args) = (err, user')" by fastforce
  have "acl_wf user \<and> u_Name user = args ! 1"
    using assms by (cases "m_users m (args ! 1)") (simp_all add: user_def users_ok_def)
  then have "acl_wf user' \<and> u_Name user' = args ! 1"
    using applyACLRules_keeps [of user hash cmp "drop 2 args"] e by auto
  moreover have "fst (handleAclSetUser hash cmp hashErr args (m, w)) = m\<lparr>m_users := (m_users m)(args ! 1 \<mapsto> user')\<rparr>"
    using False e by (simp add: handleAclSetUser_def user_def Let_def split: option.splits)
  ultimately show ?thesis using assms by (auto simp: users_ok_def)
qed (use assms in \<open>simp add: handleAclSetUser_def\<close>)

lemma delete_users_spec:
  "delete_users ns count m =
     (count + card ((set ns - {defaultUsername}) \<inter> dom (m_users m)),
      m\<lparr>m_users := m_users m |` (- (set ns - {defaultUsername}))\<rparr>)"
proof (induction ns arbitrary: count m)
  case (Cons n ns)
  let ?N = "set ns - {defaultUsername}"
  consider "n = defaultUsername" | "n \<noteq> defaultUsername" "m_users m n = None"
    | "n \<noteq> defaultUsername" "m_users m n \<noteq> None" by blast
  then show ?case
  proof cases
    case 1
    then show ?thesis using Cons by simp
  next
    case 2
    have "m_users m |` (- (set (n # ns) - {defaultUsername})) = m_users m |` (- ?N)"
      using 2 by (auto simp: restrict_map_def fun_eq_iff)
    moreover have "(set (n # ns) - {defaultUsername}) \<inter> dom (m_users m) = ?N \<inter> dom (m_users m)" using 2 by auto
    moreover have "delete_users (n # ns) count m = delete_users ns count m" using 2 by (simp add: DeleteUser_def)
    ultimately show ?thesis using Cons.IH [of count m] by (simp only:)
  next
    case 3
    let ?m = "m\<lparr>m_users := (m_users m)(n := None)\<rparr>"
    have users: "m_users ?m |` (- ?N) = m_users m |` (- (set (n # ns) - {defaultUsername}))"
      using 3 by (auto simp: restrict_map_def fun_eq_iff)
    have "(set (n # ns) - {defaultUsername}) \<inter> dom (m_users m) = insert n (?N \<inter> dom (m_users ?m))"
      using 3 by auto
    then have card: "card ((set (n # ns) - {defaultUsername}) \<inter> dom (m_users m)) = Suc (card (?N \<inter> dom (m_users ?m)))"
      by (simp only:) (simp add: card_insert_if)
    have step: "delete_users (n # ns) count m = delete_users ns (Suc count) ?m" using 3 by (simp add: DeleteUser_def)
    show ?thesis unfolding step Cons.IH [of "Suc count" ?m] users card by simp
  qed
qed (simp add: restrict_map_def)

text \<open>
  Claim C26. \<^verbatim>\<open>ACL SETUSER\<close> and \<^verbatim>\<open>ACL DELUSER\<close> keep the user table in order, whatever their arguments:
  the default user exists, every user is stored under its own name, and every user is well-formed.
\<close>

theorem acl_commands_keep_users_ok:
  assumes "users_ok m"
  shows "users_ok (fst (handleAclSetUser hash cmp hashErr args (m, w))) \<and>
    users_ok (fst (handleAclDelUser args (m, w)))"
proof -
  have "users_ok (fst (handleAclDelUser args (m, w)))"
    using assms by (auto simp: handleAclDelUser_def delete_users_spec users_ok_def restrict_map_def split: if_splits)
  with SetUser_users_ok [OF assms] show ?thesis by blast
qed

theorem acl_commands_keep_users_ok_witness:
  "users_ok (fst (handleAclSetUser (\<lambda>_. None) (\<lambda>_ _. False) [] [bstr ''SETUSER'', [97], bstr ''on''] (NewACLManager, NewWriter [])))"
proof -
  have "users_ok NewACLManager"
    by (simp add: users_ok_def NewACLManager_def) (simp add: default_user_def empty_user_def)
  from acl_commands_keep_users_ok [OF this] show ?thesis by blast
qed

text \<open>
  \<^verbatim>\<open>ACL DELUSER\<close> removes exactly the named users other than the default user, and replies
  with the number of users that existed, each counted once even when named twice.
\<close>

theorem handleAclDelUser_exact:
  assumes "2 \<le> length args"
  shows "let N = set (drop 1 args) - {defaultUsername} in
    handleAclDelUser args (m, w) =
      (m\<lparr>m_users := m_users m |` (- N)\<rparr>, WriteInteger (of_nat (card (N \<inter> dom (m_users m)))) w)"
  using assms by (simp add: handleAclDelUser_def delete_users_spec Let_def)

theorem handleAclDelUser_exact_witness:
  "handleAclDelUser [[1], [97], [97]] (NewACLManager, NewWriter []) =
     (NewACLManager\<lparr>m_users := m_users NewACLManager |` (- {[97]})\<rparr>, WriteInteger 0 (NewWriter []))"
proof -
  have "[97] \<noteq> defaultUsername" by (simp add: defaultUsername_def bytes_simps)
  then show ?thesis
    using handleAclDelUser_exact [of "[[1], [97], [97]]" NewACLManager "NewWriter []"]
    by (simp add: Let_def NewACLManager_def insert_Diff_if)
qed

text \<open>
  \<^verbatim>\<open>ACL SETUSER\<close> is not atomic: when a rule is refused, the reply is an error, but the rules
  before it have taken effect, for an existing user or for one created by the failing command.
\<close>

theorem failed_setuser_grants:
  "\<exists>m' w' u. handleAclSetUser hash cmp hashErr
       [bstr ''SETUSER'', n, bstr ''on'', bstr ''allcommands'', bstr ''allkeys'', bstr ''bogus''] (m, w) = (m', w') \<and>
     w_wroteError w' \<and> m_users m' n = Some u \<and> u_Enabled u \<and> u_AllCommands u \<and> u_AllKeys u"
  by (simp add: handleAclSetUser_def applyACLRule_def keyword_rule_def bytes_simps WriteError_def RecordError_def
      writeErrorReply_def recordError_def)

text \<open>
  \<^verbatim>\<open>ACL GETUSER\<close> reports the flag \<^verbatim>\<open>nopass\<close> for a user without passwords who was never
  given it, although such a user cannot authenticate with any password.
\<close>

theorem nopass_flag_without_nopass:
  "bstr ''nopass'' \<in> set (getFlags ((empty_user n)\<lparr>u_Enabled := True\<rparr>)) \<and>
   Authenticate cmp (m\<lparr>m_users := [n \<mapsto> (empty_user n)\<lparr>u_Enabled := True\<rparr>]\<rparr>) n pw = Inl ErrWrongPassword"
  by (simp add: getFlags_def empty_user_def Authenticate_def)

end
