(* ===== verification/Server.thy ===== *)
theory Server
  imports Resp_Writer
begin

text \<open>
  The connection loop of \<^verbatim>\<open>redis/server.go\<close> (\<^verbatim>\<open>handleConnection\<close>): the reader goroutine that turns
  the input into a queue of results, and the executor that runs them and decides when the buffered
  replies are flushed. Command execution (\<^verbatim>\<open>ExecuteInto\<close>) is a parameter here, a function of the
  connection state and the command; so is \<^verbatim>\<open>Parser.Buffered() > 0\<close>, which depends on how the input is
  cut into packets. Timeouts, TLS, write failures, tracing and the delivery of pub/sub messages are
  not modelled.
\<close>

section \<open>The reader goroutine\<close>

datatype readResult = RCmd Command bool | RProtocolErr | RQuit

lemma ReadCommandInto_shorter:
  assumes "ReadCommandInto n cmd inp = (r, rest)" "r \<noteq> Inl io_EOF" "r \<noteq> Inl ErrLineTooLong"
  shows "length rest < length inp"
proof -
  have ne: "inp \<noteq> []" using assms by (auto simp: ReadCommandInto_def)
  have n: "n > 0"
  proof (rule ccontr)
    assume "\<not> n > 0"
    then have "readLine n inp = (Inl ErrLineTooLong, inp)" by (simp add: readLine_def ReadSlice_def)
    with assms ne show False
      by (auto simp: ReadCommandInto_def readArrayCommand_def readInlineCommand_def split: list.splits if_splits)
  qed
  show ?thesis
    using ReadCommandInto_strict [OF n ne, of cmd] assms(1)
    by (auto simp: strict_suffix_def suffix_def)
qed

function reader_loop :: "nat \<Rightarrow> (bytes \<Rightarrow> bool) \<Rightarrow> bytes \<Rightarrow> readResult list" where
  "reader_loop n buffered inp =
     (case ReadCommandInto n fresh_Command inp of
        (Inl e, rest) \<Rightarrow>
          if e = io_EOF then []
          else if e = ErrLineTooLong then []
          else RProtocolErr # reader_loop n buffered rest
      | (Inr cmd, rest) \<Rightarrow>
          if cmd_Type cmd = ''CmdQuit'' then [RQuit]
          else RCmd cmd (buffered rest) # reader_loop n buffered rest)"
  by pat_completeness auto
termination
  by (relation "measure (\<lambda>(n, buffered, inp). length inp)") (auto dest: ReadCommandInto_shorter [OF sym])

declare reader_loop.simps [simp del]

section \<open>The executor\<close>

definition isBlockingCommand :: "CommandType \<Rightarrow> bool" where
  "isBlockingCommand cmd \<longleftrightarrow>
     cmd \<in> set [''CmdBLPop'', ''CmdBRPop'', ''CmdBLMPop'', ''CmdBLMove'', ''CmdBRPopLPush'',
                ''CmdBZPopMin'', ''CmdBZPopMax'', ''CmdBZMPop'']"

text \<open>
  The state of the executor: the connection state \<open>x_conn\<close> that \<^verbatim>\<open>ExecuteInto\<close> reads and updates, the
  bytes already sent, the bytes in the \<^verbatim>\<open>bufio.Writer\<close> and the flag \<^verbatim>\<open>pendingWrites\<close>.
\<close>

record 's executor =
  x_conn :: 's
  x_sent :: bytes
  x_buf :: bytes
  x_pending :: bool

text \<open>\<^verbatim>\<open>bufio.Writer.Write\<close> and \<^verbatim>\<open>Flush\<close> with a buffer of \<open>cap\<close> bytes.\<close>

definition bufio_Write :: "nat \<Rightarrow> bytes \<Rightarrow> 's executor \<Rightarrow> 's executor" where
  "bufio_Write cap data x =
     (let k = cap - length (x_buf x) in
      if length data \<le> k then x\<lparr>x_buf := x_buf x @ data\<rparr>
      else if x_buf x = [] then x\<lparr>x_sent := x_sent x @ data\<rparr>
      else
        let sent = x_sent x @ x_buf x @ take k data; spill = drop k data in
        if length spill \<le> cap then x\<lparr>x_sent := sent, x_buf := spill\<rparr>
        else x\<lparr>x_sent := sent @ spill, x_buf := []\<rparr>)"

definition bufio_Flush :: "'s executor \<Rightarrow> 's executor" where
  "bufio_Flush x = x\<lparr>x_sent := x_sent x @ x_buf x, x_buf := []\<rparr>"

definition flush_pending :: "'s executor \<Rightarrow> 's executor" where
  "flush_pending x = (if x_pending x then (bufio_Flush x)\<lparr>x_pending := False\<rparr> else x)"

text \<open>One iteration of the main loop; the second component says whether the loop goes on.\<close>

definition execute :: "(Command \<Rightarrow> 's \<Rightarrow> bytes \<times> 's) \<Rightarrow> nat \<Rightarrow> readResult \<Rightarrow> 's executor \<Rightarrow> 's executor \<times> bool" where
  "execute ExecuteInto cap result x =
     (case result of
        RProtocolErr \<Rightarrow>
          let x1 = flush_pending x;
              w = WriteError (bstr ''ERR protocol error'') (NewWriter [])
          in (bufio_Flush (bufio_Write cap (w_buf w) x1), True)
      | RQuit \<Rightarrow> (if x_pending x then bufio_Flush x else x, False)
      | RCmd cmd moreBuffered \<Rightarrow>
          let x1 = (if x_pending x \<and> isBlockingCommand (cmd_Type cmd) then flush_pending x else x);
              (resp, conn) = ExecuteInto cmd (x_conn x1);
              x2 = x1\<lparr>x_conn := conn\<rparr>;
              x3 = (if length resp > 0 then (bufio_Write cap resp x2)\<lparr>x_pending := True\<rparr> else x2);
              x4 = (if x_pending x3 \<and> \<not> moreBuffered then flush_pending x3 else x3)
          in (x4, True))"

fun executor_loop :: "(Command \<Rightarrow> 's \<Rightarrow> bytes \<times> 's) \<Rightarrow> nat \<Rightarrow> readResult list \<Rightarrow> 's executor \<Rightarrow> 's executor" where
  "executor_loop ExecuteInto cap [] x = x"
| "executor_loop ExecuteInto cap (r # rs) x =
     (case execute ExecuteInto cap r x of
        (x', True) \<Rightarrow> executor_loop ExecuteInto cap rs x'
      | (x', False) \<Rightarrow> x')"

definition start_executor :: "'s \<Rightarrow> 's executor" where
  "start_executor conn = \<lparr>x_conn = conn, x_sent = [], x_buf = [], x_pending = False\<rparr>"

section \<open>What the client receives\<close>

text \<open>
  The reference: the replies of the commands in the order of the requests, and the protocol error
  for what is not a request.
\<close>

fun replies :: "(Command \<Rightarrow> 's \<Rightarrow> bytes \<times> 's) \<Rightarrow> readResult list \<Rightarrow> 's \<Rightarrow> bytes" where
  "replies ExecuteInto [] c = []"
| "replies ExecuteInto (RProtocolErr # rs) c = bstr ''-ERR protocol error'' @ crlf @ replies ExecuteInto rs c"
| "replies ExecuteInto (RQuit # rs) c = []"
| "replies ExecuteInto (RCmd cmd b # rs) c =
     (case ExecuteInto cmd c of (resp, c') \<Rightarrow> resp @ replies ExecuteInto rs c')"

text \<open>The invariant of the loop: without pending writes nothing sits in the buffer.\<close>

definition exec_ok :: "nat \<Rightarrow> 's executor \<Rightarrow> bool" where
  "exec_ok cap x \<longleftrightarrow> (\<not> x_pending x \<longrightarrow> x_buf x = []) \<and> length (x_buf x) \<le> cap"

lemma bufio_Write_stream [simp]:
  "x_sent (bufio_Write cap data x) @ x_buf (bufio_Write cap data x) = x_sent x @ x_buf x @ data"
  "x_conn (bufio_Write cap data x) = x_conn x" "x_pending (bufio_Write cap data x) = x_pending x"
  by (auto simp: bufio_Write_def Let_def)

lemma bufio_Write_cap [simp]: "length (x_buf x) \<le> cap \<Longrightarrow> length (x_buf (bufio_Write cap data x)) \<le> cap"
  by (auto simp: bufio_Write_def Let_def)

lemma bufio_Flush_stream [simp]:
  "x_sent (bufio_Flush x) = x_sent x @ x_buf x" "x_buf (bufio_Flush x) = []"
  "x_conn (bufio_Flush x) = x_conn x" "x_pending (bufio_Flush x) = x_pending x"
  by (auto simp: bufio_Flush_def)

lemma flush_pending_simps [simp]:
  "exec_ok cap x \<Longrightarrow> x_sent (flush_pending x) = x_sent x @ x_buf x"
  "exec_ok cap x \<Longrightarrow> x_buf (flush_pending x) = []"
  "\<not> x_pending (flush_pending x)" "x_conn (flush_pending x) = x_conn x"
  by (auto simp: flush_pending_def exec_ok_def)

lemma exec_ok_flush [simp]: "exec_ok cap x \<Longrightarrow> exec_ok cap (flush_pending x)"
  by (simp add: exec_ok_def [of cap "flush_pending x"])

lemma protocol_error_bytes: "w_buf (WriteError (bstr ''ERR protocol error'') (NewWriter [])) = bstr ''-ERR protocol error'' @ crlf"
  by (simp add: WriteError_def RecordError_def writeErrorReply_def recordError_def NewWriter_def bytes_simps)

lemma execute_error:
  assumes "exec_ok cap x" "execute f cap RProtocolErr x = (x', go)"
  shows "exec_ok cap x' \<and> go \<and> x_buf x' = [] \<and> x_conn x' = x_conn x \<and>
    x_sent x' = x_sent x @ x_buf x @ bstr ''-ERR protocol error'' @ crlf"
  using assms by (auto simp: execute_def Let_def protocol_error_bytes exec_ok_def [of cap x'])

lemma execute_cmd:
  assumes "exec_ok cap x" "execute f cap (RCmd cmd b) x = (x', go)"
  shows "exec_ok cap x' \<and> go \<and> (\<not> b \<longrightarrow> x_buf x' = []) \<and> x_conn x' = snd (f cmd (x_conn x)) \<and>
    x_sent x' @ x_buf x' = x_sent x @ x_buf x @ fst (f cmd (x_conn x))"
proof -
  define x1 where "x1 = (if x_pending x \<and> isBlockingCommand (cmd_Type cmd) then flush_pending x else x)"
  obtain resp conn where f: "f cmd (x_conn x) = (resp, conn)" by fastforce
  define x2 where "x2 = x1\<lparr>x_conn := conn\<rparr>"
  define x3 where "x3 = (if length resp > 0 then (bufio_Write cap resp x2)\<lparr>x_pending := True\<rparr> else x2)"
  have x1: "exec_ok cap x1" "x_conn x1 = x_conn x" "x_sent x1 @ x_buf x1 = x_sent x @ x_buf x"
    using assms(1) by (auto simp: x1_def)
  then have x2: "exec_ok cap x2" "x_sent x2 @ x_buf x2 = x_sent x @ x_buf x" "x_conn x2 = conn"
    by (simp_all add: x2_def exec_ok_def)
  then have x3: "exec_ok cap x3" "x_sent x3 @ x_buf x3 = x_sent x @ x_buf x @ resp" "x_conn x3 = conn"
    by (auto simp: x3_def exec_ok_def)
  have "(x', go) = (if x_pending x3 \<and> \<not> b then flush_pending x3 else x3, True)"
    using assms(2) unfolding execute_def x3_def x2_def x1_def [symmetric]
    by (auto simp: Let_def f x1(2) simp flip: x1_def split: if_splits)
  moreover have "\<not> x_pending x3 \<Longrightarrow> x_buf x3 = []" using x3(1) by (simp add: exec_ok_def)
  ultimately show ?thesis
    using x3 by (auto simp: f)
qed

text \<open>One step extends the stream by the reply of the command and keeps the invariant.\<close>

lemma execute_stream:
  assumes "exec_ok cap x" "execute f cap r x = (x', go)"
  shows "exec_ok cap x' \<and> x_sent x' @ x_buf x' @ (if go then replies f rs (x_conn x') else []) =
    x_sent x @ x_buf x @ replies f (r # rs) (x_conn x)"
proof (cases r)
  case RProtocolErr
  then show ?thesis using execute_error [OF assms(1)] assms(2) by auto
next
  case RQuit
  then show ?thesis using assms by (auto simp: execute_def exec_ok_def)
next
  case (RCmd cmd b)
  then show ?thesis
    using execute_cmd [OF assms(1), of f cmd b x' go] assms(2)
    by (auto split: prod.splits)
qed

lemma executor_loop_stream:
  "exec_ok cap x \<Longrightarrow>
   x_sent (executor_loop f cap rs x) @ x_buf (executor_loop f cap rs x) = x_sent x @ x_buf x @ replies f rs (x_conn x) \<and>
   exec_ok cap (executor_loop f cap rs x)"
proof (induction rs arbitrary: x)
  case (Cons r rs)
  obtain x' go where e: "execute f cap r x = (x', go)" by fastforce
  show ?case
    using execute_stream [OF Cons.prems e, of rs] Cons.IH [of x'] e by (cases go) auto
qed simp

lemma executor_loop_flushed:
  "rs \<noteq> [] \<Longrightarrow> \<forall>cmd. last rs \<noteq> RCmd cmd True \<Longrightarrow> exec_ok cap x \<Longrightarrow> x_buf (executor_loop f cap rs x) = []"
proof (induction rs arbitrary: x)
  case (Cons r rs)
  obtain x' go where e: "execute f cap r x = (x', go)" by fastforce
  have ok: "exec_ok cap x'" using execute_stream [OF Cons.prems(3) e, of rs] by blast
  show ?case
  proof (cases "go \<and> rs \<noteq> []")
    case True
    then show ?thesis using Cons.IH [OF _ _ ok] Cons.prems(2) e by simp
  next
    case False
    have "x_buf x' = []"
    proof (cases r)
      case (RCmd cmd b)
      moreover have "rs = []" using False execute_cmd [OF Cons.prems(3), of f cmd b x' go] e RCmd by auto
      ultimately show ?thesis
        using execute_cmd [OF Cons.prems(3), of f cmd b x' go] e Cons.prems(2) by auto
    next
      case RProtocolErr
      then show ?thesis using execute_error [OF Cons.prems(3)] e by auto
    next
      case RQuit
      then show ?thesis using e Cons.prems(3) by (auto simp: execute_def exec_ok_def)
    qed
    with False e show ?thesis by (cases go) auto
  qed
qed simp

section \<open>Pipelined requests\<close>

text \<open>A client that sends requests as the writer encodes them, without waiting for replies.\<close>

definition write_request :: "bytes option list \<Rightarrow> Writer \<Rightarrow> Writer" where
  "write_request args w =
     fold (\<lambda>a. case a of None \<Rightarrow> WriteNullBulkString | Some b \<Rightarrow> WriteBulkString b) args
       (WriteArray (of_nat (length args)) w)"

lemma write_request_enc:
  assumes "w_protocol w = RESP2" "request_ok args"
  shows "w_buf (write_request args w) = w_buf w @ enc_request args \<and> w_protocol (write_request args w) = RESP2"
proof -
  have fold: "w_buf (fold (\<lambda>a. case a of None \<Rightarrow> WriteNullBulkString | Some b \<Rightarrow> WriteBulkString b) args v) =
      w_buf v @ concat (map enc_bulk args) \<and>
      w_protocol (fold (\<lambda>a. case a of None \<Rightarrow> WriteNullBulkString | Some b \<Rightarrow> WriteBulkString b) args v) = RESP2"
    if "w_protocol v = RESP2" for v
    using that
    by (induction args arbitrary: v)
      (auto simp: WriteNullBulkString_def WriteBulkString_def nullBulkString_def enc_bulk_def split: option.splits)
  have "sint (of_nat (length args) :: i64) = int (length args)"
    using assms(2) by (intro sint_of_nat_small) (simp add: request_ok_def maxArrayCount_def)
  then show ?thesis
    using fold [of "WriteArray (of_nat (length args)) w"] assms(1)
    by (simp add: write_request_def WriteArray_def header_def enc_request_def RESPArray_def bytes_simps)
qed

lemma write_requests_enc:
  "w_protocol w = RESP2 \<Longrightarrow> list_all request_ok reqs \<Longrightarrow>
   w_buf (fold write_request reqs w) = w_buf w @ concat (map enc_request reqs)"
  by (induction reqs arbitrary: w) (simp_all add: write_request_enc)

lemma reader_loop_requests:
  assumes "list_all request_ok reqs" "\<forall>r \<in> set reqs. cmd_Type (take_name fresh_Command r) \<noteq> ''CmdQuit''"
  shows "reader_loop ReadBufSize buffered (concat (map enc_request reqs)) =
    map (\<lambda>i. RCmd (take_name fresh_Command (reqs ! i)) (buffered (concat (map enc_request (drop (Suc i) reqs)))))
      [0..<length reqs]"
  using assms
proof (induction reqs)
  case Nil
  then show ?case by (subst reader_loop.simps) (simp add: ReadCommandInto_def)
next
  case (Cons r reqs)
  have "ReadCommandInto ReadBufSize fresh_Command (enc_request r @ concat (map enc_request reqs)) =
      (Inr (take_name fresh_Command r), concat (map enc_request reqs))"
    using Cons.prems ReadCommand_enc [of r] by (simp add: ReadCommand_def)
  with Cons show ?case
    by (subst reader_loop.simps) (simp add: upt_conv_Cons map_Suc_upt [symmetric] del: upt_Suc)
qed

fun run_all :: "(Command \<Rightarrow> 's \<Rightarrow> bytes \<times> 's) \<Rightarrow> Command list \<Rightarrow> 's \<Rightarrow> bytes list" where
  "run_all f [] c = []"
| "run_all f (cmd # cmds) c = (case f cmd c of (resp, c') \<Rightarrow> resp # run_all f cmds c')"

lemma replies_cmds:
  "list_all2 (\<lambda>r cmd. \<exists>b. r = RCmd cmd b) rs cmds \<Longrightarrow> replies f rs c = concat (run_all f cmds c)"
  by (induction rs cmds arbitrary: c rule: list_all2_induct) (auto split: prod.splits)

text \<open>
  Claim C23. Replies are complete and in order: whatever the client sends, however the input is cut
  into packets and whatever the size of the output buffer, the bytes sent and the bytes still
  buffered are together exactly the replies of the commands read, in the order of the requests.
\<close>

theorem connection_stream:
  "x_sent (executor_loop f cap (reader_loop n buffered inp) (start_executor c)) @
   x_buf (executor_loop f cap (reader_loop n buffered inp) (start_executor c)) =
   replies f (reader_loop n buffered inp) c"
  using executor_loop_stream [of cap "start_executor c" f]
  by (simp add: start_executor_def exec_ok_def)

text \<open>
  Claim C1. Pipelining: a client sends any number of requests as arrays of bulk strings without
  waiting. Then each is read as one command, no matter what bytes its arguments contain, the
  commands run in order, and when the last request has been executed every reply has been sent:
  nothing is left in the output buffer. The hypothesis on \<open>buffered\<close> says that the reader's buffer
  is empty when no input is left.
\<close>

theorem pipelined_requests_answered:
  assumes "list_all request_ok reqs" "\<forall>r \<in> set reqs. cmd_Type (take_name fresh_Command r) \<noteq> ''CmdQuit''"
    and "\<not> buffered []"
  shows "x_sent (executor_loop f cap
      (reader_loop ReadBufSize buffered (w_buf (fold write_request reqs (NewWriter [])))) (start_executor c)) =
    concat (run_all f (map (take_name fresh_Command) reqs) c)"
proof -
  let ?inp = "concat (map enc_request reqs)"
  let ?rs = "reader_loop ReadBufSize buffered ?inp"
  let ?x = "executor_loop f cap ?rs (start_executor c)"
  have inp: "w_buf (fold write_request reqs (NewWriter [])) = ?inp"
    using write_requests_enc [OF _ assms(1), of "NewWriter []"] by (simp add: NewWriter_def)
  have rs: "?rs = map (\<lambda>i. RCmd (take_name fresh_Command (reqs ! i))
      (buffered (concat (map enc_request (drop (Suc i) reqs))))) [0..<length reqs]"
    using assms(1,2) by (rule reader_loop_requests)
  have ok: "exec_ok cap (start_executor c)" by (simp add: exec_ok_def start_executor_def)
  have "replies f ?rs c = concat (run_all f (map (take_name fresh_Command) reqs) c)"
    by (rule replies_cmds) (simp add: rs list_all2_conv_all_nth)
  then have "x_sent ?x @ x_buf ?x = concat (run_all f (map (take_name fresh_Command) reqs) c)"
    using executor_loop_stream [OF ok, of f ?rs] by (simp add: start_executor_def)
  moreover have "x_buf ?x = []"
  proof (cases "?rs = []")
    case True
    then show ?thesis by (simp add: start_executor_def)
  next
    case False
    then have "reqs \<noteq> []" by (auto simp: rs)
    then have "\<forall>cmd. last ?rs \<noteq> RCmd cmd True" using assms(3) by (simp add: rs last_map)
    with False ok show ?thesis by (intro executor_loop_flushed) auto
  qed
  ultimately show ?thesis by (simp add: inp)
qed

lemma no_empty_names: "list_all (\<lambda>p. fst p \<noteq> []) commandNames"
  unfolding commandNames_def name_tables by simp

lemma ParseCommandType_empty: "ParseCommandType [] = ''CmdUnknown''"
proof -
  have "map_of (map (\<lambda>(s, c). (bstr s, c)) commandNames) [] = None"
    using no_empty_names by (auto simp: map_of_eq_None_iff list_all_iff bstr_def)
  then show ?thesis by (simp add: ParseCommandType_def LookupCommandName_def ToUpper_def)
qed

text \<open>A counter as the command handler: it replies with its value and adds the number of arguments.\<close>

definition counter :: "Command \<Rightarrow> nat \<Rightarrow> bytes \<times> nat" where
  "counter cmd k = (bstr '':'' @ decimal k @ crlf, k + length (cmd_Args cmd))"

theorem pipelined_requests_answered_witness:
  "x_sent (executor_loop counter 4
      (reader_loop ReadBufSize (\<lambda>bs. bs \<noteq> [])
         (w_buf (fold write_request [[Some [], Some [2]], [None]] (NewWriter [])))) (start_executor 7)) =
   bstr '':7'' @ crlf @ bstr '':8'' @ crlf"
proof -
  let ?reqs = "[[Some [], Some [2]], [None]]"
  have "list_all request_ok ?reqs"
    by (simp add: request_ok_def bulk_ok_def maxArrayCount_def defaultProtoMaxBulkLen_def)
  moreover have "\<forall>r \<in> set ?reqs. cmd_Type (take_name fresh_Command r) \<noteq> ''CmdQuit''"
    by (simp add: take_name_def ParseCommandType_empty)
  moreover have "concat (run_all counter (map (take_name fresh_Command) ?reqs) 7) = bstr '':7'' @ crlf @ bstr '':8'' @ crlf"
    by (simp add: counter_def take_name_def ParseCommandType_empty decimal.simps bytes_simps)
  ultimately show ?thesis
    using pipelined_requests_answered [of ?reqs "\<lambda>bs. bs \<noteq> []" counter 4 7] by simp
qed

end
