(* ===== verification/Bitmap.thy ===== *)
theory Bitmap
  imports Protocol
begin

text \<open>
  The bit-level arithmetic of \<^verbatim>\<open>redis/bitmap/core.go\<close> on byte arrays. Positions are 64-bit integers
  with Go's wrap-around and truncating division; bit 0 of an array is the most significant bit of
  its first byte. Reading or writing outside an array panics, which is the value \<open>None\<close>.
\<close>

section \<open>Single bits\<close>

definition go_index :: "bytes \<Rightarrow> i64 \<Rightarrow> byte option" where
  "go_index data i = (if 0 \<le> sint i \<and> sint i < int (length data) then Some (data ! nat (sint i)) else None)"

definition getScalarBit :: "bytes \<Rightarrow> i64 \<Rightarrow> i64 option" where
  "getScalarBit data offset =
     (let byteIndex = go_div offset 8;
          bitIndex = 7 - go_mod offset 8
      in if int (length data) \<le> sint byteIndex then Some 0
         else map_option (\<lambda>b. ucast (drop_bit (unat bitIndex) b AND 1)) (go_index data byteIndex))"

section \<open>Integer fields\<close>

datatype overflowBehavior = overflowWrap | overflowSat | overflowFail

fun getBitfield_loop :: "bytes \<Rightarrow> i64 \<Rightarrow> nat list \<Rightarrow> i64 \<Rightarrow> i64 option" where
  "getBitfield_loop data bitOffset [] value = Some value"
| "getBitfield_loop data bitOffset (i # is) value =
     (let bitPos = bitOffset + of_nat i;
          byteIdx = go_div bitPos 8;
          bitIdx = 7 - go_mod bitPos 8
      in if sint byteIdx < int (length data) then
           (case go_index data byteIdx of
              None \<Rightarrow> None
            | Some b \<Rightarrow>
                getBitfield_loop data bitOffset is (push_bit 1 value OR ucast (drop_bit (unat bitIdx) b AND 1)))
         else getBitfield_loop data bitOffset is (push_bit 1 value))"

definition getBitfieldInt :: "bytes \<Rightarrow> i64 \<Rightarrow> nat \<Rightarrow> bool \<Rightarrow> i64 option" where
  "getBitfieldInt data bitOffset bits is_signed =
     (if data = [] then Some 0
      else
        case getBitfield_loop data bitOffset [0..<bits] 0 of
          None \<Rightarrow> None
        | Some value \<Rightarrow>
            if is_signed \<and> bits < 64 then
              let signBit = push_bit (bits - 1) 1
              in Some (if value AND signBit \<noteq> 0 then value - push_bit bits 1 else value)
            else Some value)"

fun setBitfield_loop :: "i64 \<Rightarrow> nat \<Rightarrow> i64 \<Rightarrow> nat list \<Rightarrow> bytes \<Rightarrow> bytes option" where
  "setBitfield_loop bitOffset bits value [] data = Some data"
| "setBitfield_loop bitOffset bits value (i # is) data =
     (let bitPos = bitOffset + of_nat i;
          byteIdx = go_div bitPos 8;
          bitIdx = 7 - go_mod bitPos 8
      in if sint byteIdx \<ge> int (length data) then setBitfield_loop bitOffset bits value is data
         else
           case go_index data byteIdx of
             None \<Rightarrow> None
           | Some b \<Rightarrow>
               let bitValue = signed_drop_bit (bits - 1 - i) value AND 1;
                   m = push_bit (unat bitIdx) 1;
                   b' = (if bitValue = 1 then b OR m else b AND NOT m)
               in setBitfield_loop bitOffset bits value is (data[nat (sint byteIdx) := b']))"

definition setBitfieldInt :: "bytes \<Rightarrow> i64 \<Rightarrow> nat \<Rightarrow> i64 \<Rightarrow> bytes option" where
  "setBitfieldInt data bitOffset bits value =
     (let mask = (if bits = 64 then - 1 else push_bit bits 1 - 1)
      in setBitfield_loop bitOffset bits (value AND mask) [0..<bits] data)"

definition checkBitfieldOverflow :: "i64 \<Rightarrow> nat \<Rightarrow> bool \<Rightarrow> bool" where
  "checkBitfieldOverflow value bits is_signed =
     (if is_signed then
        (if bits = 64 then False
         else
           let minVal = - push_bit (bits - 1) 1;
               maxVal = push_bit (bits - 1) 1 - 1
           in sint value < sint (minVal :: i64) \<or> sint value > sint (maxVal :: i64))
      else
        let maxVal = push_bit bits 1 - 1
        in sint value < 0 \<or> sint value > sint (maxVal :: i64))"

definition checkAdditionOverflow :: "i64 \<Rightarrow> i64 \<Rightarrow> bool" where
  "checkAdditionOverflow a b \<longleftrightarrow>
     (sint b > 0 \<and> sint a > sint (0x7FFFFFFFFFFFFFFF - b)) \<or>
     (sint b < 0 \<and> sint a < sint (0x8000000000000000 - b))"

definition applyOverflow :: "i64 \<Rightarrow> nat \<Rightarrow> bool \<Rightarrow> overflowBehavior \<Rightarrow> i64" where
  "applyOverflow value bits is_signed behavior =
     (let minVal = (if is_signed \<and> bits = 64 then 0x8000000000000000
                    else if is_signed then - push_bit (bits - 1) 1 else 0);
          maxVal = (if is_signed \<and> bits = 64 then 0x7FFFFFFFFFFFFFFF
                    else if is_signed then push_bit (bits - 1) 1 - 1 else push_bit bits 1 - 1)
      in case behavior of
           overflowWrap \<Rightarrow>
             if is_signed then
               (if bits = 64 then value
                else
                  let range = push_bit bits 1;
                      v = go_mod (value - minVal) range;
                      v' = (if sint v < 0 then v + range else v)
                  in v' + minVal)
             else value AND maxVal
         | overflowSat \<Rightarrow>
             (if sint value < sint minVal then minVal else if sint value > sint maxVal then maxVal else value)
         | overflowFail \<Rightarrow>
             (if sint value < sint minVal then minVal else if sint value > sint maxVal then maxVal else value))"

section \<open>Parsing types and offsets\<close>

definition parseBitfieldType :: "bytes \<Rightarrow> (bool \<times> nat) option" where
  "parseBitfieldType b =
     (if length b < 2 then None
      else if b ! 0 \<noteq> 105 \<and> b ! 0 \<noteq> 73 \<and> b ! 0 \<noteq> 117 \<and> b ! 0 \<noteq> 85 then None
      else
        let is_signed = (b ! 0 = 105 \<or> b ! 0 = 73) in
        case atoi (drop 1 b) of
          None \<Rightarrow> None
        | Some bits \<Rightarrow>
            if bits < 1 \<or> bits > 64 then None
            else if \<not> is_signed \<and> bits = 64 then None
            else Some (is_signed, nat bits))"

definition parseBitfieldOffset :: "bytes \<Rightarrow> nat \<Rightarrow> (i64 \<times> bool) option" where
  "parseBitfieldOffset b bitWidth =
     (if b = [] then None
      else if hd b = 35 then
        (case ParseInt64 (tl b) of
           None \<Rightarrow> None
         | Some idx \<Rightarrow> if sint idx < 0 then None else Some (idx * of_nat bitWidth, True))
      else
        (case ParseInt64 b of
           None \<Rightarrow> None
         | Some offset \<Rightarrow> if sint offset < 0 then None else Some (offset, False)))"

end
