(* ===== verification/Bitmap_Facts.thy ===== *)
theory Bitmap_Facts
  imports Bitmap Protocol_Facts
begin

text \<open>
  Integer fields of a byte array: reading a field yields the number its bits spell, writing one changes
  exactly its bits, and the overflow policies are reduction modulo the width and clamping.
\<close>

section \<open>Bits of an array\<close>

definition bit_at :: "bytes \<Rightarrow> nat \<Rightarrow> bool" where
  "bit_at data p \<longleftrightarrow> p div 8 < length data \<and> bit (data ! (p div 8)) (7 - p mod 8)"

lemma sint_add_small:
  "0 \<le> sint a \<Longrightarrow> sint a + int i \<le> MaxInt64 \<Longrightarrow> sint (a + of_nat i :: i64) = sint a + int i"
proof -
  assume a: "0 \<le> sint a" "sint a + int i \<le> MaxInt64"
  have "a + of_nat i = (word_of_int (sint a + int i) :: i64)" by simp
  then show ?thesis using a by (simp only: sint64_of_int)
qed

lemma sint_go_div8:
  assumes "0 \<le> sint a" shows "sint (go_div a 8) = sint a div 8"
proof -
  have "sint a sdiv 8 = sint a div 8"
    using assms by (cases "sint a = 0") (simp_all add: signed_divide_int_def)
  then show ?thesis
    using assms sint64_range [of a] by (simp add: go_div_def sint64_of_int)
qed

lemma unat_bit_index:
  assumes "0 \<le> sint a" shows "unat (7 - go_mod a 8) = 7 - nat (sint a) mod 8"
proof -
  have eq: "sint a smod 8 = sint a mod 8"
    using assms by (cases "sint a = 0") (simp_all add: signed_modulo_int_def signed_divide_int_def minus_div_mult_eq_mod)
  obtain k where k: "sint a = int k" using assms nonneg_int_cases by blast
  have "7 - go_mod a 8 = (word_of_int (7 - sint a mod 8) :: i64)"
    by (simp add: go_mod_def eq)
  also have "7 - sint a mod 8 = int (7 - k mod 8)"
    using k by (simp add: of_nat_diff zmod_int mod_less_divisor less_Suc_eq_le)
  finally have "7 - go_mod a 8 = of_nat (7 - k mod 8)" by simp
  moreover have "unat (of_nat (7 - k mod 8) :: i64) = 7 - k mod 8"
    by (simp only: unat_of_nat) (simp add: take_bit_nat_eq_self less_imp_diff_less)
  ultimately show ?thesis by (simp only: k nat_int)
qed

lemma low_bit: "drop_bit n b AND 1 = (of_bool (bit b n) :: byte)"
  by (simp add: and_one_eq drop_bit_eq_div bit_iff_odd odd_iff_mod_2_eq_one)


fun bits_val :: "bytes \<Rightarrow> nat \<Rightarrow> nat \<Rightarrow> nat" where
  "bits_val data p 0 = 0"
| "bits_val data p (Suc n) = of_bool (bit_at data p) * 2 ^ n + bits_val data (Suc p) n"

lemma bits_val_less: "bits_val data p n < 2 ^ n"
proof (induction n arbitrary: p)
  case (Suc n)
  from Suc [of "Suc p"] show ?case by (cases "bit_at data p") auto
qed simp

lemma push_or_bit: "push_bit 1 v OR (of_bool b :: i64) = 2 * v + of_bool b"
proof -
  have "push_bit 1 v + (of_bool b :: i64) = push_bit 1 v OR of_bool b"
  proof (rule disjunctive_add)
    show "\<not> bit (push_bit 1 v) n \<or> \<not> bit (of_bool b :: i64) n" for n
      by (cases n) (simp_all add: bit_of_bool_iff bit_0)
  qed
  then show ?thesis by (simp only: push_bit_eq_mult power_one_right mult.commute)
qed

lemma byte_at:
  assumes "0 \<le> sint a"
  shows "sint (go_div a 8) = int (nat (sint a) div 8)"
    and "nat (sint a) div 8 < length data \<Longrightarrow> go_index data (go_div a 8) = Some (data ! (nat (sint a) div 8))"
proof -
  show *: "sint (go_div a 8) = int (nat (sint a) div 8)"
    using assms by (simp add: sint_go_div8 zdiv_int)
  show "nat (sint a) div 8 < length data \<Longrightarrow> go_index data (go_div a 8) = Some (data ! (nat (sint a) div 8))"
    by (simp add: go_index_def * zdiv_int flip: zdiv_int)
qed

lemma getScalarBit_eq:
  assumes "0 \<le> sint off"
  shows "getScalarBit data off = Some (of_bool (bit_at data (nat (sint off))))"
proof (cases "nat (sint off) div 8 < length data")
  case True
  then show ?thesis
    unfolding getScalarBit_def Let_def byte_at(1) [OF assms] byte_at(2) [OF assms True] unat_bit_index [OF assms] low_bit
    by (simp add: bit_at_def)
next
  case False
  then show ?thesis
    unfolding getScalarBit_def Let_def byte_at(1) [OF assms] by (simp add: bit_at_def)
qed

lemma ucast_of_bool: "ucast (of_bool b :: byte) = (of_bool b :: i64)"
  by (cases b) simp_all

lemma getBitfield_loop_eq:
  assumes "0 \<le> sint off" "sint off + int n \<le> MaxInt64 + 1" "i \<le> n"
  shows "getBitfield_loop data off [i..<n] v =
    Some (v * 2 ^ (n - i) + of_nat (bits_val data (nat (sint off) + i) (n - i)))"
  using assms(3)
proof (induction "n - i" arbitrary: i v)
  case (Suc k)
  then have i: "i < n" and k: "n - i = Suc k" "k = n - Suc i" by auto
  define a where "a = off + of_nat i"
  define p where "p = nat (sint off) + i"
  have sa: "sint a = sint off + int i" unfolding a_def by (rule sint_add_small) (use assms i in auto)
  then have a0: "0 \<le> sint a" and ap: "nat (sint a) = p" using assms(1) by (auto simp: p_def nat_add_distrib)
  note IH = Suc.hyps(1) [OF k(2), of v]
  have step: "getBitfield_loop data off [i..<n] v = getBitfield_loop data off [Suc i..<n] (2 * v + of_bool (bit_at data p))"
  proof (cases "p div 8 < length data")
    case True
    show ?thesis
      unfolding upt_conv_Cons [OF i] getBitfield_loop.simps Let_def a_def [symmetric] byte_at(1) [OF a0] ap
        byte_at(2) [OF a0, unfolded ap, OF True] unat_bit_index [OF a0] low_bit
      using True by (simp only: bit_at_def of_nat_less_iff if_True option.case ucast_of_bool push_or_bit True simp_thms)
  next
    case False
    then show ?thesis
      unfolding upt_conv_Cons [OF i] getBitfield_loop.simps Let_def a_def [symmetric] byte_at(1) [OF a0] ap
      by (simp add: bit_at_def push_bit_eq_mult mult.commute)
  qed
  show ?case
    unfolding step Suc.hyps(1) [OF k(2) Suc_leI [OF i]] k(1) k(2) [symmetric]
    by (simp add: p_def algebra_simps)
qed simp

section \<open>Reading a field\<close>

lemma and_push_one: "(v :: 'a::len word) AND push_bit n 1 \<noteq> 0 \<longleftrightarrow> bit v n"
proof -
  have "v AND push_bit n 1 = (if bit v n then push_bit n 1 else 0)"
    by (rule bit_eqI) (auto simp: bit_and_iff bit_exp_iff dest: bit_imp_le_length)
  moreover have "bit v n \<Longrightarrow> push_bit n (1 :: 'a word) \<noteq> 0"
    using bit_imp_le_length [of v n] by (simp add: push_bit_eq_0_iff)
  ultimately show ?thesis by auto
qed

lemma bits_val_Nil: "bits_val [] p n = 0"
  by (induction n arbitrary: p) (simp_all add: bit_at_def)

lemma getBitfieldInt_eq:
  assumes "0 \<le> sint off" "sint off + int bits \<le> MaxInt64 + 1" "1 \<le> bits" "bits \<le> 64"
  shows "getBitfieldInt data off bits sg =
    (let v = int (bits_val data (nat (sint off)) bits)
     in Some (word_of_int (if sg then signed_take_bit (bits - 1) v else v)))"
proof -
  define v where "v = bits_val data (nat (sint off)) bits"
  have v: "v < 2 ^ bits" unfolding v_def by (rule bits_val_less)
  have loop: "getBitfield_loop data off [0..<bits] 0 = Some (of_nat v)"
    using getBitfield_loop_eq [OF assms(1,2) le0, of data 0] by (simp add: v_def)
  have Suc: "Suc (bits - 1) = bits" using assms(3) by simp
  have bit: "bit (of_nat v :: i64) (bits - 1) \<longleftrightarrow> bit (int v) (bits - 1)"
    using assms(3,4) by (auto simp: bit_of_nat_iff)
  have st: "signed_take_bit (bits - 1) (int v) = int v - 2 ^ bits * of_bool (bit (int v) (bits - 1))"
    using v unfolding signed_take_bit_eq_take_bit_minus Suc by (simp add: take_bit_int_eq_self)
  have big: "(2 :: i64) ^ 64 = 0" by simp
  show ?thesis
  proof (cases "data = []")
    case True then show ?thesis by (simp add: getBitfieldInt_def bits_val_Nil)
  next
    case False
    show ?thesis
    proof (cases "sg \<and> bits < 64")
      case True
      then show ?thesis using False
        unfolding getBitfieldInt_def loop v_def [symmetric] Let_def st option.case and_push_one bit
        by (auto simp: push_bit_eq_mult)
    next
      case no: False
      then have "sg \<Longrightarrow> bits = 64" using assms(4) by auto
      with False no show ?thesis
        unfolding getBitfieldInt_def loop v_def [symmetric] Let_def option.case st by (auto simp: big)
    qed
  qed
qed

lemma bit_set_bit8:
  assumes "s < 8"
  shows "bit (if c then b OR push_bit s 1 else b AND NOT (push_bit s 1) :: byte) n = (n < 8 \<and> (if n = s then c else bit b n))"
  using assms by (auto simp: bit_or_iff bit_and_iff bit_not_iff bit_exp_iff dest: bit_imp_le_length)

lemma sdrop_low: "m < 64 \<Longrightarrow> signed_drop_bit m (v :: i64) AND 1 = of_bool (bit v m)"
  by (simp add: and_one_eq mod_2_eq_odd bit_signed_drop_bit_iff flip: bit_0)

lemma bit_at_update:
  assumes "p div 8 < length data"
    and "\<And>n. n < 8 \<Longrightarrow> bit b' n = (if n = 7 - p mod 8 then c else bit (data ! (p div 8)) n)"
  shows "bit_at (data[p div 8 := b']) q = (if q = p then c else bit_at data q)"
proof (cases "q div 8 = p div 8")
  case True
  have "7 - q mod 8 < 8" by simp
  moreover have "7 - q mod 8 = 7 - p mod 8 \<longleftrightarrow> q = p"
  proof
    assume "7 - q mod 8 = 7 - p mod 8"
    moreover have "q mod 8 \<le> 7" "p mod 8 \<le> 7" by simp_all
    ultimately have "q mod 8 = p mod 8" by linarith
    then show "q = p" using True by (metis div_mult_mod_eq)
  qed simp
  ultimately show ?thesis using True assms by (auto simp: bit_at_def)
qed (auto simp: bit_at_def)

section \<open>Writing a field\<close>

lemma setBitfield_loop_eq:
  assumes "0 \<le> sint off" "sint off + int n \<le> MaxInt64 + 1" "n \<le> 64"
    and "nat (sint off) + n \<le> 8 * length data" "i \<le> n"
  shows "\<exists>data'. setBitfield_loop off n v [i..<n] data = Some data' \<and> length data' = length data \<and>
    (\<forall>q. bit_at data' q =
      (if nat (sint off) + i \<le> q \<and> q < nat (sint off) + n then bit v (n - 1 - (q - nat (sint off))) else bit_at data q))"
  using assms(4,5)
proof (induction "n - i" arbitrary: i data)
  case 0
  then show ?case by auto
next
  case (Suc k)
  then have i: "i < n" and k: "k = n - Suc i" by auto
  define a where "a = off + of_nat i"
  define p where "p = nat (sint off) + i"
  have sa: "sint a = sint off + int i" unfolding a_def by (rule sint_add_small) (use assms i in auto)
  then have a0: "0 \<le> sint a" and ap: "nat (sint a) = p" using assms(1) by (auto simp: p_def nat_add_distrib)
  have len: "p div 8 < length data" using Suc.prems i by (simp add: p_def less_mult_imp_div_less)
  define c where "c = bit v (n - 1 - i)"
  have low: "signed_drop_bit (n - 1 - i) v AND 1 = of_bool c"
    unfolding c_def by (rule sdrop_low) (use assms(3) i in auto)
  define b' where "b' = (if c then data ! (p div 8) OR push_bit (7 - p mod 8) 1
    else data ! (p div 8) AND NOT (push_bit (7 - p mod 8) 1))"
  define data1 where "data1 = data[p div 8 := b']"
  have step: "setBitfield_loop off n v [i..<n] data = setBitfield_loop off n v [Suc i..<n] data1"
    using len
    unfolding upt_conv_Cons [OF i] setBitfield_loop.simps Let_def a_def [symmetric] byte_at(1) [OF a0] ap
      byte_at(2) [OF a0, unfolded ap, OF len] unat_bit_index [OF a0] low option.case nat_int
    by (cases c) (simp_all add: data1_def b'_def)
  have upd: "bit_at data1 q = (if q = p then c else bit_at data q)" for q
    unfolding data1_def by (rule bit_at_update [OF len]) (simp add: b'_def bit_set_bit8 del: push_bit_of_1)
  obtain data' where d: "setBitfield_loop off n v [Suc i..<n] data1 = Some data'" "length data' = length data1"
    "bit_at data' q = (if nat (sint off) + Suc i \<le> q \<and> q < nat (sint off) + n
       then bit v (n - 1 - (q - nat (sint off))) else bit_at data1 q)" for q
    using Suc.hyps(1) [OF k, of data1] Suc.prems(1) i by (auto simp: data1_def)
  have "bit_at data' q = (if nat (sint off) + i \<le> q \<and> q < nat (sint off) + n
       then bit v (n - 1 - (q - nat (sint off))) else bit_at data q)" for q
    using i by (auto simp: d(3) upd p_def c_def)
  with d(1,2) step show ?case by (auto simp: data1_def)
qed

lemma bits_val_bits:
  assumes "\<And>j. j < n \<Longrightarrow> bit_at data (p + j) = bit w (n - 1 - j)"
  shows "bits_val data p n = take_bit n (w :: nat)"
  using assms
proof (induction n arbitrary: p)
  case (Suc n)
  have "bit_at data (Suc p + j) = bit w (n - 1 - j)" if "j < n" for j
  proof -
    have "Suc n - 1 - Suc j = n - 1 - j" by simp
    with Suc.prems [of "Suc j"] that show ?thesis by simp
  qed
  then have "bits_val data (Suc p) n = take_bit n w" by (rule Suc.IH)
  moreover have "bit_at data p = bit w n" using Suc.prems [of 0] by simp
  ultimately show ?case by (simp only: bits_val.simps take_bit_Suc_from_most mult.commute)
qed simp

lemma masked_bits:
  assumes "1 \<le> bits" "bits \<le> 64"
  shows "(v :: i64) AND (if bits = 64 then - 1 else push_bit bits 1 - 1) = take_bit bits v"
proof (cases "bits = 64")
  case True
  then show ?thesis by (simp add: take_bit_length_eq [where 'a = 64, simplified])
next
  case False
  then show ?thesis by (simp add: take_bit_eq_mask mask_eq_exp_minus_1)
qed

lemma setBitfieldInt_spec:
  assumes "0 \<le> sint off" "sint off + int n \<le> MaxInt64 + 1" "1 \<le> n" "n \<le> 64"
    and "nat (sint off) + n \<le> 8 * length data"
  shows "\<exists>data'. setBitfieldInt data off n v = Some data' \<and> length data' = length data \<and>
    bits_val data' (nat (sint off)) n = take_bit n (unat v) \<and>
    (\<forall>q. q < nat (sint off) \<or> nat (sint off) + n \<le> q \<longrightarrow> bit_at data' q = bit_at data q)"
proof -
  define p where "p = nat (sint off)"
  obtain data' where d: "setBitfieldInt data off n v = Some data'" "length data' = length data"
    "bit_at data' q = (if p \<le> q \<and> q < p + n then bit (take_bit n v) (n - 1 - (q - p)) else bit_at data q)" for q
    using setBitfield_loop_eq [OF assms(1,2,4,5) le0, of "take_bit n v"]
    unfolding setBitfieldInt_def Let_def masked_bits [OF assms(3,4)] p_def add_0_right by auto
  have "bits_val data' p n = take_bit n (unat v)"
  proof (rule bits_val_bits)
    fix j assume "j < n"
    then show "bit_at data' (p + j) = bit (unat v) (n - 1 - j)"
      using assms(4) by (simp add: d(3) bit_take_bit_iff bit_unsigned_iff)
  qed
  with d show ?thesis by (auto simp: p_def)
qed

section \<open>Overflow\<close>

definition field_min :: "bool \<Rightarrow> nat \<Rightarrow> int" where
  "field_min sg bits = (if sg then - (2 ^ (bits - 1)) else 0)"

definition field_max :: "bool \<Rightarrow> nat \<Rightarrow> int" where
  "field_max sg bits = (if sg then 2 ^ (bits - 1) - 1 else 2 ^ bits - 1)"

definition field_type :: "bool \<Rightarrow> nat \<Rightarrow> bool" where
  "field_type sg bits \<longleftrightarrow> 1 \<le> bits \<and> bits \<le> (if sg then 64 else 63)"

lemma pow_le_63: "n \<le> 63 \<Longrightarrow> (2 :: int) ^ n \<le> 9223372036854775808"
  using power_increasing [of n 63 "2 :: int"] by simp

lemma pow_le_62: "n \<le> 62 \<Longrightarrow> (2 :: int) ^ n \<le> 4611686018427387904"
  using power_increasing [of n 62 "2 :: int"] by simp

lemma sint_pow: "n \<le> 62 \<Longrightarrow> sint (push_bit n 1 :: i64) = 2 ^ n"
proof -
  assume "n \<le> 62"
  moreover have "push_bit n 1 = (word_of_int (2 ^ n) :: i64)" by (simp add: push_bit_eq_mult)
  ultimately show ?thesis using pow_le_62 [of n] by (simp only:) (rule sint64_of_int, simp_all add: order_trans [of _ 0])
qed

lemma sint_mask: "n \<le> 63 \<Longrightarrow> sint (push_bit n 1 - 1 :: i64) = 2 ^ n - 1"
proof -
  assume "n \<le> 63"
  then have "MinInt64 \<le> 2 ^ n - 1 \<and> 2 ^ n - 1 \<le> MaxInt64"
    using pow_le_63 [of n] one_le_power [of "2 :: int" n] by linarith
  then have "sint (word_of_int (2 ^ n - 1) :: i64) = 2 ^ n - 1" by (intro sint64_of_int) simp_all
  then show ?thesis by (simp add: push_bit_eq_mult)
qed

lemma sint_neg_pow: "n \<le> 63 \<Longrightarrow> sint (- push_bit n 1 :: i64) = - (2 ^ n)"
proof -
  assume "n \<le> 63"
  then have "MinInt64 \<le> - (2 ^ n) \<and> - (2 ^ n) \<le> MaxInt64"
    using pow_le_63 [of n] one_le_power [of "2 :: int" n] by linarith
  then have "sint (word_of_int (- (2 ^ n)) :: i64) = - (2 ^ n)" by (intro sint64_of_int) simp_all
  then show ?thesis by (simp add: push_bit_eq_mult)
qed

lemma checkBitfieldOverflow_iff:
  assumes "field_type sg bits"
  shows "checkBitfieldOverflow v bits sg \<longleftrightarrow> \<not> (field_min sg bits \<le> sint v \<and> sint v \<le> field_max sg bits)"
proof (cases "sg \<and> bits = 64")
  case True
  then show ?thesis using sint64_range [of v] by (simp add: checkBitfieldOverflow_def field_min_def field_max_def)
next
  case False
  then have "sg \<Longrightarrow> bits - 1 \<le> 63" "\<not> sg \<Longrightarrow> bits \<le> 63" using assms by (auto simp: field_type_def)
  with False show ?thesis
    by (auto simp: checkBitfieldOverflow_def field_min_def field_max_def Let_def sint_mask sint_neg_pow
        simp del: push_bit_of_1)
qed

lemma smod_to_mod: "0 < r \<Longrightarrow> (if a smod r < 0 then a smod r + r else a smod r) = a mod (r :: int)"
proof -
  assume r: "0 < r"
  show ?thesis
  proof (cases "0 \<le> a")
    case True
    then have "a smod r = a mod r"
      using r by (cases "a = 0") (simp_all add: signed_modulo_int_def signed_divide_int_def minus_div_mult_eq_mod)
    moreover have "0 \<le> a mod r" using r by simp
    ultimately show ?thesis by simp
  next
    case False
    then have eq: "a smod r = - ((- a) mod r)"
      using r by (simp add: signed_modulo_int_def signed_divide_int_def minus_div_mult_eq_mod [symmetric])
    show ?thesis
    proof (cases "(- a) mod r = 0")
      case True
      then show ?thesis using eq by (simp add: mod_eq_0_iff_dvd)
    next
      case no: False
      then have "0 < (- a) mod r" using r by (simp add: order_less_le)
      moreover have "a mod r = r - (- a) mod r" using no zmod_zminus1_eq_if [of "- a" r] by simp
      ultimately show ?thesis using eq by simp
    qed
  qed
qed

lemma sint_mod_pow: "n \<le> 64 \<Longrightarrow> sint (word_of_int k :: i64) mod 2 ^ n = k mod 2 ^ n"
proof -
  assume n: "n \<le> 64"
  have "take_bit n (sint (word_of_int k :: i64)) = take_bit n k"
    using n by (simp add: signed_of_int take_bit_signed_take_bit)
  then show ?thesis by (simp add: take_bit_eq_mod)
qed

lemma go_mod_pow:
  assumes "1 \<le> n" "n \<le> 63"
  shows "(let v = go_mod a (push_bit n 1) in if sint v < 0 then v + push_bit n 1 else v) =
    (word_of_int (sint a mod 2 ^ n) :: i64)"
proof (cases "n = 63")
  case False
  then have n: "n \<le> 62" using assms by simp
  define m where "m = sint a smod 2 ^ n"
  define r where "r = (2 :: int) ^ n"
  have r: "0 < r" "r \<le> 4611686018427387904" using pow_le_62 [OF n] by (simp_all add: r_def)
  have m: "(if m < 0 then m + r else m) = sint a mod r" unfolding m_def r_def by (rule smod_to_mod) simp
  have "0 \<le> sint a mod r" "sint a mod r < r" using r by simp_all
  with m r have "MinInt64 \<le> m" "m \<le> MaxInt64" by (auto split: if_splits)
  then have s: "sint (word_of_int m :: i64) = m" by (rule sint64_of_int)
  have w: "push_bit n 1 = (word_of_int r :: i64)" by (simp add: r_def push_bit_eq_mult)
  have g: "go_mod a (push_bit n 1) = word_of_int m" by (simp only: go_mod_def sint_pow [OF n] m_def)
  show ?thesis unfolding g Let_def s unfolding w r_def [symmetric] m [symmetric] by simp
next
  case True
  have w: "push_bit 63 1 = (word_of_int 9223372036854775808 :: i64)" by simp
  have s: "sint (push_bit 63 1 :: i64) = - 9223372036854775808" by simp
  show ?thesis
  proof (cases "sint a = MinInt64")
    case min: True
    then have "go_mod a (push_bit 63 1) = 0" unfolding go_mod_def s by (simp add: signed_modulo_int_def signed_divide_int_def)
    then show ?thesis using min True by simp
  next
    case False
    then have b: "MinInt64 < sint a" "sint a \<le> MaxInt64" using sint64_range [of a] by auto
    then have "\<bar>sint a\<bar> div 9223372036854775808 = 0" by (intro div_pos_pos_trivial) auto
    then have "sint a smod (- 9223372036854775808) = sint a"
      by (simp add: signed_modulo_int_def signed_divide_int_def sgn_mult_abs)
    then have g: "go_mod a (push_bit 63 1) = a" unfolding go_mod_def s by simp
    have neg: "sint a < 0 \<Longrightarrow> sint a mod 9223372036854775808 = sint a + 9223372036854775808"
      using b mod_pos_pos_trivial [of "sint a + 9223372036854775808" 9223372036854775808] by simp
    have pos: "\<not> sint a < 0 \<Longrightarrow> sint a mod 9223372036854775808 = sint a" using b by simp
    have "2 ^ n = (9223372036854775808 :: int)" using True by simp
    then show ?thesis unfolding True g Let_def unfolding w using neg pos by (cases "sint a < 0") simp_all
  qed
qed

lemma applyOverflow_wrap:
  assumes "field_type sg bits"
  shows "sint (applyOverflow v bits sg overflowWrap) =
    (if sg then signed_take_bit (bits - 1) (sint v) else take_bit bits (sint v))"
proof -
  have b: "1 \<le> bits" "bits \<le> 64" "\<not> sg \<Longrightarrow> bits \<le> 63" using assms by (auto simp: field_type_def split: if_splits)
  consider "\<not> sg" | "sg" "bits = 64" | "sg" "bits \<le> 63" using b by linarith
  then show ?thesis
  proof cases
    case 1
    have "v AND (push_bit bits 1 - 1) = take_bit bits v" by (simp add: take_bit_eq_mask mask_eq_exp_minus_1)
    moreover have "sint (take_bit bits v) = take_bit bits (sint v)"
    proof -
      have "(take_bit bits v :: i64) = word_of_int (take_bit bits (sint v))"
        using take_bit_of_int [of bits "sint v", where 'a = i64] by simp
      moreover have "sint (word_of_int (take_bit bits (sint v)) :: i64) = take_bit bits (sint v)"
        using pow_le_63 [OF b(3) [OF 1]] take_bit_int_less_exp [of bits "sint v"] take_bit_nonnegative [of bits "sint v"]
        by (intro sint64_of_int) linarith+
      ultimately show ?thesis by (simp only:)
    qed
    ultimately show ?thesis using 1 by (simp add: applyOverflow_def Let_def del: push_bit_of_1)
  next
    case 2
    have "signed_take_bit 63 (sint v) = sint v" using sint64_range [of v] by (intro signed_take_bit_int_eq_self) simp_all
    with 2 show ?thesis by (simp add: applyOverflow_def)
  next
    case 3
    define h where "h = (2 :: int) ^ (bits - 1)"
    have hh: "2 ^ bits = 2 * h" using b(1) by (cases bits) (simp_all add: h_def)
    have h1: "1 \<le> h" "h \<le> 4611686018427387904" using pow_le_62 [of "bits - 1"] 3 by (auto simp: h_def)
    have mn: "- push_bit (bits - 1) 1 = (word_of_int (- h) :: i64)" by (simp add: h_def push_bit_eq_mult)
    define a where "a = v - - push_bit (bits - 1) 1"
    have "a = word_of_int (sint v + h)" unfolding a_def mn by simp
    then have am: "sint a mod 2 ^ bits = (sint v + h) mod 2 ^ bits" using sint_mod_pow [of bits "sint v + h"] b by simp
    have "applyOverflow v bits sg overflowWrap =
        (let v = go_mod a (push_bit bits 1) in if sint v < 0 then v + push_bit bits 1 else v) + - push_bit (bits - 1) 1"
      using 3 by (simp add: applyOverflow_def Let_def a_def del: push_bit_of_1)
    also have "\<dots> = word_of_int ((sint v + h) mod (2 * h) - h)"
      unfolding go_mod_pow [OF b(1) 3(2)] am unfolding mn hh by simp
    finally have e: "applyOverflow v bits sg overflowWrap = word_of_int ((sint v + h) mod (2 * h) - h)" .
    have "0 \<le> (sint v + h) mod (2 * h)" "(sint v + h) mod (2 * h) < 2 * h" using h1 by simp_all
    then have "sint (word_of_int ((sint v + h) mod (2 * h) - h) :: i64) = (sint v + h) mod (2 * h) - h"
      using h1 by (intro sint64_of_int) linarith+
    moreover have "signed_take_bit (bits - 1) (sint v) = (sint v + h) mod (2 * h) - h"
      unfolding signed_take_bit_eq_take_bit_shift h_def [symmetric] take_bit_eq_mod using b(1) by (simp add: hh)
    ultimately show ?thesis using 3 e by simp
  qed
qed

lemma applyOverflow_clamp:
  assumes "field_type sg bits" "ov \<noteq> overflowWrap"
  shows "sint (applyOverflow v bits sg ov) = max (field_min sg bits) (min (field_max sg bits) (sint v))"
proof -
  have b: "1 \<le> bits" "sg \<Longrightarrow> bits - 1 \<le> 63" "\<not> sg \<Longrightarrow> bits \<le> 63" using assms by (auto simp: field_type_def)
  define mn :: i64 where "mn = (if sg \<and> bits = 64 then 0x8000000000000000 else if sg then - push_bit (bits - 1) 1 else 0)"
  define mx :: i64 where "mx = (if sg \<and> bits = 64 then 0x7FFFFFFFFFFFFFFF
    else if sg then push_bit (bits - 1) 1 - 1 else push_bit bits 1 - 1)"
  have mn: "sint mn = field_min sg bits"
    using b by (auto simp: mn_def field_min_def sint_neg_pow simp del: push_bit_of_1)
  have mx: "sint mx = field_max sg bits"
    using b by (auto simp: mx_def field_max_def sint_mask simp del: push_bit_of_1)
  have "field_min sg bits \<le> field_max sg bits"
    using one_le_power [of "2 :: int" bits] one_le_power [of "2 :: int" "bits - 1"] by (auto simp: field_min_def field_max_def)
  moreover have "applyOverflow v bits sg ov = (if sint v < sint mn then mn else if sint v > sint mx then mx else v)"
    using assms(2) by (cases ov) (simp_all only: applyOverflow_def Let_def overflowBehavior.case mn_def mx_def simp_thms)
  ultimately show ?thesis by (auto simp: mn mx max_def min_def)
qed


section \<open>Properties\<close>

lemma field_value:
  assumes "field_type sg bits" "field_min sg bits \<le> sint (v :: i64)" "sint v \<le> field_max sg bits"
  shows "word_of_int (if sg then signed_take_bit (bits - 1) (int (take_bit bits (unat v))) else int (take_bit bits (unat v))) = v"
proof -
  have b: "1 \<le> bits" "bits \<le> 64" using assms by (auto simp: field_type_def split: if_splits)
  have tb: "int (take_bit bits (unat v)) = take_bit bits (sint v)"
    using b(2) by (simp add: of_nat_take_bit take_bit_signed_take_bit sint_uint)
  show ?thesis
  proof (cases sg)
    case True
    have "signed_take_bit (bits - 1) (take_bit bits (sint v)) = signed_take_bit (bits - 1) (sint v)"
      using b(1) by (auto simp: signed_take_bit_take_bit)
    moreover have "signed_take_bit (bits - 1) (sint v) = sint v"
      using assms True by (intro signed_take_bit_int_eq_self) (auto simp: field_min_def field_max_def)
    ultimately show ?thesis using True by (simp add: tb)
  next
    case False
    have "take_bit bits (sint v) = sint v"
      using assms False by (intro take_bit_int_eq_self) (auto simp: field_min_def field_max_def)
    then show ?thesis using False by (simp add: tb)
  qed
qed

text \<open>
  Writing an integer that fits its type into a field inside the array never panics and keeps
  the length; reading the field back gives the integer, and no bit outside the field changes.
\<close>

theorem bitfield_set_get:
  assumes "field_type sg bits" "field_min sg bits \<le> sint v" "sint v \<le> field_max sg bits"
    and "0 \<le> sint off" "sint off + int bits \<le> 8 * int (length data)" "sint off + int bits \<le> 2 ^ 63"
  shows "\<exists>data'. setBitfieldInt data off bits v = Some data' \<and> length data' = length data \<and>
    getBitfieldInt data' off bits sg = Some v \<and>
    (\<forall>q. 0 \<le> sint q \<longrightarrow> sint q < sint off \<or> sint off + int bits \<le> sint q \<longrightarrow>
       getScalarBit data' q = getScalarBit data q)"
proof -
  have b: "1 \<le> bits" "bits \<le> 64" using assms(1) by (auto simp: field_type_def split: if_splits)
  have le: "sint off + int bits \<le> MaxInt64 + 1" using assms(6) by simp
  have "nat (sint off) + bits \<le> 8 * length data" using assms(4,5) by linarith
  from setBitfieldInt_spec [OF assms(4) le b this, of v]
  obtain data' where d: "setBitfieldInt data off bits v = Some data'" "length data' = length data"
    "bits_val data' (nat (sint off)) bits = take_bit bits (unat v)"
    "\<And>q. q < nat (sint off) \<or> nat (sint off) + bits \<le> q \<Longrightarrow> bit_at data' q = bit_at data q" by blast
  have "getBitfieldInt data' off bits sg = Some v"
    unfolding getBitfieldInt_eq [OF assms(4) le b] Let_def d(3) field_value [OF assms(1-3)] ..
  moreover have "getScalarBit data' q = getScalarBit data q"
    if "0 \<le> sint q" "sint q < sint off \<or> sint off + int bits \<le> sint q" for q
  proof -
    have "nat (sint q) < nat (sint off) \<or> nat (sint off) + bits \<le> nat (sint q)" using that assms(4) by linarith
    then show ?thesis using that(1) by (simp add: getScalarBit_eq d(4))
  qed
  ultimately show ?thesis using d(1,2) by blast
qed

theorem bitfield_set_get_witness:
  "\<exists>data'. setBitfieldInt [0, 0] 5 6 (- 3) = Some data' \<and> length data' = length [0, 0 :: byte] \<and>
     getBitfieldInt data' 5 6 True = Some (- 3)"
  using bitfield_set_get [of True 6 "- 3" 5 "[0, 0]"] by (auto simp: field_type_def field_min_def field_max_def)

text \<open>
  Claim C27. The overflow policies for every field type: wrapping is reduction modulo the width of the
  field into its range, the other two policies clamp to the range, and the overflow test says exactly
  whether the value is outside the range.
\<close>

theorem applyOverflow_correct:
  assumes "field_type sg bits"
  shows "sint (applyOverflow v bits sg overflowWrap) =
      (if sg then signed_take_bit (bits - 1) (sint v) else take_bit bits (sint v)) \<and>
    sint (applyOverflow v bits sg overflowSat) = max (field_min sg bits) (min (field_max sg bits) (sint v)) \<and>
    applyOverflow v bits sg overflowFail = applyOverflow v bits sg overflowSat \<and>
    checkBitfieldOverflow v bits sg = (sint v < field_min sg bits \<or> field_max sg bits < sint v)"
proof -
  have "applyOverflow v bits sg overflowFail = applyOverflow v bits sg overflowSat"
    by (simp only: applyOverflow_def Let_def overflowBehavior.case)
  moreover have "checkBitfieldOverflow v bits sg = (sint v < field_min sg bits \<or> field_max sg bits < sint v)"
    by (simp only: checkBitfieldOverflow_iff [OF assms] de_Morgan_conj not_le)
  ultimately show ?thesis
    using applyOverflow_wrap [OF assms, of v] applyOverflow_clamp [OF assms, of overflowSat v] by simp
qed

theorem applyOverflow_correct_witness:
  "sint (applyOverflow 200 8 True overflowWrap) = - 56 \<and> sint (applyOverflow 200 8 True overflowSat) = 127"
proof -
  have "field_type True 8" by (simp add: field_type_def)
  moreover have "signed_take_bit (8 - 1) (200 :: int) = - 56" by (simp add: signed_take_bit_eq_take_bit_shift take_bit_eq_mod)
  ultimately show ?thesis
    using applyOverflow_correct [of True 8 200] by (simp add: field_min_def field_max_def)
qed

end
