(* ===== verification/Engine.thy ===== *)
theory Engine
  imports Resp_Writer
begin

text \<open>
  What the command handlers use of the replication engine, which is a package outside the sources:
  the vocabulary of effects and snapshots, and the command context through which a handler reads
  snapshots and emits effects. The engine's behaviour is not defined here: what a snapshot is after
  some effects, and whether an emission fails, are functions stored in the context.
\<close>

section \<open>Effects and snapshots\<close>

datatype EffectOp = INSERT_OP | REMOVE_OP
datatype MergeRule = LAST_WRITE_WINS | ADDITIVE_INT | ADDITIVE_FLOAT | MAX_BYTES
datatype CollectionKind = SCALAR | KEYED | ORDERED
datatype Placement = PLACE_SELF | PLACE_HEAD | PLACE_TAIL | PLACE_BEFORE | PLACE_AFTER
datatype ValueType =
    TYPE_UNSPECIFIED | TYPE_STRING | TYPE_HASH | TYPE_LIST | TYPE_SET | TYPE_ZSET | TYPE_STREAM
  | TYPE_BITMAP | TYPE_HLL | TYPE_GEO | TYPE_JSON

datatype Payload = NoValue | Raw bytes | IntVal i64 | FloatVal f64 | Compressed bytes

record DataEffect =
  d_Op :: EffectOp
  d_Merge :: MergeRule
  d_Collection :: CollectionKind
  d_Placement :: Placement
  d_Id :: bytes
  d_Reference :: bytes
  d_Value :: Payload

definition insert_data :: "CollectionKind \<Rightarrow> bytes \<Rightarrow> Payload \<Rightarrow> DataEffect" where
  "insert_data kind i v = \<lparr>d_Op = INSERT_OP, d_Merge = LAST_WRITE_WINS, d_Collection = kind,
     d_Placement = PLACE_SELF, d_Id = i, d_Reference = [], d_Value = v\<rparr>"

definition remove_data :: "CollectionKind \<Rightarrow> bytes \<Rightarrow> DataEffect" where
  "remove_data kind i = \<lparr>d_Op = REMOVE_OP, d_Merge = LAST_WRITE_WINS, d_Collection = kind,
     d_Placement = PLACE_SELF, d_Id = i, d_Reference = [], d_Value = NoValue\<rparr>"

text \<open>The generated getters return the zero value when another payload is set.\<close>

definition GetIntVal :: "DataEffect \<Rightarrow> i64" where
  "GetIntVal d = (case d_Value d of IntVal v \<Rightarrow> v | _ \<Rightarrow> 0)"

definition GetRaw :: "DataEffect \<Rightarrow> bytes" where
  "GetRaw d = (case d_Value d of Raw b \<Rightarrow> b | _ \<Rightarrow> [])"

definition GetFloatVal :: "DataEffect \<Rightarrow> f64" where
  "GetFloatVal d = (case d_Value d of FloatVal v \<Rightarrow> v | _ \<Rightarrow> 0)"

datatype EffectKind = Data DataEffect | Meta ValueType | Noop

record Effect =
  e_Key :: bytes
  e_Kind :: EffectKind

record ReducedElement =
  el_Data :: DataEffect
  el_ExpiresAt :: "i64 option"

text \<open>
  The map of a keyed snapshot is the list of its entries in the order in which a loop visits them;
  the order is arbitrary.
\<close>

record ReducedEffect =
  r_Op :: EffectOp
  r_Collection :: CollectionKind
  r_Scalar :: "DataEffect option"
  r_NetAdds :: "(bytes \<times> ReducedElement) list"
  r_NetRemoves :: "bytes list"
  r_Ordered :: "ReducedElement list"
  r_TypeTag :: ValueType

section \<open>The command context\<close>

type_synonym tip = nat

record Context =
  c_emitted :: "(Effect \<times> tip list) list"
  c_snapshot :: "(Effect \<times> tip list) list \<Rightarrow> bytes \<Rightarrow> bytes + ReducedEffect option \<times> tip list"
  c_emit_error :: "(Effect \<times> tip list) list \<Rightarrow> Effect \<Rightarrow> bytes option"

definition GetSnapshot :: "bytes \<Rightarrow> Context \<Rightarrow> bytes + ReducedEffect option \<times> tip list" where
  "GetSnapshot key c = c_snapshot c (c_emitted c) key"

definition Emit :: "Effect \<Rightarrow> tip list \<Rightarrow> Context \<Rightarrow> bytes option \<times> Context" where
  "Emit e tips c =
     (case c_emit_error c (c_emitted c) e of
        Some err \<Rightarrow> (Some err, c)
      | None \<Rightarrow> (None, c\<lparr>c_emitted := c_emitted c @ [(e, tips)]\<rparr>))"

fun Emits :: "(Effect \<times> tip list) list \<Rightarrow> Context \<Rightarrow> bytes option \<times> Context" where
  "Emits [] c = (None, c)"
| "Emits ((e, tips) # es) c =
     (case Emit e tips c of (Some err, c') \<Rightarrow> (Some err, c') | (None, c') \<Rightarrow> Emits es c')"

definition data_effect :: "bytes \<Rightarrow> DataEffect \<Rightarrow> Effect" where
  "data_effect key d = \<lparr>e_Key = key, e_Kind = Data d\<rparr>"

definition meta_effect :: "bytes \<Rightarrow> ValueType \<Rightarrow> Effect" where
  "meta_effect key t = \<lparr>e_Key = key, e_Kind = Meta t\<rparr>"

section \<open>Handlers\<close>

text \<open>
  A handler validates its arguments, possibly writing an error, and returns whether they are valid,
  the keys it touches and the function that runs the command. A runner that panics yields \<open>None\<close>.
\<close>

type_synonym runner = "Context \<times> Writer \<Rightarrow> (Context \<times> Writer) option"

record handler_result =
  h_writer :: Writer
  h_valid :: bool
  h_keys :: "bytes list"
  h_runner :: "runner option"

definition reject :: "bytes list \<Rightarrow> Writer \<Rightarrow> handler_result" where
  "reject ks w = \<lparr>h_writer = w, h_valid = False, h_keys = ks, h_runner = None\<rparr>"

definition accept :: "bytes list \<Rightarrow> Writer \<Rightarrow> runner \<Rightarrow> handler_result" where
  "accept ks w f = \<lparr>h_writer = w, h_valid = True, h_keys = ks, h_runner = Some f\<rparr>"

text \<open>Emitting some effects and then replying: the first failing emission is the reply.\<close>

definition emit_then :: "(Effect \<times> tip list) list \<Rightarrow> (Writer \<Rightarrow> Writer) \<Rightarrow> Context \<times> Writer \<Rightarrow> Context \<times> Writer" where
  "emit_then es reply cw =
     (case Emits es (fst cw) of
        (Some err, c) \<Rightarrow> (c, WriteError err (snd cw))
      | (None, c) \<Rightarrow> (c, reply (snd cw)))"

lemma Emits_ok:
  "(\<And>es e. c_emit_error c es e = None) \<Longrightarrow> Emits es c = (None, c\<lparr>c_emitted := c_emitted c @ es\<rparr>)"
proof (induction es arbitrary: c)
  case (Cons a es)
  obtain e tips where [simp]: "a = (e, tips)" by force
  show ?case using Cons.IH [of "c\<lparr>c_emitted := c_emitted c @ [(e, tips)]\<rparr>"] Cons.prems by (simp add: Emit_def)
qed simp

lemma Emits_prefix:
  "\<exists>k. k \<le> length es \<and> snd (Emits es c) = c\<lparr>c_emitted := c_emitted c @ take k es\<rparr> \<and>
     (fst (Emits es c) = None \<longrightarrow> k = length es)"
proof (induction es arbitrary: c)
  case (Cons a es)
  obtain e tips where [simp]: "a = (e, tips)" by force
  show ?case
  proof (cases "c_emit_error c (c_emitted c) e")
    case None
    obtain k where "k \<le> length es"
      "snd (Emits es (c\<lparr>c_emitted := c_emitted c @ [(e, tips)]\<rparr>)) = c\<lparr>c_emitted := c_emitted c @ (e, tips) # take k es\<rparr>"
      "fst (Emits es (c\<lparr>c_emitted := c_emitted c @ [(e, tips)]\<rparr>)) = None \<longrightarrow> k = length es"
      using Cons.IH [of "c\<lparr>c_emitted := c_emitted c @ [(e, tips)]\<rparr>"] by auto
    then show ?thesis using None by (intro exI [of _ "Suc k"]) (simp add: Emit_def)
  next
    case (Some err)
    then show ?thesis by (intro exI [of _ 0]) (simp add: Emit_def)
  qed
qed simp

section \<open>Allocation\<close>

text \<open>
  \<^verbatim>\<open>make([]T, n)\<close> and \<^verbatim>\<open>make([]T, 0, n)\<close> panic when \<open>n\<close> is negative or the slice is larger than the \<open>2^48\<close> bytes
  of the address space; \<open>width\<close> is the size of a \<^verbatim>\<open>T\<close>.
\<close>

definition make_panics :: "int \<Rightarrow> int \<Rightarrow> bool" where
  "make_panics width n \<longleftrightarrow> n < 0 \<or> width * n > 2 ^ 48"

end
