(* ===== verification/Bitmap_Handlers.thy ===== *)
theory Bitmap_Handlers
  imports Bitmap Engine
begin

text \<open>
  The command handlers of \<^verbatim>\<open>redis/bitmap/core.go\<close> over snapshots. The parameter \<open>dec\<close> is the engine's
  \<^verbatim>\<open>DataEffect.Decompress\<close>; the parameter \<open>ord\<close> is the order in which Go visits a map.
\<close>

section \<open>Reading a snapshot\<close>

datatype snapshot_read = ReadError bytes | Missing "tip list" | WrongType "tip list" | Found ReducedEffect "tip list"

definition getBitmapSnapshot :: "Context \<Rightarrow> bytes \<Rightarrow> snapshot_read" where
  "getBitmapSnapshot c key =
     (case GetSnapshot key c of
        Inl err \<Rightarrow> ReadError err
      | Inr (None, tips) \<Rightarrow> Missing tips
      | Inr (Some snap, tips) \<Rightarrow>
          if r_Op snap = REMOVE_OP then Missing tips
          else if r_Collection snap \<noteq> KEYED \<and> r_Collection snap \<noteq> SCALAR then WrongType tips
          else Found snap tips)"

definition scalar_bytes :: "(DataEffect \<Rightarrow> bytes) \<Rightarrow> ReducedEffect \<Rightarrow> bytes" where
  "scalar_bytes dec snap = (case r_Scalar snap of None \<Rightarrow> [] | Some d \<Rightarrow> dec d)"

definition getBit :: "(DataEffect \<Rightarrow> bytes) \<Rightarrow> ReducedEffect option \<Rightarrow> i64 \<Rightarrow> i64 option" where
  "getBit dec s offset =
     (case s of
        None \<Rightarrow> Some 0
      | Some snap \<Rightarrow>
          if r_Collection snap = KEYED then
            (case (case r_Scalar snap of None \<Rightarrow> Some 0 | Some d \<Rightarrow> getScalarBit (dec d) offset) of
               None \<Rightarrow> None
             | Some baseBit \<Rightarrow>
                 case map_of (r_NetAdds snap) (fmt_int (sint offset)) of
                   None \<Rightarrow> Some baseBit
                 | Some elem \<Rightarrow>
                     if r_Scalar snap \<noteq> None then
                       Some (if GetIntVal (el_Data elem) = 1 then 1 - baseBit else baseBit)
                     else Some (GetIntVal (el_Data elem)))
          else getScalarBit (scalar_bytes dec snap) offset)"

text \<open>\<^verbatim>\<open>strconv.ParseInt(key, 10, 64)\<close> with its error dropped: zero, or the nearest bound.\<close>

definition ParseInt_dropped :: "bytes \<Rightarrow> i64" where
  "ParseInt_dropped s =
     (case atoi s of
        Some v \<Rightarrow> word_of_int v
      | None \<Rightarrow>
          let ds = (case s of c # cs \<Rightarrow> if c = 45 \<or> c = 43 then cs else s | [] \<Rightarrow> [])
          in if ds = [] \<or> \<not> list_all is_digit ds then 0
             else if hd s = 45 then 0x8000000000000000 else 0x7FFFFFFFFFFFFFFF)"

definition overlay_entries :: "ReducedEffect \<Rightarrow> (i64 \<times> bool) list" where
  "overlay_entries snap = map (\<lambda>(k, elem). (ParseInt_dropped k, GetIntVal (el_Data elem) = 1)) (r_NetAdds snap)"

definition max_offset :: "(i64 \<times> bool) list \<Rightarrow> i64" where
  "max_offset es = foldl (\<lambda>m (off, _). if sint m < sint off then off else m) 0 es"

fun apply_bits :: "(byte \<Rightarrow> byte \<Rightarrow> byte) \<Rightarrow> (i64 \<times> bool) list \<Rightarrow> bytes \<Rightarrow> bytes option" where
  "apply_bits f [] data = Some data"
| "apply_bits f ((off, isset) # es) data =
     (if isset then
        let byteIdx = go_div off 8; bitIdx = 7 - go_mod off 8 in
        case go_index data byteIdx of
          None \<Rightarrow> None
        | Some b \<Rightarrow> apply_bits f es (data[nat (sint byteIdx) := f b (push_bit (unat bitIdx) 1)])
      else apply_bits f es data)"

text \<open>Growing the bytes to a length, which panics when they cannot be allocated.\<close>

definition extend_zeros :: "bytes \<Rightarrow> i64 \<Rightarrow> bytes option" where
  "extend_zeros data needed =
     (if int (length data) < sint needed then
        if make_panics 1 (sint needed) then None else Some (data @ replicate (nat (sint needed) - length data) 0)
      else Some data)"

definition reconstructBitmapBytes :: "(DataEffect \<Rightarrow> bytes) \<Rightarrow> ReducedEffect option \<Rightarrow> bytes option" where
  "reconstructBitmapBytes dec s =
     (case s of
        None \<Rightarrow> Some []
      | Some snap \<Rightarrow>
          if r_Collection snap = SCALAR then Some (scalar_bytes dec snap)
          else
            let es = overlay_entries snap; needed = go_div (max_offset es) 8 + 1 in
            case r_Scalar snap of
              Some d \<Rightarrow> if es = [] then Some (dec d) else Option.bind (extend_zeros (dec d) needed) (apply_bits (XOR) es)
            | None \<Rightarrow> if es = [] then Some [] else Option.bind (extend_zeros [] needed) (apply_bits (OR) es))"

section \<open>SETBIT and GETBIT\<close>

definition emitSetBit :: "bytes \<Rightarrow> i64 \<Rightarrow> i64 \<Rightarrow> Effect" where
  "emitSetBit key offset val = data_effect key (insert_data KEYED (fmt_int (sint offset)) (IntVal val))"

definition setBit_effects ::
  "(DataEffect \<Rightarrow> bytes) \<Rightarrow> bytes \<Rightarrow> i64 \<Rightarrow> i64 \<Rightarrow> ReducedEffect option \<Rightarrow> (Effect \<times> tip list) list option" where
  "setBit_effects dec key offset val s =
     (if s = None \<and> val = 0 then
        Some [(data_effect key (insert_data SCALAR [] (Raw (replicate (nat (sint (go_div offset 8 + 1))) 0))), []),
              (meta_effect key TYPE_BITMAP, [])]
      else
        case (case s of
                None \<Rightarrow> Some val
              | Some snap \<Rightarrow>
                  (case r_Scalar snap of
                     None \<Rightarrow> Some val
                   | Some d \<Rightarrow> map_option (\<lambda>baseBit. if val \<noteq> baseBit then 1 else 0) (getScalarBit (dec d) offset))) of
          None \<Rightarrow> None
        | Some emitValue \<Rightarrow>
            Some ((emitSetBit key offset emitValue, []) #
              (if s = None then [(meta_effect key TYPE_BITMAP, [])] else [])))"

definition offset_error :: bytes where
  "offset_error = bstr ''ERR bit offset is not an integer or out of range''"

definition bit_error :: bytes where
  "bit_error = bstr ''ERR bit is not an integer or out of range''"

definition run_setBit :: "(DataEffect \<Rightarrow> bytes) \<Rightarrow> bytes \<Rightarrow> i64 \<Rightarrow> i64 \<Rightarrow> ReducedEffect option \<Rightarrow> runner" where
  "run_setBit dec key offset val s cw =
     (case getBit dec s offset of
        None \<Rightarrow> None
      | Some oldBit \<Rightarrow>
          map_option (\<lambda>es. emit_then es (WriteInteger (if s = None \<and> val = 0 then 0 else oldBit)) cw)
            (setBit_effects dec key offset val s))"

definition handleSetBit :: "(DataEffect \<Rightarrow> bytes) \<Rightarrow> bytes list \<Rightarrow> Writer \<Rightarrow> handler_result" where
  "handleSetBit dec args w =
     (if length args \<noteq> 3 then reject [] (WriteWrongNumArguments (bstr ''setbit'') w)
      else
        let key = args ! 0 in
        case ParseInt64 (args ! 1) of
          None \<Rightarrow> reject [key] (WriteError offset_error w)
        | Some offset \<Rightarrow>
            if sint offset < 0 \<or> sint offset \<ge> 4 * 1024 * 1024 * 1024 then reject [key] (WriteError offset_error w)
            else
              case ParseInt64 (args ! 2) of
                None \<Rightarrow> reject [key] (WriteError bit_error w)
              | Some val \<Rightarrow>
                  if val \<noteq> 0 \<and> val \<noteq> 1 then reject [key] (WriteError bit_error w)
                  else
                    accept [key] w (\<lambda>(c, w).
                      case getBitmapSnapshot c key of
                        ReadError err \<Rightarrow> Some (c, WriteError err w)
                      | WrongType _ \<Rightarrow> Some (c, WriteWrongType w)
                      | Missing _ \<Rightarrow> run_setBit dec key offset val None (c, w)
                      | Found snap _ \<Rightarrow> run_setBit dec key offset val (Some snap) (c, w)))"

definition handleGetBit :: "(DataEffect \<Rightarrow> bytes) \<Rightarrow> bytes list \<Rightarrow> Writer \<Rightarrow> handler_result" where
  "handleGetBit dec args w =
     (if length args \<noteq> 2 then reject [] (WriteWrongNumArguments (bstr ''getbit'') w)
      else
        let key = args ! 0 in
        case ParseInt64 (args ! 1) of
          None \<Rightarrow> reject [key] (WriteError offset_error w)
        | Some offset \<Rightarrow>
            if sint offset < 0 then reject [key] (WriteError offset_error w)
            else
              accept [key] w (\<lambda>(c, w).
                case getBitmapSnapshot c key of
                  ReadError err \<Rightarrow> Some (c, WriteError err w)
                | Missing _ \<Rightarrow> Some (c, WriteInteger 0 w)
                | WrongType _ \<Rightarrow> Some (c, WriteWrongType w)
                | Found snap _ \<Rightarrow> map_option (\<lambda>b. (c, WriteInteger b w)) (getBit dec (Some snap) offset)))"

end
