(* ===== verification/Bitmap_Field.thy ===== *)
theory Bitmap_Field
  imports Bitmap_Handlers
begin

text \<open>
  \<^verbatim>\<open>BITFIELD\<close> and \<^verbatim>\<open>BITFIELD_RO\<close> of \<^verbatim>\<open>redis/bitmap/core.go\<close>: parsing of the subcommands, their execution on the
  bytes of the key and the effects that store the result.
\<close>

section \<open>Parsing\<close>

datatype bitfield_op = bitfieldGet | bitfieldSet | bitfieldIncrBy

record subCommand =
  sc_op :: bitfield_op
  sc_signed :: bool
  sc_bits :: nat
  sc_offset :: i64
  sc_value :: i64
  sc_overflow :: overflowBehavior
  sc_offsetMul :: bool

definition type_error :: bytes where
  "type_error = bstr ''ERR Invalid bitfield type. Use something like i16 u8. Note that u64 is not supported but i64 is.''"

definition parse_field :: "bytes \<Rightarrow> bytes \<Rightarrow> (Writer \<Rightarrow> Writer) + (bool \<times> nat \<times> i64 \<times> bool)" where
  "parse_field t off =
     (case parseBitfieldType t of
        None \<Rightarrow> Inl (WriteError type_error)
      | Some (is_signed, bitWidth) \<Rightarrow>
          case parseBitfieldOffset off bitWidth of
            None \<Rightarrow> Inl (WriteError offset_error)
          | Some (offset, offsetMul) \<Rightarrow> Inr (is_signed, bitWidth, offset, offsetMul))"

definition parse_overflow :: "bytes \<Rightarrow> overflowBehavior option" where
  "parse_overflow b =
     (let behavior = str_upper b in
      if behavior = bstr ''WRAP'' then Some overflowWrap
      else if behavior = bstr ''SAT'' then Some overflowSat
      else if behavior = bstr ''FAIL'' then Some overflowFail else None)"

function parse_subcommands :: "overflowBehavior \<Rightarrow> bytes list \<Rightarrow> (Writer \<Rightarrow> Writer) + subCommand list" where
  "parse_subcommands ov [] = Inr []"
| "parse_subcommands ov (a # args) =
     (let op = str_upper a in
      if op = bstr ''GET'' then
        (if length args < 2 then Inl WriteSyntaxError
         else
           case parse_field (args ! 0) (args ! 1) of
             Inl err \<Rightarrow> Inl err
           | Inr (sg, bits, offset, mul) \<Rightarrow>
               map_sum (\<lambda>e. e) (\<lambda>scs. \<lparr>sc_op = bitfieldGet, sc_signed = sg, sc_bits = bits, sc_offset = offset,
                 sc_value = 0, sc_overflow = ov, sc_offsetMul = mul\<rparr> # scs) (parse_subcommands ov (drop 2 args)))
      else if op = bstr ''SET'' \<or> op = bstr ''INCRBY'' then
        (if length args < 3 then Inl WriteSyntaxError
         else
           case parse_field (args ! 0) (args ! 1) of
             Inl err \<Rightarrow> Inl err
           | Inr (sg, bits, offset, mul) \<Rightarrow>
               case ParseInt64 (args ! 2) of
                 None \<Rightarrow> Inl WriteNotInteger
               | Some v \<Rightarrow>
                   map_sum (\<lambda>e. e) (\<lambda>scs. \<lparr>sc_op = (if op = bstr ''SET'' then bitfieldSet else bitfieldIncrBy),
                     sc_signed = sg, sc_bits = bits, sc_offset = offset, sc_value = v, sc_overflow = ov,
                     sc_offsetMul = mul\<rparr> # scs) (parse_subcommands ov (drop 3 args)))
      else if op = bstr ''OVERFLOW'' then
        (case args of
           [] \<Rightarrow> Inl WriteSyntaxError
         | b # rest \<Rightarrow>
             case parse_overflow b of
               None \<Rightarrow> Inl (WriteError (bstr ''ERR Invalid OVERFLOW type (should be one of WRAP, SAT, FAIL)''))
             | Some ov' \<Rightarrow> parse_subcommands ov' rest)
      else Inl WriteSyntaxError)"
  by pat_completeness auto
termination
  by (relation "measure (\<lambda>(ov, args). length args)") auto

section \<open>Execution\<close>

definition store_field :: "subCommand \<Rightarrow> i64 \<Rightarrow> bytes \<Rightarrow> bytes option" where
  "store_field sc newValue data =
     (let requiredBytes = go_div (sc_offset sc + of_nat (sc_bits sc) + 7) 8
      in Option.bind (extend_zeros data requiredBytes) (\<lambda>d. setBitfieldInt d (sc_offset sc) (sc_bits sc) newValue))"

text \<open>One subcommand on the bytes: its result (\<open>None\<close> is the null reply), the bytes and whether it wrote.\<close>

definition run_subcommand :: "subCommand \<Rightarrow> bytes \<Rightarrow> (i64 option \<times> bytes \<times> bool) option" where
  "run_subcommand sc data =
     (case getBitfieldInt data (sc_offset sc) (sc_bits sc) (sc_signed sc) of
        None \<Rightarrow> None
      | Some oldValue \<Rightarrow>
          case sc_op sc of
            bitfieldGet \<Rightarrow> Some (Some oldValue, data, False)
          | bitfieldSet \<Rightarrow>
              if checkBitfieldOverflow (sc_value sc) (sc_bits sc) (sc_signed sc) \<and> sc_overflow sc = overflowFail
              then Some (None, data, False)
              else
                map_option (\<lambda>d. (Some oldValue, d, True))
                  (store_field sc (applyOverflow (sc_value sc) (sc_bits sc) (sc_signed sc) (sc_overflow sc)) data)
          | bitfieldIncrBy \<Rightarrow>
              if sc_overflow sc = overflowFail \<and> checkAdditionOverflow oldValue (sc_value sc) then Some (None, data, False)
              else
                let newValue = oldValue + sc_value sc in
                if checkBitfieldOverflow newValue (sc_bits sc) (sc_signed sc) \<and> sc_overflow sc = overflowFail
                then Some (None, data, False)
                else
                  let newValue' = applyOverflow newValue (sc_bits sc) (sc_signed sc) (sc_overflow sc) in
                  map_option (\<lambda>d. (Some newValue', d, True)) (store_field sc newValue' data))"

fun run_subcommands :: "subCommand list \<Rightarrow> bytes \<Rightarrow> (i64 option list \<times> bytes \<times> bool) option" where
  "run_subcommands [] data = Some ([], data, False)"
| "run_subcommands (sc # scs) data =
     (case run_subcommand sc data of
        None \<Rightarrow> None
      | Some (r, data', m) \<Rightarrow>
          map_option (\<lambda>(rs, data'', m'). (r # rs, data'', m \<or> m')) (run_subcommands scs data'))"

section \<open>Storing the bytes\<close>

definition byte_or_zero :: "bytes \<Rightarrow> nat \<Rightarrow> byte" where
  "byte_or_zero data i = (if i < length data then data ! i else 0)"

definition needInsert :: "bytes \<Rightarrow> bytes \<Rightarrow> bytes list" where
  "needInsert baseData data =
     concat (map (\<lambda>byteIdx.
       let diff = byte_or_zero data byteIdx XOR byte_or_zero baseData byteIdx in
       map (\<lambda>bitIdx. fmt_int (int byteIdx * 8 + int (7 - bitIdx)))
         (filter (\<lambda>bitIdx. drop_bit bitIdx diff AND 1 = 1) [7, 6, 5, 4, 3, 2, 1, 0]))
       [0..<max (length baseData) (length data)])"

fun tips_first :: "tip list \<Rightarrow> Effect list \<Rightarrow> (Effect \<times> tip list) list" where
  "tips_first tips [] = []"
| "tips_first tips (e # es) = (e, tips) # map (\<lambda>e. (e, [])) es"

definition emitBitmapBulk ::
  "(DataEffect \<Rightarrow> bytes) \<Rightarrow> (bytes list \<Rightarrow> bytes list) \<Rightarrow> bytes \<Rightarrow> bytes \<Rightarrow> ReducedEffect option \<Rightarrow> tip list \<Rightarrow>
   (Effect \<times> tip list) list" where
  "emitBitmapBulk dec ord key data oldSnap tips =
     (let baseData = (case oldSnap of None \<Rightarrow> [] | Some s \<Rightarrow> scalar_bytes dec s);
          need = needInsert baseData data;
          removes = (case oldSnap of
            None \<Rightarrow> []
          | Some s \<Rightarrow>
              if r_Collection s = KEYED then filter (\<lambda>i. i \<notin> set need) (map fst (r_NetAdds s)) else [])
      in tips_first tips
           (map (\<lambda>i. data_effect key (remove_data KEYED i)) removes @
            map (\<lambda>i. data_effect key (insert_data KEYED i (IntVal 1))) (ord need)))"

definition write_results :: "i64 option list \<Rightarrow> Writer \<Rightarrow> Writer" where
  "write_results rs w =
     foldl (\<lambda>w r. case r of None \<Rightarrow> WriteNullBulkString w | Some v \<Rightarrow> WriteInteger v w) (WriteArray (of_nat (length rs)) w) rs"

definition run_bitField ::
  "(DataEffect \<Rightarrow> bytes) \<Rightarrow> (bytes list \<Rightarrow> bytes list) \<Rightarrow> bytes \<Rightarrow> subCommand list \<Rightarrow>
   ReducedEffect option \<Rightarrow> tip list \<Rightarrow> runner" where
  "run_bitField dec ord key scs s tips cw =
     (case reconstructBitmapBytes dec s of
        None \<Rightarrow> None
      | Some rawData \<Rightarrow>
          case run_subcommands scs rawData of
            None \<Rightarrow> None
          | Some (results, data, modified) \<Rightarrow>
              Some (emit_then
                (if modified then
                   emitBitmapBulk dec ord key data s tips @
                   (if s = None \<or> map_option r_Collection s = Some SCALAR
                    then [(meta_effect key TYPE_BITMAP, [])] else [])
                 else [])
                (write_results results) cw))"

definition handleBitField ::
  "(DataEffect \<Rightarrow> bytes) \<Rightarrow> (bytes list \<Rightarrow> bytes list) \<Rightarrow> bytes list \<Rightarrow> Writer \<Rightarrow> handler_result" where
  "handleBitField dec ord args w =
     (case args of
        [] \<Rightarrow> reject [] (WriteWrongNumArguments (bstr ''bitfield'') w)
      | key # rest \<Rightarrow>
          case parse_subcommands overflowWrap rest of
            Inl err \<Rightarrow> reject [key] (err w)
          | Inr [] \<Rightarrow> accept [key] w (\<lambda>(c, w). Some (c, WriteArray 0 w))
          | Inr scs \<Rightarrow>
              accept [key] w (\<lambda>(c, w).
                case getBitmapSnapshot c key of
                  ReadError err \<Rightarrow> Some (c, WriteError err w)
                | WrongType _ \<Rightarrow> Some (c, WriteWrongType w)
                | Missing tips \<Rightarrow> run_bitField dec ord key scs None tips (c, w)
                | Found snap tips \<Rightarrow> run_bitField dec ord key scs (Some snap) tips (c, w)))"

section \<open>BITFIELD\_RO\<close>

fun parse_gets :: "bytes list \<Rightarrow> (Writer \<Rightarrow> Writer) + (bool \<times> nat \<times> i64) list" where
  "parse_gets [] = Inr []"
| "parse_gets (a # t # off # rest) =
     (if str_upper a = bstr ''GET'' then
        (case parse_field t off of
           Inl err \<Rightarrow> Inl err
         | Inr (sg, bits, offset, _) \<Rightarrow> map_sum (\<lambda>e. e) (\<lambda>gs. (sg, bits, offset) # gs) (parse_gets rest))
      else Inl (WriteError (bstr ''ERR BITFIELD_RO only supports the GET subcommand'')))"
| "parse_gets (a # rest) =
     (if str_upper a = bstr ''GET'' then Inl WriteSyntaxError
      else Inl (WriteError (bstr ''ERR BITFIELD_RO only supports the GET subcommand'')))"

fun write_gets :: "bytes \<Rightarrow> (bool \<times> nat \<times> i64) list \<Rightarrow> Writer \<Rightarrow> Writer option" where
  "write_gets data [] w = Some w"
| "write_gets data ((sg, bits, offset) # gs) w =
     (case getBitfieldInt data offset bits sg of
        None \<Rightarrow> None
      | Some v \<Rightarrow> write_gets data gs (WriteInteger v w))"

definition handleBitFieldRO :: "(DataEffect \<Rightarrow> bytes) \<Rightarrow> bytes list \<Rightarrow> Writer \<Rightarrow> handler_result" where
  "handleBitFieldRO dec args w =
     (case args of
        [] \<Rightarrow> reject [] (WriteWrongNumArguments (bstr ''bitfield_ro'') w)
      | key # rest \<Rightarrow>
          case parse_gets rest of
            Inl err \<Rightarrow> reject [key] (err w)
          | Inr [] \<Rightarrow> accept [key] w (\<lambda>(c, w). Some (c, WriteArray 0 w))
          | Inr gs \<Rightarrow>
              accept [key] w (\<lambda>(c, w).
                let reply = (\<lambda>s. case reconstructBitmapBytes dec s of
                      None \<Rightarrow> None
                    | Some data \<Rightarrow> map_option (Pair c) (write_gets data gs (WriteArray (of_nat (length gs)) w)))
                in case getBitmapSnapshot c key of
                     ReadError err \<Rightarrow> Some (c, WriteError err w)
                   | WrongType _ \<Rightarrow> Some (c, WriteWrongType w)
                   | Missing _ \<Rightarrow> reply None
                   | Found snap _ \<Rightarrow> reply (Some snap)))"

end
