(* ===== verification/Bitmap_Commands.thy ===== *)
theory Bitmap_Commands
  imports Bitmap_Handlers
begin

text \<open>
  \<^verbatim>\<open>BITCOUNT\<close>, \<^verbatim>\<open>BITPOS\<close>, \<^verbatim>\<open>BITOP\<close>, \<^verbatim>\<open>BITFIELD\<close> and \<^verbatim>\<open>BITFIELD_RO\<close> of \<^verbatim>\<open>redis/bitmap/core.go\<close>. Positions of
  ranges are integers: an array is shorter than $2^{60}$ bytes, so that no position overflows.
\<close>

section \<open>Ranges, counting and searching\<close>

definition resolve_range :: "int \<Rightarrow> int \<Rightarrow> int \<Rightarrow> (int \<times> int) option" where
  "resolve_range len start stop =
     (let actualStart = (if start < 0 then len + start else start);
          actualEnd = (if stop < 0 then len + stop else stop);
          actualStart = (if actualStart < 0 then 0 else actualStart);
          actualEnd = (if actualEnd \<ge> len then len - 1 else actualEnd)
      in if actualStart > actualEnd \<or> actualStart \<ge> len then None else Some (actualStart, actualEnd))"

definition bit_of :: "bytes \<Rightarrow> int \<Rightarrow> bool" where
  "bit_of data i = bit (data ! nat (i div 8)) (nat (7 - i mod 8))"

definition OnesCount8 :: "byte \<Rightarrow> int" where
  "OnesCount8 b = int (length (filter (bit b) [0..<8]))"

definition count_range :: "bool \<Rightarrow> bytes \<Rightarrow> int \<Rightarrow> int \<Rightarrow> int" where
  "count_range useBitIndex data start stop =
     (if useBitIndex then
        (case resolve_range (int (length data) * 8) start stop of
           None \<Rightarrow> 0
         | Some (s, e) \<Rightarrow> int (length (filter (bit_of data) [s..e])))
      else
        (case resolve_range (int (length data)) start stop of
           None \<Rightarrow> 0
         | Some (s, e) \<Rightarrow> foldl (\<lambda>n i. n + OnesCount8 (data ! nat i)) 0 [s..e]))"

definition parse_unit :: "bytes \<Rightarrow> bool option" where
  "parse_unit m =
     (if str_upper m = bstr ''BIT'' then Some True else if str_upper m = bstr ''BYTE'' then Some False else None)"

definition run_bitCount ::
  "(DataEffect \<Rightarrow> bytes) \<Rightarrow> bytes \<Rightarrow> (int \<times> int \<times> bool) option \<Rightarrow> runner" where
  "run_bitCount dec key rng cw =
     (case cw of (c, w) \<Rightarrow>
        case getBitmapSnapshot c key of
          ReadError err \<Rightarrow> Some (c, WriteError err w)
        | Missing _ \<Rightarrow> Some (c, WriteInteger 0 w)
        | WrongType _ \<Rightarrow> Some (c, WriteWrongType w)
        | Found snap _ \<Rightarrow>
            if rng = None \<and> r_Collection snap = KEYED \<and> r_Scalar snap = None then
              Some (c, WriteInteger
                (of_nat (length (filter (\<lambda>(_, elem). GetIntVal (el_Data elem) = 1) (r_NetAdds snap)))) w)
            else
              map_option (\<lambda>data.
                (c, WriteInteger (word_of_int
                      (case rng of
                         None \<Rightarrow> count_range False data 0 (int (length data) - 1)
                       | Some (start, stop, useBitIndex) \<Rightarrow> count_range useBitIndex data start stop)) w))
                (reconstructBitmapBytes dec (Some snap)))"

definition handleBitCount :: "(DataEffect \<Rightarrow> bytes) \<Rightarrow> bytes list \<Rightarrow> Writer \<Rightarrow> handler_result" where
  "handleBitCount dec args w =
     (if length args < 1 then reject [] (WriteWrongNumArguments (bstr ''bitcount'') w)
      else if length args = 2 then reject [] (WriteSyntaxError w)
      else
        let key = args ! 0 in
        if length args < 3 then accept [key] w (run_bitCount dec key None)
        else
          case ParseInt64 (args ! 1) of
            None \<Rightarrow> reject [key] (WriteNotInteger w)
          | Some start \<Rightarrow>
              case ParseInt64 (args ! 2) of
                None \<Rightarrow> reject [key] (WriteNotInteger w)
              | Some stop \<Rightarrow>
                  if length args \<ge> 4 then
                    (case parse_unit (args ! 3) of
                       None \<Rightarrow> reject [key] (WriteSyntaxError w)
                     | Some u \<Rightarrow> accept [key] w (run_bitCount dec key (Some (sint start, sint stop, u))))
                  else accept [key] w (run_bitCount dec key (Some (sint start, sint stop, False))))"

definition find_range :: "bool \<Rightarrow> bytes \<Rightarrow> bool \<Rightarrow> int \<Rightarrow> int option \<Rightarrow> int" where
  "find_range useBitIndex data searchBit start stop =
     (if useBitIndex then
        (let bitLen = int (length data) * 8 in
         case resolve_range bitLen start (case stop of None \<Rightarrow> bitLen - 1 | Some e \<Rightarrow> e) of
           None \<Rightarrow> - 1
         | Some (s, e) \<Rightarrow> (case find (\<lambda>i. bit_of data i = searchBit) [s..e] of None \<Rightarrow> - 1 | Some i \<Rightarrow> i))
      else
        (let dataLen = int (length data) in
         case resolve_range dataLen start (case stop of None \<Rightarrow> dataLen - 1 | Some e \<Rightarrow> e) of
           None \<Rightarrow> - 1
         | Some (s, e) \<Rightarrow>
             (case find (\<lambda>(byteIdx, bitIdx). bit (data ! nat byteIdx) bitIdx = searchBit)
                     (concat (map (\<lambda>byteIdx. map (Pair byteIdx) [7, 6, 5, 4, 3, 2, 1, 0]) [s..e])) of
                Some (byteIdx, bitIdx) \<Rightarrow> byteIdx * 8 + (7 - int bitIdx)
              | None \<Rightarrow> if \<not> searchBit \<and> stop = None then dataLen * 8 else - 1)))"

definition run_bitPos ::
  "(DataEffect \<Rightarrow> bytes) \<Rightarrow> bytes \<Rightarrow> bool \<Rightarrow> bool \<Rightarrow> int \<Rightarrow> int option \<Rightarrow> runner" where
  "run_bitPos dec key searchBit useBitIndex start stop cw =
     (case cw of (c, w) \<Rightarrow>
        case getBitmapSnapshot c key of
          ReadError err \<Rightarrow> Some (c, WriteError err w)
        | Missing _ \<Rightarrow> Some (c, WriteInteger (if searchBit then - 1 else 0) w)
        | WrongType _ \<Rightarrow> Some (c, WriteWrongType w)
        | Found snap _ \<Rightarrow>
            map_option (\<lambda>data.
              (c, WriteInteger
                    (if data = [] then (if searchBit then - 1 else 0)
                     else word_of_int (find_range useBitIndex data searchBit start stop)) w))
              (reconstructBitmapBytes dec (Some snap)))"

definition handleBitPos :: "(DataEffect \<Rightarrow> bytes) \<Rightarrow> bytes list \<Rightarrow> Writer \<Rightarrow> handler_result" where
  "handleBitPos dec args w =
     (if length args < 2 then reject [] (WriteWrongNumArguments (bstr ''bitpos'') w)
      else if length args > 5 then reject [] (WriteSyntaxError w)
      else
        let key = args ! 0 in
        case ParseInt64 (args ! 1) of
          None \<Rightarrow> reject [key] (WriteError bit_error w)
        | Some searchBit \<Rightarrow>
            if searchBit \<noteq> 0 \<and> searchBit \<noteq> 1 then reject [key] (WriteError bit_error w)
            else
              case (if length args \<ge> 5 then parse_unit (args ! 4) else Some False) of
                None \<Rightarrow> reject [key] (WriteSyntaxError w)
              | Some useBitIndex \<Rightarrow>
                  case (if length args \<ge> 3 then ParseInt64 (args ! 2) else Some 0) of
                    None \<Rightarrow> reject [key] (WriteNotInteger w)
                  | Some start \<Rightarrow>
                      if length args < 4 then
                        accept [key] w (run_bitPos dec key (searchBit = 1) useBitIndex (sint start) None)
                      else
                        case ParseInt64 (args ! 3) of
                          None \<Rightarrow> reject [key] (WriteNotInteger w)
                        | Some stop \<Rightarrow>
                            accept [key] w (run_bitPos dec key (searchBit = 1) useBitIndex (sint start) (Some (sint stop))))"

section \<open>BITOP\<close>

datatype bitop = BAnd | BOr | BXor | BNot | BOne | BDiff | BDiff1 | BAndOr

definition merge_into :: "(byte \<Rightarrow> byte \<Rightarrow> byte) \<Rightarrow> bytes \<Rightarrow> bytes \<Rightarrow> bytes" where
  "merge_into f result src = map (\<lambda>i. if i < length src then f (result ! i) (src ! i) else result ! i) [0..<length result]"

definition one_byte :: "bytes list \<Rightarrow> nat \<Rightarrow> byte" where
  "one_byte sources i =
     (if length sources \<le> 2 then
        foldl (\<lambda>n src. if i < length src then n XOR src ! i else n) 0 sources
      else
        foldl (\<lambda>b k.
          if length (filter (\<lambda>src. i < length src \<and> drop_bit k (src ! i) AND 1 = 1) sources) = 1
          then b OR push_bit k 1 else b) 0 [0..<8])"

definition bitop_result :: "bitop \<Rightarrow> bytes list \<Rightarrow> nat \<Rightarrow> bytes" where
  "bitop_result op sources maxLen =
     (let zeros = replicate maxLen 0;
          yUnion = foldl (merge_into (OR)) zeros (tl sources)
      in case op of
           BAnd \<Rightarrow>
             foldl (\<lambda>r src. map (\<lambda>i. if i < length src then r ! i AND src ! i else 0) [0..<maxLen])
               (replicate maxLen 0xFF) sources
         | BOr \<Rightarrow> foldl (merge_into (OR)) zeros sources
         | BXor \<Rightarrow> foldl (merge_into (XOR)) zeros sources
         | BNot \<Rightarrow> map NOT (hd sources)
         | BOne \<Rightarrow> map (one_byte sources) [0..<maxLen]
         | BDiff \<Rightarrow> foldl (merge_into (\<lambda>r y. r AND NOT y)) (merge_into (\<lambda>_ x. x) zeros (hd sources)) (tl sources)
         | BDiff1 \<Rightarrow> merge_into (\<lambda>u x. u AND NOT x) yUnion (hd sources)
         | BAndOr \<Rightarrow>
             map (\<lambda>i. if i < length (hd sources) then hd sources ! i AND yUnion ! i else 0) [0..<maxLen])"

definition parse_bitop :: "bytes \<Rightarrow> bitop option" where
  "parse_bitop b =
     (let op = str_upper b in
      if op = bstr ''AND'' then Some BAnd else if op = bstr ''OR'' then Some BOr
      else if op = bstr ''XOR'' then Some BXor else if op = bstr ''ONE'' then Some BOne
      else if op = bstr ''NOT'' then Some BNot else if op = bstr ''DIFF'' then Some BDiff
      else if op = bstr ''DIFF1'' then Some BDiff1 else if op = bstr ''ANDOR'' then Some BAndOr
      else None)"

definition bitop_arity_error :: "bitop \<Rightarrow> nat \<Rightarrow> bytes option" where
  "bitop_arity_error op n =
     (case op of
        BNot \<Rightarrow> if n \<noteq> 1 then Some (bstr ''ERR BITOP NOT requires one and only one key'') else None
      | BDiff \<Rightarrow> if n < 2 then Some (bstr ''ERR BITOP DIFF requires at least two keys'') else None
      | BDiff1 \<Rightarrow> if n < 2 then Some (bstr ''ERR BITOP DIFF1 requires at least two keys'') else None
      | BAndOr \<Rightarrow> if n < 2 then Some (bstr ''ERR BITOP ANDOR requires at least two keys'') else None
      | _ \<Rightarrow> None)"

text \<open>Reading the sources stops at the first error; \<open>None\<close> is a panic.\<close>

fun read_sources :: "(DataEffect \<Rightarrow> bytes) \<Rightarrow> Context \<Rightarrow> bytes list \<Rightarrow> ((Writer \<Rightarrow> Writer) + bytes list) option" where
  "read_sources dec c [] = Some (Inr [])"
| "read_sources dec c (k # ks) =
     (let continue = (\<lambda>s.
        case reconstructBitmapBytes dec s of
          None \<Rightarrow> None
        | Some data \<Rightarrow> map_option (map_sum (\<lambda>f. f) (\<lambda>ds. data # ds)) (read_sources dec c ks))
      in case getBitmapSnapshot c k of
           ReadError err \<Rightarrow> Some (Inl (WriteError err))
         | WrongType _ \<Rightarrow> Some (Inl WriteWrongType)
         | Missing _ \<Rightarrow> continue None
         | Found snap _ \<Rightarrow> continue (Some snap))"

definition bitop_effects :: "Context \<Rightarrow> bytes \<Rightarrow> bytes \<Rightarrow> (Effect \<times> tip list) list" where
  "bitop_effects c destKey result =
     (let (destSnap, tips) = (case getBitmapSnapshot c destKey of
            ReadError _ \<Rightarrow> (None, []) | Missing t \<Rightarrow> (None, t) | WrongType t \<Rightarrow> (None, t) | Found s t \<Rightarrow> (Some s, t))
      in (data_effect destKey (insert_data SCALAR [] (Raw result)), tips) #
         (case destSnap of
            None \<Rightarrow> [(meta_effect destKey TYPE_STRING, [])]
          | Some s \<Rightarrow>
              if r_TypeTag s \<noteq> TYPE_STRING \<and> r_TypeTag s \<noteq> TYPE_UNSPECIFIED
              then [(meta_effect destKey TYPE_STRING, [])] else []))"

definition handleBitOp :: "(DataEffect \<Rightarrow> bytes) \<Rightarrow> bytes list \<Rightarrow> Writer \<Rightarrow> handler_result" where
  "handleBitOp dec args w =
     (if length args < 3 then reject [] (WriteWrongNumArguments (bstr ''bitop'') w)
      else
        let destKey = args ! 1; srcKeys = drop 2 args in
        case parse_bitop (args ! 0) of
          None \<Rightarrow> reject [] (WriteError (bstr ''ERR syntax error'') w)
        | Some op \<Rightarrow>
            case bitop_arity_error op (length srcKeys) of
              Some err \<Rightarrow> reject [] (WriteError err w)
            | None \<Rightarrow>
                accept (destKey # srcKeys) w (\<lambda>(c, w).
                  case read_sources dec c srcKeys of
                    None \<Rightarrow> None
                  | Some (Inl reply) \<Rightarrow> Some (c, reply w)
                  | Some (Inr sources) \<Rightarrow>
                      let maxLen = foldl max 0 (map length sources) in
                      if maxLen = 0 then Some (c, WriteInteger 0 w)
                      else
                        let result = bitop_result op sources maxLen in
                        Some (emit_then (bitop_effects c destKey result)
                          (WriteInteger (of_nat (length result))) (c, w))))"

end
