(* ===== verification/Bitmap_Refine.thy ===== *)
theory Bitmap_Refine
  imports Bitmap_Facts Bitmap_Field Bitmap_Commands
begin

text \<open>
  Bitmaps as functions from positions to bits: what the commands do to the snapshot of a key is what
  the documentation says of a plain array of bits, whatever mixture of a base string and overlay
  elements stores it.
\<close>

section \<open>The bits of a snapshot\<close>

lemma fmt_int_inj: "fmt_int (int p) = fmt_int (int q) \<longleftrightarrow> p = q"
  by (simp add: fmt_int_def dec_inj)

definition base :: "ReducedEffect option \<Rightarrow> DataEffect option" where
  "base s = (case s of None \<Rightarrow> None | Some r \<Rightarrow> r_Scalar r)"

definition adds :: "ReducedEffect option \<Rightarrow> bytes \<rightharpoonup> Payload" where
  "adds s = (case s of None \<Rightarrow> Map.empty | Some r \<Rightarrow> map_option (\<lambda>e. d_Value (el_Data e)) \<circ> map_of (r_NetAdds r))"

definition overlay_ok :: "(bytes \<times> ReducedElement) list \<Rightarrow> bool" where
  "overlay_ok xs \<longleftrightarrow> distinct (map fst xs) \<and>
     (\<forall>(k, e) \<in> set xs. (\<exists>q. int q \<le> MaxInt64 \<and> k = fmt_int (int q)) \<and> d_Value (el_Data e) \<in> {IntVal 0, IntVal 1})"

definition bitmap_ok :: "ReducedEffect option \<Rightarrow> bool" where
  "bitmap_ok s \<longleftrightarrow> (case s of None \<Rightarrow> True | Some r \<Rightarrow>
     (r_Collection r = KEYED \<or> r_Collection r = SCALAR \<and> r_NetAdds r = []) \<and> overlay_ok (r_NetAdds r))"

definition snap_bit :: "(DataEffect \<Rightarrow> bytes) \<Rightarrow> ReducedEffect option \<Rightarrow> nat \<Rightarrow> bool" where
  "snap_bit dec s q \<longleftrightarrow>
     (case base s of None \<Rightarrow> False | Some d \<Rightarrow> bit_at (dec d) q) \<noteq> (adds s (fmt_int (int q)) = Some (IntVal 1))"

lemma bit_at_Nil [simp]: "\<not> bit_at [] q"
  by (simp add: bit_at_def)

lemma getBit_snap:
  assumes "bitmap_ok s" "0 \<le> sint off"
  shows "getBit dec s off = Some (of_bool (snap_bit dec s (nat (sint off))))"
proof (cases s)
  case None
  then show ?thesis by (simp add: getBit_def snap_bit_def base_def adds_def)
next
  case (Some r)
  have key: "fmt_int (sint off) = fmt_int (int (nat (sint off)))" using assms(2) by simp
  show ?thesis
  proof (cases "r_Collection r = KEYED")
    case True
    show ?thesis
    proof (cases "map_of (r_NetAdds r) (fmt_int (sint off))")
      case None
      then show ?thesis using Some True assms(2)
        by (auto simp: getBit_def snap_bit_def base_def adds_def getScalarBit_eq split: option.splits)
    next
      case (Some e)
      then have "d_Value (el_Data e) \<in> {IntVal 0, IntVal 1}"
        using assms(1) \<open>s = Some r\<close> by (fastforce simp: bitmap_ok_def overlay_ok_def dest: map_of_SomeD)
      then show ?thesis using Some \<open>s = Some r\<close> True assms(2)
        by (auto simp: getBit_def snap_bit_def base_def adds_def getScalarBit_eq GetIntVal_def split: option.splits)
    qed
  next
    case False
    then show ?thesis using Some assms
      by (auto simp: getBit_def snap_bit_def base_def adds_def getScalarBit_eq scalar_bytes_def bitmap_ok_def split: option.splits)
  qed
qed

section \<open>Applying the overlay\<close>

lemma bit_at_extend: "extend_zeros data n = Some d \<Longrightarrow> bit_at d = bit_at data"
  by (auto simp: fun_eq_iff bit_at_def extend_zeros_def nth_append split: if_splits)

lemma apply_bits_spec:
  assumes f: "\<And>b s n. s < 8 \<Longrightarrow> n < 8 \<Longrightarrow> bit (f b (push_bit s 1)) n = (if n = s then g (bit b n) else bit b n)"
    and "distinct (map fst es)" "\<forall>(off, on) \<in> set es. 0 \<le> sint off \<and> nat (sint off) div 8 < length data"
  shows "\<exists>data'. apply_bits f es data = Some data' \<and> length data' = length data \<and>
    (\<forall>q. bit_at data' q =
      (if \<exists>off. (off, True) \<in> set es \<and> nat (sint off) = q then g (bit_at data q) else bit_at data q))"
  using assms(2,3)
proof (induction es arbitrary: data)
  case (Cons x es)
  obtain off on where x: "x = (off, on)" by force
  show ?case
  proof (cases on)
    case False
    then show ?thesis using Cons x by (auto split: prod.splits)
  next
    case True
    define p where "p = nat (sint off)"
    have off: "0 \<le> sint off" and len: "p div 8 < length data" using Cons.prems(2) x by (auto simp: p_def)
    define b' where "b' = f (data ! (p div 8)) (push_bit (7 - p mod 8) 1)"
    define data1 where "data1 = data[p div 8 := b']"
    have step: "apply_bits f (x # es) data = apply_bits f es data1"
      using True len unfolding x apply_bits.simps Let_def byte_at(1) [OF off] byte_at(2) [OF off len [unfolded p_def]]
        unat_bit_index [OF off] option.case nat_int by (simp add: data1_def b'_def p_def)
    have upd: "bit_at data1 q = (if q = p then g (bit_at data p) else bit_at data q)" for q
      unfolding data1_def
      by (rule bit_at_update [OF len]) (use len in \<open>simp add: b'_def f bit_at_def less_imp_diff_less del: push_bit_of_1\<close>)
    obtain data' where d: "apply_bits f es data1 = Some data'" "length data' = length data1"
      "\<And>q. bit_at data' q = (if \<exists>off. (off, True) \<in> set es \<and> nat (sint off) = q then g (bit_at data1 q) else bit_at data1 q)"
      using Cons.IH [of data1] Cons.prems x by (auto simp: data1_def)
    have fresh: "\<not> (\<exists>o'. (o', True) \<in> set es \<and> nat (sint o') = p)"
    proof
      assume "\<exists>o'. (o', True) \<in> set es \<and> nat (sint o') = p"
      then obtain o' where o': "(o', True) \<in> set es" "nat (sint o') = p" by blast
      then have "0 \<le> sint o'" using Cons.prems(2) by auto
      with o' off have "sint o' = sint off" by (simp add: p_def eq_nat_nat_iff)
      then have "o' = off" by (rule signed_word_eqI)
      with o'(1) Cons.prems(1) x show False by (force simp: image_iff)
    qed
    have "bit_at data' q = (if \<exists>o'. (o', True) \<in> set (x # es) \<and> nat (sint o') = q then g (bit_at data q) else bit_at data q)" for q
    proof (cases "q = p")
      case True
      moreover have "\<exists>o'. (o', True) \<in> set (x # es) \<and> nat (sint o') = p" using x \<open>on\<close> by (auto simp: p_def)
      ultimately show ?thesis using fresh by (simp only: d(3) upd if_True if_False simp_thms refl)
    next
      case False
      then have "(\<exists>o'. (o', True) \<in> set (x # es) \<and> nat (sint o') = q) \<longleftrightarrow> (\<exists>o'. (o', True) \<in> set es \<and> nat (sint o') = q)"
        using x by (auto simp: p_def)
      then show ?thesis using False by (simp only: d(3) upd if_False)
    qed
    with d(1,2) step show ?thesis by (auto simp: data1_def)
  qed
qed simp

lemma ParseInt_fmt: "int q \<le> MaxInt64 \<Longrightarrow> ParseInt_dropped (fmt_int (int q)) = of_nat q"
  by (simp add: ParseInt_dropped_def atoi_fmt_int)

lemma sint_of_nat64: "int q \<le> MaxInt64 \<Longrightarrow> sint (of_nat q :: i64) = int q"
  using sint64_of_int [of "int q"] by simp

lemma max_offset_ge: "\<forall>(off, on) \<in> set es. sint off \<le> sint (max_offset es)"
  and max_offset_nonneg: "0 \<le> sint (max_offset es)"
proof -
  define F where "F = (\<lambda>(m :: i64) (off :: i64, on :: bool). if sint m < sint off then off else m)"
  have "sint m \<le> sint (foldl F m es) \<and> (\<forall>(off, on) \<in> set es. sint off \<le> sint (foldl F m es))" for m
  proof (induction es arbitrary: m)
    case (Cons x es)
    show ?case using Cons [of "F m x"] by (cases x) (force simp: F_def split: if_splits)
  qed simp
  from this [of 0] show "\<forall>(off, on) \<in> set es. sint off \<le> sint (max_offset es)" "0 \<le> sint (max_offset es)"
    by (auto simp: max_offset_def F_def)
qed

lemma extend_covers:
  assumes "0 \<le> sint m" "0 \<le> sint off" "sint off \<le> sint m" "extend_zeros data (go_div m 8 + 1) = Some d"
  shows "nat (sint off) div 8 < length d"
proof -
  have d: "sint (go_div m 8) = sint m div 8" by (rule sint_go_div8 [OF assms(1)])
  have "sint (go_div m 8 + of_nat 1) = sint m div 8 + 1"
    using sint64_range [of m] assms(1) by (subst sint_add_small) (simp_all add: d)
  moreover have "sint off div 8 \<le> sint m div 8" using assms(3) by (rule zdiv_mono1) simp
  moreover have "int (nat (sint off) div 8) = sint off div 8" using assms(2) by (simp add: zdiv_int)
  ultimately show ?thesis using assms(4) by (auto simp: extend_zeros_def split: if_splits) linarith+
qed

lemma overlay_entries_ok:
  assumes "overlay_ok (r_NetAdds r)"
  shows "distinct (map fst (overlay_entries r))"
    and "\<forall>(off, on) \<in> set (overlay_entries r). 0 \<le> sint off"
    and "(\<exists>off. (off, True) \<in> set (overlay_entries r) \<and> nat (sint off) = q) \<longleftrightarrow>
      adds (Some r) (fmt_int (int q)) = Some (IntVal 1)"
proof -
  let ?xs = "r_NetAdds r"
  have key: "\<exists>q. int q \<le> MaxInt64 \<and> k = fmt_int (int q)" and val: "d_Value (el_Data e) \<in> {IntVal 0, IntVal 1}"
    if "(k, e) \<in> set ?xs" for k e using assms that by (auto simp: overlay_ok_def)
  have "inj_on ParseInt_dropped (fst ` set ?xs)"
  proof (rule inj_onI)
    fix k k' assume kk: "k \<in> fst ` set ?xs" "k' \<in> fst ` set ?xs" "ParseInt_dropped k = ParseInt_dropped k'"
    have keys: "\<exists>q. int q \<le> MaxInt64 \<and> k = fmt_int (int q)" if "k \<in> fst ` set ?xs" for k
      using that key by force
    from keys [OF kk(1)] obtain p where p: "int p \<le> MaxInt64" "k = fmt_int (int p)" by blast
    from keys [OF kk(2)] obtain p' where p': "int p' \<le> MaxInt64" "k' = fmt_int (int p')" by blast
    have "(of_nat p :: i64) = of_nat p'" using kk(3) p p' by (simp only: ParseInt_fmt)
    then have "sint (of_nat p :: i64) = sint (of_nat p' :: i64)" by simp
    then have "p = p'" unfolding sint_of_nat64 [OF p(1)] sint_of_nat64 [OF p'(1)] by simp
    then show "k = k'" using p p' by simp
  qed
  then have "distinct (map ParseInt_dropped (map fst ?xs))"
    using assms by (simp only: distinct_map set_map) (simp add: overlay_ok_def distinct_map)
  then show "distinct (map fst (overlay_entries r))"
    by (simp add: overlay_entries_def comp_def case_prod_unfold)
  show "\<forall>(off, on) \<in> set (overlay_entries r). 0 \<le> sint off"
    using key by (fastforce simp: overlay_entries_def ParseInt_fmt sint_of_nat64)
  have "adds (Some r) (fmt_int (int q)) = Some (IntVal 1) \<longleftrightarrow> (\<exists>e. (fmt_int (int q), e) \<in> set ?xs \<and> d_Value (el_Data e) = IntVal 1)"
    using assms by (auto simp: adds_def overlay_ok_def map_of_eq_Some_iff)
  also have "\<dots> \<longleftrightarrow> (\<exists>off. (off, True) \<in> set (overlay_entries r) \<and> nat (sint off) = q)"
  proof
    assume "\<exists>e. (fmt_int (int q), e) \<in> set ?xs \<and> d_Value (el_Data e) = IntVal 1"
    then obtain e where e: "(fmt_int (int q), e) \<in> set ?xs" "d_Value (el_Data e) = IntVal 1" by blast
    with key [OF e(1)] have "int q \<le> MaxInt64" by (auto simp: fmt_int_inj)
    with e show "\<exists>off. (off, True) \<in> set (overlay_entries r) \<and> nat (sint off) = q"
      by (intro exI [of _ "of_nat q"]) (force simp: overlay_entries_def ParseInt_fmt sint_of_nat64 GetIntVal_def)
  next
    assume "\<exists>off. (off, True) \<in> set (overlay_entries r) \<and> nat (sint off) = q"
    then obtain k e where e: "(k, e) \<in> set ?xs" "GetIntVal (el_Data e) = 1" "nat (sint (ParseInt_dropped k)) = q"
      by (auto simp: overlay_entries_def)
    from key [OF e(1)] e(3) have "k = fmt_int (int q)" by (auto simp: ParseInt_fmt sint_of_nat64)
    with e val [OF e(1)] show "\<exists>e. (fmt_int (int q), e) \<in> set ?xs \<and> d_Value (el_Data e) = IntVal 1"
      by (auto simp: GetIntVal_def)
  qed
  finally show "(\<exists>off. (off, True) \<in> set (overlay_entries r) \<and> nat (sint off) = q) \<longleftrightarrow>
      adds (Some r) (fmt_int (int q)) = Some (IntVal 1)" by blast
qed

lemma apply_overlay:
  assumes "overlay_ok (r_NetAdds r)" "overlay_entries r \<noteq> []"
    and "\<And>b s n. s < 8 \<Longrightarrow> n < 8 \<Longrightarrow> bit (f b (push_bit s 1)) n = (if n = s then g (bit b n) else bit b n)"
    and ext: "extend_zeros data (go_div (max_offset (overlay_entries r)) 8 + 1) = Some d"
  shows "\<exists>data'. apply_bits f (overlay_entries r) d = Some data' \<and>
    (\<forall>q. bit_at data' q =
      (if adds (Some r) (fmt_int (int q)) = Some (IntVal 1) then g (bit_at data q) else bit_at data q))"
proof -
  let ?es = "overlay_entries r"
  have "\<forall>(off, on) \<in> set ?es. 0 \<le> sint off \<and> nat (sint off) div 8 < length d"
    using overlay_entries_ok(2) [OF assms(1)] max_offset_ge [of ?es] extend_covers [OF max_offset_nonneg _ _ ext] by fastforce
  from apply_bits_spec [where f = f and g = g, OF assms(3) overlay_entries_ok(1) [OF assms(1)] this]
  show ?thesis by (auto simp: overlay_entries_ok(3) [OF assms(1)] bit_at_extend [OF ext])
qed

lemma bit_xor_push: "s < 8 \<Longrightarrow> n < 8 \<Longrightarrow> bit (b XOR push_bit s 1 :: byte) n = (if n = s then \<not> bit b n else bit b n)"
  by (auto simp: bit_xor_iff bit_exp_iff)

lemma bit_or_push: "s < 8 \<Longrightarrow> n < 8 \<Longrightarrow> bit (b OR push_bit s 1 :: byte) n = (if n = s then True else bit b n)"
  by (auto simp: bit_or_iff bit_exp_iff)

lemma overlay_entries_Nil: "overlay_entries r = [] \<longleftrightarrow> r_NetAdds r = []"
  by (simp add: overlay_entries_def)

lemma reconstruct_snap:
  assumes "bitmap_ok s" "reconstructBitmapBytes dec s = Some data"
  shows "bit_at data q = snap_bit dec s q"
proof (cases s)
  case None
  then show ?thesis using assms by (auto simp: reconstructBitmapBytes_def snap_bit_def base_def adds_def bit_at_def)
next
  case (Some r)
  have ok: "overlay_ok (r_NetAdds r)" using assms Some by (simp add: bitmap_ok_def)
  consider "r_Collection r = SCALAR" "r_NetAdds r = []" | "r_Collection r = KEYED" "r_NetAdds r = []"
    | "r_Collection r = KEYED" "r_NetAdds r \<noteq> []" using assms Some by (auto simp: bitmap_ok_def)
  then show ?thesis
  proof cases
    case 1
    then show ?thesis using Some assms(2)
      by (auto simp: reconstructBitmapBytes_def snap_bit_def base_def adds_def scalar_bytes_def split: option.splits)
  next
    case 2
    then show ?thesis using Some assms(2)
      by (auto simp: reconstructBitmapBytes_def snap_bit_def base_def adds_def overlay_entries_def Let_def split: option.splits)
  next
    case 3
    then have ne: "overlay_entries r \<noteq> []" by (simp add: overlay_entries_Nil)
    let ?n = "go_div (max_offset (overlay_entries r)) 8 + 1"
    show ?thesis
    proof (cases "r_Scalar r")
      case None
      then obtain d where d: "extend_zeros [] ?n = Some d" "apply_bits (OR) (overlay_entries r) d = Some data"
        using assms(2) Some 3 ne by (auto simp: reconstructBitmapBytes_def Let_def bind_eq_Some_conv)
      from apply_overlay [OF ok ne, of "(OR)" "\<lambda>_. True", OF bit_or_push d(1)] d(2)
      show ?thesis using None 3 ne Some by (simp add: snap_bit_def base_def)
    next
      case (Some b)
      then obtain d where d: "extend_zeros (dec b) ?n = Some d" "apply_bits (XOR) (overlay_entries r) d = Some data"
        using assms(2) \<open>s = Some r\<close> 3 ne by (auto simp: reconstructBitmapBytes_def Let_def bind_eq_Some_conv)
      from apply_overlay [OF ok ne, of "(XOR)" Not, OF bit_xor_push d(1)] d(2)
      show ?thesis using Some 3 ne \<open>s = Some r\<close> by (auto simp: snap_bit_def base_def)
    qed
  qed
qed

section \<open>What the engine promises\<close>

text \<open>
  The behaviour of the engine that the bitmap commands rely on, as their comments state it: inserting
  or removing a keyed element changes that element of a live snapshot and keeps its base string, a
  scalar inserted at a fresh key is the base string, and a type tag changes nothing else.
\<close>

definition live :: "ReducedEffect option \<Rightarrow> bool" where
  "live s \<longleftrightarrow> (\<forall>r. s = Some r \<longrightarrow> r_Op r = INSERT_OP \<and> distinct (map fst (r_NetAdds r)))"

definition keyed :: "ReducedEffect option \<Rightarrow> bool" where
  "keyed s \<longleftrightarrow> live s \<and> (\<forall>r. s = Some r \<longrightarrow> r_Collection r = KEYED)"

definition keyed_engine ::
  "(ReducedEffect option \<Rightarrow> Effect \<Rightarrow> ReducedEffect option) \<Rightarrow> (DataEffect \<Rightarrow> bytes) \<Rightarrow> bool" where
  "keyed_engine reduce dec \<longleftrightarrow>
     (\<forall>s key i v. live s \<longrightarrow>
        (\<exists>r. reduce s (data_effect key (insert_data KEYED i v)) = Some r \<and> keyed (Some r) \<and>
           r_Scalar r = base s \<and> adds (Some r) = (adds s)(i \<mapsto> v))) \<and>
     (\<forall>s key i. keyed s \<longrightarrow>
        (let s' = reduce s (data_effect key (remove_data KEYED i)) in
           keyed s' \<and> base s' = base s \<and> adds s' = (adds s)(i := None))) \<and>
     (\<forall>key b. \<exists>r d. reduce None (data_effect key (insert_data SCALAR [] (Raw b))) = Some r \<and> r_Op r = INSERT_OP \<and>
        r_Collection r = SCALAR \<and> r_NetAdds r = [] \<and> r_Scalar r = Some d \<and> dec d = b) \<and>
     (\<forall>r key t. reduce (Some r) (meta_effect key t) = Some (r\<lparr>r_TypeTag := t\<rparr>))"

definition ok_adds :: "(bytes \<rightharpoonup> Payload) \<Rightarrow> bool" where
  "ok_adds m \<longleftrightarrow> (\<forall>k v. m k = Some v \<longrightarrow> (\<exists>q. int q \<le> MaxInt64 \<and> k = fmt_int (int q)) \<and> v \<in> {IntVal 0, IntVal 1})"

lemma adds_Some:
  "distinct (map fst (r_NetAdds r)) \<Longrightarrow>
   adds (Some r) k = Some v \<longleftrightarrow> (\<exists>e. (k, e) \<in> set (r_NetAdds r) \<and> d_Value (el_Data e) = v)"
  by (auto simp: adds_def map_of_eq_Some_iff)

lemma overlay_ok_adds:
  "distinct (map fst (r_NetAdds r)) \<Longrightarrow> overlay_ok (r_NetAdds r) \<longleftrightarrow> ok_adds (adds (Some r))"
  unfolding overlay_ok_def ok_adds_def by (simp only: adds_Some) blast

lemma bitmap_ok_keyed:
  assumes "r_Collection r = KEYED" "distinct (map fst (r_NetAdds r))"
  shows "bitmap_ok (Some r) \<longleftrightarrow> ok_adds (adds (Some r))"
  using assms by (simp add: bitmap_ok_def overlay_ok_adds)

lemma bitmap_ok_adds: "bitmap_ok s \<Longrightarrow> ok_adds (adds s)"
proof (cases s)
  case None
  then show ?thesis by (simp add: adds_def ok_adds_def)
next
  case (Some r)
  moreover assume "bitmap_ok s"
  ultimately have "overlay_ok (r_NetAdds r)" by (simp add: bitmap_ok_def)
  then show ?thesis using Some overlay_ok_adds [of r] by (simp add: overlay_ok_def)
qed

lemma ok_adds_upd: "ok_adds m \<Longrightarrow> int q \<le> MaxInt64 \<Longrightarrow> v = IntVal 0 \<or> v = IntVal 1 \<Longrightarrow> ok_adds (m(fmt_int (int q) \<mapsto> v))"
  by (auto simp: ok_adds_def)

lemma ok_adds_del: "ok_adds m \<Longrightarrow> ok_adds (m(k := None))"
  by (auto simp: ok_adds_def)

lemma engine_meta: "keyed_engine reduce dec \<Longrightarrow> reduce (Some r) (meta_effect key t) = Some (r\<lparr>r_TypeTag := t\<rparr>)"
  unfolding keyed_engine_def by (elim conjE allE)

lemma meta_snap:
  assumes "keyed_engine reduce dec" "bitmap_ok (Some r)" "live (Some r)"
  shows "let s = reduce (Some r) (meta_effect key t) in
    bitmap_ok s \<and> live s \<and> base s = base (Some r) \<and> adds s = adds (Some r)"
  unfolding engine_meta [OF assms(1)] using assms(2,3) by (simp add: bitmap_ok_def live_def base_def adds_def Let_def)

lemma insert_snap:
  assumes "keyed_engine reduce dec" "bitmap_ok s" "live s" "int q \<le> MaxInt64" "v = IntVal 0 \<or> v = IntVal 1"
  shows "\<exists>r. reduce s (data_effect key (insert_data KEYED (fmt_int (int q)) v)) = Some r \<and> bitmap_ok (Some r) \<and>
    keyed (Some r) \<and> base (Some r) = base s \<and> adds (Some r) = (adds s)(fmt_int (int q) \<mapsto> v)"
proof -
  obtain r where r: "reduce s (data_effect key (insert_data KEYED (fmt_int (int q)) v)) = Some r" "keyed (Some r)"
    "r_Scalar r = base s" "adds (Some r) = (adds s)(fmt_int (int q) \<mapsto> v)"
    using assms(3) conjunct1 [OF assms(1) [unfolded keyed_engine_def]] by blast
  have "r_Collection r = KEYED" "distinct (map fst (r_NetAdds r))" using r(2) by (simp_all add: keyed_def live_def)
  then have "bitmap_ok (Some r)"
    unfolding bitmap_ok_keyed r(4) using assms by (simp only: bitmap_ok_keyed r(4)) (intro ok_adds_upd bitmap_ok_adds)
  with r show ?thesis by (auto simp: base_def)
qed

lemma remove_snap:
  assumes "keyed_engine reduce dec" "bitmap_ok s" "keyed s"
  shows "let s' = reduce s (data_effect key (remove_data KEYED i)) in
    bitmap_ok s' \<and> keyed s' \<and> base s' = base s \<and> adds s' = (adds s)(i := None)"
proof -
  define s' where "s' = reduce s (data_effect key (remove_data KEYED i))"
  have s': "keyed s'" "base s' = base s" "adds s' = (adds s)(i := None)"
    using assms(3) conjunct1 [OF conjunct2 [OF assms(1) [unfolded keyed_engine_def]]] unfolding s'_def Let_def by blast+
  have "bitmap_ok s'"
  proof (cases s')
    case None then show ?thesis by (simp add: bitmap_ok_def)
  next
    case (Some r)
    then have "r_Collection r = KEYED" "distinct (map fst (r_NetAdds r))" using s'(1) by (simp_all add: keyed_def live_def)
    moreover have "ok_adds (adds s')" unfolding s'(3) by (intro ok_adds_del bitmap_ok_adds assms(2))
    ultimately show ?thesis using Some by (simp only: bitmap_ok_keyed)
  qed
  with s' show ?thesis unfolding Let_def s'_def [symmetric] by blast
qed

end
