(* ===== verification/Bitmap_Theorems.thy ===== *)
theory Bitmap_Theorems
  imports Bitmap_Refine
begin

text \<open>The commands on bitmaps as operations on arrays of bits.\<close>

section \<open>SETBIT\<close>

lemma getBitmapSnapshot_live:
  "GetSnapshot key c = Inr (s, tips) \<Longrightarrow> bitmap_ok s \<Longrightarrow> live s \<Longrightarrow>
   getBitmapSnapshot c key = (case s of None \<Rightarrow> Missing tips | Some r \<Rightarrow> Found r tips)"
  by (auto simp: getBitmapSnapshot_def bitmap_ok_def live_def split: option.splits)

lemma snap_bit_None [simp]: "\<not> snap_bit dec None q"
  by (simp add: snap_bit_def base_def adds_def)

lemma snap_bit_cong: "base s = base s' \<Longrightarrow> adds s = adds s' \<Longrightarrow> snap_bit dec s = snap_bit dec s'"
  by (simp add: snap_bit_def fun_eq_iff)

lemma bit_at_zeros [simp]: "\<not> bit_at (replicate n 0) q"
  by (simp add: bit_at_def)

lemma engine_scalar:
  "keyed_engine reduce dec \<Longrightarrow>
   \<exists>r d. reduce None (data_effect key (insert_data SCALAR [] (Raw b))) = Some r \<and> r_Op r = INSERT_OP \<and>
     r_Collection r = SCALAR \<and> r_NetAdds r = [] \<and> r_Scalar r = Some d \<and> dec d = b"
  unfolding keyed_engine_def by blast

lemma scalar_snap:
  assumes "keyed_engine reduce dec"
  shows "\<exists>r. reduce None (data_effect key (insert_data SCALAR [] (Raw b))) = Some r \<and> bitmap_ok (Some r) \<and>
    live (Some r) \<and> snap_bit dec (Some r) = bit_at b"
proof -
  obtain r d where r: "reduce None (data_effect key (insert_data SCALAR [] (Raw b))) = Some r" "r_Op r = INSERT_OP"
    "r_Collection r = SCALAR" "r_NetAdds r = []" "r_Scalar r = Some d" "dec d = b"
    using engine_scalar [OF assms, of key b] by blast
  have "bitmap_ok (Some r)" "live (Some r)" using r by (simp_all add: bitmap_ok_def overlay_ok_def live_def)
  moreover have "snap_bit dec (Some r) = bit_at b" using r by (simp add: snap_bit_def base_def adds_def fun_eq_iff)
  ultimately show ?thesis using r(1) by blast
qed

lemma setBit_value:
  assumes "0 \<le> sint off"
  shows "(case s of None \<Rightarrow> Some (of_bool b) | Some snap \<Rightarrow>
      (case r_Scalar snap of None \<Rightarrow> Some (of_bool b)
       | Some d \<Rightarrow> map_option (\<lambda>baseBit. if of_bool b \<noteq> baseBit then 1 else 0) (getScalarBit (dec d) off))) =
    Some (of_bool (b \<noteq> (case base s of None \<Rightarrow> False | Some d \<Rightarrow> bit_at (dec d) (nat (sint off)))) :: i64)"
  using assms by (auto simp: base_def getScalarBit_eq split: option.splits)

lemma setBit_effects_spec:
  assumes "keyed_engine reduce dec" "bitmap_ok s" "live s" "0 \<le> sint off"
  shows "\<exists>es. setBit_effects dec key off (of_bool b) s = Some es \<and>
    (let s' = foldl reduce s (map fst es) in
       bitmap_ok s' \<and> live s' \<and> snap_bit dec s' = (snap_bit dec s)(nat (sint off) := b))"
proof (cases "s = None \<and> \<not> b")
  case True
  then obtain r where r: "reduce None (data_effect key (insert_data SCALAR [] (Raw (replicate (nat (sint (go_div off 8 + 1))) 0)))) = Some r"
    "bitmap_ok (Some r)" "live (Some r)" "snap_bit dec (Some r) = bit_at (replicate (nat (sint (go_div off 8 + 1))) 0)"
    using scalar_snap [OF assms(1)] by blast
  have same: "base (reduce (Some r) (meta_effect key TYPE_BITMAP)) = base (Some r)"
    "adds (reduce (Some r) (meta_effect key TYPE_BITMAP)) = adds (Some r)"
    "bitmap_ok (reduce (Some r) (meta_effect key TYPE_BITMAP))" "live (reduce (Some r) (meta_effect key TYPE_BITMAP))"
    using meta_snap [OF assms(1) r(2,3)] by (simp_all add: Let_def)
  have "snap_bit dec (reduce (Some r) (meta_effect key TYPE_BITMAP)) = (\<lambda>_. False)"
    unfolding snap_bit_cong [OF same(1,2)] r(4) by auto
  then show ?thesis using True r(1) same(3,4) by (simp add: setBit_effects_def fun_eq_iff)
next
  case False
  define q where "q = nat (sint off)"
  have q: "sint off = int q" "int q \<le> MaxInt64" using assms(4) sint64_range [of off] by (simp_all add: q_def)
  define v where "v = (b \<noteq> (case base s of None \<Rightarrow> False | Some d \<Rightarrow> bit_at (dec d) q))"
  have "IntVal (of_bool v) = IntVal 0 \<or> IntVal (of_bool v) = IntVal 1" by (cases v) simp_all
  from insert_snap [OF assms(1-3) q(2) this, of key]
  obtain r where r: "reduce s (emitSetBit key off (of_bool v)) = Some r" "bitmap_ok (Some r)" "live (Some r)"
    "base (Some r) = base s" "adds (Some r) = (adds s)(fmt_int (int q) \<mapsto> IntVal (of_bool v))"
    by (auto simp: emitSetBit_def q(1) keyed_def)
  have bits: "snap_bit dec (Some r) = (snap_bit dec s)(q := b)"
    by (auto simp: snap_bit_def r(4,5) fun_eq_iff fmt_int_inj v_def)
  have no: "\<not> (s = None \<and> (of_bool b :: i64) = 0)" using False by auto
  have eff: "setBit_effects dec key off (of_bool b) s =
      Some ((emitSetBit key off (of_bool v), []) # (if s = None then [(meta_effect key TYPE_BITMAP, [])] else []))"
    unfolding setBit_effects_def if_not_P [OF no] setBit_value [OF assms(4)] v_def q_def option.case ..
  show ?thesis
  proof (cases s)
    case None
    then show ?thesis unfolding eff q_def [symmetric]
      using r(1) meta_snap [OF assms(1) r(2,3), of key TYPE_BITMAP] bits by (auto simp: Let_def dest: snap_bit_cong [of _ "Some r" dec])
  next
    case (Some r0)
    then show ?thesis unfolding eff q_def [symmetric] using r bits by (simp add: Let_def)
  qed
qed

text \<open>
  Claim C5. \<^verbatim>\<open>SETBIT\<close> with a position below $2^{32}$ and a bit, on any key that holds a bitmap, string or
  nothing, replies with the old bit at the position and emits effects after which the bitmap has the new
  bit there and all its other bits as before.
\<close>

theorem setbit_refines:
  assumes "keyed_engine reduce dec"
    and "GetSnapshot key c = Inr (s, tips)" "bitmap_ok s" "live s" "\<And>es e. c_emit_error c es e = None"
    and "ParseInt64 offArg = Some off" "0 \<le> sint off" "sint off < 2 ^ 32" "ParseInt64 valArg = Some (of_bool b)"
  shows "\<exists>f es. h_runner (handleSetBit dec [key, offArg, valArg] w0) = Some f \<and>
    f (c, w) = Some (c\<lparr>c_emitted := c_emitted c @ es\<rparr>, WriteInteger (of_bool (snap_bit dec s (nat (sint off)))) w) \<and>
    (let s' = foldl reduce s (map fst es) in
       bitmap_ok s' \<and> live s' \<and> snap_bit dec s' = (snap_bit dec s)(nat (sint off) := b))"
proof -
  obtain es where es: "setBit_effects dec key off (of_bool b) s = Some es"
    "let s' = foldl reduce s (map fst es) in
       bitmap_ok s' \<and> live s' \<and> snap_bit dec s' = (snap_bit dec s)(nat (sint off) := b)"
    using setBit_effects_spec [OF assms(1,3,4,7)] by blast
  define f where "f = (\<lambda>(c, w). case getBitmapSnapshot c key of
      ReadError err \<Rightarrow> Some (c, WriteError err w)
    | WrongType _ \<Rightarrow> Some (c, WriteWrongType w)
    | Missing _ \<Rightarrow> run_setBit dec key off (of_bool b) None (c, w)
    | Found snap _ \<Rightarrow> run_setBit dec key off (of_bool b) (Some snap) (c, w))"
  have "h_runner (handleSetBit dec [key, offArg, valArg] w0) = Some f"
    using assms(6-9) by (simp add: handleSetBit_def f_def accept_def reject_def)
  moreover have "f (c, w) = run_setBit dec key off (of_bool b) s (c, w)"
    unfolding f_def by (cases s) (simp_all add: getBitmapSnapshot_live [OF assms(2-4)])
  moreover have "run_setBit dec key off (of_bool b) s (c, w) =
      Some (c\<lparr>c_emitted := c_emitted c @ es\<rparr>, WriteInteger (of_bool (snap_bit dec s (nat (sint off)))) w)"
    unfolding run_setBit_def getBit_snap [OF assms(3,7)] es(1) by (simp add: emit_then_def Emits_ok [OF assms(5)])
  ultimately show ?thesis using es(2) by auto
qed

text \<open>An engine with these laws: one snapshot per key, updated effect by effect.\<close>

definition no_snapshot :: ReducedEffect where
  "no_snapshot = \<lparr>r_Op = INSERT_OP, r_Collection = KEYED, r_Scalar = None, r_NetAdds = [],
     r_NetRemoves = [], r_Ordered = [], r_TypeTag = TYPE_UNSPECIFIED\<rparr>"

definition plain_reduce :: "ReducedEffect option \<Rightarrow> Effect \<Rightarrow> ReducedEffect option" where
  "plain_reduce s e =
     (let r = (case s of None \<Rightarrow> no_snapshot | Some r \<Rightarrow> r);
          others = (\<lambda>i. filter (\<lambda>x. fst x \<noteq> i) (r_NetAdds r))
      in case e_Kind e of
           Meta t \<Rightarrow> map_option (\<lambda>r. r\<lparr>r_TypeTag := t\<rparr>) s
         | Noop \<Rightarrow> s
         | Data d \<Rightarrow>
             (case d_Collection d of
                KEYED \<Rightarrow>
                  (if d_Op d = INSERT_OP then
                     Some (r\<lparr>r_Collection := KEYED, r_NetAdds := (d_Id d, \<lparr>el_Data = d, el_ExpiresAt = None\<rparr>) # others (d_Id d)\<rparr>)
                   else map_option (\<lambda>r. r\<lparr>r_NetAdds := others (d_Id d)\<rparr>) s)
              | _ \<Rightarrow> Some (no_snapshot\<lparr>r_Collection := SCALAR, r_Scalar := Some d\<rparr>)))"

lemma map_of_others: "map_of (filter (\<lambda>x. fst x \<noteq> i) xs) = (map_of xs)(i := None)"
  by (induction xs) auto

lemma distinct_others: "distinct (map fst xs) \<Longrightarrow> distinct (map fst (filter P xs))"
  by (rule distinct_map_filter)

lemma plain_reduce_insert:
  assumes "live s"
  shows "\<exists>r. plain_reduce s (data_effect key (insert_data KEYED i v)) = Some r \<and> keyed (Some r) \<and>
    r_Scalar r = base s \<and> adds (Some r) = (adds s)(i \<mapsto> v)"
  using assms
  by (cases s) (auto simp: plain_reduce_def data_effect_def insert_data_def keyed_def live_def base_def adds_def
      no_snapshot_def map_of_others distinct_others fun_eq_iff)

lemma plain_reduce_remove:
  assumes "keyed s"
  shows "let s' = plain_reduce s (data_effect key (remove_data KEYED i)) in
    keyed s' \<and> base s' = base s \<and> adds s' = (adds s)(i := None)"
  using assms
  by (cases s) (auto simp: plain_reduce_def data_effect_def remove_data_def keyed_def live_def base_def adds_def
      no_snapshot_def map_of_others distinct_others fun_eq_iff Let_def)

lemma plain_engine: "keyed_engine plain_reduce GetRaw"
  unfolding keyed_engine_def
  by (intro conjI allI impI plain_reduce_insert plain_reduce_remove)
    (simp_all add: plain_reduce_def data_effect_def meta_effect_def insert_data_def no_snapshot_def GetRaw_def)

definition fresh_context :: Context where
  "fresh_context = \<lparr>c_emitted = [], c_snapshot = (\<lambda>_ _. Inr (None, [])), c_emit_error = (\<lambda>_ _. None)\<rparr>"

theorem setbit_refines_witness:
  "\<exists>f es. h_runner (handleSetBit GetRaw [[107], [55], [49]] (NewWriter [])) = Some f \<and>
    f (fresh_context, NewWriter []) =
      Some (fresh_context\<lparr>c_emitted := es\<rparr>, WriteInteger 0 (NewWriter [])) \<and>
    snap_bit GetRaw (foldl plain_reduce None (map fst es)) = (\<lambda>q. q = 7)"
proof -
  have args: "ParseInt64 [55] = Some 7" "ParseInt64 [49] = Some (of_bool True)"
    by (simp_all add: ParseInt64_eq_atoi atoi_def dec_val_def dec_step_def is_digit_def)
  have ctx: "GetSnapshot [107] fresh_context = Inr (None, [])" "\<And>es e. c_emit_error fresh_context es e = None"
    by (simp_all add: GetSnapshot_def fresh_context_def)
  have none: "bitmap_ok None" "live None" by (simp_all add: bitmap_ok_def live_def)
  have upd: "(snap_bit GetRaw None)(nat (sint (7 :: i64)) := True) = (\<lambda>q. q = 7)" by (simp add: fun_eq_iff)
  show ?thesis
    using setbit_refines [OF plain_engine ctx(1) none ctx(2) args(1) _ _ args(2), of "NewWriter []" "NewWriter []", unfolded upd]
    by (simp add: Let_def) (auto simp: fresh_context_def)
qed

end
