(* ===== verification/Bitmap_Bulk.thy ===== *)
theory Bitmap_Bulk
  imports Bitmap_Theorems
begin

text \<open>\<^verbatim>\<open>BITFIELD\<close>: each subcommand on the bytes, and the effects that store the bytes again.\<close>

section \<open>The elements that differ from the base\<close>

lemma bit_byte_or_zero: "n < 8 \<Longrightarrow> bit (byte_or_zero data i) n \<longleftrightarrow> bit_at data (i * 8 + (7 - n))"
proof -
  assume "n < 8"
  define m where "m = 7 - n"
  have "m < 8" "7 - m = n" using \<open>n < 8\<close> by (auto simp: m_def)
  then have "(i * 8 + m) div 8 = i" "(i * 8 + m) mod 8 = m" by simp_all
  then show ?thesis
    unfolding bit_at_def byte_or_zero_def m_def [symmetric] by (simp add: \<open>7 - m = n\<close>)
qed

lemma eight: "set [7, 6, 5, 4, 3, 2, 1, 0 :: nat] = {n. n < 8}"
  by auto

lemma in_concat_map: "k \<in> set (concat (map f xs)) \<longleftrightarrow> (\<exists>x \<in> set xs. k \<in> set (f x))"
  by simp

lemma bit_at_length: "bit_at data q \<Longrightarrow> q div 8 < length data"
  by (simp add: bit_at_def)

lemma set_needInsert:
  "set (needInsert baseData data) = {fmt_int (int q) | q. bit_at data q \<noteq> bit_at baseData q}"
proof -
  have mem: "k \<in> set (needInsert baseData data) \<longleftrightarrow>
      (\<exists>i n. i < max (length baseData) (length data) \<and> n < 8 \<and>
         bit_at data (i * 8 + (7 - n)) \<noteq> bit_at baseData (i * 8 + (7 - n)) \<and> k = fmt_int (int (i * 8 + (7 - n))))" for k
  proof -
    have one: "drop_bit n b AND 1 = (1 :: byte) \<longleftrightarrow> bit b n" for n b by (simp add: low_bit)
    have "k \<in> set (needInsert baseData data) \<longleftrightarrow>
      (\<exists>i n. i < max (length baseData) (length data) \<and> n \<in> {n. n < 8} \<and>
         bit (byte_or_zero data i XOR byte_or_zero baseData i) n \<and> k = fmt_int (int i * 8 + int (7 - n)))"
      unfolding needInsert_def Let_def one in_concat_map set_map set_filter eight set_upt atLeast0LessThan
      by (simp only: image_iff Bex_def lessThan_iff mem_Collect_eq) blast
    then show ?thesis
      by (simp only: bit_xor_iff bit_byte_or_zero mem_Collect_eq of_nat_add of_nat_mult of_nat_numeral cong: conj_cong)
  qed
  show ?thesis
  proof (rule set_eqI)
    fix k
    show "k \<in> set (needInsert baseData data) \<longleftrightarrow> k \<in> {fmt_int (int q) | q. bit_at data q \<noteq> bit_at baseData q}"
    proof
      assume "k \<in> {fmt_int (int q) | q. bit_at data q \<noteq> bit_at baseData q}"
      then obtain q where q: "k = fmt_int (int q)" "bit_at data q \<noteq> bit_at baseData q" by blast
      have "q mod 8 \<le> 7" by simp
      then have dec: "q = q div 8 * 8 + (7 - (7 - q mod 8))" by (simp add: div_mult_mod_eq)
      have "q div 8 < max (length baseData) (length data)" using q(2) bit_at_length by fastforce
      then show "k \<in> set (needInsert baseData data)"
        unfolding mem using q dec by (intro exI [of _ "q div 8"] exI [of _ "7 - q mod 8"]) auto
    next
      assume "k \<in> set (needInsert baseData data)"
      then show "k \<in> {fmt_int (int q) | q. bit_at data q \<noteq> bit_at baseData q}" unfolding mem by blast
    qed
  qed
qed

section \<open>Storing the bytes\<close>

lemma fold_removes:
  assumes "keyed_engine reduce dec" "bitmap_ok s" "keyed s"
  shows "let s' = foldl reduce s (map (\<lambda>i. data_effect key (remove_data KEYED i)) ids) in
    bitmap_ok s' \<and> keyed s' \<and> base s' = base s \<and> adds s' = (\<lambda>k. if k \<in> set ids then None else adds s k)"
  using assms(2,3)
proof (induction ids arbitrary: s)
  case (Cons i ids)
  define s1 where "s1 = reduce s (data_effect key (remove_data KEYED i))"
  have s1: "bitmap_ok s1" "keyed s1" "base s1 = base s" "adds s1 = (adds s)(i := None)"
    using remove_snap [OF assms(1) Cons.prems, of key i] by (simp_all add: s1_def Let_def)
  show ?case using Cons.IH [OF s1(1,2)] by (auto simp: s1_def [symmetric] s1(3,4) Let_def fun_eq_iff)
qed simp

lemma fold_inserts:
  assumes "keyed_engine reduce dec" "bitmap_ok s" "live s"
    and "\<forall>i \<in> set ids. \<exists>q. int q \<le> MaxInt64 \<and> i = fmt_int (int q)"
  shows "let s' = foldl reduce s (map (\<lambda>i. data_effect key (insert_data KEYED i (IntVal 1))) ids) in
    bitmap_ok s' \<and> live s' \<and> base s' = base s \<and> adds s' = (\<lambda>k. if k \<in> set ids then Some (IntVal 1) else adds s k)"
  using assms(2-4)
proof (induction ids arbitrary: s)
  case (Cons i ids)
  from Cons.prems(3) obtain q where q: "int q \<le> MaxInt64" "i = fmt_int (int q)" by auto
  obtain r where r: "reduce s (data_effect key (insert_data KEYED i (IntVal 1))) = Some r" "bitmap_ok (Some r)"
    "keyed (Some r)" "base (Some r) = base s" "adds (Some r) = (adds s)(i \<mapsto> IntVal 1)"
    using insert_snap [OF assms(1) Cons.prems(1,2) q(1), of "IntVal 1" key] q(2) by auto
  have "live (Some r)" using r(3) by (simp add: keyed_def)
  with r Cons.IH [OF r(2)] Cons.prems(3) show ?case by (auto simp: Let_def fun_eq_iff)
qed simp

lemma map_fst_tips_first [simp]: "map fst (tips_first tips es) = es"
  by (cases es) (simp_all add: comp_def)

lemma bulk_snap:
  assumes laws: "keyed_engine reduce dec" and s: "bitmap_ok s" "live s" and ord: "\<And>xs. set (ord xs) = set xs"
    and small: "8 * length data \<le> 2 ^ 63" "\<And>d. base s = Some d \<Longrightarrow> 8 * length (dec d) \<le> 2 ^ 63"
  shows "let s' = foldl reduce s (map fst (emitBitmapBulk dec ord key data s tips)) in
    bitmap_ok s' \<and> live s' \<and> base s' = base s \<and> snap_bit dec s' = bit_at data \<and> (s' = None \<longrightarrow> s = None \<or> keyed s)"
proof -
  define baseData where "baseData = (case base s of None \<Rightarrow> [] | Some d \<Rightarrow> dec d)"
  have bd: "(case s of None \<Rightarrow> [] | Some r \<Rightarrow> scalar_bytes dec r) = baseData"
    by (cases s) (simp_all add: baseData_def base_def scalar_bytes_def)
  define need where "need = needInsert baseData data"
  define rem where "rem = (case s of None \<Rightarrow> [] | Some r \<Rightarrow>
    if r_Collection r = KEYED then filter (\<lambda>i. i \<notin> set need) (map fst (r_NetAdds r)) else [])"
  have need: "i \<in> set need \<longleftrightarrow> (\<exists>q. bit_at data q \<noteq> bit_at baseData q \<and> i = fmt_int (int q))" for i
    unfolding need_def set_needInsert by blast
  have keys: "\<forall>i \<in> set (ord need). \<exists>q. int q \<le> MaxInt64 \<and> i = fmt_int (int q)"
  proof
    fix i assume "i \<in> set (ord need)"
    then obtain q where q: "bit_at data q \<noteq> bit_at baseData q" "i = fmt_int (int q)" by (auto simp: ord need)
    have "q div 8 < length data \<or> q div 8 < length baseData" using q(1) bit_at_length by blast
    moreover have "8 * length baseData \<le> 2 ^ 63" using small(2) by (auto simp: baseData_def split: option.splits)
    ultimately have "q < 2 ^ 63" using small(1) by (auto simp: div_less_iff_less_mult)
    then show "\<exists>q. int q \<le> MaxInt64 \<and> i = fmt_int (int q)" using q(2) by (intro exI [of _ q]) simp
  qed
  define s1 where "s1 = foldl reduce s (map (\<lambda>i. data_effect key (remove_data KEYED i)) rem)"
  have s1: "bitmap_ok s1" "live s1" "base s1 = base s" "adds s1 k = (if k \<in> set need then adds s k else None)"
    "s1 = None \<longrightarrow> s = None \<or> keyed s" for k
  proof -
    have "bitmap_ok s1 \<and> live s1 \<and> base s1 = base s \<and> adds s1 = (\<lambda>k. if k \<in> set need then adds s k else None) \<and>
      (s1 = None \<longrightarrow> s = None \<or> keyed s)"
    proof (cases "keyed s")
      case True
      have "adds s k = None" if "k \<notin> set rem" "k \<notin> set need" for k
        using that True by (cases s) (auto simp: rem_def keyed_def adds_def map_of_eq_None_iff)
      moreover have "k \<notin> set need" if "k \<in> set rem" for k
        using that by (auto simp: rem_def split: option.splits if_splits)
      ultimately show ?thesis
        using fold_removes [OF laws s(1) True, of key rem] True unfolding s1_def [symmetric] Let_def keyed_def
        by (auto simp: fun_eq_iff)
    next
      case False
      then obtain r where r: "s = Some r" "r_Collection r = SCALAR" "r_NetAdds r = []"
        using s by (auto simp: keyed_def bitmap_ok_def split: option.splits)
      then show ?thesis using s by (simp add: s1_def rem_def adds_def fun_eq_iff)
    qed
    then show "bitmap_ok s1" "live s1" "base s1 = base s" "adds s1 k = (if k \<in> set need then adds s k else None)"
      "s1 = None \<longrightarrow> s = None \<or> keyed s" by simp_all
  qed
  have eq: "foldl reduce s (map fst (emitBitmapBulk dec ord key data s tips)) =
      foldl reduce s1 (map (\<lambda>i. data_effect key (insert_data KEYED i (IntVal 1))) (ord need))"
    unfolding emitBitmapBulk_def Let_def bd need_def [symmetric] rem_def [symmetric] map_fst_tips_first s1_def
    by simp
  define s2 where "s2 = foldl reduce s1 (map (\<lambda>i. data_effect key (insert_data KEYED i (IntVal 1))) (ord need))"
  have s2: "bitmap_ok s2" "live s2" "base s2 = base s1"
    "adds s2 = (\<lambda>k. if k \<in> set (ord need) then Some (IntVal 1) else adds s1 k)"
    using fold_inserts [OF laws s1(1,2) keys, of key] by (simp_all add: s2_def Let_def)
  have "snap_bit dec s2 q = bit_at data q" for q
  proof -
    have "fmt_int (int q) \<in> set need \<longleftrightarrow> bit_at data q \<noteq> bit_at baseData q" by (auto simp: need fmt_int_inj)
    then have "adds s2 (fmt_int (int q)) = Some (IntVal 1) \<longleftrightarrow> bit_at data q \<noteq> bit_at baseData q"
      by (simp add: s2(4) s1(4) ord)
    then show ?thesis by (auto simp: snap_bit_def s2(3) s1(3) baseData_def split: option.splits)
  qed
  moreover have "s2 = None \<longrightarrow> s = None \<or> keyed s"
  proof
    assume none: "s2 = None"
    then have "need = []" using s2(4) ord [of need] by (cases need) (auto simp: adds_def fun_eq_iff split: if_splits)
    with ord [of need] have "ord need = []" by simp
    then have "s1 = None" using none by (simp add: s2_def)
    with s1(5) show "s = None \<or> keyed s" by blast
  qed
  ultimately show ?thesis unfolding eq s2_def [symmetric] Let_def using s2 s1(3) by auto
qed

end
