(* ===== verification/Bitmap_Incr.thy ===== *)
theory Bitmap_Incr
  imports Bitmap_Bulk
begin

text \<open>The subcommands of \<^verbatim>\<open>BITFIELD\<close> on the bytes of a key, and the whole command.\<close>

section \<open>Storing a field\<close>

text \<open>
  A field that the command can handle: of a valid type, at a non-negative offset, for which no sum overflows and, when it
  may be written, inside the \<open>2^48\<close> bytes that can be allocated.
\<close>

definition sc_ok :: "subCommand \<Rightarrow> bool" where
  "sc_ok sc \<longleftrightarrow> field_type (sc_signed sc) (sc_bits sc) \<and> 0 \<le> sint (sc_offset sc) \<and>
     sint (sc_offset sc) + int (sc_bits sc) + 7 \<le> MaxInt64 \<and>
     (sc_op sc \<noteq> bitfieldGet \<longrightarrow> sint (sc_offset sc) + int (sc_bits sc) \<le> 2 ^ 51)"

definition small :: "bytes \<Rightarrow> bool" where
  "small data \<longleftrightarrow> 8 * length data \<le> 2 ^ 63"

definition same_outside :: "subCommand \<Rightarrow> bytes \<Rightarrow> bytes \<Rightarrow> bool" where
  "same_outside sc data d \<longleftrightarrow>
     (\<forall>q. q < nat (sint (sc_offset sc)) \<or> nat (sint (sc_offset sc)) + sc_bits sc \<le> q \<longrightarrow> bit_at d q = bit_at data q)"

lemma sc_bits_range: "sc_ok sc \<Longrightarrow> 1 \<le> sc_bits sc \<and> sc_bits sc \<le> 64"
  by (auto simp: sc_ok_def field_type_def split: if_splits)

lemma required_bytes:
  assumes "sc_ok sc"
  shows "sint (go_div (sc_offset sc + of_nat (sc_bits sc) + 7) 8) = (sint (sc_offset sc) + int (sc_bits sc) + 7) div 8"
proof -
  have "sint (sc_offset sc + of_nat (sc_bits sc + 7)) = sint (sc_offset sc) + int (sc_bits sc + 7)"
    using assms by (intro sint_add_small) (simp_all add: sc_ok_def)
  then have "sint (sc_offset sc + of_nat (sc_bits sc) + 7) = sint (sc_offset sc) + int (sc_bits sc) + 7"
    by (simp add: add.assoc)
  moreover have "0 \<le> sint (sc_offset sc) + int (sc_bits sc) + 7" using assms by (simp add: sc_ok_def)
  ultimately show ?thesis using sint_go_div8 [of "sc_offset sc + of_nat (sc_bits sc) + 7"] by simp
qed

lemma bytes_needed: "(2 :: int) ^ 48 < (x + 7) div 8 \<longleftrightarrow> 2 ^ 51 < x" "0 \<le> x \<Longrightarrow> 0 \<le> (x + 7) div 8"
proof -
  show "(2 :: int) ^ 48 < (x + 7) div 8 \<longleftrightarrow> 2 ^ 51 < x" by simp presburger
  show "0 \<le> (x + 7) div 8" if "0 \<le> x" using that by simp
qed

lemma extend_zeros_Some:
  assumes "\<not> make_panics 1 (sint needed)"
  shows "\<exists>d. extend_zeros data needed = Some d \<and> int (length d) = max (int (length data)) (sint needed)"
  using assms by (auto simp: extend_zeros_def make_panics_def)

lemma store_field_spec:
  assumes "sc_ok sc" "small data" "sc_op sc \<noteq> bitfieldGet"
  shows "\<exists>d. store_field sc v data = Some d \<and> small d \<and> same_outside sc data d \<and>
    bits_val d (nat (sint (sc_offset sc))) (sc_bits sc) = take_bit (sc_bits sc) (unat v)"
proof -
  define off n where "off = sint (sc_offset sc)" and "n = sc_bits sc"
  have o: "0 \<le> off" "off + int n + 7 \<le> MaxInt64" "off + int n \<le> 2 ^ 51" and n: "1 \<le> n" "n \<le> 64"
    using assms(1,3) sc_bits_range [OF assms(1)] by (simp_all add: sc_ok_def off_def n_def)
  have "\<not> make_panics 1 ((off + int n + 7) div 8)" unfolding make_panics_def using o bytes_needed [of "off + int n"] by simp
  then obtain data1 where data1: "extend_zeros data (go_div (sc_offset sc + of_nat n + 7) 8) = Some data1"
    and len: "int (length data1) = max (int (length data)) ((off + int n + 7) div 8)"
    using extend_zeros_Some [of "go_div (sc_offset sc + of_nat n + 7) 8" data]
    unfolding required_bytes [OF assms(1), folded off_def n_def] by blast
  have "8 * ((off + int n + 7) div 8) \<le> off + int n + 7" by simp
  then have sm: "small data1" using assms(2) o len by (simp add: small_def)
  have "off + int n \<le> 8 * ((off + int n + 7) div 8)" by linarith
  then have fits: "nat off + n \<le> 8 * length data1" using len o by linarith
  have "off + int n \<le> MaxInt64 + 1" using o by linarith
  from setBitfieldInt_spec [OF o(1) [unfolded off_def] this [unfolded off_def] n fits [unfolded off_def], of v]
  obtain d where d: "setBitfieldInt data1 (sc_offset sc) n v = Some d" "length d = length data1"
    "bits_val d (nat off) n = take_bit n (unat v)"
    "\<forall>q. q < nat off \<or> nat off + n \<le> q \<longrightarrow> bit_at d q = bit_at data1 q"
    unfolding off_def by blast
  have "same_outside sc data d" using d(4) bit_at_extend [OF data1] by (simp add: same_outside_def off_def n_def)
  moreover have "small d" using sm d(2) by (simp add: small_def)
  ultimately show ?thesis using d(1,3) unfolding store_field_def Let_def n_def [symmetric] data1 Option.bind.simps off_def by blast
qed

lemma store_field_panics:
  assumes "field_type (sc_signed sc) (sc_bits sc)" "0 \<le> sint (sc_offset sc)" "2 ^ 51 < sint (sc_offset sc) + int (sc_bits sc)"
    and "sint (sc_offset sc) + int (sc_bits sc) + 7 \<le> MaxInt64" "int (length data) \<le> 2 ^ 48"
  shows "store_field sc v data = None"
proof -
  have "sc_ok (sc\<lparr>sc_op := bitfieldGet\<rparr>)" using assms by (simp add: sc_ok_def)
  from required_bytes [OF this] have "sint (go_div (sc_offset sc + of_nat (sc_bits sc) + 7) 8) = (sint (sc_offset sc) + int (sc_bits sc) + 7) div 8"
    by simp
  moreover have "2 ^ 48 < (sint (sc_offset sc) + int (sc_bits sc) + 7) div 8" using assms(3) bytes_needed(1) by blast
  ultimately show ?thesis using assms(5) by (simp add: store_field_def Let_def extend_zeros_def make_panics_def)
qed

lemma get_field:
  assumes "sc_ok sc"
  shows "getBitfieldInt data (sc_offset sc) (sc_bits sc) (sc_signed sc) =
    (let v = int (bits_val data (nat (sint (sc_offset sc))) (sc_bits sc))
     in Some (word_of_int (if sc_signed sc then signed_take_bit (sc_bits sc - 1) v else v)))"
  using assms sc_bits_range [OF assms] by (intro getBitfieldInt_eq) (auto simp: sc_ok_def)

lemma store_get:
  assumes "sc_ok sc" "small data" "sc_op sc \<noteq> bitfieldGet" "field_min (sc_signed sc) (sc_bits sc) \<le> sint v" "sint v \<le> field_max (sc_signed sc) (sc_bits sc)"
  shows "\<exists>d. store_field sc v data = Some d \<and> small d \<and> same_outside sc data d \<and>
    getBitfieldInt d (sc_offset sc) (sc_bits sc) (sc_signed sc) = Some v"
proof -
  have ft: "field_type (sc_signed sc) (sc_bits sc)" using assms(1) by (simp add: sc_ok_def)
  obtain d where d: "store_field sc v data = Some d" "small d" "same_outside sc data d"
    "bits_val d (nat (sint (sc_offset sc))) (sc_bits sc) = take_bit (sc_bits sc) (unat v)"
    using store_field_spec [OF assms(1-3)] by blast
  have "getBitfieldInt d (sc_offset sc) (sc_bits sc) (sc_signed sc) = Some v"
    unfolding get_field [OF assms(1)] Let_def d(4) field_value [OF ft assms(4,5)] ..
  with d(1-3) show ?thesis by blast
qed

section \<open>Overflow of an increment\<close>

definition incr_spec :: "bool \<Rightarrow> nat \<Rightarrow> overflowBehavior \<Rightarrow> int \<Rightarrow> int option" where
  "incr_spec sg bits ov x =
     (case ov of
        overflowWrap \<Rightarrow> Some (if sg then signed_take_bit (bits - 1) x else take_bit bits x)
      | overflowSat \<Rightarrow> Some (max (field_min sg bits) (min (field_max sg bits) x))
      | overflowFail \<Rightarrow> if field_min sg bits \<le> x \<and> x \<le> field_max sg bits then Some x else None)"

lemma field_range_int64:
  assumes "field_type sg bits" shows "MinInt64 \<le> field_min sg bits" "field_max sg bits \<le> MaxInt64"
    "field_min sg bits \<le> 0" "0 \<le> field_max sg bits"
proof -
  have "sg \<Longrightarrow> bits - 1 \<le> 63" "\<not> sg \<Longrightarrow> bits \<le> 63" using assms by (auto simp: field_type_def)
  then show "MinInt64 \<le> field_min sg bits" "field_max sg bits \<le> MaxInt64" "field_min sg bits \<le> 0" "0 \<le> field_max sg bits"
    using pow_le_63 [of "bits - 1"] pow_le_63 [of bits] by (auto simp: field_min_def field_max_def)
qed

lemma incr_spec_range:
  assumes "field_type sg bits" "incr_spec sg bits ov x = Some y"
  shows "field_min sg bits \<le> y \<and> y \<le> field_max sg bits"
proof (cases ov)
  case overflowWrap
  have "1 \<le> bits" using assms(1) by (simp add: field_type_def)
  then show ?thesis using assms(2) overflowWrap
      signed_take_bit_int_greater_eq_minus_exp [of "bits - 1" x] signed_take_bit_int_less_exp [of "bits - 1" x]
      take_bit_int_less_exp [of bits x] take_bit_nonnegative [of bits x]
    by (auto simp: incr_spec_def field_min_def field_max_def)
next
  case overflowSat
  then show ?thesis using assms(2) field_range_int64 [OF assms(1)] by (auto simp: incr_spec_def)
next
  case overflowFail
  then show ?thesis using assms(2) by (auto simp: incr_spec_def split: if_splits)
qed

lemma checkAdditionOverflow_iff:
  "checkAdditionOverflow a b \<longleftrightarrow> \<not> (MinInt64 \<le> sint a + sint b \<and> sint a + sint b \<le> MaxInt64)"
proof -
  have pos: "sint (0x7FFFFFFFFFFFFFFF - b) = MaxInt64 - sint b" if "0 < sint b"
  proof -
    have "(0x7FFFFFFFFFFFFFFF - b) = word_of_int (MaxInt64 - sint b)" by simp
    moreover have "sint (word_of_int (MaxInt64 - sint b) :: i64) = MaxInt64 - sint b"
      using that sint64_range [of b] by (intro sint64_of_int) linarith+
    ultimately show ?thesis by (simp only:)
  qed
  have neg: "sint (0x8000000000000000 - b) = MinInt64 - sint b" if "sint b < 0"
  proof -
    have "(0x8000000000000000 - b) = word_of_int (MinInt64 - sint b)" by simp
    moreover have "sint (word_of_int (MinInt64 - sint b) :: i64) = MinInt64 - sint b"
      using that sint64_range [of b] by (intro sint64_of_int) linarith+
    ultimately show ?thesis by (simp only:)
  qed
  show ?thesis
    unfolding checkAdditionOverflow_def using pos neg sint64_range [of a] sint64_range [of b]
    by (cases "0 < sint b"; cases "sint b < 0") auto
qed

lemma sint_plus64: "sint (a + b :: i64) = signed_take_bit 63 (sint a + sint b)"
proof -
  have "a + b = word_of_int (sint a + sint b)" by simp
  then have "sint (a + b) = sint (word_of_int (sint a + sint b) :: i64)" by (rule arg_cong)
  also have "\<dots> = signed_take_bit 63 (sint a + sint b)" unfolding signed_of_int by simp
  finally show ?thesis .
qed

lemma wrap_twice:
  "field_type sg bits \<Longrightarrow> incr_spec sg bits overflowWrap (signed_take_bit 63 x) = incr_spec sg bits overflowWrap x"
  by (auto simp: incr_spec_def field_type_def take_bit_signed_take_bit split: if_splits)

lemma applyOverflow_spec:
  assumes "field_type sg bits" "ov = overflowFail \<longrightarrow> field_min sg bits \<le> sint v \<and> sint v \<le> field_max sg bits"
  shows "incr_spec sg bits ov (sint v) = Some (sint (applyOverflow v bits sg ov))"
  using assms applyOverflow_wrap [OF assms(1), of v] applyOverflow_clamp [OF assms(1), of ov v]
  by (cases ov) (auto simp: incr_spec_def)


definition incr_u8 :: subCommand where
  "incr_u8 = \<lparr>sc_op = bitfieldIncrBy, sc_signed = False, sc_bits = 8, sc_offset = 0, sc_value = 10,
     sc_overflow = overflowWrap, sc_offsetMul = False\<rparr>"


section \<open>Where the arithmetic goes wrong\<close>

text \<open>
  Saturation fails when the sum leaves the 64-bit range: \<^verbatim>\<open>BITFIELD k OVERFLOW SAT INCRBY i64 0 1\<close> on a
  field that holds the largest integer replies with the smallest one, since the sum wraps before it is
  clamped.
\<close>

theorem incrby_sat_wraps:
  "map_option fst (run_subcommand
     \<lparr>sc_op = bitfieldIncrBy, sc_signed = True, sc_bits = 64, sc_offset = 0, sc_value = 1,
      sc_overflow = overflowSat, sc_offsetMul = False\<rparr> [0x7F, 0xFF, 0xFF, 0xFF, 0xFF, 0xFF, 0xFF, 0xFF]) =
   Some (Some 0x8000000000000000)"
  by code_simp



end
