(* ===== verification/Bitmap_Bitfield.thy ===== *)
theory Bitmap_Bitfield
  imports Bitmap_Incr
begin

text \<open>The whole \<^verbatim>\<open>BITFIELD\<close> command as an operation on the array of bits of the key, and \<^verbatim>\<open>BITOP\<close>.\<close>

section \<open>BITFIELD\<close>

lemma run_subcommand_total:
  assumes "sc_ok sc" "small data"
  shows "\<exists>r d m. run_subcommand sc data = Some (r, d, m) \<and> small d \<and> (m \<or> d = data)"
proof -
  define old where "old = the (getBitfieldInt data (sc_offset sc) (sc_bits sc) (sc_signed sc))"
  have get: "getBitfieldInt data (sc_offset sc) (sc_bits sc) (sc_signed sc) = Some old"
    by (simp add: old_def get_field [OF assms(1)] Let_def)
  show ?thesis
  proof (cases "sc_op sc = bitfieldGet")
    case False
    have store: "\<exists>d. store_field sc v data = Some d \<and> small d" for v
      using store_field_spec [OF assms False] by blast
    obtain d1 where "store_field sc (applyOverflow (sc_value sc) (sc_bits sc) (sc_signed sc) (sc_overflow sc)) data = Some d1" "small d1"
      using store by blast
    moreover obtain d2 where
      "store_field sc (applyOverflow (old + sc_value sc) (sc_bits sc) (sc_signed sc) (sc_overflow sc)) data = Some d2" "small d2"
      using store by blast
    ultimately show ?thesis using assms(2) False by (cases "sc_op sc") (auto simp: run_subcommand_def get Let_def)
  qed (use assms(2) in \<open>auto simp: run_subcommand_def get\<close>)
qed

lemma run_subcommands_total:
  assumes "list_all sc_ok scs" "small data"
  shows "\<exists>rs d m. run_subcommands scs data = Some (rs, d, m) \<and> small d \<and> (m \<or> d = data)"
  using assms
proof (induction scs arbitrary: data)
  case (Cons sc scs)
  obtain r d m where 1: "run_subcommand sc data = Some (r, d, m)" "small d" "m \<or> d = data"
    using run_subcommand_total [of sc data] Cons.prems by auto
  obtain rs d' m' where "run_subcommands scs d = Some (rs, d', m')" "small d'" "m' \<or> d' = d"
    using Cons.IH [of d] Cons.prems(1) 1(2) by auto
  with 1 show ?case by auto
qed auto

lemma bitfield_effects:
  assumes "keyed_engine reduce dec" "bitmap_ok s" "live s" "\<And>xs. set (ord xs) = set xs"
    and "small data" "\<And>d. base s = Some d \<Longrightarrow> small (dec d)" "s \<noteq> None \<or> (\<exists>q. bit_at data q)"
  shows "let s' = foldl reduce s (map fst (emitBitmapBulk dec ord key data s tips @
      (if s = None \<or> map_option r_Collection s = Some SCALAR then [(meta_effect key TYPE_BITMAP, [])] else [])))
    in bitmap_ok s' \<and> live s' \<and> snap_bit dec s' = bit_at data"
proof -
  define s1 where "s1 = foldl reduce s (map fst (emitBitmapBulk dec ord key data s tips))"
  have s1: "bitmap_ok s1" "live s1" "snap_bit dec s1 = bit_at data" "s1 = None \<longrightarrow> s = None \<or> keyed s"
    using bulk_snap [OF assms(1-4), of data key tips] assms(5,6) by (simp_all add: s1_def Let_def small_def)
  show ?thesis
  proof (cases "s = None \<or> map_option r_Collection s = Some SCALAR")
    case True
    have "s1 \<noteq> None"
    proof
      assume none: "s1 = None"
      then have "\<not> bit_at data q" for q using s1(3) snap_bit_None [of dec q] by simp
      then obtain r where "s = Some r" using assms(7) by auto
      with True none s1(4) show False by (auto simp: keyed_def)
    qed
    then obtain r where r: "s1 = Some r" by blast
    have m: "bitmap_ok (reduce s1 (meta_effect key TYPE_BITMAP))" "live (reduce s1 (meta_effect key TYPE_BITMAP))"
      "base (reduce s1 (meta_effect key TYPE_BITMAP)) = base s1" "adds (reduce s1 (meta_effect key TYPE_BITMAP)) = adds s1"
      using meta_snap [OF assms(1), of r] s1(1,2) r by (simp_all add: Let_def)
    then have "snap_bit dec (reduce s1 (meta_effect key TYPE_BITMAP)) = bit_at data"
      using snap_bit_cong [OF m(3,4), of dec] s1(3) by simp
    with True m(1,2) show ?thesis by (simp add: s1_def)
  next
    case False
    show ?thesis unfolding if_not_P [OF False] append_Nil2 s1_def [symmetric] Let_def using s1(1-3) by simp
  qed
qed

text \<open>
  Claim C9. \<^verbatim>\<open>BITFIELD\<close> with any list of subcommands returns, on a key whose bytes can be allocated, when the fields it writes lie within
  the first \<open>2^51\<close> bits, which is all the memory that can be allocated, and those it reads end seven bits before position \<open>2^63\<close>: it reads the bits of the key, runs the subcommands on them in order, replies with their
  results, and its effects leave a bitmap with exactly the bits that the subcommands computed (unless
  the key was missing and no bit is set).
\<close>

theorem bitfield_refines:
  assumes "keyed_engine reduce dec"
    and "GetSnapshot key c = Inr (s, tips)" "bitmap_ok s" "live s" "\<And>es e. c_emit_error c es e = None"
    and "\<And>xs. set (ord xs) = set xs" "parse_subcommands overflowWrap rest = Inr (sc # scs)" "list_all sc_ok (sc # scs)"
    and "reconstructBitmapBytes dec s = Some raw" "small raw" "\<And>d. base s = Some d \<Longrightarrow> small (dec d)"
  shows "\<exists>f es rs data m. h_runner (handleBitField dec ord (key # rest) w0) = Some f \<and>
    bit_at raw = snap_bit dec s \<and> run_subcommands (sc # scs) raw = Some (rs, data, m) \<and>
    f (c, w) = Some (c\<lparr>c_emitted := c_emitted c @ es\<rparr>, write_results rs w) \<and>
    (s \<noteq> None \<or> (\<exists>q. bit_at data q) \<longrightarrow>
      (let s' = foldl reduce s (map fst es) in bitmap_ok s' \<and> live s' \<and> snap_bit dec s' = bit_at data))"
proof -
  obtain rs data m where run: "run_subcommands (sc # scs) raw = Some (rs, data, m)" "small data" "m \<or> data = raw"
    using run_subcommands_total [OF assms(8,10)] by blast
  have raw: "bit_at raw = snap_bit dec s"
    using reconstruct_snap [OF assms(3,9)] by (simp add: fun_eq_iff)
  define f where "f = (\<lambda>(c, w). case getBitmapSnapshot c key of
      ReadError err \<Rightarrow> Some (c, WriteError err w)
    | WrongType _ \<Rightarrow> Some (c, WriteWrongType w)
    | Missing tips \<Rightarrow> run_bitField dec ord key (sc # scs) None tips (c, w)
    | Found snap tips \<Rightarrow> run_bitField dec ord key (sc # scs) (Some snap) tips (c, w))"
  have runner: "h_runner (handleBitField dec ord (key # rest) w0) = Some f"
    by (simp add: handleBitField_def assms(7) accept_def f_def)
  define es where "es = (if m then emitBitmapBulk dec ord key data s tips @
      (if s = None \<or> map_option r_Collection s = Some SCALAR then [(meta_effect key TYPE_BITMAP, [])] else []) else [])"
  have "f (c, w) = run_bitField dec ord key (sc # scs) s tips (c, w)"
    unfolding f_def by (cases s) (simp_all add: getBitmapSnapshot_live [OF assms(2-4)])
  also have "\<dots> = Some (c\<lparr>c_emitted := c_emitted c @ es\<rparr>, write_results rs w)"
    unfolding run_bitField_def assms(9) option.case run(1) prod.case es_def [symmetric] emit_then_def
    by (simp add: Emits_ok [OF assms(5)])
  finally have step: "f (c, w) = Some (c\<lparr>c_emitted := c_emitted c @ es\<rparr>, write_results rs w)" .
  have "let s' = foldl reduce s (map fst es) in bitmap_ok s' \<and> live s' \<and> snap_bit dec s' = bit_at data"
    if "s \<noteq> None \<or> (\<exists>q. bit_at data q)"
  proof (cases m)
    case True
    then show ?thesis
      using bitfield_effects [OF assms(1,3,4,6) run(2) assms(11) that, of key tips] by (simp add: es_def)
  next
    case False
    then show ?thesis using run(3) assms(3,4) raw by (simp add: es_def)
  qed
  with runner raw run(1) step show ?thesis by blast
qed

text \<open>The fields written by \<^verbatim>\<open>BITFIELD k SET u8 0 1\<close> on a missing key.\<close>

theorem bitfield_refines_witness:
  "\<exists>f es. h_runner (handleBitField GetRaw (\<lambda>xs. xs) [[107], bstr ''SET'', bstr ''u8'', [48], [49]] (NewWriter [])) = Some f \<and>
     f (fresh_context, NewWriter []) = Some (fresh_context\<lparr>c_emitted := es\<rparr>, write_results [Some 0] (NewWriter []))"
proof -
  let ?sc = "\<lparr>sc_op = bitfieldSet, sc_signed = False, sc_bits = 8, sc_offset = 0, sc_value = 1,
        sc_overflow = overflowWrap, sc_offsetMul = False\<rparr>"
  have "(case parse_subcommands overflowWrap [bstr ''SET'', bstr ''u8'', [48], [49]] of
        Inl _ \<Rightarrow> None | Inr scs \<Rightarrow> Some scs) = Some [?sc]"
    by code_simp
  then have p: "parse_subcommands overflowWrap [bstr ''SET'', bstr ''u8'', [48], [49]] = Inr [?sc]"
    by (simp only: option.inject split: sum.splits) blast
  have r: "run_subcommands [?sc] [] = Some ([Some 0], [1], True)" by code_simp
  have ctx: "GetSnapshot [107] fresh_context = Inr (None, [])" "\<And>es e. c_emit_error fresh_context es e = None"
    by (simp_all add: GetSnapshot_def fresh_context_def)
  have none: "bitmap_ok None" "live None" "reconstructBitmapBytes GetRaw None = Some []" "small []"
    "list_all sc_ok [?sc]" "\<And>d. base None = Some d \<Longrightarrow> small (GetRaw d)"
    by (simp_all add: bitmap_ok_def live_def reconstructBitmapBytes_def small_def sc_ok_def field_type_def base_def)
  show ?thesis
    using bitfield_refines [OF plain_engine ctx(1) none(1,2) ctx(2) refl p none(5,3,4,6), of "NewWriter []" "NewWriter []"]
    unfolding r by (auto simp: fresh_context_def)
qed

end
