(* ===== verification/Bitmap_Bitop.thy ===== *)
theory Bitmap_Bitop
  imports Bitmap_Bitfield
begin

text \<open>\<^verbatim>\<open>BITOP\<close>: every operation acts on each position alone, with missing bytes read as zeros.\<close>

definition op_spec :: "bitop \<Rightarrow> bool list \<Rightarrow> bool" where
  "op_spec op bs \<longleftrightarrow>
     (case op of
        BAnd \<Rightarrow> list_all (\<lambda>b. b) bs
      | BOr \<Rightarrow> list_ex (\<lambda>b. b) bs
      | BXor \<Rightarrow> odd (length (filter (\<lambda>b. b) bs))
      | BNot \<Rightarrow> \<not> hd bs
      | BOne \<Rightarrow> length (filter (\<lambda>b. b) bs) = 1
      | BDiff \<Rightarrow> hd bs \<and> \<not> list_ex (\<lambda>b. b) (tl bs)
      | BDiff1 \<Rightarrow> \<not> hd bs \<and> list_ex (\<lambda>b. b) (tl bs)
      | BAndOr \<Rightarrow> hd bs \<and> list_ex (\<lambda>b. b) (tl bs))"

definition bitwise :: "(byte \<Rightarrow> byte \<Rightarrow> byte) \<Rightarrow> (bool \<Rightarrow> bool \<Rightarrow> bool) \<Rightarrow> bool" where
  "bitwise f g \<longleftrightarrow> (\<forall>a b n. n < 8 \<longrightarrow> bit (f a b) n = g (bit a n) (bit b n))"

lemma bitwise_ops:
  "bitwise (OR) (\<or>)" "bitwise (XOR) (\<noteq>)" "bitwise (\<lambda>a b. a AND NOT b) (\<lambda>a b. a \<and> \<not> b)" "bitwise (\<lambda>_ b. b) (\<lambda>_ b. b)"
  by (auto simp: bitwise_def bit_or_iff bit_xor_iff bit_and_iff bit_not_iff)

lemma length_merge_into [simp]: "length (merge_into f r src) = length r"
  by (simp add: merge_into_def)

lemma length_merge_fold [simp]: "length (foldl (merge_into f) r srcs) = length r"
  by (induction srcs arbitrary: r) simp_all

lemma div8_less: "q < 8 * n \<Longrightarrow> q div 8 < (n :: nat)"
  by (simp add: less_mult_imp_div_less)

lemma bit_at_merge:
  assumes "bitwise f g" "q < 8 * length r" "\<not> bit_at src q \<Longrightarrow> g (bit_at r q) False = bit_at r q"
  shows "bit_at (merge_into f r src) q = g (bit_at r q) (bit_at src q)"
proof -
  have i: "q div 8 < length r" using assms(2) by (rule div8_less)
  show ?thesis
  proof (cases "q div 8 < length src")
    case True
    then show ?thesis using i assms(1) by (simp add: bit_at_def merge_into_def bitwise_def)
  next
    case False
    then have "\<not> bit_at src q" by (simp add: bit_at_def)
    moreover have "bit_at (merge_into f r src) q = bit_at r q" using False i by (simp add: bit_at_def merge_into_def)
    ultimately show ?thesis using assms(3) by simp
  qed
qed

lemma bit_at_merge_fold:
  assumes "bitwise f g" "\<And>b. g b False = b" "q < 8 * length r"
  shows "bit_at (foldl (merge_into f) r srcs) q = foldl g (bit_at r q) (map (\<lambda>s. bit_at s q) srcs)"
  using assms(3)
proof (induction srcs arbitrary: r)
  case (Cons s srcs)
  then show ?case using bit_at_merge [OF assms(1) Cons.prems, of s] assms(2) by simp
qed simp

lemma fold_or: "foldl (\<or>) b bs \<longleftrightarrow> b \<or> list_ex (\<lambda>b. b) bs"
  by (induction bs arbitrary: b) auto

lemma fold_xor: "foldl (\<noteq>) b bs \<longleftrightarrow> b \<noteq> odd (length (filter (\<lambda>b. b) bs))"
  by (induction bs arbitrary: b) auto

lemma fold_and_not: "foldl (\<lambda>a b. a \<and> \<not> b) b bs \<longleftrightarrow> b \<and> \<not> list_ex (\<lambda>b. b) bs"
  by (induction bs arbitrary: b) auto

lemma union_bits:
  "q < 8 * n \<Longrightarrow> bit_at (foldl (merge_into (OR)) (replicate n 0) srcs) q = list_ex (\<lambda>s. bit_at s q) srcs"
  by (simp add: bit_at_merge_fold [OF bitwise_ops(1)] fold_or list_ex_iff)

subsection \<open>Conjunction\<close>

lemma and_fold:
  assumes "q < 8 * n" "length r = n"
  shows "bit_at (foldl (\<lambda>r src. map (\<lambda>i. if i < length src then r ! i AND src ! i else 0) [0..<n]) r srcs) q =
    (bit_at r q \<and> list_all (\<lambda>s. bit_at s q) srcs)"
  using assms(2)
proof (induction srcs arbitrary: r)
  case (Cons s srcs)
  let ?r = "map (\<lambda>i. if i < length s then r ! i AND s ! i else 0) [0..<n]"
  have "bit_at ?r q = (bit_at r q \<and> bit_at s q)"
    using div8_less [OF assms(1)] Cons.prems by (auto simp: bit_at_def bit_and_iff)
  then show ?case using Cons.IH [of ?r] by auto
qed simp

lemma bit_at_ones: "q < 8 * n \<Longrightarrow> bit_at (replicate n 0xFF) q"
proof -
  assume "q < 8 * n"
  moreover have "bit (0xFF :: byte) k" if "k < 8" for k
  proof -
    have "(0xFF :: byte) = - 1" by simp
    then show ?thesis using that by (simp only: bit_minus_1_iff) simp
  qed
  ultimately show ?thesis by (simp add: bit_at_def div8_less)
qed

subsection \<open>Exactly one\<close>

lemma fold_set_bits:
  assumes "n < 8" "distinct ks"
  shows "bit (foldl (\<lambda>b k. if P k then b OR push_bit k 1 else b) b0 ks :: byte) n = (bit b0 n \<or> n \<in> set ks \<and> P n)"
  using assms(2)
proof (induction ks arbitrary: b0)
  case (Cons k ks)
  then show ?case using assms(1) by (auto simp: bit_or_iff bit_exp_iff)
qed simp

lemma fold_xor_bytes:
  "n < 8 \<Longrightarrow> bit (foldl (\<lambda>b src. if i < length src then b XOR src ! i else b) b0 srcs :: byte) n =
     (bit b0 n \<noteq> odd (length (filter (\<lambda>src. i < length src \<and> bit (src ! i) n) srcs)))"
  by (induction srcs arbitrary: b0) (auto simp: bit_xor_iff)

lemma one_byte_bit:
  assumes "n < 8"
  shows "bit (one_byte srcs i) n \<longleftrightarrow> length (filter (\<lambda>src. i < length src \<and> bit (src ! i) n) srcs) = 1"
proof (cases "length srcs \<le> 2")
  case True
  have "length (filter (\<lambda>src. i < length src \<and> bit (src ! i) n) srcs) \<le> 2" using True length_filter_le le_trans by blast
  then have "odd (length (filter (\<lambda>src. i < length src \<and> bit (src ! i) n) srcs)) \<longleftrightarrow>
      length (filter (\<lambda>src. i < length src \<and> bit (src ! i) n) srcs) = 1"
    by (auto simp: le_Suc_eq numeral_2_eq_2)
  then show ?thesis using True assms by (simp add: one_byte_def fold_xor_bytes)
next
  case False
  have low: "drop_bit k b AND 1 = (1 :: byte) \<longleftrightarrow> bit b k" for k b by (simp add: low_bit)
  show ?thesis using False assms by (simp add: one_byte_def fold_set_bits low del: push_bit_of_1)
qed

subsection \<open>All operations\<close>

lemma max_length: "src \<in> set srcs \<Longrightarrow> length src \<le> foldl max m (map length srcs)"
  and max_length_init: "m \<le> foldl max m (map length srcs)"
proof (induction srcs arbitrary: m)
  case (Cons s srcs)
  { case 1 then show ?case using Cons.IH(2) [of "max m (length s)"] Cons.IH(1) [of "max m (length s)"] by auto }
  { case 2 then show ?case using Cons.IH(2) [of "max m (length s)"] by simp }
qed simp_all

lemma bitop_bit:
  assumes "q < 8 * n" "x # ys = srcs" "length x \<le> n" "op = BNot \<longrightarrow> length x = n"
  shows "bit_at (bitop_result op srcs n) q = op_spec op (map (\<lambda>s. bit_at s q) srcs)"
proof -
  note i = div8_less [OF assms(1)]
  have len: "q < 8 * length (replicate n (0 :: byte))" using assms(1) by simp
  have x: "bit_at (merge_into (\<lambda>_ x. x) (replicate n 0) x) q = bit_at x q"
    by (rule bit_at_merge [OF bitwise_ops(4) len]) (simp add: bit_at_zeros)
  have ex: "list_ex (\<lambda>b. b) (map (\<lambda>s. bit_at s q) zs) = list_ex (\<lambda>s. bit_at s q) zs" for zs
    by (simp add: list_ex_iff)
  note simps = bitop_result_def op_spec_def Let_def ex assms(2) [symmetric]
  show ?thesis
  proof (cases op)
    case BAnd
    then show ?thesis using assms(1) bit_at_ones [OF assms(1)]
      by (simp add: bitop_result_def op_spec_def Let_def and_fold list_all_iff)
  next
    case BOr
    then show ?thesis using assms(1) by (simp add: bitop_result_def op_spec_def Let_def ex union_bits)
  next
    case BXor
    have "bit_at (foldl (merge_into (XOR)) (replicate n 0) srcs) q = foldl (\<noteq>) False (map (\<lambda>s. bit_at s q) srcs)"
      using bit_at_merge_fold [OF bitwise_ops(2) _ len, of srcs] by simp
    with BXor show ?thesis unfolding fold_xor by (simp add: bitop_result_def op_spec_def Let_def)
  next
    case BNot
    then show ?thesis using i assms(4) by (simp add: simps bit_at_def bit_not_iff less_imp_diff_less)
  next
    case BOne
    then show ?thesis using i
      by (simp add: bitop_result_def op_spec_def Let_def bit_at_def one_byte_bit filter_map comp_def)
  next
    case BDiff
    then show ?thesis using len by (simp add: simps bit_at_merge_fold [OF bitwise_ops(3)] fold_and_not x)
  next
    case BDiff1
    have "bit_at (merge_into (\<lambda>u x. u AND NOT x) (foldl (merge_into (OR)) (replicate n 0) ys) x) q =
        (bit_at (foldl (merge_into (OR)) (replicate n 0) ys) q \<and> \<not> bit_at x q)"
      by (rule bit_at_merge [OF bitwise_ops(3)]) (use assms(1) in simp_all)
    with BDiff1 show ?thesis using assms(1) by (auto simp: simps union_bits)
  next
    case BAndOr
    have "bit_at (map (\<lambda>i. if i < length x then x ! i AND foldl (merge_into (OR)) (replicate n 0) ys ! i else 0) [0..<n]) q =
        (bit_at x q \<and> bit_at (foldl (merge_into (OR)) (replicate n 0) ys) q)"
      using i by (auto simp: bit_at_def bit_and_iff)
    with BAndOr show ?thesis using assms(1) unfolding simps list.sel by (simp add: union_bits ex)
  qed
qed

lemma bitop_length:
  "op = BNot \<longrightarrow> length (hd srcs) = n \<Longrightarrow> length (bitop_result op srcs n) = n"
proof (cases op)
  case BAnd
  then show ?thesis by (cases srcs rule: rev_cases) (simp_all add: bitop_result_def)
qed (simp_all add: bitop_result_def Let_def)

text \<open>
  Claim C29. \<^verbatim>\<open>BITOP\<close> computes position by position: its result is as long as the longest source, and the bit at
  each position is the operation's Boolean function of the sources' bits there, with every source read
  as zero beyond its end. In particular \<^verbatim>\<open>ONE\<close> is exactly-one for any number of sources.
\<close>

theorem bitop_pointwise:
  assumes "srcs \<noteq> []" "bitop_arity_error op (length srcs) = None" "n = foldl max 0 (map length srcs)"
  shows "length (bitop_result op srcs n) = n \<and>
    (\<forall>q < 8 * n. bit_at (bitop_result op srcs n) q = op_spec op (map (\<lambda>s. bit_at s q) srcs))"
proof -
  obtain x ys where srcs: "x # ys = srcs" using assms(1) by (cases srcs) auto
  have x: "length x \<le> n" using max_length [of x srcs 0] srcs assms(3) by auto
  have no: "op = BNot \<longrightarrow> length x = n"
    using assms(2,3) by (auto simp: bitop_arity_error_def srcs [symmetric] split: if_splits)
  then have "length (bitop_result op srcs n) = n" by (intro bitop_length) (simp add: srcs [symmetric])
  with bitop_bit [OF _ srcs x no] show ?thesis by blast
qed

theorem bitop_pointwise_witness:
  "\<not> bit_at (bitop_result BOne [[0xC0], [0x80], [0x80, 1]] 2) 0 \<and> bit_at (bitop_result BOne [[0xC0], [0x80], [0x80, 1]] 2) 1"
proof -
  have b: "bit_at (bitop_result BOne [[0xC0], [0x80], [0x80, 1]] 2) q =
      op_spec BOne (map (\<lambda>s. bit_at s q) [[0xC0], [0x80], [0x80, 1]])" if "q < 16" for q
    using bitop_pointwise [of "[[0xC0], [0x80], [0x80, 1]]" BOne 2] that by (simp add: bitop_arity_error_def)
  have "bit_at [0xC0] 0" "bit_at [0x80] 0" "bit_at [0x80, 1] 0" "bit_at [0xC0] 1" "\<not> bit_at [0x80] 1" "\<not> bit_at [0x80, 1] 1"
    by (code_simp)+
  then show ?thesis by (simp add: b op_spec_def)
qed

end
