(* ===== verification/Command_Monad.thy ===== *)
theory Command_Monad
  imports Engine
begin

text \<open>
  Commands that thread the context through many calls: a computation reads snapshots and emits effects and may
  stop early, with an error to report or with the reply already decided. A command that takes a savepoint puts the
  context back to it unless it succeeds.
\<close>

type_synonym ('e, 'a) cmd = "Context \<Rightarrow> ('e + 'a) \<times> Context"
type_synonym answer = "Writer \<Rightarrow> Writer"

named_theorems cmd_defs

definition ok :: "'a \<Rightarrow> ('e, 'a) cmd" where [cmd_defs]:
  "ok x c = (Inr x, c)"

definition stop :: "'e \<Rightarrow> ('e, 'a) cmd" where [cmd_defs]:
  "stop e c = (Inl e, c)"

definition bind_cmd :: "('e, 'a) cmd \<Rightarrow> ('a \<Rightarrow> ('e, 'b) cmd) \<Rightarrow> ('e, 'b) cmd" where [cmd_defs]:
  "bind_cmd m f c = (case m c of (Inl e, c') \<Rightarrow> (Inl e, c') | (Inr x, c') \<Rightarrow> f x c')"

definition seq_cmd :: "('e, unit) cmd \<Rightarrow> ('e, 'b) cmd \<Rightarrow> ('e, 'b) cmd" where [cmd_defs]:
  "seq_cmd m m' = bind_cmd m (\<lambda>_. m')"

definition when_cmd :: "bool \<Rightarrow> ('e, unit) cmd \<Rightarrow> ('e, unit) cmd" where [cmd_defs]:
  "when_cmd b m = (if b then m else ok ())"

definition guard_cmd :: "bool \<Rightarrow> 'e \<Rightarrow> ('e, unit) cmd" where [cmd_defs]:
  "guard_cmd b e = (if b then ok () else stop e)"

fun each_cmd :: "('a \<Rightarrow> ('e, unit) cmd) \<Rightarrow> 'a list \<Rightarrow> ('e, unit) cmd" where
  "each_cmd f [] = ok ()"
| "each_cmd f (x # xs) = seq_cmd (f x) (each_cmd f xs)"

fun fold_cmd :: "('a \<Rightarrow> 's \<Rightarrow> ('e, 's) cmd) \<Rightarrow> 'a list \<Rightarrow> 's \<Rightarrow> ('e, 's) cmd" where
  "fold_cmd f [] s = ok s"
| "fold_cmd f (x # xs) s = bind_cmd (f x s) (fold_cmd f xs)"

fun all_cmd :: "('a \<Rightarrow> ('e, bool) cmd) \<Rightarrow> 'a list \<Rightarrow> ('e, bool) cmd" where
  "all_cmd f [] = ok True"
| "all_cmd f (x # xs) = bind_cmd (f x) (\<lambda>b. if b then all_cmd f xs else ok False)"

definition snapshot_cmd :: "bytes \<Rightarrow> (bytes, ReducedEffect option \<times> tip list) cmd" where [cmd_defs]:
  "snapshot_cmd key c = (GetSnapshot key c, c)"

definition emit_cmd :: "Effect \<Rightarrow> tip list \<Rightarrow> (bytes, unit) cmd" where [cmd_defs]:
  "emit_cmd e tips c = (case Emit e tips c of (Some err, c') \<Rightarrow> (Inl err, c') | (None, c') \<Rightarrow> (Inr (), c'))"

text \<open>An error that is reported to the client as it is.\<close>

definition or_reply :: "(bytes, 'a) cmd \<Rightarrow> (answer, 'a) cmd" where [cmd_defs]:
  "or_reply m c = (case m c of (Inl err, c') \<Rightarrow> (Inl (WriteError err), c') | (Inr x, c') \<Rightarrow> (Inr x, c'))"

text \<open>Running a command; with a savepoint, a command that stops early leaves no effects.\<close>

definition run_cmd :: "(answer, answer) cmd \<Rightarrow> runner" where
  "run_cmd m cw =
     (case m (fst cw) of (Inl a, c') \<Rightarrow> Some (c', a (snd cw)) | (Inr a, c') \<Rightarrow> Some (c', a (snd cw)))"

definition run_with_savepoint :: "(answer, answer) cmd \<Rightarrow> runner" where
  "run_with_savepoint m cw =
     (case m (fst cw) of
        (Inl a, c') \<Rightarrow> Some (c'\<lparr>c_emitted := c_emitted (fst cw)\<rparr>, a (snd cw))
      | (Inr a, c') \<Rightarrow> Some (c', a (snd cw)))"

section \<open>What a command leaves of the context\<close>

text \<open>A command only adds effects, and only such that satisfy a predicate.\<close>

definition emits :: "(Effect \<Rightarrow> bool) \<Rightarrow> ('e, 'a) cmd \<Rightarrow> bool" where
  "emits P m \<longleftrightarrow> (\<forall>c. \<exists>es. snd (m c) = c\<lparr>c_emitted := c_emitted c @ es\<rparr> \<and> (\<forall>e \<in> set es. P (fst e)))"

named_theorems emits_intros

lemma emitsI: "(\<And>c. \<exists>es. snd (m c) = c\<lparr>c_emitted := c_emitted c @ es\<rparr> \<and> (\<forall>e \<in> set es. P (fst e))) \<Longrightarrow> emits P m"
  by (simp add: emits_def)

lemma emitsD: "emits P m \<Longrightarrow> m c = (r, c') \<Longrightarrow> \<exists>es. c' = c\<lparr>c_emitted := c_emitted c @ es\<rparr> \<and> (\<forall>e \<in> set es. P (fst e))"
  unfolding emits_def by (metis snd_conv)

lemma emits_none: "snd (m c) = c \<Longrightarrow> \<exists>es. snd (m c) = c\<lparr>c_emitted := c_emitted c @ es\<rparr> \<and> (\<forall>e \<in> set es. P (fst e))"
  by (rule exI [of _ "[]"]) simp

lemma emits_ok [emits_intros]: "emits P (ok x)"
  by (rule emitsI, rule emits_none) (simp add: ok_def)

lemma emits_stop [emits_intros]: "emits P (stop e)"
  by (rule emitsI, rule emits_none) (simp add: stop_def)

lemma emits_snapshot [emits_intros]: "emits P (snapshot_cmd key)"
  by (rule emitsI, rule emits_none) (simp add: snapshot_cmd_def)

lemma emits_bind [emits_intros]:
  assumes "emits P m" "\<And>x. emits P (f x)"
  shows "emits P (bind_cmd m f)"
proof (rule emitsI)
  fix c
  obtain r c' where m: "m c = (r, c')" by (cases "m c")
  obtain es where es: "c' = c\<lparr>c_emitted := c_emitted c @ es\<rparr>" "\<forall>e \<in> set es. P (fst e)" using emitsD [OF assms(1) m] by blast
  show "\<exists>es. snd (bind_cmd m f c) = c\<lparr>c_emitted := c_emitted c @ es\<rparr> \<and> (\<forall>e \<in> set es. P (fst e))"
  proof (cases r)
    case (Inl e)
    then show ?thesis using m es by (auto simp: bind_cmd_def)
  next
    case (Inr x)
    obtain r2 c2 where f: "f x c' = (r2, c2)" by (cases "f x c'")
    obtain es2 where es2: "c2 = c'\<lparr>c_emitted := c_emitted c' @ es2\<rparr>" "\<forall>e \<in> set es2. P (fst e)"
      using emitsD [OF assms(2) f] by blast
    show ?thesis by (rule exI [of _ "es @ es2"]) (use Inr m f es es2 in \<open>auto simp: bind_cmd_def\<close>)
  qed
qed

lemma emits_seq [emits_intros]: "emits P m \<Longrightarrow> emits P m' \<Longrightarrow> emits P (seq_cmd m m')"
  by (auto simp: seq_cmd_def intro: emits_intros)

lemma emits_when [emits_intros]: "(b \<Longrightarrow> emits P m) \<Longrightarrow> emits P (when_cmd b m)"
  by (auto simp: when_cmd_def intro: emits_intros)

lemma emits_guard [emits_intros]: "emits P (guard_cmd b e)"
  by (auto simp: guard_cmd_def intro: emits_intros)

lemma emits_emit [emits_intros]: "P e \<Longrightarrow> emits P (emit_cmd e tips)"
  unfolding emits_def emit_cmd_def Emit_def
  by (auto split: option.splits intro: exI [of _ "[]"])

lemma emits_or_reply [emits_intros]:
  assumes "emits P m" shows "emits P (or_reply m)"
proof -
  have "snd (or_reply m c) = snd (m c)" for c by (auto simp: or_reply_def split: prod.splits sum.splits)
  then show ?thesis using assms by (simp add: emits_def)
qed

lemma emits_if [emits_intros]: "(b \<Longrightarrow> emits P m) \<Longrightarrow> (\<not> b \<Longrightarrow> emits P m') \<Longrightarrow> emits P (if b then m else m')"
  by simp

lemma emits_option [emits_intros]:
  "(v = None \<Longrightarrow> emits P m) \<Longrightarrow> (\<And>x. v = Some x \<Longrightarrow> emits P (f x)) \<Longrightarrow> emits P (case v of None \<Rightarrow> m | Some x \<Rightarrow> f x)"
  by (simp split: option.splits)

lemma emits_sum [emits_intros]:
  "(\<And>x. v = Inl x \<Longrightarrow> emits P (f x)) \<Longrightarrow> (\<And>y. v = Inr y \<Longrightarrow> emits P (g y)) \<Longrightarrow> emits P (case v of Inl x \<Rightarrow> f x | Inr y \<Rightarrow> g y)"
  by (simp split: sum.splits)

lemma emits_prod [emits_intros]: "(\<And>x y. p = (x, y) \<Longrightarrow> emits P (f x y)) \<Longrightarrow> emits P (case p of (x, y) \<Rightarrow> f x y)"
  by (simp split: prod.splits)

lemma emits_each [emits_intros]: "(\<And>x. x \<in> set xs \<Longrightarrow> emits P (f x)) \<Longrightarrow> emits P (each_cmd f xs)"
  by (induction xs) (auto intro!: emits_intros)

lemma emits_fold [emits_intros]: "(\<And>x s. x \<in> set xs \<Longrightarrow> emits P (f x s)) \<Longrightarrow> emits P (fold_cmd f xs s)"
  by (induction xs arbitrary: s) (auto intro!: emits_intros)

lemma emits_all [emits_intros]: "(\<And>x. x \<in> set xs \<Longrightarrow> emits P (f x)) \<Longrightarrow> emits P (all_cmd f xs)"
  by (induction xs) (auto intro!: emits_intros)

text \<open>A command with a savepoint adds its effects only if it succeeds, and it never takes effects away.\<close>

lemma run_with_savepoint_cases:
  assumes "emits P m"
  obtains (stopped) a where "run_with_savepoint m (c, w) = Some (c, a w)" "fst (m c) = Inl a"
  | (succeeded) a es where "run_with_savepoint m (c, w) = Some (c\<lparr>c_emitted := c_emitted c @ es\<rparr>, a w)"
      "m c = (Inr a, c\<lparr>c_emitted := c_emitted c @ es\<rparr>)" "\<forall>e \<in> set es. P (fst e)"
proof -
  obtain r c' where m: "m c = (r, c')" by (cases "m c")
  obtain es where es: "c' = c\<lparr>c_emitted := c_emitted c @ es\<rparr>" "\<forall>e \<in> set es. P (fst e)" using emitsD [OF assms m] by blast
  show thesis using m es stopped succeeded by (cases r) (simp_all add: run_with_savepoint_def)
qed

section \<open>What a command returns\<close>

definition returns :: "('a \<Rightarrow> bool) \<Rightarrow> ('e, 'a) cmd \<Rightarrow> bool" where
  "returns Q m \<longleftrightarrow> (\<forall>c x c'. m c = (Inr x, c') \<longrightarrow> Q x)"

named_theorems returns_intros

lemma returns_ok [returns_intros]: "Q x \<Longrightarrow> returns Q (ok x)"
  by (simp add: returns_def ok_def)

lemma returns_stop [returns_intros]: "returns Q (stop e)"
  by (simp add: returns_def stop_def)

lemma returns_bind [returns_intros]: "(\<And>x. returns Q (f x)) \<Longrightarrow> returns Q (bind_cmd m f)"
  unfolding returns_def bind_cmd_def by (auto split: prod.splits sum.splits)

lemma returns_seq [returns_intros]: "returns Q m' \<Longrightarrow> returns Q (seq_cmd m m')"
  unfolding seq_cmd_def by (rule returns_bind)

lemma returns_if [returns_intros]: "returns Q m \<Longrightarrow> returns Q m' \<Longrightarrow> returns Q (if b then m else m')"
  by simp

lemma returns_option [returns_intros]: "returns Q m \<Longrightarrow> (\<And>x. returns Q (f x)) \<Longrightarrow> returns Q (case v of None \<Rightarrow> m | Some x \<Rightarrow> f x)"
  by (simp split: option.splits)

lemma returns_sum [returns_intros]:
  "(\<And>x. returns Q (f x)) \<Longrightarrow> (\<And>y. returns Q (g y)) \<Longrightarrow> returns Q (case v of Inl x \<Rightarrow> f x | Inr y \<Rightarrow> g y)"
  by (simp split: sum.splits)

lemma returns_prod [returns_intros]: "(\<And>x y. returns Q (f x y)) \<Longrightarrow> returns Q (case p of (x, y) \<Rightarrow> f x y)"
  by (simp split: prod.splits)

section \<open>Commands that succeed\<close>

text \<open>When no read and no emission fails, a command adds the effects \<open>es\<close> and returns \<open>x\<close>.\<close>

definition reads_ok :: "Context \<Rightarrow> bool" where
  "reads_ok c \<longleftrightarrow> (\<forall>es k. \<exists>r. c_snapshot c es k = Inr r) \<and> (\<forall>es e. c_emit_error c es e = None)"

definition adding :: "(Effect \<times> tip list) list \<Rightarrow> Context \<Rightarrow> Context" where
  "adding es c = c\<lparr>c_emitted := c_emitted c @ es\<rparr>"

lemma adding_simps [simp]:
  "adding [] c = c" "adding es' (adding es c) = adding (es @ es') c" "reads_ok (adding es c) = reads_ok c"
  by (simp_all add: adding_def reads_ok_def)

lemma emit_cmd_ok: "reads_ok c \<Longrightarrow> emit_cmd e tips c = (Inr (), adding [(e, tips)] c)"
  by (simp add: emit_cmd_def Emit_def reads_ok_def adding_def)

lemma snapshot_cmd_ok: "reads_ok c \<Longrightarrow> \<exists>snap tips. snapshot_cmd key c = (Inr (snap, tips), c)"
  unfolding snapshot_cmd_def reads_ok_def GetSnapshot_def by (metis surj_pair)

lemma bind_cmd_ok: "m c = (Inr x, c') \<Longrightarrow> bind_cmd m f c = f x c'"
  by (simp add: bind_cmd_def)

lemma seq_cmd_ok: "m c = (Inr (), c') \<Longrightarrow> seq_cmd m m' c = m' c'"
  by (simp add: seq_cmd_def bind_cmd_def)

lemma or_reply_ok: "m c = (Inr x, c') \<Longrightarrow> or_reply m c = (Inr x, c')"
  by (simp add: or_reply_def)

lemma guard_cmd_ok: "b \<Longrightarrow> guard_cmd b e c = (Inr (), c)"
  by (simp add: guard_cmd_def ok_def)

end
