(* ===== verification/Collections.thy ===== *)
theory Collections
  imports Command_Monad
begin

text \<open>
  What the command families share: effects on keyed collections, replies that write a list, commands that may panic, the
  contract of the functions that read a key of a given type, and the database that the emitted effects describe.
\<close>

section \<open>Effects and replies\<close>

text \<open>The getter of a missing snapshot is empty.\<close>

definition net_adds :: "ReducedEffect option \<Rightarrow> (bytes \<times> ReducedElement) list" where
  "net_adds snap = (case snap of None \<Rightarrow> [] | Some r \<Rightarrow> r_NetAdds r)"

definition has_elem :: "ReducedEffect option \<Rightarrow> bytes \<Rightarrow> bool" where
  "has_elem snap m \<longleftrightarrow> map_of (net_adds snap) m \<noteq> None"

definition noop_effect :: "bytes \<Rightarrow> Effect" where
  "noop_effect key = \<lparr>e_Key = key, e_Kind = Noop\<rparr>"

definition emitNoop :: "bytes \<Rightarrow> tip list \<Rightarrow> (bytes, unit) cmd" where
  "emitNoop key tips = emit_cmd \<lparr>e_Key = key, e_Kind = Noop\<rparr> tips"

definition keyed_insert :: "bytes \<Rightarrow> bytes \<Rightarrow> bytes \<Rightarrow> (bytes, unit) cmd" where
  "keyed_insert key elem raw = emit_cmd (data_effect key (insert_data KEYED elem (Raw raw))) []"

definition keyed_remove :: "bytes \<Rightarrow> bytes \<Rightarrow> (bytes, unit) cmd" where
  "keyed_remove key elem = emit_cmd (data_effect key (remove_data KEYED elem)) []"

definition err_syntax :: answer where
  "err_syntax = WriteError (bstr ''ERR syntax error'')"

definition err_int :: answer where
  "err_int = WriteError (bstr ''ERR value is not an integer or out of range'')"

definition write_all :: "('a \<Rightarrow> answer) \<Rightarrow> 'a list \<Rightarrow> answer" where
  "write_all f xs w = foldl (\<lambda>w x. f x w) w xs"

definition write_array :: "('a \<Rightarrow> answer) \<Rightarrow> 'a list \<Rightarrow> answer" where
  "write_array f xs w = write_all f xs (WriteArray (of_nat (length xs)) w)"

fun parse_all :: "('a \<Rightarrow> 'b option) \<Rightarrow> 'a list \<Rightarrow> 'b list option" where
  "parse_all f [] = Some []"
| "parse_all f (x # xs) = (case f x of None \<Rightarrow> None | Some y \<Rightarrow> map_option (Cons y) (parse_all f xs))"

section \<open>Commands that may panic\<close>

text \<open>A command whose reply is \<open>None\<close> has panicked.\<close>

definition run_may_panic :: "(answer, answer option) cmd \<Rightarrow> runner" where
  "run_may_panic m cw =
     (case m (fst cw) of
        (Inl a, c') \<Rightarrow> Some (c', a (snd cw))
      | (Inr None, _) \<Rightarrow> None
      | (Inr (Some a), c') \<Rightarrow> Some (c', a (snd cw)))"

section \<open>Waiting\<close>

text \<open>
  How a wait ends: with a notification, after which the snapshots are other ones, or with an error, which
  may come from \<^verbatim>\<open>CLIENT UNBLOCK\<close>.
\<close>

datatype wake =
    Woken "(Effect \<times> tip list) list \<Rightarrow> bytes \<Rightarrow> bytes + ReducedEffect option \<times> tip list"
  | WaitFailed bool

definition err_unblocked :: answer where
  "err_unblocked = WriteError (bstr ''UNBLOCKED client unblocked via CLIENT UNBLOCK'')"

section \<open>Running a handler\<close>

definition run_handler :: "handler_result \<Rightarrow> Context \<Rightarrow> (Context \<times> Writer) option" where
  "run_handler h c = (case h_runner h of None \<Rightarrow> Some (c, h_writer h) | Some f \<Rightarrow> f (c, h_writer h))"

lemma run_reject [simp]: "run_handler (reject ks w) c = Some (c, w)"
  by (simp add: run_handler_def reject_def)

lemma run_accept [simp]: "run_handler (accept ks w f) c = f (c, w)"
  by (simp add: run_handler_def accept_def)

section \<open>Reading a key of a type\<close>

type_synonym reader = "bytes \<Rightarrow> (bytes, ReducedEffect option \<times> tip list \<times> bool \<times> bool) cmd"

text \<open>The snapshot, its tips, whether the key exists and whether it holds another type.\<close>

definition typed :: "(ReducedEffect \<Rightarrow> bool) \<Rightarrow> ReducedEffect option \<Rightarrow> tip list \<Rightarrow>
    ReducedEffect option \<times> tip list \<times> bool \<times> bool" where
  "typed accepts snap tips =
     (case snap of
        None \<Rightarrow> (None, tips, False, False)
      | Some r \<Rightarrow>
          if r_Op r = REMOVE_OP then (None, tips, False, False)
          else if accepts r then (Some r, tips, True, False)
          else (None, tips, True, True))"

text \<open>The two prologues of the runners: with and without a reply of its own for a missing key.\<close>

definition typed_key :: "reader \<Rightarrow> bytes \<Rightarrow> (ReducedEffect option \<Rightarrow> tip list \<Rightarrow> bool \<Rightarrow> (answer, 'a) cmd) \<Rightarrow> (answer, 'a) cmd" where
  "typed_key get key f =
     bind_cmd (or_reply (get key)) (\<lambda>(snap, tips, exists, wrongType).
       seq_cmd (guard_cmd (\<not> wrongType) WriteWrongType) (f snap tips exists))"

definition with_key :: "reader \<Rightarrow> bytes \<Rightarrow> answer \<Rightarrow> (ReducedEffect option \<Rightarrow> tip list \<Rightarrow> (answer, 'a) cmd) \<Rightarrow> (answer, 'a) cmd" where
  "with_key get key missing f =
     bind_cmd (or_reply (get key)) (\<lambda>(snap, tips, exists, wrongType).
       seq_cmd (guard_cmd exists missing) (seq_cmd (guard_cmd (\<not> wrongType) WriteWrongType) (f snap tips)))"

text \<open>What a key holds, as the handlers see it.\<close>

definition live :: "ReducedEffect option \<Rightarrow> bool" where
  "live s \<longleftrightarrow> (case s of None \<Rightarrow> False | Some r \<Rightarrow> r_Op r = INSERT_OP)"

lemma not_remove [simp]: "op \<noteq> REMOVE_OP \<longleftrightarrow> op = INSERT_OP"
  by (cases op) simp_all

lemma live_Some [simp]: "live (Some r) \<longleftrightarrow> r_Op r = INSERT_OP"
  by (simp add: live_def)

lemma live_None [simp]: "\<not> live None"
  by (simp add: live_def)

text \<open>
  The value that a handler works on: what is live and accepted, or nothing. A key is fit when it holds nothing or an
  accepted value.
\<close>

definition fit :: "(ReducedEffect \<Rightarrow> bool) \<Rightarrow> ReducedEffect option \<Rightarrow> bool" where
  "fit accepts s \<longleftrightarrow> (\<forall>r. s = Some r \<and> r_Op r = INSERT_OP \<longrightarrow> accepts r)"

definition held :: "ReducedEffect option \<Rightarrow> ReducedEffect option" where
  "held s = (if live s then s else None)"

locale typed_reader =
  fixes get :: reader
    and accepts :: "ReducedEffect \<Rightarrow> bool"
  assumes get_eq: "get key = bind_cmd (snapshot_cmd key) (\<lambda>(snap, tips). ok (typed accepts snap tips))"
begin

lemma get_snapshot: "GetSnapshot key c = Inr (s, tips) \<Longrightarrow> get key c = (Inr (typed accepts s tips), c)"
  by (simp add: get_eq cmd_defs)

lemma get_error: "GetSnapshot key c = Inl err \<Longrightarrow> get key c = (Inl err, c)"
  by (simp add: get_eq cmd_defs)

lemma get_emits [emits_intros]: "emits P (get key)"
  unfolding get_eq by (intro emits_intros)

lemma with_key_missing:
  "GetSnapshot key c = Inr (s, tips) \<Longrightarrow> \<not> live s \<Longrightarrow> with_key get key missing f c = (Inl missing, c)"
  by (auto simp: with_key_def cmd_defs get_snapshot typed_def split: option.splits)

lemma with_key_wrong:
  "GetSnapshot key c = Inr (Some r, tips) \<Longrightarrow> r_Op r = INSERT_OP \<Longrightarrow> \<not> accepts r \<Longrightarrow>
   with_key get key missing f c = (Inl WriteWrongType, c)"
  by (simp add: with_key_def cmd_defs get_snapshot typed_def)

lemma with_key_ok:
  "GetSnapshot key c = Inr (Some r, tips) \<Longrightarrow> r_Op r = INSERT_OP \<Longrightarrow> accepts r \<Longrightarrow>
   with_key get key missing f c = f (Some r) tips c"
  by (simp add: with_key_def cmd_defs get_snapshot typed_def)

lemma with_key_error: "GetSnapshot key c = Inl err \<Longrightarrow> with_key get key missing f c = (Inl (WriteError err), c)"
  by (simp add: with_key_def cmd_defs get_error)

lemma typed_key_missing:
  "GetSnapshot key c = Inr (s, tips) \<Longrightarrow> \<not> live s \<Longrightarrow> typed_key get key f c = f None tips False c"
  by (auto simp: typed_key_def cmd_defs get_snapshot typed_def split: option.splits)

lemma typed_key_wrong:
  "GetSnapshot key c = Inr (Some r, tips) \<Longrightarrow> r_Op r = INSERT_OP \<Longrightarrow> \<not> accepts r \<Longrightarrow>
   typed_key get key f c = (Inl WriteWrongType, c)"
  by (simp add: typed_key_def cmd_defs get_snapshot typed_def)

lemma typed_key_ok:
  "GetSnapshot key c = Inr (Some r, tips) \<Longrightarrow> r_Op r = INSERT_OP \<Longrightarrow> accepts r \<Longrightarrow>
   typed_key get key f c = f (Some r) tips True c"
  by (simp add: typed_key_def cmd_defs get_snapshot typed_def)

lemma typed_key_error: "GetSnapshot key c = Inl err \<Longrightarrow> typed_key get key f c = (Inl (WriteError err), c)"
  by (simp add: typed_key_def cmd_defs get_error)

lemma with_key_emits [emits_intros]: "(\<And>snap tips. emits P (f snap tips)) \<Longrightarrow> emits P (with_key get key missing f)"
  unfolding with_key_def by (intro emits_intros get_emits) (auto simp: split_def intro!: emits_intros)

lemma typed_key_emits [emits_intros]: "(\<And>snap tips ex. emits P (f snap tips ex)) \<Longrightarrow> emits P (typed_key get key f)"
  unfolding typed_key_def by (intro emits_intros get_emits) (auto simp: split_def intro!: emits_intros)

lemma typed_key_fit:
  assumes "GetSnapshot key c = Inr (s, tips)" "fit accepts s"
  shows "typed_key get key f c = f (held s) tips (live s) c"
proof (cases s)
  case (Some r)
  show ?thesis
  proof (cases "r_Op r = INSERT_OP")
    case True
    then show ?thesis using typed_key_ok [OF assms(1) [unfolded Some] True] assms(2) by (simp add: Some fit_def held_def)
  next
    case False
    then show ?thesis using typed_key_missing [OF assms(1)] by (simp add: Some held_def)
  qed
qed (use typed_key_missing [OF assms(1)] in \<open>simp add: held_def\<close>)

lemma with_key_fit:
  assumes "GetSnapshot key c = Inr (s, tips)" "fit accepts s"
  shows "with_key get key missing f c = (if live s then f s tips c else (Inl missing, c))"
proof (cases s)
  case (Some r)
  show ?thesis
  proof (cases "r_Op r = INSERT_OP")
    case True
    then show ?thesis using with_key_ok [OF assms(1) [unfolded Some] True] assms(2) by (simp add: Some fit_def)
  next
    case False
    then show ?thesis using with_key_missing [OF assms(1)] by (simp add: Some)
  qed
qed (use with_key_missing [OF assms(1)] in simp)

end

section \<open>Many emissions\<close>

lemma fold_cmd_ok:
  assumes "\<And>x s c. reads_ok c \<Longrightarrow> x \<in> set xs \<Longrightarrow> f x s c = (Inr (g x s), adding (h x) c)" "reads_ok c"
  shows "fold_cmd f xs s c = (Inr (fold g xs s), adding (concat (map h xs)) c)"
  using assms by (induction xs arbitrary: s c) (simp_all add: ok_def bind_cmd_def)

lemma each_cmd_ok:
  assumes "\<And>x c. reads_ok c \<Longrightarrow> x \<in> set xs \<Longrightarrow> f x c = (Inr (), adding (h x) c)" "reads_ok c"
  shows "each_cmd f xs c = (Inr (), adding (concat (map h xs)) c)"
  using assms by (induction xs arbitrary: c) (simp_all add: ok_def seq_cmd_def bind_cmd_def)

lemma when_cmd_ok:
  assumes "b \<Longrightarrow> m c = (Inr (), adding es c)"
  shows "when_cmd b m c = (Inr (), adding (if b then es else []) c)"
  using assms by (simp add: when_cmd_def ok_def)

lemmas cmd_ok = bind_cmd_ok seq_cmd_ok or_reply_ok guard_cmd_ok emit_cmd_ok

section \<open>The database behind a context\<close>

text \<open>The effects on one key.\<close>

definition on_key :: "bytes \<Rightarrow> (Effect \<times> tip list) list \<Rightarrow> Effect list" where
  "on_key key es = filter (\<lambda>e. e_Key e = key) (map fst es)"

lemma on_key_simps [simp]:
  "on_key key [] = []"
  "on_key key ((e, t) # es) = (if e_Key e = key then e # on_key key es else on_key key es)"
  "on_key key (es @ es') = on_key key es @ on_key key es'"
  by (simp_all add: on_key_def)

lemma e_Key_simps [simp]: "e_Key (data_effect key d) = key" "e_Key (meta_effect key t) = key" "e_Key (noop_effect key) = key"
  by (simp_all add: data_effect_def meta_effect_def noop_effect_def)

lemma on_key_map:
  "(\<And>x. e_Key (f x) = key) \<Longrightarrow> on_key k (map (\<lambda>x. (f x, t)) xs) = (if k = key then map f xs else [])"
  by (induction xs) auto

definition empty_context :: Context where
  "empty_context = \<lparr>c_emitted = [], c_snapshot = (\<lambda>_ _. Inr (None, [])), c_emit_error = (\<lambda>_ _. None)\<rparr>"

text \<open>
  A context is backed by an engine \<open>reduce\<close> and initial values \<open>st\<close> when a snapshot is the reduction of the effects
  emitted on its key and no emission fails. The tips are arbitrary.
\<close>

type_synonym engine = "ReducedEffect option \<Rightarrow> Effect \<Rightarrow> ReducedEffect option"

definition backed :: "engine \<Rightarrow> (bytes \<Rightarrow> ReducedEffect option) \<Rightarrow> Context \<Rightarrow> bool" where
  "backed reduce st c \<longleftrightarrow>
     (\<forall>es k. \<exists>tips. c_snapshot c es k = Inr (foldl reduce (st k) (on_key k es), tips)) \<and>
     (\<forall>es e. c_emit_error c es e = None)"

definition db :: "engine \<Rightarrow> (bytes \<Rightarrow> ReducedEffect option) \<Rightarrow> Context \<Rightarrow> bytes \<Rightarrow> ReducedEffect option" where
  "db reduce st c k = foldl reduce (st k) (on_key k (c_emitted c))"

lemma backed_reads_ok: "backed reduce st c \<Longrightarrow> reads_ok c"
  unfolding backed_def reads_ok_def by blast

lemma backed_adding [simp]: "backed reduce st (adding es c) = backed reduce st c"
  by (simp add: backed_def adding_def)

lemma db_adding [simp]: "db reduce st (adding es c) k = foldl reduce (db reduce st c k) (on_key k es)"
  by (simp add: db_def adding_def)

lemma backed_snapshot: "backed reduce st c \<Longrightarrow> \<exists>tips. GetSnapshot k c = Inr (db reduce st c k, tips)"
  unfolding backed_def GetSnapshot_def db_def by blast

definition engine_context :: "engine \<Rightarrow> (bytes \<Rightarrow> ReducedEffect option) \<Rightarrow> Context" where
  "engine_context reduce st =
     \<lparr>c_emitted = [], c_snapshot = (\<lambda>es k. Inr (foldl reduce (st k) (on_key k es), [])), c_emit_error = (\<lambda>_ _. None)\<rparr>"

lemma backed_engine_context: "backed reduce st (engine_context reduce st)"
  by (simp add: backed_def engine_context_def)

end
