(* ===== verification/Stream_Id.thy ===== *)
theory Stream_Id
  imports Interfaces "HOL-Library.Product_Lexorder"
begin

text \<open>
  Stream entry identifiers of \<^verbatim>\<open>redis/shared/streams.go\<close>: parsing, printing, the sortable key and the
  comparison. The identifiers are a linear order, of which \<open>Compare\<close> is the three-way comparison and
  \<open>Key\<close> an order-preserving code.
\<close>

section \<open>Identifiers\<close>

datatype StreamID = StreamID (Ms: u64) (Seq: u64)

definition MinStreamID :: StreamID where "MinStreamID = StreamID 0 0"
definition MaxStreamID :: StreamID where "MaxStreamID = StreamID (NOT 0) (NOT 0)"

datatype stream_error = ErrInvalidStreamID | ErrStreamIDTooSmall

text \<open>\<^verbatim>\<open>strings.SplitN(s, "-", 2)\<close>: the part before the first dash, and the part after it if there is one.\<close>

definition split_dash :: "bytes \<Rightarrow> bytes \<times> bytes option" where
  "split_dash s =
     (case dropWhile (\<lambda>c. c \<noteq> 45) s of
        [] \<Rightarrow> (s, None)
      | _ # rest \<Rightarrow> (takeWhile (\<lambda>c. c \<noteq> 45) s, Some rest))"

text \<open>The results are the identifier, whether it is exclusive and whether it is special.\<close>

definition ParseStreamID :: "bytes \<Rightarrow> stream_error + StreamID \<times> bool \<times> bool" where
  "ParseStreamID s0 =
     (if s0 = [] then Inl ErrInvalidStreamID
      else
        let exclusive = (hd s0 = 40); s = (if exclusive then tl s0 else s0) in
        if s = [] then Inl ErrInvalidStreamID
        else if s = [42] \<or> s = [36] \<or> s = [62] then Inr (MinStreamID, False, True)
        else if s = [45] then Inr (MinStreamID, exclusive, True)
        else if s = [43] then Inr (MaxStreamID, exclusive, True)
        else
          let (p0, p1) = split_dash s in
          case parse_uint64 p0 of
            None \<Rightarrow> Inl ErrInvalidStreamID
          | Some ms \<Rightarrow>
              (case p1 of
                 None \<Rightarrow> Inr (StreamID ms 0, exclusive, False)
               | Some p \<Rightarrow>
                   if p = [42] then Inr (StreamID ms 0, False, True)
                   else
                     case parse_uint64 p of
                       None \<Rightarrow> Inl ErrInvalidStreamID
                     | Some seq \<Rightarrow> Inr (StreamID ms seq, exclusive, False)))"

definition ParseStreamIDForRange :: "bytes \<Rightarrow> bool \<Rightarrow> stream_error + StreamID \<times> bool" where
  "ParseStreamIDForRange s0 isEnd =
     (if s0 = [] then Inl ErrInvalidStreamID
      else
        let exclusive = (hd s0 = 40); s = (if exclusive then tl s0 else s0) in
        if s = [] then Inl ErrInvalidStreamID
        else if s = [45] then (if exclusive then Inl ErrInvalidStreamID else Inr (MinStreamID, exclusive))
        else if s = [43] then (if exclusive then Inl ErrInvalidStreamID else Inr (MaxStreamID, exclusive))
        else
          let (p0, p1) = split_dash s in
          case parse_uint64 p0 of
            None \<Rightarrow> Inl ErrInvalidStreamID
          | Some ms \<Rightarrow>
              case (case p1 of None \<Rightarrow> Some (if isEnd then NOT 0 else 0) | Some p \<Rightarrow> parse_uint64 p) of
                None \<Rightarrow> Inl ErrInvalidStreamID
              | Some seq \<Rightarrow>
                  if exclusive \<and> ms = 0 \<and> seq = 0 then Inl ErrInvalidStreamID
                  else if exclusive \<and> \<not> isEnd \<and> ms = NOT 0 \<and> seq = NOT 0 then Inl ErrInvalidStreamID
                  else Inr (StreamID ms seq, exclusive))"

definition StreamID_String :: "StreamID \<Rightarrow> bytes" where
  "StreamID_String sid = format_uint64 (Ms sid) @ 45 # format_uint64 (Seq sid)"

definition Key :: "StreamID \<Rightarrow> bytes" where
  "Key sid = be64 (Ms sid) @ be64 (Seq sid)"

definition Compare :: "StreamID \<Rightarrow> StreamID \<Rightarrow> int" where
  "Compare a b =
     (if Ms a < Ms b then - 1
      else if Ms a > Ms b then 1
      else if Seq a < Seq b then - 1
      else if Seq a > Seq b then 1
      else 0)"

definition IsZero :: "StreamID \<Rightarrow> bool" where
  "IsZero sid \<longleftrightarrow> Ms sid = 0 \<and> Seq sid = 0"

section \<open>The order of identifiers\<close>

instantiation StreamID :: linorder
begin

definition less_eq_StreamID :: "StreamID \<Rightarrow> StreamID \<Rightarrow> bool" where
  "a \<le> b \<longleftrightarrow> (Ms a, Seq a) \<le> (Ms b, Seq b)"

definition less_StreamID :: "StreamID \<Rightarrow> StreamID \<Rightarrow> bool" where
  "a < b \<longleftrightarrow> (Ms a, Seq a) < (Ms b, Seq b)"

instance
  by intro_classes (auto simp: less_eq_StreamID_def less_StreamID_def StreamID.expand)

end

lemma Compare_iff:
  "Compare a b = - 1 \<longleftrightarrow> a < b" "Compare a b = 0 \<longleftrightarrow> a = b" "Compare a b = 1 \<longleftrightarrow> b < a"
  by (auto simp: Compare_def less_StreamID_def StreamID.expand)

lemma Compare_cases: "Compare a b = (if a < b then - 1 else if a = b then 0 else 1)"
  by (auto simp: Compare_def less_StreamID_def StreamID.expand)

lemma Compare_signs [simp]:
  "Compare a b < 0 \<longleftrightarrow> a < b" "Compare a b \<le> 0 \<longleftrightarrow> a \<le> b" "0 < Compare a b \<longleftrightarrow> b < a" "0 \<le> Compare a b \<longleftrightarrow> b \<le> a"
  by (auto simp: Compare_cases)

interpretation sid_cmp: comparator Compare
  by unfold_locales (auto simp: Compare_cases split: if_splits)

lemma Key_append_less: "Key a @ r < Key b @ s \<longleftrightarrow> a < b \<or> a = b \<and> r < s"
  by (auto simp: Key_def list_less_append_same be64_less_iff less_StreamID_def StreamID.expand)

interpretation sid_key: order_code Key "(<)" "(=)"
  by unfold_locales (rule Key_append_less)

lemma MinStreamID_least: "MinStreamID \<le> a"
  by (auto simp: MinStreamID_def less_eq_StreamID_def)

lemma MaxStreamID_greatest: "a \<le> MaxStreamID"
  by (auto simp: MaxStreamID_def less_eq_StreamID_def word_order.extremum)

section \<open>Parsing what was printed\<close>

lemma decimal_no_dash: "45 \<notin> set (format_uint64 v)"
  unfolding format_uint64_def by (rule dec_not_in) (simp add: is_digit_def)

lemma split_dash_String: "split_dash (StreamID_String a) = (format_uint64 (Ms a), Some (format_uint64 (Seq a)))"
proof -
  have no: "c \<noteq> 45" if "c \<in> set (format_uint64 (Ms a))" for c using that decimal_no_dash by metis
  show ?thesis
    unfolding split_dash_def StreamID_String_def
    by (subst dropWhile_append2, erule no, subst takeWhile_append2, erule no) simp
qed

lemma String_start: "\<exists>d ds. StreamID_String a = d # ds \<and> is_digit d \<and> ds \<noteq> []"
proof -
  have "list_all is_digit (format_uint64 (Ms a))" "format_uint64 (Ms a) \<noteq> []"
    by (simp_all add: format_uint64_def dec_digits)
  then show ?thesis by (cases "format_uint64 (Ms a)") (auto simp: StreamID_String_def)
qed

lemma format_not_star: "format_uint64 v \<noteq> [42]"
proof
  assume "format_uint64 v = [42]"
  moreover have "list_all is_digit (format_uint64 v)" by (simp add: format_uint64_def dec_digits)
  ultimately show False by (simp add: is_digit_def)
qed

text \<open>
  Claim C30. Stream identifiers survive printing and parsing in every role: as an explicit identifier, as the
  start and as the end of a range, and with the prefix for an exclusive bound (except the two bounds
  that no identifier lies beyond).
\<close>

theorem stream_id_print_parse:
  "ParseStreamID (StreamID_String a) = Inr (a, False, False) \<and>
   ParseStreamIDForRange (StreamID_String a) isEnd = Inr (a, False) \<and>
   ParseStreamIDForRange (40 # StreamID_String a) isEnd =
     (if a = MinStreamID \<or> \<not> isEnd \<and> a = MaxStreamID then Inl ErrInvalidStreamID else Inr (a, True))"
proof -
  obtain d ds where s: "StreamID_String a = d # ds" "is_digit d" "ds \<noteq> []" using String_start by blast
  then have d: "d \<noteq> 40" by (auto simp: is_digit_def)
  note sd = split_dash_String [of a, unfolded s(1)]
  have 1: "ParseStreamID (d # ds) = Inr (a, False, False)"
    unfolding ParseStreamID_def Let_def by (simp add: d s(3) sd format_not_star)
  have 2: "ParseStreamIDForRange (d # ds) isEnd = Inr (a, False)"
    unfolding ParseStreamIDForRange_def Let_def by (simp add: d s(3) sd)
  have 3: "ParseStreamIDForRange (40 # d # ds) isEnd =
     (if Ms a = 0 \<and> Seq a = 0 \<or> \<not> isEnd \<and> Ms a = NOT 0 \<and> Seq a = NOT 0 then Inl ErrInvalidStreamID else Inr (a, True))"
    unfolding ParseStreamIDForRange_def Let_def by (simp add: s(3) sd)
  show ?thesis unfolding s(1) using 1 2 3 by (simp add: MinStreamID_def MaxStreamID_def StreamID.expand)
qed

end
