(* ===== verification/Stream_Codec.thy ===== *)
theory Stream_Codec
  imports Stream_Id
begin

text \<open>
  The byte formats of \<^verbatim>\<open>redis/stream/core.go\<close>: element identifiers, entry fields, group, consumer and
  pending-entry records.
\<close>

section \<open>Little-endian integers\<close>

definition le32 :: "u32 \<Rightarrow> bytes" where "le32 v = rev (be32 v)"
definition le64 :: "u64 \<Rightarrow> bytes" where "le64 v = rev (be64 v)"
definition le32_read :: "bytes \<Rightarrow> u32" where "le32_read bs = of_nat (be_nat (rev bs))"
definition le64_read :: "bytes \<Rightarrow> u64" where "le64_read bs = be64_read (rev bs)"

lemma length_le [simp]: "length (le32 v) = 4" "length (le64 w) = 8"
  by (simp_all add: le32_def le64_def)

lemma le64_read_le64 [simp]: "le64_read (le64 v) = v"
  by (simp add: le64_read_def le64_def)

lemma le32_read_le32 [simp]: "le32_read (le32 v) = v"
  using unsigned_less [of v, where ?'a = nat] by (simp add: le32_read_def le32_def be32_eq be_nat_bytes)

section \<open>Element identifiers\<close>

definition encodeStreamElementID :: "StreamID \<Rightarrow> bytes" where
  "encodeStreamElementID sid = be64 (Ms sid) @ be64 (Seq sid)"

definition decodeStreamElementID :: "bytes \<Rightarrow> StreamID" where
  "decodeStreamElementID b =
     (if length b \<noteq> 16 then StreamID 0 0
      else StreamID (be64_read (take 8 b)) (be64_read (take 8 (drop 8 b))))"

lemma length_encodeStreamElementID [simp]: "length (encodeStreamElementID a) = 16"
  by (simp add: encodeStreamElementID_def)

lemma decode_encode_id [simp]: "decodeStreamElementID (encodeStreamElementID a) = a"
  by (simp add: decodeStreamElementID_def encodeStreamElementID_def)

lemma encode_decode_id: "length b = 16 \<Longrightarrow> encodeStreamElementID (decodeStreamElementID b) = b"
  by (simp add: decodeStreamElementID_def encodeStreamElementID_def be64_be64_read)

lemma encodeStreamElementID_inj: "encodeStreamElementID a = encodeStreamElementID b \<longleftrightarrow> a = b"
  by (metis decode_encode_id)

section \<open>Fields of an entry\<close>

definition encode_field :: "bytes \<Rightarrow> bytes" where
  "encode_field f = le32 (of_nat (length f)) @ f"

definition encodeStreamFields :: "bytes list \<Rightarrow> bytes" where
  "encodeStreamFields fs = le32 (of_nat (length fs)) @ concat (map encode_field fs)"

text \<open>A field that is cut off, and every field after it, stays empty.\<close>

fun decode_fields :: "nat \<Rightarrow> bytes \<Rightarrow> bytes list" where
  "decode_fields 0 raw = []"
| "decode_fields (Suc n) raw =
     (if length raw < 4 then replicate (Suc n) []
      else
        let fLen = unat (le32_read (take 4 raw)); rest = drop 4 raw in
        if length rest < fLen then replicate (Suc n) []
        else take fLen rest # decode_fields n (drop fLen rest))"

definition decodeStreamFields :: "bytes \<Rightarrow> bytes list" where
  "decodeStreamFields raw =
     (if length raw < 4 then []
      else
        let count = unat (le32_read (take 4 raw)) in
        if count = 0 then [] else decode_fields count (drop 4 raw))"

definition field_ok :: "bytes \<Rightarrow> bool" where
  "field_ok f \<longleftrightarrow> length f < 2 ^ 32"

definition read_field :: "bytes \<Rightarrow> (bytes \<times> bytes) option" where
  "read_field raw =
     (if length raw < 4 then None
      else
        let fLen = unat (le32_read (take 4 raw)); rest = drop 4 raw in
        if length rest < fLen then None else Some (take fLen rest, drop fLen rest))"

lemma unat_len32: "n < 2 ^ 32 \<Longrightarrow> unat (of_nat n :: u32) = n"
  by (simp add: unat_of_nat)

interpretation field_codec: codec encode_field read_field field_ok
  by unfold_locales (simp add: encode_field_def read_field_def field_ok_def unat_len32)

lemma decode_fields_many: "decode_many read_field n raw = Some (fs, rest) \<Longrightarrow> decode_fields n raw = fs"
proof (induction n arbitrary: raw fs)
  case (Suc n)
  from Suc.prems obtain f r fs' where
    r: "read_field raw = Some (f, r)" "decode_many read_field n r = Some (fs', rest)" "fs = f # fs'"
    by (auto split: option.splits prod.splits)
  have "decode_fields n r = fs'" by (rule Suc.IH) (rule r(2))
  with r(1,3) show ?case by (auto simp: read_field_def Let_def split: if_splits)
qed simp

lemma decode_encode_fields:
  assumes "list_all field_ok fs" "length fs < 2 ^ 32"
  shows "decodeStreamFields (encodeStreamFields fs) = fs"
proof -
  have "decode_fields (length fs) (concat (map encode_field fs)) = fs"
    using decode_fields_many field_codec.decode_many_concat [OF assms(1), of "[]"] by simp
  then show ?thesis
    using assms(2) by (simp add: decodeStreamFields_def encodeStreamFields_def unat_len32 Let_def)
qed

section \<open>Group, consumer and pending records\<close>

definition encodeGroupMeta :: "StreamID \<Rightarrow> i64 \<Rightarrow> i64 \<Rightarrow> bytes" where
  "encodeGroupMeta lastDelivered entriesRead createdAt =
     be64 (Ms lastDelivered) @ be64 (Seq lastDelivered) @ le64 entriesRead @ le64 createdAt"

definition decodeGroupMeta :: "bytes \<Rightarrow> StreamID \<times> i64 \<times> i64" where
  "decodeGroupMeta raw =
     (if length raw < 32 then (StreamID 0 0, 0, 0)
      else (StreamID (be64_read (take 8 raw)) (be64_read (take 8 (drop 8 raw))),
            le64_read (take 8 (drop 16 raw)), le64_read (take 8 (drop 24 raw))))"

definition encodeConsumerMeta :: "i64 \<Rightarrow> i64 \<Rightarrow> bytes" where
  "encodeConsumerMeta seenTime activeTime = le64 seenTime @ le64 activeTime"

definition decodeConsumerMeta :: "bytes \<Rightarrow> i64 \<times> i64" where
  "decodeConsumerMeta raw =
     (if length raw < 16 then (0, 0) else (le64_read (take 8 raw), le64_read (take 8 (drop 8 raw))))"

definition encodePELEntry :: "bytes \<Rightarrow> i64 \<Rightarrow> i64 \<Rightarrow> bytes" where
  "encodePELEntry consumer deliveryTime deliveryCount =
     le32 (of_nat (length consumer)) @ consumer @ le64 deliveryTime @ le64 deliveryCount"

definition decodePELEntry :: "bytes \<Rightarrow> bytes \<times> i64 \<times> i64" where
  "decodePELEntry raw =
     (if length raw < 4 then ([], 0, 0)
      else
        let nameLen = unat (le32_read (take 4 raw)) in
        if length raw < 4 + nameLen + 16 then ([], 0, 0)
        else
          (take nameLen (drop 4 raw), le64_read (take 8 (drop (4 + nameLen) raw)),
           le64_read (take 8 (drop (4 + nameLen + 8) raw))))"

text \<open>
  Claim C31. What is stored is what is read: element identifiers, entry fields, group
  records, consumer records and pending-entry records decode to the values they were encoded from, for
  names and fields shorter than $2^{32}$ bytes.
\<close>

theorem stream_records_roundtrip:
  assumes "list_all field_ok fs" "length fs < 2 ^ 32" "field_ok consumer"
  shows "decodeStreamElementID (encodeStreamElementID a) = a \<and>
    decodeStreamFields (encodeStreamFields fs) = fs \<and>
    decodeGroupMeta (encodeGroupMeta a n t) = (a, n, t) \<and>
    decodeConsumerMeta (encodeConsumerMeta n t) = (n, t) \<and>
    decodePELEntry (encodePELEntry consumer n t) = (consumer, n, t)"
proof -
  have "decodeGroupMeta (encodeGroupMeta a n t) = (a, n, t)"
    by (simp add: decodeGroupMeta_def encodeGroupMeta_def)
  moreover have "decodeConsumerMeta (encodeConsumerMeta n t) = (n, t)"
    by (simp add: decodeConsumerMeta_def encodeConsumerMeta_def)
  moreover have "decodePELEntry (encodePELEntry consumer n t) = (consumer, n, t)"
    using assms(3) by (simp add: decodePELEntry_def encodePELEntry_def field_ok_def unat_len32 Let_def)
  ultimately show ?thesis using decode_encode_fields [OF assms(1,2)] by simp
qed

theorem stream_records_roundtrip_witness:
  "decodeStreamFields (encodeStreamFields [[102], [118, 49]]) = [[102], [118, 49]] \<and>
   decodePELEntry (encodePELEntry [97, 98] 7 1) = ([97, 98], 7, 1)"
  using stream_records_roundtrip [of "[[102], [118, 49]]" "[97, 98]" MinStreamID 7 1] by (simp add: field_ok_def)

end
