(* ===== verification/Stream_Trim.thy ===== *)
theory Stream_Trim
  imports Stream_Codec
begin

text \<open>
  Stream values and trimming of \<^verbatim>\<open>redis/shared/streams.go\<close>. The ordered index of an external package is
  the list of its keys in the order in which it enumerates them.
\<close>

section \<open>Streams and groups\<close>

record StreamEntry =
  se_ID :: StreamID
  se_Fields :: "bytes list"

definition streamEntryOverhead :: int where "streamEntryOverhead = 64"

record PendingEntry =
  pe_ID :: StreamID
  pe_Consumer :: bytes
  pe_DeliveryTime :: i64
  pe_DeliveryCount :: i64

record Consumer =
  cs_Name :: bytes
  cs_SeenTime :: i64
  cs_PendingCount :: i64
  cs_ActiveTime :: i64

record ConsumerGroup =
  cg_Name :: bytes
  cg_LastDeliveredID :: StreamID
  cg_EntriesRead :: i64
  cg_Pending :: "StreamID \<rightharpoonup> PendingEntry"
  cg_Consumers :: "bytes \<rightharpoonup> Consumer"
  cg_MaxPending :: i64
  cg_CreatedAt :: i64

record StreamValue =
  sv_Index :: "bytes list"
  sv_Entries :: "bytes \<rightharpoonup> StreamEntry"
  sv_LastID :: StreamID
  sv_FirstID :: StreamID
  sv_EntriesAdded :: i64
  sv_MaxDeletedID :: StreamID
  sv_Groups :: "(bytes \<times> ConsumerGroup) list"
  sv_cachedSize :: i64
  sv_cachedSerializedSize :: i64

definition NewStreamValue :: StreamValue where
  "NewStreamValue = \<lparr>sv_Index = [], sv_Entries = Map.empty, sv_LastID = MinStreamID, sv_FirstID = MinStreamID,
     sv_EntriesAdded = 0, sv_MaxDeletedID = MinStreamID, sv_Groups = [], sv_cachedSize = 0, sv_cachedSerializedSize = 0\<rparr>"

definition NewConsumerGroup :: "bytes \<Rightarrow> StreamID \<Rightarrow> i64 \<Rightarrow> ConsumerGroup" where
  "NewConsumerGroup name lastDelivered now = \<lparr>cg_Name = name, cg_LastDeliveredID = lastDelivered, cg_EntriesRead = - 1,
     cg_Pending = Map.empty, cg_Consumers = Map.empty, cg_MaxPending = 0, cg_CreatedAt = now\<rparr>"

definition GetOrCreateConsumer :: "bytes \<Rightarrow> i64 \<Rightarrow> ConsumerGroup \<Rightarrow> Consumer \<times> ConsumerGroup" where
  "GetOrCreateConsumer name now g =
     (let c = (case cg_Consumers g name of
                 Some c \<Rightarrow> c\<lparr>cs_SeenTime := now\<rparr>
               | None \<Rightarrow> \<lparr>cs_Name = name, cs_SeenTime = now, cs_PendingCount = 0, cs_ActiveTime = 0\<rparr>)
      in (c, g\<lparr>cg_Consumers := (cg_Consumers g)(name \<mapsto> c)\<rparr>))"

definition entrySize :: "StreamEntry \<Rightarrow> i64" where
  "entrySize e = foldl (\<lambda>n f. n + of_nat (length f + 24)) (word_of_int streamEntryOverhead) (se_Fields e)"

definition entrySerializedSize :: "bytes \<Rightarrow> StreamEntry \<Rightarrow> i64" where
  "entrySerializedSize idKey e = foldl (\<lambda>n f. n + of_nat (4 + length f)) (of_nat (4 + length idKey) + 16 + 4) (se_Fields e)"

section \<open>Trimming\<close>

datatype RefMode = RefModeKeepRef | RefModeDelRef | RefModeAcked

record TrimOptions =
  t_MaxLen :: i64
  t_MinID :: "StreamID option"
  t_Approx :: bool
  t_Limit :: i64
  t_NodeSize :: i64
  t_RefMode :: RefMode
  t_HasMaxLen :: bool
  t_HasExplicitLimit :: bool

definition trim_limit :: "TrimOptions \<Rightarrow> nat \<Rightarrow> i64" where
  "trim_limit opts len =
     (if t_Limit opts = 0 then
        (if t_Approx opts \<and> 0 < sint (t_NodeSize opts) then 100 * t_NodeSize opts else of_nat len)
      else t_Limit opts)"

definition canTrim :: "TrimOptions \<Rightarrow> (bytes \<times> ConsumerGroup) list \<Rightarrow> StreamID \<Rightarrow> bool" where
  "canTrim opts groups sid \<longleftrightarrow>
     t_RefMode opts \<noteq> RefModeAcked \<or>
     list_all (\<lambda>(_, g). \<not> Compare sid (cg_LastDeliveredID g) > 0 \<and> cg_Pending g sid = None) groups"

definition drop_pending :: "StreamID \<Rightarrow> ConsumerGroup \<Rightarrow> ConsumerGroup" where
  "drop_pending sid g =
     (case cg_Pending g sid of
        None \<Rightarrow> g
      | Some pe \<Rightarrow>
          g\<lparr>cg_Consumers := (case cg_Consumers g (pe_Consumer pe) of
                None \<Rightarrow> cg_Consumers g
              | Some c \<Rightarrow> (cg_Consumers g)(pe_Consumer pe \<mapsto> c\<lparr>cs_PendingCount := cs_PendingCount c - 1\<rparr>)),
            cg_Pending := (cg_Pending g)(sid := None)\<rparr>)"

definition handleTrim :: "TrimOptions \<Rightarrow> StreamID \<Rightarrow> (bytes \<times> ConsumerGroup) list \<Rightarrow> (bytes \<times> ConsumerGroup) list" where
  "handleTrim opts sid groups =
     (if t_RefMode opts = RefModeDelRef then map (\<lambda>(n, g). (n, drop_pending sid g)) groups else groups)"

text \<open>The loop of both passes: it stops at \<open>stop\<close> or after \<open>lim\<close> entries and collects the keys to trim.\<close>

fun trim_loop ::
  "TrimOptions \<Rightarrow> (bytes \<rightharpoonup> StreamEntry) \<Rightarrow> (bytes \<Rightarrow> bool) \<Rightarrow> int \<Rightarrow> bytes list \<Rightarrow>
   int \<times> bytes list \<times> (bytes \<times> ConsumerGroup) list \<Rightarrow> int \<times> bytes list \<times> (bytes \<times> ConsumerGroup) list" where
  "trim_loop opts entries stop lim [] st = st"
| "trim_loop opts entries stop lim (k # ks) (n, ts, gs) =
     (if \<not> n < lim \<or> stop k then (n, ts, gs)
      else
        case entries k of
          None \<Rightarrow> trim_loop opts entries stop lim ks (n, ts, gs)
        | Some e \<Rightarrow>
            if \<not> canTrim opts gs (se_ID e) then trim_loop opts entries stop lim ks (n, ts, gs)
            else trim_loop opts entries stop lim ks (n + 1, ts @ [k], handleTrim opts (se_ID e) gs))"

definition effectiveMaxLen :: "TrimOptions \<Rightarrow> i64" where
  "effectiveMaxLen opts =
     (if t_Approx opts \<and> 0 < sint (t_NodeSize opts)
      then go_div (t_MaxLen opts + t_NodeSize opts - 1) (t_NodeSize opts) * t_NodeSize opts
      else t_MaxLen opts)"

definition trim_goal :: "TrimOptions \<Rightarrow> nat \<Rightarrow> nat \<Rightarrow> i64" where
  "trim_goal opts len trimCount =
     (let limit = trim_limit opts len;
          currentLen = of_nat len - of_nat trimCount;
          toTrim = currentLen - effectiveMaxLen opts
      in if 0 < sint toTrim then
           let toTrim = (if sint toTrim > sint (limit - of_nat trimCount) then limit - of_nat trimCount else toTrim)
           in if t_Approx opts \<and> t_HasExplicitLimit opts \<and> 0 < sint (t_NodeSize opts)
              then go_div toTrim (t_NodeSize opts) * t_NodeSize opts else toTrim
         else toTrim)"

definition remove_key :: "bytes \<Rightarrow> StreamValue \<Rightarrow> StreamValue" where
  "remove_key k sv =
     (let sv = (case sv_Entries sv k of
                  None \<Rightarrow> sv
                | Some e \<Rightarrow>
                    sv\<lparr>sv_cachedSize := sv_cachedSize sv - entrySize e,
                       sv_cachedSerializedSize := sv_cachedSerializedSize sv - entrySerializedSize k e\<rparr>)
      in sv\<lparr>sv_Index := filter (\<lambda>k'. k' \<noteq> k) (sv_Index sv), sv_Entries := (sv_Entries sv)(k := None)\<rparr>)"

definition update_first :: "StreamValue \<Rightarrow> StreamValue" where
  "update_first sv =
     (case sv_Index sv of
        [] \<Rightarrow> sv\<lparr>sv_FirstID := MinStreamID\<rparr>
      | k # _ \<Rightarrow> (case sv_Entries sv k of None \<Rightarrow> sv | Some e \<Rightarrow> sv\<lparr>sv_FirstID := se_ID e\<rparr>))"

definition Trim :: "TrimOptions \<Rightarrow> StreamValue \<Rightarrow> i64 \<times> StreamValue" where
  "Trim opts sv =
     (if sv_Index sv = [] then (0, sv)
      else
        let len = length (sv_Index sv);
            (_, ts, gs) =
              (case t_MinID opts of
                 None \<Rightarrow> (0, [], sv_Groups sv)
               | Some minID \<Rightarrow>
                   trim_loop opts (sv_Entries sv) (\<lambda>k. Key minID \<le> k) (sint (trim_limit opts len)) (sv_Index sv)
                     (0, [], sv_Groups sv));
            (_, ts', gs') =
              (if t_HasMaxLen opts then
                 trim_loop opts (sv_Entries sv) (\<lambda>_. False) (sint (trim_goal opts len (length ts)))
                   (drop (length ts) (sv_Index sv)) (0, ts, gs)
               else (0, ts, gs));
            sv' = sv\<lparr>sv_Groups := gs'\<rparr>
        in if ts' = [] then (0, sv')
           else (of_nat (length ts'), update_first (foldl (\<lambda>sv k. remove_key k sv) sv' ts')))"

definition ForEach :: "StreamValue \<Rightarrow> StreamEntry list" where
  "ForEach sv = List.map_filter (sv_Entries sv) (sv_Index sv)"

end
