(* ===== verification/Stream_Core.thy ===== *)
theory Stream_Core
  imports Collections Stream_Trim
begin

text \<open>
  \<^verbatim>\<open>redis/stream/core.go\<close>: the keys under which a stream, its groups, pending lists, producers and
  settings live, reading a stream from a snapshot, new IDs, and ranges. \<open>dec\<close> is the engine's
  \<^verbatim>\<open>Decompress\<close> and \<open>now\<close> the clock in milliseconds.
\<close>

section \<open>Keys\<close>

definition producerKey :: "bytes \<Rightarrow> bytes \<Rightarrow> bytes" where
  "producerKey stream producer = stream @ [1] @ bstr ''p'' @ [1] @ producer"

definition groupKey :: "bytes \<Rightarrow> bytes \<Rightarrow> bytes" where
  "groupKey stream grp = stream @ [1] @ bstr ''g'' @ [1] @ grp"

definition pelKey :: "bytes \<Rightarrow> bytes \<Rightarrow> bytes" where
  "pelKey stream grp = stream @ [1] @ bstr ''pel'' @ [1] @ grp"

definition cfgKey :: "bytes \<Rightarrow> bytes" where
  "cfgKey stream = stream @ [1] @ bstr ''cfg''"

definition group_registry_key :: "bytes \<Rightarrow> bytes" where
  "group_registry_key stream = stream @ [1] @ bstr ''g'' @ [1] @ bstr ''__registry__''"

definition producer_registry_key :: "bytes \<Rightarrow> bytes" where
  "producer_registry_key stream = stream @ [1] @ bstr ''p'' @ [1] @ bstr ''__registry__''"

section \<open>Snapshots\<close>

text \<open>The snapshot, its tips, whether the key exists and whether it holds another type.\<close>

definition getStreamSnapshot :: "bytes \<Rightarrow> (bytes, ReducedEffect option \<times> tip list \<times> bool \<times> bool) cmd" where
  "getStreamSnapshot key =
     bind_cmd (snapshot_cmd key) (\<lambda>(snap, tips).
       ok (case snap of
             None \<Rightarrow> (None, tips, False, False)
           | Some r \<Rightarrow>
               if r_Op r = REMOVE_OP then (None, tips, False, False)
               else if r_Collection r = ORDERED then (Some r, tips, True, False)
               else if r_Collection r = SCALAR \<and> r_TypeTag r = TYPE_STREAM then (Some r, tips, True, False)
               else if r_Collection r = KEYED \<and> r_TypeTag r = TYPE_STREAM then (Some r, tips, True, False)
               else (None, tips, True, True)))"

definition stream_insert :: "bytes \<Rightarrow> StreamID \<Rightarrow> bytes list \<Rightarrow> Effect" where
  "stream_insert key sid fs =
     data_effect key ((insert_data ORDERED (encodeStreamElementID sid) (Raw (encodeStreamFields fs)))\<lparr>d_Placement := PLACE_TAIL\<rparr>)"

definition emitStreamInsert :: "bytes \<Rightarrow> StreamID \<Rightarrow> bytes list \<Rightarrow> (bytes, unit) cmd" where
  "emitStreamInsert key sid fs = emit_cmd (stream_insert key sid fs) []"

definition stream_remove :: "bytes \<Rightarrow> StreamID \<Rightarrow> Effect" where
  "stream_remove key sid = data_effect key (remove_data ORDERED (encodeStreamElementID sid))"

definition emitStreamRemove :: "bytes \<Rightarrow> StreamID \<Rightarrow> (bytes, unit) cmd" where
  "emitStreamRemove key sid = emit_cmd (stream_remove key sid) []"

definition emitStreamTypeTag :: "bytes \<Rightarrow> (bytes, unit) cmd" where
  "emitStreamTypeTag key = emit_cmd (meta_effect key TYPE_STREAM) []"

section \<open>Entries and metadata\<close>

definition entry_of :: "(DataEffect \<Rightarrow> bytes) \<Rightarrow> bytes \<Rightarrow> ReducedElement \<Rightarrow> StreamEntry" where
  "entry_of dec elemID elem = \<lparr>se_ID = decodeStreamElementID elemID, se_Fields = decodeStreamFields (dec (el_Data elem))\<rparr>"

definition snapshotToEntries :: "(DataEffect \<Rightarrow> bytes) \<Rightarrow> ReducedEffect option \<Rightarrow> StreamEntry list" where
  "snapshotToEntries dec snap =
     (case snap of
        None \<Rightarrow> []
      | Some r \<Rightarrow>
          if r_Collection r = ORDERED \<and> r_Ordered r \<noteq> [] then
            map (\<lambda>el. entry_of dec (d_Id (el_Data el)) el) (filter (\<lambda>el. length (d_Id (el_Data el)) = 16) (r_Ordered r))
          else
            sort_key se_ID
              (map (\<lambda>(elemID, el). entry_of dec elemID el)
                (filter (\<lambda>(elemID, _). elemID \<noteq> bstr ''__meta__'' \<and> length elemID = 16) (r_NetAdds r))))"

definition max_removed :: "bytes list \<Rightarrow> StreamID" where
  "max_removed =
     foldl (\<lambda>m elemID. if length elemID = 16 \<and> Compare (decodeStreamElementID elemID) m > 0
                        then decodeStreamElementID elemID else m) MinStreamID"

text \<open>The last ID, the number of entries added, the largest deleted ID, and whether any was found.\<close>

definition streamMetadata ::
  "(DataEffect \<Rightarrow> bytes) \<Rightarrow> ReducedEffect option \<Rightarrow> StreamID \<times> i64 \<times> StreamID \<times> bool" where
  "streamMetadata dec snap =
     (case snap of
        None \<Rightarrow> (MinStreamID, 0, MinStreamID, False)
      | Some r \<Rightarrow>
          let raw = (case map_of (r_NetAdds r) (bstr ''__meta__'') of None \<Rightarrow> [] | Some el \<Rightarrow> dec (el_Data el)) in
          if r_Collection r = KEYED \<and> 40 \<le> length raw then
            (StreamID (be64_read (take 8 raw)) (be64_read (take 8 (drop 8 raw))), le64_read (take 8 (drop 16 raw)),
             StreamID (be64_read (take 8 (drop 24 raw))) (be64_read (take 8 (drop 32 raw))), True)
          else if r_Collection r = ORDERED then
            let lastID = (if r_Ordered r \<noteq> [] \<and> length (d_Id (el_Data (last (r_Ordered r)))) = 16
                          then decodeStreamElementID (d_Id (el_Data (last (r_Ordered r)))) else MinStreamID);
                found = (r_Ordered r \<noteq> []);
                maxDeletedID = max_removed (r_NetRemoves r);
                (lastID, found) = (if Compare maxDeletedID lastID > 0 then (maxDeletedID, True) else (lastID, found))
            in (lastID, of_nat (length (r_Ordered r)), maxDeletedID, found \<or> r_NetRemoves r \<noteq> [])
          else (MinStreamID, 0, MinStreamID, False))"

definition streamLen :: "ReducedEffect option \<Rightarrow> nat" where
  "streamLen snap =
     (case snap of
        None \<Rightarrow> 0
      | Some r \<Rightarrow>
          if r_Collection r = ORDERED then length (r_Ordered r)
          else length (r_NetAdds r) - (if map_of (r_NetAdds r) (bstr ''__meta__'') \<noteq> None then 1 else 0))"

definition streamFirstID :: "StreamEntry list \<Rightarrow> StreamID" where
  "streamFirstID es = (case es of [] \<Rightarrow> MinStreamID | e # _ \<Rightarrow> se_ID e)"

definition streamLastID :: "StreamEntry list \<Rightarrow> StreamID" where
  "streamLastID es = (if es = [] then MinStreamID else se_ID (last es))"

section \<open>New IDs\<close>

definition last_id :: "(DataEffect \<Rightarrow> bytes) \<Rightarrow> ReducedEffect option \<Rightarrow> StreamID" where
  "last_id dec snap =
     (let lastID = fst (streamMetadata dec snap)
      in if IsZero lastID then streamLastID (snapshotToEntries dec snap) else lastID)"

definition generateStreamID :: "(DataEffect \<Rightarrow> bytes) \<Rightarrow> u64 \<Rightarrow> ReducedEffect option \<Rightarrow> StreamID" where
  "generateStreamID dec now snap =
     (let lastID = last_id dec snap in
      if now > Ms lastID then StreamID now 0
      else if now = Ms lastID then
        (if Seq lastID = NOT 0 then StreamID (now + 1) 0 else StreamID now (Seq lastID + 1))
      else if Seq lastID = NOT 0 then StreamID (Ms lastID + 1) 0
      else StreamID (Ms lastID) (Seq lastID + 1))"

text \<open>\<open>None\<close> stands for \<^verbatim>\<open>ErrStreamIDTooSmall\<close>.\<close>

definition generateStreamIDWithMs :: "(DataEffect \<Rightarrow> bytes) \<Rightarrow> ReducedEffect option \<Rightarrow> u64 \<Rightarrow> StreamID option" where
  "generateStreamIDWithMs dec snap ms =
     (let lastID = last_id dec snap in
      if ms > Ms lastID then Some (StreamID ms 0)
      else if ms = Ms lastID then Some (StreamID ms (Seq lastID + 1))
      else None)"

section \<open>Ranges\<close>

fun range_loop ::
  "StreamID \<Rightarrow> StreamID \<Rightarrow> bool \<Rightarrow> bool \<Rightarrow> int \<Rightarrow> StreamEntry list \<Rightarrow> StreamEntry list \<Rightarrow> StreamEntry list" where
  "range_loop start fin startExcl endExcl count [] result = result"
| "range_loop start fin startExcl endExcl count (e # es) result =
     (let cmpStart = Compare (se_ID e) start; cmpEnd = Compare (se_ID e) fin in
      if startExcl \<and> cmpStart \<le> 0 \<or> \<not> startExcl \<and> cmpStart < 0 then range_loop start fin startExcl endExcl count es result
      else if endExcl \<and> cmpEnd \<ge> 0 then range_loop start fin startExcl endExcl count es result
      else if \<not> endExcl \<and> cmpEnd > 0 then result
      else if count > 0 \<and> int (length (result @ [e])) \<ge> count then result @ [e]
      else range_loop start fin startExcl endExcl count es (result @ [e]))"

definition rangeEntries ::
  "StreamEntry list \<Rightarrow> StreamID \<Rightarrow> StreamID \<Rightarrow> bool \<Rightarrow> bool \<Rightarrow> int \<Rightarrow> StreamEntry list" where
  "rangeEntries es start fin startExcl endExcl count = range_loop start fin startExcl endExcl count es []"

fun range_reverse_loop ::
  "StreamID \<Rightarrow> StreamID \<Rightarrow> bool \<Rightarrow> bool \<Rightarrow> int \<Rightarrow> StreamEntry list \<Rightarrow> StreamEntry list \<Rightarrow> StreamEntry list" where
  "range_reverse_loop start fin startExcl endExcl count [] result = result"
| "range_reverse_loop start fin startExcl endExcl count (e # es) result =
     (let cmpEnd = Compare (se_ID e) fin; cmpStart = Compare (se_ID e) start in
      if endExcl \<and> cmpEnd \<ge> 0 \<or> \<not> endExcl \<and> cmpEnd > 0 then range_reverse_loop start fin startExcl endExcl count es result
      else if startExcl \<and> cmpStart \<le> 0 then range_reverse_loop start fin startExcl endExcl count es result
      else if \<not> startExcl \<and> cmpStart < 0 then result
      else if count > 0 \<and> int (length (result @ [e])) \<ge> count then result @ [e]
      else range_reverse_loop start fin startExcl endExcl count es (result @ [e]))"

definition rangeEntriesReverse ::
  "StreamEntry list \<Rightarrow> StreamID \<Rightarrow> StreamID \<Rightarrow> bool \<Rightarrow> bool \<Rightarrow> int \<Rightarrow> StreamEntry list" where
  "rangeEntriesReverse es start fin startExcl endExcl count = range_reverse_loop start fin startExcl endExcl count (rev es) []"

end
