(* ===== verification/Stream_Groups.thy ===== *)
theory Stream_Groups
  imports Stream_Core
begin

text \<open>
  Consumer groups, pending entries, producers and settings of a stream, as \<^verbatim>\<open>redis/stream/core.go\<close> stores
  them under keys of their own.
\<close>

section \<open>Effects\<close>

definition emitGroupInsert :: "bytes \<Rightarrow> bytes \<Rightarrow> bytes \<Rightarrow> (bytes, unit) cmd" where
  "emitGroupInsert streamKey groupName metaRaw = keyed_insert (groupKey streamKey groupName) (bstr ''__group__'') metaRaw"

definition emitGroupRemove :: "bytes \<Rightarrow> bytes \<Rightarrow> (bytes, unit) cmd" where
  "emitGroupRemove streamKey groupName = emit_cmd (data_effect (groupKey streamKey groupName) (remove_data SCALAR [])) []"

definition consumer_element :: "bytes \<Rightarrow> bytes" where
  "consumer_element consumer = bstr ''c'' @ [0] @ consumer"

definition emitConsumerInsert :: "bytes \<Rightarrow> bytes \<Rightarrow> bytes \<Rightarrow> bytes \<Rightarrow> (bytes, unit) cmd" where
  "emitConsumerInsert streamKey grp consumer metaRaw = keyed_insert (groupKey streamKey grp) (consumer_element consumer) metaRaw"

definition emitConsumerRemove :: "bytes \<Rightarrow> bytes \<Rightarrow> bytes \<Rightarrow> (bytes, unit) cmd" where
  "emitConsumerRemove streamKey grp consumer = keyed_remove (groupKey streamKey grp) (consumer_element consumer)"

definition emitPELInsert :: "bytes \<Rightarrow> bytes \<Rightarrow> StreamID \<Rightarrow> bytes \<Rightarrow> (bytes, unit) cmd" where
  "emitPELInsert streamKey grp sid pelRaw = keyed_insert (pelKey streamKey grp) (encodeStreamElementID sid) pelRaw"

definition emitPELKeyRemove :: "bytes \<Rightarrow> bytes \<Rightarrow> (bytes, unit) cmd" where
  "emitPELKeyRemove streamKey grp = emit_cmd (data_effect (pelKey streamKey grp) (remove_data SCALAR [])) []"

definition emitPELRemove :: "bytes \<Rightarrow> bytes \<Rightarrow> StreamID \<Rightarrow> (bytes, unit) cmd" where
  "emitPELRemove streamKey grp sid = keyed_remove (pelKey streamKey grp) (encodeStreamElementID sid)"

definition emitGroupRegistryInsert :: "bytes \<Rightarrow> bytes \<Rightarrow> (bytes, unit) cmd" where
  "emitGroupRegistryInsert streamKey groupName = keyed_insert (group_registry_key streamKey) groupName [1]"

definition emitGroupRegistryRemove :: "bytes \<Rightarrow> bytes \<Rightarrow> (bytes, unit) cmd" where
  "emitGroupRegistryRemove streamKey groupName = keyed_remove (group_registry_key streamKey) groupName"

section \<open>Snapshots of groups and pending entries\<close>

definition getGroupSnapshot :: "bytes \<Rightarrow> bytes \<Rightarrow> (bytes, ReducedEffect option) cmd" where
  "getGroupSnapshot streamKey grp = bind_cmd (snapshot_cmd (groupKey streamKey grp)) (\<lambda>(snap, _). ok snap)"

definition getPELSnapshot :: "bytes \<Rightarrow> bytes \<Rightarrow> (bytes, ReducedEffect option) cmd" where
  "getPELSnapshot streamKey grp = bind_cmd (snapshot_cmd (pelKey streamKey grp)) (\<lambda>(snap, _). ok snap)"

definition groupExists :: "bytes \<Rightarrow> bytes \<Rightarrow> (bytes, bool) cmd" where
  "groupExists streamKey groupName =
     bind_cmd (snapshot_cmd (groupKey streamKey groupName)) (\<lambda>(snap, _).
       ok (map_of (net_adds snap) (bstr ''__group__'') \<noteq> None))"

definition getGroupMeta :: "(DataEffect \<Rightarrow> bytes) \<Rightarrow> ReducedEffect option \<Rightarrow> StreamID \<times> i64 \<times> i64" where
  "getGroupMeta dec snap =
     (case map_of (net_adds snap) (bstr ''__group__'') of
        None \<Rightarrow> (MinStreamID, 0, 0)
      | Some el \<Rightarrow> decodeGroupMeta (dec (el_Data el)))"

definition getConsumersFromGroup :: "ReducedEffect option \<Rightarrow> (bytes \<times> ReducedElement) list" where
  "getConsumersFromGroup snap =
     map (\<lambda>(k, el). (drop 2 k, el))
       (filter (\<lambda>(k, _). 2 < length k \<and> k ! 0 = 99 \<and> k ! 1 = 0) (net_adds snap))"

definition listGroupNames :: "bytes \<Rightarrow> (bytes, bytes list) cmd" where
  "listGroupNames streamKey =
     bind_cmd (snapshot_cmd (group_registry_key streamKey)) (\<lambda>(snap, _). ok (sort (map fst (net_adds snap))))"

definition pelToEntries :: "(DataEffect \<Rightarrow> bytes) \<Rightarrow> ReducedEffect option \<Rightarrow> PendingEntry list" where
  "pelToEntries dec pelSnap =
     sort_key pe_ID
       (map (\<lambda>(elemID, el).
          let (consumer, deliveryTime, deliveryCount) = decodePELEntry (dec (el_Data el))
          in \<lparr>pe_ID = decodeStreamElementID elemID, pe_Consumer = consumer, pe_DeliveryTime = deliveryTime,
              pe_DeliveryCount = deliveryCount\<rparr>)
        (filter (\<lambda>(elemID, _). length elemID = 16) (net_adds pelSnap)))"

definition consumerPendingCount :: "(DataEffect \<Rightarrow> bytes) \<Rightarrow> ReducedEffect option \<Rightarrow> bytes \<Rightarrow> i64" where
  "consumerPendingCount dec pelSnap consumer =
     of_nat (length (filter (\<lambda>(_, el). fst (decodePELEntry (dec (el_Data el))) = consumer) (net_adds pelSnap)))"

definition pending_in :: "StreamID \<Rightarrow> ReducedEffect option \<Rightarrow> bool" where
  "pending_in sid pelSnap \<longleftrightarrow> map_of (net_adds pelSnap) (encodeStreamElementID sid) \<noteq> None"

section \<open>Settings and counters\<close>

definition emitCfgSet :: "bytes \<Rightarrow> bytes \<Rightarrow> i64 \<Rightarrow> (bytes, unit) cmd" where
  "emitCfgSet streamKey field value = keyed_insert (cfgKey streamKey) field (le64 value)"

text \<open>A stored setting counts only if it has eight bytes.\<close>

definition cfg_value :: "(DataEffect \<Rightarrow> bytes) \<Rightarrow> ReducedEffect option \<Rightarrow> bytes \<Rightarrow> i64 option" where
  "cfg_value dec snap field =
     (case map_of (net_adds snap) field of
        None \<Rightarrow> None
      | Some el \<Rightarrow> let raw = dec (el_Data el) in if length raw = 8 then Some (le64_read raw) else None)"

definition getConfigCounter :: "(DataEffect \<Rightarrow> bytes) \<Rightarrow> bytes \<Rightarrow> bytes \<Rightarrow> i64 \<Rightarrow> (bytes, i64) cmd" where
  "getConfigCounter dec streamKey field fallback =
     bind_cmd (snapshot_cmd (cfgKey streamKey)) (\<lambda>(snap, _).
       ok (case cfg_value dec snap field of None \<Rightarrow> fallback | Some v \<Rightarrow> v))"

text \<open>The duration, the maximal size, and whether the duration was set.\<close>

definition getStreamConfig :: "(DataEffect \<Rightarrow> bytes) \<Rightarrow> bytes \<Rightarrow> (bytes, i64 \<times> i64 \<times> bool) cmd" where
  "getStreamConfig dec streamKey =
     bind_cmd (snapshot_cmd (cfgKey streamKey)) (\<lambda>(snap, _).
       let d = cfg_value dec snap (bstr ''idmp-duration''); m = cfg_value dec snap (bstr ''idmp-maxsize'')
       in ok (case d of None \<Rightarrow> 100 | Some v \<Rightarrow> v, case m of None \<Rightarrow> 100 | Some v \<Rightarrow> v, d \<noteq> None))"

definition getStreamEntriesAdded :: "(DataEffect \<Rightarrow> bytes) \<Rightarrow> bytes \<Rightarrow> (bytes, i64) cmd" where
  "getStreamEntriesAdded dec streamKey = getConfigCounter dec streamKey (bstr ''entries-added'') (- 1)"

definition incrementStreamEntriesAdded :: "(DataEffect \<Rightarrow> bytes) \<Rightarrow> bytes \<Rightarrow> (bytes, unit) cmd" where
  "incrementStreamEntriesAdded dec streamKey =
     bind_cmd (getStreamEntriesAdded dec streamKey) (\<lambda>current.
       emitCfgSet streamKey (bstr ''entries-added'') ((if sint current < 0 then 0 else current) + 1))"

definition setStreamEntriesAdded :: "bytes \<Rightarrow> i64 \<Rightarrow> (bytes, unit) cmd" where
  "setStreamEntriesAdded streamKey value = emitCfgSet streamKey (bstr ''entries-added'') value"

definition getIdmpGeneration :: "(DataEffect \<Rightarrow> bytes) \<Rightarrow> bytes \<Rightarrow> (bytes, i64) cmd" where
  "getIdmpGeneration dec streamKey = getConfigCounter dec streamKey (bstr ''idmp-generation'') 0"

definition getIidsAdded :: "(DataEffect \<Rightarrow> bytes) \<Rightarrow> bytes \<Rightarrow> (bytes, i64) cmd" where
  "getIidsAdded dec streamKey = getConfigCounter dec streamKey (bstr ''iids-added'') 0"

definition incrementIidsAdded :: "(DataEffect \<Rightarrow> bytes) \<Rightarrow> bytes \<Rightarrow> (bytes, unit) cmd" where
  "incrementIidsAdded dec streamKey =
     bind_cmd (getIidsAdded dec streamKey) (\<lambda>current. emitCfgSet streamKey (bstr ''iids-added'') (current + 1))"

definition getIidsDuplicates :: "(DataEffect \<Rightarrow> bytes) \<Rightarrow> bytes \<Rightarrow> (bytes, i64) cmd" where
  "getIidsDuplicates dec streamKey = getConfigCounter dec streamKey (bstr ''iids-duplicates'') 0"

definition incrementIidsDuplicates :: "(DataEffect \<Rightarrow> bytes) \<Rightarrow> bytes \<Rightarrow> (bytes, unit) cmd" where
  "incrementIidsDuplicates dec streamKey =
     bind_cmd (getIidsDuplicates dec streamKey) (\<lambda>current. emitCfgSet streamKey (bstr ''iids-duplicates'') (current + 1))"

definition clearAllProducerKeys :: "(DataEffect \<Rightarrow> bytes) \<Rightarrow> bytes \<Rightarrow> (bytes, unit) cmd" where
  "clearAllProducerKeys dec streamKey =
     bind_cmd (getIdmpGeneration dec streamKey) (\<lambda>gen. emitCfgSet streamKey (bstr ''idmp-generation'') (gen + 1))"

section \<open>Producers\<close>

definition emitProducerRegistryInsert :: "bytes \<Rightarrow> bytes \<Rightarrow> (bytes, unit) cmd" where
  "emitProducerRegistryInsert streamKey producer = keyed_insert (producer_registry_key streamKey) producer [1]"

definition listProducerNames :: "bytes \<Rightarrow> (bytes, bytes list) cmd" where
  "listProducerNames streamKey =
     bind_cmd (snapshot_cmd (producer_registry_key streamKey)) (\<lambda>(snap, _). ok (map fst (net_adds snap)))"

text \<open>The other records of the current generation, oldest entry first, and those that have to go.\<close>

definition current_records :: "(DataEffect \<Rightarrow> bytes) \<Rightarrow> bytes \<Rightarrow> i64 \<Rightarrow> ReducedEffect option \<Rightarrow> (bytes \<times> StreamID) list" where
  "current_records dec seqn gen snap =
     map (\<lambda>(s, el). (s, let r = dec (el_Data el) in if 16 \<le> length r then decodeStreamElementID (take 16 r) else MinStreamID))
       (filter (\<lambda>(s, el). s \<noteq> seqn \<and>
          (let r = dec (el_Data el) in if 32 \<le> length r then le64_read (take 8 (drop 24 r)) = gen else gen = 0)) (net_adds snap))"

definition records_to_evict :: "i64 \<Rightarrow> (bytes \<times> StreamID) list \<Rightarrow> bytes list" where
  "records_to_evict maxsize es =
     (if int (length es) \<ge> sint maxsize
      then map fst (take (nat (int (length es) - sint maxsize + 1)) (sort_key snd es))
      else [])"

definition emitProducerSeqWithConfig ::
  "(DataEffect \<Rightarrow> bytes) \<Rightarrow> u64 \<Rightarrow> bytes \<Rightarrow> bytes \<Rightarrow> bytes \<Rightarrow> StreamID \<Rightarrow> i64 \<Rightarrow> i64 \<Rightarrow> (bytes, unit) cmd" where
  "emitProducerSeqWithConfig dec now streamKey producer seqn entryID gen maxsize =
     (let pKey = producerKey streamKey producer in
      seq_cmd (keyed_insert pKey seqn (encodeStreamElementID entryID @ le64 now @ le64 gen))
       (seq_cmd
         (when_cmd (0 < sint maxsize)
           (bind_cmd (snapshot_cmd pKey) (\<lambda>(snap, _).
             each_cmd (keyed_remove pKey) (records_to_evict maxsize (current_records dec seqn gen snap)))))
         (emitProducerRegistryInsert streamKey producer)))"

definition emitProducerSeq ::
  "(DataEffect \<Rightarrow> bytes) \<Rightarrow> u64 \<Rightarrow> bytes \<Rightarrow> bytes \<Rightarrow> bytes \<Rightarrow> StreamID \<Rightarrow> (bytes, unit) cmd" where
  "emitProducerSeq dec now streamKey producer seqn entryID =
     bind_cmd (getIdmpGeneration dec streamKey) (\<lambda>gen.
     bind_cmd (getStreamConfig dec streamKey) (\<lambda>(_, maxsize, _).
       emitProducerSeqWithConfig dec now streamKey producer seqn entryID gen maxsize))"

text \<open>The record of an idempotent ID, unless it is of another generation or has expired.\<close>

definition valid_record :: "u64 \<Rightarrow> i64 \<Rightarrow> i64 \<Rightarrow> bytes \<Rightarrow> StreamID option" where
  "valid_record now gen duration raw =
     (if length raw < 16 then None
      else if 32 \<le> length raw \<and> le64_read (take 8 (drop 24 raw)) \<noteq> gen then None
      else if 24 \<le> length raw \<and> 0 < sint duration \<and>
        sint (now - le64_read (take 8 (drop 16 raw))) > sint (duration * 1000) then None
      else Some (decodeStreamElementID (take 16 raw)))"

definition lookupProducerSeqWithConfig ::
  "(DataEffect \<Rightarrow> bytes) \<Rightarrow> u64 \<Rightarrow> bytes \<Rightarrow> bytes \<Rightarrow> bytes \<Rightarrow> i64 \<Rightarrow> i64 \<Rightarrow> (bytes, StreamID option) cmd" where
  "lookupProducerSeqWithConfig dec now streamKey producer seqn gen duration =
     bind_cmd (snapshot_cmd (producerKey streamKey producer)) (\<lambda>(snap, _).
       ok (case map_of (net_adds snap) seqn of
             None \<Rightarrow> None
           | Some el \<Rightarrow> valid_record now gen duration (dec (el_Data el))))"

definition lookupProducerSeq ::
  "(DataEffect \<Rightarrow> bytes) \<Rightarrow> u64 \<Rightarrow> bytes \<Rightarrow> bytes \<Rightarrow> bytes \<Rightarrow> (bytes, StreamID option) cmd" where
  "lookupProducerSeq dec now streamKey producer seqn =
     bind_cmd (getIdmpGeneration dec streamKey) (\<lambda>gen.
     bind_cmd (getStreamConfig dec streamKey) (\<lambda>(duration, _, explicit).
       lookupProducerSeqWithConfig dec now streamKey producer seqn gen (if explicit then duration else 0)))"

end
