(* ===== verification/Sha256.thy ===== *)
theory Sha256
  imports Prelude
begin

text \<open>
  \<^verbatim>\<open>crypto/sha256\<close> and \<^verbatim>\<open>encoding/hex\<close> of the standard library, which the stream commands use to derive an
  identifier from the fields of an entry.
\<close>

unbundle bit_operations_syntax

text \<open>
  The constants are the first 32 bits after the binary point of the square and cube roots of the
  first primes. \<open>root_bits\<close> finds an integer root bit by bit.
\<close>

fun root_bits :: "nat \<Rightarrow> nat \<Rightarrow> nat \<Rightarrow> nat \<Rightarrow> nat" where
  "root_bits k n 0 r = r"
| "root_bits k n (Suc b) r = root_bits k n b (if (r + 2 ^ b) ^ k \<le> n then r + 2 ^ b else r)"

definition root_fraction :: "nat \<Rightarrow> nat \<Rightarrow> u32" where
  "root_fraction k p = of_nat (root_bits k (p * 2 ^ (32 * k)) 40 0)"

definition primes_below :: "nat \<Rightarrow> nat list" where
  "primes_below n = filter (\<lambda>p. list_all (\<lambda>d. p mod d \<noteq> 0) [2..<p]) [2..<n]"

definition sha_init :: "u32 list" where
  "sha_init = map (root_fraction 2) (primes_below 20)"

definition sha_k :: "u32 list" where
  "sha_k = map (root_fraction 3) (primes_below 312)"

definition rotr :: "nat \<Rightarrow> u32 \<Rightarrow> u32" where
  "rotr n w = drop_bit n w OR push_bit (32 - n) w"

fun sha_schedule :: "nat \<Rightarrow> u32 list \<Rightarrow> u32 list" where
  "sha_schedule 0 ws = ws"
| "sha_schedule (Suc n) ws =
     (let k = length ws; a = ws ! (k - 15); b = ws ! (k - 2)
      in sha_schedule n
           (ws @ [ws ! (k - 16) + (rotr 7 a XOR rotr 18 a XOR drop_bit 3 a) + ws ! (k - 7) +
                  (rotr 17 b XOR rotr 19 b XOR drop_bit 10 b)]))"

fun sha_round :: "u32 list \<Rightarrow> u32 \<times> u32 \<Rightarrow> u32 list" where
  "sha_round [a, b, c, d, e, f, g, h] (k, w) =
     (let t1 = h + (rotr 6 e XOR rotr 11 e XOR rotr 25 e) + ((e AND f) XOR (NOT e AND g)) + k + w;
          t2 = (rotr 2 a XOR rotr 13 a XOR rotr 22 a) + ((a AND b) XOR (a AND c) XOR (b AND c))
      in [t1 + t2, a, b, c, d + t1, e, f, g])"
| "sha_round st _ = st"

definition sha_block :: "u32 list \<Rightarrow> bytes \<Rightarrow> u32 list" where
  "sha_block st blk =
     (let ws = map (\<lambda>i. of_nat (be_nat (take 4 (drop (4 * i) blk)))) [0..<16]
      in map2 (+) st (foldl sha_round st (zip sha_k (sha_schedule 48 ws))))"

fun sha_blocks :: "nat \<Rightarrow> u32 list \<Rightarrow> bytes \<Rightarrow> u32 list" where
  "sha_blocks 0 st msg = st"
| "sha_blocks (Suc n) st msg = sha_blocks n (sha_block st (take 64 msg)) (drop 64 msg)"

definition sha_pad :: "bytes \<Rightarrow> bytes" where
  "sha_pad msg = msg @ [0x80] @ replicate ((119 - length msg mod 64) mod 64) 0 @ be64 (of_nat (8 * length msg))"

definition sha256 :: "bytes \<Rightarrow> bytes" where
  "sha256 msg = (let p = sha_pad msg in concat (map be32 (sha_blocks (length p div 64) sha_init p)))"

definition hex_digit :: "byte \<Rightarrow> byte" where
  "hex_digit d = (if d < 10 then 48 + d else 87 + d)"

definition hex_EncodeToString :: "bytes \<Rightarrow> bytes" where
  "hex_EncodeToString bs = concat (map (\<lambda>b. [hex_digit (drop_bit 4 b), hex_digit (b AND 15)]) bs)"

text \<open>The root is the largest integer whose power does not exceed the number.\<close>

lemma root_bits_correct:
  assumes "r ^ k \<le> n" "n < (r + 2 ^ b) ^ k"
  shows "root_bits k n b r ^ k \<le> n \<and> n < Suc (root_bits k n b r) ^ k"
  using assms
proof (induction b arbitrary: r)
  case (Suc b)
  show ?case
  proof (cases "(r + 2 ^ b) ^ k \<le> n")
    case True
    have "r + 2 ^ b + 2 ^ b = r + 2 ^ Suc b" by simp
    then have "n < (r + 2 ^ b + 2 ^ b) ^ k" using Suc.prems(2) by (simp only:)
    then show ?thesis using Suc.IH [OF True] True by simp
  next
    case False
    then show ?thesis using Suc.IH [OF Suc.prems(1)] by simp
  qed
qed simp

text \<open>The padded message is a whole number of blocks, and a digest has 32 bytes.\<close>

lemma sha_pad_blocks: "length (sha_pad msg) mod 64 = 0"
proof -
  define q r where "q = length msg div 64" "r = length msg mod 64"
  have m: "length msg = 64 * q + r" "r < 64" by (simp_all add: q_r_def)
  have "length (sha_pad msg) = 64 * q + (r + 1 + (119 - r) mod 64 + 8)" using m(1) by (simp add: sha_pad_def q_r_def)
  also have "r + 1 + (119 - r) mod 64 + 8 = (if r \<le> 55 then 64 else 128)"
  proof (cases "r \<le> 55")
    case True
    then have "119 - r = (55 - r) + 64" by simp
    then have "(119 - r) mod 64 = (55 - r) mod 64" by (simp only: mod_add_self2)
    then show ?thesis using True by simp
  next
    case False
    then show ?thesis using m(2) by simp
  qed
  finally show ?thesis by simp
qed

lemma length_sha_round: "length st = 8 \<Longrightarrow> length (sha_round st kw) = 8"
  by (cases "(st, kw)" rule: sha_round.cases) (auto simp: Let_def)

lemma length_sha_rounds: "length st = 8 \<Longrightarrow> length (foldl sha_round st xs) = 8"
  by (induction xs arbitrary: st) (auto simp: length_sha_round)

lemma length_sha_block: "length st = 8 \<Longrightarrow> length (sha_block st blk) = 8"
  by (simp add: sha_block_def Let_def length_sha_rounds)

lemma length_sha_blocks: "length st = 8 \<Longrightarrow> length (sha_blocks n st msg) = 8"
  by (induction n arbitrary: st msg) (auto simp: length_sha_block)

lemma length_sha_init: "length sha_init = 8"
proof -
  have "length (primes_below 20) = 8" by code_simp
  then show ?thesis by (simp add: sha_init_def)
qed

lemma length_sha256: "length (sha256 msg) = 32"
proof -
  have "length (concat (map be32 ws)) = 4 * length ws" for ws by (induction ws) (auto simp: be32_def)
  then show ?thesis by (simp add: sha256_def Let_def length_sha_blocks length_sha_init)
qed

end
