(* ===== verification/Stream_Add.thy ===== *)
theory Stream_Add
  imports Stream_Groups Sha256 Commands
begin

text \<open>
  \<^verbatim>\<open>XADD\<close> of \<^verbatim>\<open>redis/stream/handlers.go\<close>. \<open>nodeSize\<close> is the value of \<^verbatim>\<open>stream-node-max-entries\<close>. Beginning a
  transaction decides when the effects become visible to others and leaves what the command emits unchanged.
\<close>

section \<open>Error replies\<close>

definition err_stream_id :: answer where
  "err_stream_id = WriteError (bstr ''ERR Invalid stream ID specified as stream command argument'')"

definition err_xadd_top :: answer where
  "err_xadd_top = WriteError (bstr ''ERR The ID specified in XADD is equal or smaller than the target stream top item'')"

section \<open>Trimming\<close>

definition trim_can :: "(DataEffect \<Rightarrow> bytes) \<Rightarrow> bytes \<Rightarrow> RefMode \<Rightarrow> StreamID \<Rightarrow> (bytes, bool) cmd" where
  "trim_can dec key mode sid =
     (if mode \<noteq> RefModeAcked then ok True
      else
        bind_cmd (listGroupNames key) (all_cmd (\<lambda>gName.
          bind_cmd (getGroupSnapshot key gName) (\<lambda>gSnap.
            if Compare sid (fst (getGroupMeta dec gSnap)) > 0 then ok False
            else bind_cmd (getPELSnapshot key gName) (\<lambda>pelSnap. ok (\<not> pending_in sid pelSnap))))))"

definition trim_handle :: "bytes \<Rightarrow> RefMode \<Rightarrow> StreamID \<Rightarrow> (bytes, unit) cmd" where
  "trim_handle key mode sid =
     (if mode \<noteq> RefModeDelRef then ok ()
      else
        bind_cmd (listGroupNames key) (each_cmd (\<lambda>gName.
          bind_cmd (getPELSnapshot key gName) (\<lambda>pelSnap. when_cmd (pending_in sid pelSnap) (emitPELRemove key gName sid)))))"

fun trim_by_minid ::
  "(DataEffect \<Rightarrow> bytes) \<Rightarrow> bytes \<Rightarrow> RefMode \<Rightarrow> StreamID \<Rightarrow> int \<Rightarrow> StreamEntry list \<Rightarrow> nat \<Rightarrow> (bytes, nat) cmd" where
  "trim_by_minid dec key mode minID limit [] n = ok n"
| "trim_by_minid dec key mode minID limit (e # es) n =
     (if int n \<ge> limit then ok n
      else if Compare (se_ID e) minID \<ge> 0 then ok n
      else
        bind_cmd (trim_can dec key mode (se_ID e)) (\<lambda>can.
          if \<not> can then trim_by_minid dec key mode minID limit es n
          else
            seq_cmd (emitStreamRemove key (se_ID e))
             (seq_cmd (trim_handle key mode (se_ID e)) (trim_by_minid dec key mode minID limit es (Suc n)))))"

fun trim_by_len ::
  "(DataEffect \<Rightarrow> bytes) \<Rightarrow> bytes \<Rightarrow> RefMode \<Rightarrow> StreamID option \<Rightarrow> int \<Rightarrow> StreamEntry list \<Rightarrow> nat \<Rightarrow> (bytes, unit) cmd" where
  "trim_by_len dec key mode minID toTrim [] n = ok ()"
| "trim_by_len dec key mode minID toTrim (e # es) n =
     (if int n \<ge> toTrim then ok ()
      else
        bind_cmd (trim_can dec key mode (se_ID e)) (\<lambda>can.
          if \<not> can then trim_by_len dec key mode minID toTrim es n
          else if (case minID of None \<Rightarrow> False | Some m \<Rightarrow> Compare (se_ID e) m < 0)
          then trim_by_len dec key mode minID toTrim es n
          else
            seq_cmd (emitStreamRemove key (se_ID e))
             (seq_cmd (trim_handle key mode (se_ID e)) (trim_by_len dec key mode minID toTrim es (Suc n)))))"

definition trimEntries :: "(DataEffect \<Rightarrow> bytes) \<Rightarrow> bytes \<Rightarrow> StreamEntry list \<Rightarrow> TrimOptions \<Rightarrow> (bytes, unit) cmd" where
  "trimEntries dec key es opts =
     (if es = [] then ok ()
      else
        let limit = sint (trim_limit opts (length es)) in
        bind_cmd
          (case t_MinID opts of
             None \<Rightarrow> ok 0
           | Some minID \<Rightarrow> trim_by_minid dec key (t_RefMode opts) minID limit es 0)
          (\<lambda>trimCount.
             when_cmd (t_HasMaxLen opts)
              (let toTrim = sint (trim_goal opts (length es) trimCount)
               in when_cmd (0 < toTrim) (trim_by_len dec key (t_RefMode opts) (t_MinID opts) toTrim es 0))))"

section \<open>Options\<close>

definition no_trim :: TrimOptions where
  "no_trim = \<lparr>t_MaxLen = 0, t_MinID = None, t_Approx = False, t_Limit = 0, t_NodeSize = 0, t_RefMode = RefModeKeepRef,
     t_HasMaxLen = False, t_HasExplicitLimit = False\<rparr>"

text \<open>After \<^verbatim>\<open>MAXLEN\<close> or \<^verbatim>\<open>MINID\<close>: whether \<^verbatim>\<open>~\<close> is given, and the threshold and what follows it.\<close>

definition parse_threshold :: "bytes list \<Rightarrow> (bool \<times> bytes \<times> bytes list) option" where
  "parse_threshold args =
     (case args of
        [] \<Rightarrow> None
      | a # r \<Rightarrow>
          (case (if a = bstr ''='' then (False, r) else if a = bstr ''~'' then (True, r) else (False, args)) of
             (approx, []) \<Rightarrow> None
           | (approx, t # r') \<Rightarrow> Some (approx, t, r')))"

lemma parse_threshold_length: "parse_threshold args = Some (a, t, r) \<Longrightarrow> length r < length args"
  by (auto simp: parse_threshold_def split: list.splits if_splits)

definition parse_nonneg :: "bytes \<Rightarrow> i64 option" where
  "parse_nonneg s = (case atoi s of None \<Rightarrow> None | Some v \<Rightarrow> if v < 0 then None else Some (word_of_int v))"

definition parse_limit :: "TrimOptions \<Rightarrow> bytes list \<Rightarrow> answer + TrimOptions \<times> bytes list" where
  "parse_limit opts args =
     (case args of
        [] \<Rightarrow> Inr (opts, args)
      | a # r \<Rightarrow>
          if ToUpper a \<noteq> bstr ''LIMIT'' then Inr (opts, args)
          else
            case r of
              [] \<Rightarrow> Inl err_syntax
            | l # r' \<Rightarrow>
                (case parse_nonneg l of
                   None \<Rightarrow> Inl err_int
                 | Some limit \<Rightarrow> Inr (opts\<lparr>t_Limit := limit, t_HasExplicitLimit := True\<rparr>, r')))"

lemma parse_limit_length: "parse_limit opts args = Inr (o', r) \<Longrightarrow> length r \<le> length args"
  by (auto simp: parse_limit_def split: list.splits if_splits option.splits)

definition approx_set :: "bool \<Rightarrow> TrimOptions \<Rightarrow> TrimOptions" where
  "approx_set a opts = (if a then opts\<lparr>t_Approx := True\<rparr> else opts)"

definition parse_maxlen :: "TrimOptions \<Rightarrow> bytes list \<Rightarrow> answer + TrimOptions \<times> bytes list" where
  "parse_maxlen opts args =
     (case parse_threshold args of
        None \<Rightarrow> Inl err_syntax
      | Some (approx, t, r) \<Rightarrow>
          (case parse_nonneg t of
             None \<Rightarrow> Inl err_int
           | Some maxLen \<Rightarrow> Inr ((approx_set approx opts)\<lparr>t_MaxLen := maxLen, t_HasMaxLen := True\<rparr>, r)))"

definition parse_minid :: "TrimOptions \<Rightarrow> bytes list \<Rightarrow> answer + TrimOptions \<times> bytes list" where
  "parse_minid opts args =
     (case parse_threshold args of
        None \<Rightarrow> Inl err_syntax
      | Some (approx, t, r) \<Rightarrow>
          (case ParseStreamID t of
             Inl _ \<Rightarrow> Inl err_stream_id
           | Inr (minID, _, _) \<Rightarrow> Inr ((approx_set approx opts)\<lparr>t_MinID := Some minID\<rparr>, r)))"

lemma parse_maxlen_length: "parse_maxlen opts args = Inr (o', r) \<Longrightarrow> length r < length args"
  by (auto simp: parse_maxlen_def dest: parse_threshold_length split: option.splits prod.splits)

lemma parse_minid_length: "parse_minid opts args = Inr (o', r) \<Longrightarrow> length r < length args"
  by (auto simp: parse_minid_def dest: parse_threshold_length split: option.splits prod.splits sum.splits)

record XAddOpts =
  xa_noMkStream :: bool
  xa_trim :: TrimOptions
  xa_idmpProducer :: bytes
  xa_idmpIID :: bytes
  xa_idmpAuto :: bool
  xa_hasIDMP :: bool

definition no_xadd_opts :: XAddOpts where
  "no_xadd_opts = \<lparr>xa_noMkStream = False, xa_trim = no_trim, xa_idmpProducer = [], xa_idmpIID = [],
     xa_idmpAuto = False, xa_hasIDMP = False\<rparr>"

definition parse_idmp :: "XAddOpts \<Rightarrow> bytes list \<Rightarrow> answer + XAddOpts \<times> bytes list" where
  "parse_idmp opts args =
     (if xa_hasIDMP opts then Inl (WriteError (bstr ''ERR IDMP/IDMPAUTO specified multiple times''))
      else
        case args of
          [] \<Rightarrow> Inl err_syntax
        | p # r \<Rightarrow>
            if p = [] then Inl (WriteError (bstr ''ERR IDMP requires a non-empty producer ID''))
            else
              case r of
                [] \<Rightarrow> Inl err_syntax
              | iid # r' \<Rightarrow>
                  if iid = [] then Inl (WriteError (bstr ''ERR IDMP requires a non-empty idempotent ID''))
                  else Inr (opts\<lparr>xa_hasIDMP := True, xa_idmpProducer := p, xa_idmpIID := iid\<rparr>, r'))"

definition parse_idmpauto :: "XAddOpts \<Rightarrow> bytes list \<Rightarrow> answer + XAddOpts \<times> bytes list" where
  "parse_idmpauto opts args =
     (if xa_hasIDMP opts then Inl (WriteError (bstr ''ERR IDMP/IDMPAUTO specified multiple times''))
      else
        case args of
          [] \<Rightarrow> Inl err_syntax
        | p # r \<Rightarrow>
            if p = [] then Inl (WriteError (bstr ''ERR IDMPAUTO requires a non-empty producer ID''))
            else Inr (opts\<lparr>xa_hasIDMP := True, xa_idmpAuto := True, xa_idmpProducer := p\<rparr>, r))"

lemma parse_idmp_length: "parse_idmp opts args = Inr (o', r) \<Longrightarrow> length r < length args"
  by (auto simp: parse_idmp_def split: list.splits if_splits)

lemma parse_idmpauto_length: "parse_idmpauto opts args = Inr (o', r) \<Longrightarrow> length r < length args"
  by (auto simp: parse_idmpauto_def split: list.splits if_splits)

text \<open>One option; \<open>None\<close> when the argument is not an option, which ends the list of options.\<close>

definition xadd_option :: "XAddOpts \<Rightarrow> bytes \<Rightarrow> bytes list \<Rightarrow> (answer + XAddOpts \<times> bytes list) option" where
  "xadd_option opts a r =
     (let opt = ToUpper a;
          trim = (\<lambda>res. case res of
                     Inl e \<Rightarrow> Inl e
                   | Inr (t, r') \<Rightarrow>
                       (case parse_limit t r' of Inl e \<Rightarrow> Inl e | Inr (t', r'') \<Rightarrow> Inr (opts\<lparr>xa_trim := t'\<rparr>, r'')))
      in if opt = bstr ''NOMKSTREAM'' then Some (Inr (opts\<lparr>xa_noMkStream := True\<rparr>, r))
         else if opt = bstr ''KEEPREF'' then Some (Inr (opts\<lparr>xa_trim := (xa_trim opts)\<lparr>t_RefMode := RefModeKeepRef\<rparr>\<rparr>, r))
         else if opt = bstr ''DELREF'' then Some (Inr (opts\<lparr>xa_trim := (xa_trim opts)\<lparr>t_RefMode := RefModeDelRef\<rparr>\<rparr>, r))
         else if opt = bstr ''ACKED'' then Some (Inr (opts\<lparr>xa_trim := (xa_trim opts)\<lparr>t_RefMode := RefModeAcked\<rparr>\<rparr>, r))
         else if opt = bstr ''IDMP'' then Some (parse_idmp opts r)
         else if opt = bstr ''IDMPAUTO'' then Some (parse_idmpauto opts r)
         else if opt = bstr ''MAXLEN'' then Some (trim (parse_maxlen (xa_trim opts) r))
         else if opt = bstr ''MINID'' then Some (trim (parse_minid (xa_trim opts) r))
         else None)"

lemma xadd_option_length: "xadd_option opts a r = Some (Inr (o', r')) \<Longrightarrow> length r' \<le> length r"
  unfolding xadd_option_def Let_def
  by (auto split: if_splits sum.splits prod.splits
      dest!: parse_idmp_length parse_idmpauto_length parse_maxlen_length parse_minid_length parse_limit_length)

function parse_xadd :: "XAddOpts \<Rightarrow> bytes list \<Rightarrow> answer + XAddOpts \<times> bytes list" where
  "parse_xadd opts [] = Inr (opts, [])"
| "parse_xadd opts (a # r) =
     (case xadd_option opts a r of
        None \<Rightarrow> Inr (opts, a # r)
      | Some (Inl e) \<Rightarrow> Inl e
      | Some (Inr (opts', r')) \<Rightarrow> parse_xadd opts' r')"
  by pat_completeness auto
termination
  by (relation "measure (\<lambda>(_, args). length args)") (auto simp: le_imp_less_Suc dest: xadd_option_length)

section \<open>XADD\<close>

fun fv_pairs :: "bytes list \<Rightarrow> (bytes \<times> bytes) list" where
  "fv_pairs (f # v # r) = (f, v) # fv_pairs r"
| "fv_pairs _ = []"

text \<open>The idempotent ID that \<^verbatim>\<open>IDMPAUTO\<close> derives from the fields, independent of their order.\<close>

definition auto_iid :: "bytes list \<Rightarrow> bytes" where
  "auto_iid remaining =
     hex_EncodeToString (sha256 (concat (map (\<lambda>(f, v). f @ [0] @ v @ [0]) (sort_key fst (fv_pairs remaining)))))"

definition xadd_id :: "(DataEffect \<Rightarrow> bytes) \<Rightarrow> u64 \<Rightarrow> ReducedEffect option \<Rightarrow> bytes \<Rightarrow> answer + StreamID" where
  "xadd_id dec now snap idStr =
     (if idStr = bstr ''*'' then
        let sid = generateStreamID dec now snap in if IsZero sid then Inl err_xadd_top else Inr sid
      else
        case ParseStreamID idStr of
          Inl _ \<Rightarrow> Inl err_stream_id
        | Inr (sid, _, isSpecial) \<Rightarrow>
            if isSpecial then
              if 2 < length idStr \<and> drop (length idStr - 2) idStr = bstr ''-*'' then
                (case generateStreamIDWithMs dec snap (Ms sid) of None \<Rightarrow> Inl err_xadd_top | Some sid' \<Rightarrow> Inr sid')
              else Inl err_stream_id
            else Inr sid)"

text \<open>The writes, once the ID is known.\<close>

definition xadd_write ::
  "(DataEffect \<Rightarrow> bytes) \<Rightarrow> i64 \<Rightarrow> u64 \<Rightarrow> bytes \<Rightarrow> XAddOpts \<Rightarrow> bytes list \<Rightarrow> ReducedEffect option \<Rightarrow> tip list \<Rightarrow> bool \<Rightarrow>
   i64 \<Rightarrow> i64 \<Rightarrow> StreamID \<Rightarrow> (bytes, unit) cmd" where
  "xadd_write dec nodeSize now key opts fs snap tips exists gen maxsize sid =
     seq_cmd (when_cmd (tips \<noteq> []) (emitNoop key tips))
    (seq_cmd (emitStreamInsert key sid fs)
    (seq_cmd (incrementStreamEntriesAdded dec key)
    (seq_cmd (when_cmd (\<not> exists) (emitStreamTypeTag key))
    (seq_cmd
      (when_cmd (xa_hasIDMP opts \<and> xa_idmpIID opts \<noteq> [])
        (seq_cmd (emitProducerSeqWithConfig dec now key (xa_idmpProducer opts) (xa_idmpIID opts) sid gen maxsize)
          (incrementIidsAdded dec key)))
      (when_cmd (t_HasMaxLen (xa_trim opts) \<or> t_MinID (xa_trim opts) \<noteq> None)
        (trimEntries dec key (snapshotToEntries dec snap @ [\<lparr>se_ID = sid, se_Fields = fs\<rparr>])
          ((xa_trim opts)\<lparr>t_NodeSize := nodeSize\<rparr>)))))))"

definition xadd_config :: "(DataEffect \<Rightarrow> bytes) \<Rightarrow> bytes \<Rightarrow> XAddOpts \<Rightarrow> (bytes, i64 \<times> i64 \<times> i64) cmd" where
  "xadd_config dec key opts =
     (if xa_hasIDMP opts then
        bind_cmd (getIdmpGeneration dec key) (\<lambda>gen.
        bind_cmd (getStreamConfig dec key) (\<lambda>(duration, maxsize, explicit).
          ok (gen, if explicit then duration else 0, maxsize)))
      else ok (0, 0, 0))"

definition xadd_body ::
  "(DataEffect \<Rightarrow> bytes) \<Rightarrow> i64 \<Rightarrow> u64 \<Rightarrow> bytes \<Rightarrow> XAddOpts \<Rightarrow> bytes \<Rightarrow> bytes list \<Rightarrow>
   ReducedEffect option \<times> tip list \<times> bool \<times> bool \<Rightarrow> (answer, answer) cmd" where
  "xadd_body dec nodeSize now key opts idStr fs found_stream =
     (case found_stream of (snap, tips, exists, wrongType) \<Rightarrow>
     seq_cmd (guard_cmd (\<not> (exists \<and> wrongType)) WriteWrongType)
    (seq_cmd (guard_cmd (\<not> (xa_noMkStream opts \<and> \<not> exists)) WriteNullBulkString)
    (bind_cmd (or_reply (xadd_config dec key opts)) (\<lambda>(gen, duration, maxsize).
     bind_cmd
       (if xa_hasIDMP opts \<and> xa_idmpIID opts \<noteq> [] \<and> exists
        then or_reply (lookupProducerSeqWithConfig dec now key (xa_idmpProducer opts) (xa_idmpIID opts) gen duration)
        else ok None) (\<lambda>found.
       case found of
         Some existingID \<Rightarrow>
           seq_cmd (or_reply (incrementIidsDuplicates dec key)) (ok (WriteBulkStringStr (StreamID_String existingID)))
       | None \<Rightarrow>
           let lastID = fst (streamMetadata dec snap);
               lastID = (if IsZero lastID \<and> exists then streamLastID (snapshotToEntries dec snap) else lastID)
           in case xadd_id dec now snap idStr of
                Inl a \<Rightarrow> stop a
              | Inr sid \<Rightarrow>
                  seq_cmd (guard_cmd (\<not> Compare sid lastID \<le> 0) err_xadd_top)
                 (seq_cmd (guard_cmd (\<not> IsZero sid) (WriteError (bstr ''ERR The ID specified in XADD must be greater than 0-0'')))
                 (seq_cmd (or_reply (xadd_write dec nodeSize now key opts fs snap tips exists gen maxsize sid))
                   (ok (WriteBulkStringStr (StreamID_String sid))))))))))"

definition xadd_command ::
  "(DataEffect \<Rightarrow> bytes) \<Rightarrow> i64 \<Rightarrow> u64 \<Rightarrow> bytes \<Rightarrow> XAddOpts \<Rightarrow> bytes \<Rightarrow> bytes list \<Rightarrow> (answer, answer) cmd" where
  "xadd_command dec nodeSize now key opts idStr fs =
     bind_cmd (or_reply (getStreamSnapshot key)) (xadd_body dec nodeSize now key opts idStr fs)"

definition handleXAdd :: "(DataEffect \<Rightarrow> bytes) \<Rightarrow> i64 \<Rightarrow> u64 \<Rightarrow> bytes list \<Rightarrow> Writer \<Rightarrow> handler_result" where
  "handleXAdd dec nodeSize now args w =
     (case args of
        key # r \<Rightarrow>
          if length args < 4 then reject [] (WriteWrongNumArguments (bstr ''xadd'') w)
          else
            (case parse_xadd no_xadd_opts r of
               Inl a \<Rightarrow> reject [key] (a w)
             | Inr (opts, []) \<Rightarrow> reject [key] (err_syntax w)
             | Inr (opts, idStr # remaining) \<Rightarrow>
                 if xa_hasIDMP opts \<and> idStr \<noteq> bstr ''*'' then
                   (case ParseStreamID idStr of
                      Inl _ \<Rightarrow> reject [key] (err_stream_id w)
                    | Inr _ \<Rightarrow> reject [key] (WriteError (bstr ''ERR IDMP/IDMPAUTO can be used only with auto-generated IDs'') w))
                 else if remaining = [] \<or> length remaining mod 2 \<noteq> 0 then
                   reject [key] (WriteWrongNumArguments (bstr ''xadd'') w)
                 else
                   let opts = (if xa_idmpAuto opts then opts\<lparr>xa_idmpIID := auto_iid remaining\<rparr> else opts)
                   in accept [key] w (run_with_savepoint (xadd_command dec nodeSize now key opts idStr remaining)))
      | [] \<Rightarrow> reject [] (WriteWrongNumArguments (bstr ''xadd'') w))"

end
