(* ===== verification/Stream_Read.thy ===== *)
theory Stream_Read
  imports Stream_Add Float64
begin

text \<open>
  Reading streams: \<^verbatim>\<open>XLEN\<close>, \<^verbatim>\<open>XRANGE\<close>, \<^verbatim>\<open>XREVRANGE\<close> and \<^verbatim>\<open>XREAD\<close> of \<^verbatim>\<open>redis/stream/handlers.go\<close>.
  \<open>parse_float\<close> is \<^verbatim>\<open>strconv.ParseFloat\<close>. What a blocked \<^verbatim>\<open>XREAD\<close> sees over time is a list of wake-ups.
\<close>

section \<open>Replies\<close>

definition writeStreamEntry :: "StreamEntry \<Rightarrow> answer" where
  "writeStreamEntry e w =
     write_all WriteBulkString (se_Fields e)
       (WriteArray (of_nat (length (se_Fields e))) (WriteBulkStringStr (StreamID_String (se_ID e)) (WriteArray 2 w)))"

definition writeStreamEntries :: "StreamEntry list \<Rightarrow> answer" where
  "writeStreamEntries es w = write_all writeStreamEntry es (WriteArray (of_nat (length es)) w)"

type_synonym streamResult = "bytes \<times> StreamEntry list"

definition writeXReadResults :: "streamResult list \<Rightarrow> answer" where
  "writeXReadResults rs w =
     write_all (\<lambda>(key, es) w. writeStreamEntries es (WriteBulkStringStr key (WriteArray 2 w))) rs
       (WriteArray (of_nat (length rs)) w)"

text \<open>Reading an existing stream: a missing key and another type have their own replies.\<close>

definition with_stream ::
  "bytes \<Rightarrow> answer \<Rightarrow> (ReducedEffect option \<Rightarrow> tip list \<Rightarrow> (answer, answer) cmd) \<Rightarrow> (answer, answer) cmd" where
  "with_stream key missing f =
     bind_cmd (or_reply (getStreamSnapshot key)) (\<lambda>(snap, tips, exists, wrongType).
       seq_cmd (guard_cmd exists missing) (seq_cmd (guard_cmd (\<not> wrongType) WriteWrongType) (f snap tips)))"

section \<open>XLEN, XRANGE, XREVRANGE\<close>

definition handleXLen :: "bytes list \<Rightarrow> Writer \<Rightarrow> handler_result" where
  "handleXLen args w =
     (case args of
        [key] \<Rightarrow>
          accept [key] w (run_cmd (with_stream key (WriteInteger 0) (\<lambda>snap _. ok (WriteInteger (of_nat (streamLen snap))))))
      | _ \<Rightarrow> reject [] (WriteWrongNumArguments (bstr ''xlen'') w))"

text \<open>The optional \<^verbatim>\<open>COUNT\<close> after the first three arguments; a fourth argument alone is ignored.\<close>

definition parse_count :: "bytes list \<Rightarrow> answer + int" where
  "parse_count opts =
     (case opts of
        o1 # o2 # _ \<Rightarrow>
          if ToUpper o1 = bstr ''COUNT'' then
            (case atoi o2 of None \<Rightarrow> Inl err_int | Some c \<Rightarrow> if c < 0 then Inl err_int else Inr c)
          else Inl err_syntax
      | _ \<Rightarrow> Inr 0)"

definition range_handler ::
  "(StreamEntry list \<Rightarrow> StreamID \<Rightarrow> StreamID \<Rightarrow> bool \<Rightarrow> bool \<Rightarrow> int \<Rightarrow> StreamEntry list) \<Rightarrow> (DataEffect \<Rightarrow> bytes) \<Rightarrow>
   bytes \<Rightarrow> bytes \<Rightarrow> bytes \<Rightarrow> bytes list \<Rightarrow> Writer \<Rightarrow> handler_result" where
  "range_handler ranger dec key startStr endStr opts w =
     (case parse_count opts of
        Inl a \<Rightarrow> reject [key] (a w)
      | Inr count \<Rightarrow>
          (case (ParseStreamIDForRange startStr False, ParseStreamIDForRange endStr True) of
             (Inr (start, startExcl), Inr (fin, endExcl)) \<Rightarrow>
               accept [key] w (run_cmd (with_stream key (WriteArray 0) (\<lambda>snap _.
                 ok (writeStreamEntries (ranger (snapshotToEntries dec snap) start fin startExcl endExcl count)))))
           | _ \<Rightarrow> reject [key] (err_stream_id w)))"

definition handleXRange :: "(DataEffect \<Rightarrow> bytes) \<Rightarrow> bytes list \<Rightarrow> Writer \<Rightarrow> handler_result" where
  "handleXRange dec args w =
     (case args of
        key # startStr # endStr # opts \<Rightarrow> range_handler rangeEntries dec key startStr endStr opts w
      | _ \<Rightarrow> reject [] (WriteWrongNumArguments (bstr ''xrange'') w))"

definition handleXRevRange :: "(DataEffect \<Rightarrow> bytes) \<Rightarrow> bytes list \<Rightarrow> Writer \<Rightarrow> handler_result" where
  "handleXRevRange dec args w =
     (case args of
        key # endStr # startStr # opts \<Rightarrow> range_handler rangeEntriesReverse dec key startStr endStr opts w
      | _ \<Rightarrow> reject [] (WriteWrongNumArguments (bstr ''xrevrange'') w))"

section \<open>XREAD\<close>

text \<open>Where reading a stream starts: after its last ID, at its last entry, or after an ID.\<close>

datatype ReadFrom = UseLastID | UseLastEntry | After StreamID

definition parse_read_from :: "bytes \<Rightarrow> ReadFrom option" where
  "parse_read_from idStr =
     (if idStr = bstr ''$'' then Some UseLastID
      else if idStr = bstr ''+'' then Some UseLastEntry
      else
        case ParseStreamID idStr of
          Inl _ \<Rightarrow> None
        | Inr (sid, _, isSpecial) \<Rightarrow> if isSpecial \<and> idStr \<noteq> bstr ''-'' then None else Some (After sid))"

text \<open>The options before \<^verbatim>\<open>STREAMS\<close>: the count and whether to block. \<open>check\<close> is what is required of the block time.\<close>

fun parse_xread :: "(bytes \<Rightarrow> bool) \<Rightarrow> int \<times> bool \<Rightarrow> bytes list \<Rightarrow> answer + int \<times> bool \<times> bytes list" where
  "parse_xread check (count, block) [] = Inl err_syntax"
| "parse_xread check (count, block) (a # r) =
     (let opt = ToUpper a in
      if opt = bstr ''COUNT'' then
        (case r of
           [] \<Rightarrow> Inl err_syntax
         | v # r' \<Rightarrow>
             (case atoi v of
                None \<Rightarrow> Inl err_int
              | Some c \<Rightarrow> if c < 0 then Inl err_int else parse_xread check (c, block) r'))
      else if opt = bstr ''BLOCK'' then
        (case r of [] \<Rightarrow> Inl err_syntax | v # r' \<Rightarrow> if check v then parse_xread check (count, True) r' else Inl err_int)
      else if opt = bstr ''STREAMS'' then Inr (count, block, r)
      else if opt = bstr ''CLAIM'' then
        Inl (WriteError (bstr ''ERR The CLAIM option is only supported when using the GROUP option''))
      else Inl err_syntax)"

definition parse_xread_streams :: "bytes list \<Rightarrow> answer + (bytes \<times> ReadFrom) list" where
  "parse_xread_streams remaining =
     (if length remaining < 2 \<or> length remaining mod 2 \<noteq> 0 then
        Inl (WriteError (bstr ''ERR Unbalanced '' @ [39] @ bstr ''xread'' @ [39] @
          bstr '' list of streams: for each stream key an ID, '' @ [39] @ bstr ''+'' @ [39] @ bstr '', or '' @ [39] @ bstr ''$'' @
          [39] @ bstr '' must be specified.''))
      else
        let n = length remaining div 2 in
        case parse_all parse_read_from (drop n remaining) of
          None \<Rightarrow> Inl err_stream_id
        | Some froms \<Rightarrow> Inr (zip (take n remaining) froms))"

definition last_seen :: "(DataEffect \<Rightarrow> bytes) \<Rightarrow> ReducedEffect option \<Rightarrow> StreamID" where
  "last_seen dec snap =
     (let (lastID, _, _, found) = streamMetadata dec snap
      in if found then lastID else streamLastID (snapshotToEntries dec snap))"

definition read_stream ::
  "(DataEffect \<Rightarrow> bytes) \<Rightarrow> int \<Rightarrow> bytes \<times> ReadFrom \<Rightarrow> streamResult list \<Rightarrow> (bytes, streamResult list) cmd" where
  "read_stream dec count kf results =
     (case kf of (sKey, from) \<Rightarrow>
        bind_cmd (getStreamSnapshot sKey) (\<lambda>(snap, _, exists, wrongType).
          if \<not> exists \<or> wrongType then ok results
          else
            let es = snapshotToEntries dec snap in
            case from of
              UseLastEntry \<Rightarrow> ok (if es \<noteq> [] then results @ [(sKey, [last es])] else results)
            | _ \<Rightarrow>
                let startID = (case from of After sid \<Rightarrow> sid | _ \<Rightarrow> last_seen dec snap);
                    filtered = rangeEntries es startID MaxStreamID True False count
                in ok (if filtered \<noteq> [] then results @ [(sKey, filtered)] else results)))"

definition tryReadStreams ::
  "(DataEffect \<Rightarrow> bytes) \<Rightarrow> int \<Rightarrow> (bytes \<times> ReadFrom) list \<Rightarrow> (bytes, streamResult list) cmd" where
  "tryReadStreams dec count kfs = fold_cmd (read_stream dec count) kfs []"

definition xread_now :: "(DataEffect \<Rightarrow> bytes) \<Rightarrow> int \<Rightarrow> (bytes \<times> ReadFrom) list \<Rightarrow> (answer, answer) cmd" where
  "xread_now dec count kfs =
     bind_cmd (or_reply (tryReadStreams dec count kfs)) (\<lambda>results.
       ok (if results = [] then WriteNullArray else writeXReadResults results))"

definition handleXReadNonBlocking ::
  "(DataEffect \<Rightarrow> bytes) \<Rightarrow> (bytes \<Rightarrow> f64 option) \<Rightarrow> bytes list \<Rightarrow> Writer \<Rightarrow> handler_result" where
  "handleXReadNonBlocking dec parse_float args w =
     (if length args < 3 then reject [] (WriteWrongNumArguments (bstr ''xread'') w)
      else
        case parse_xread (\<lambda>v. parse_float v \<noteq> None) (0, False) args of
          Inl a \<Rightarrow> reject [] (a w)
        | Inr (count, _, remaining) \<Rightarrow>
            (case parse_xread_streams remaining of
               Inl a \<Rightarrow> reject [] (a w)
             | Inr kfs \<Rightarrow> accept (map fst kfs) w (run_cmd (xread_now dec count kfs))))"

text \<open>Resolving \<^verbatim>\<open>$\<close> before blocking.\<close>

definition resolve_from :: "(DataEffect \<Rightarrow> bytes) \<Rightarrow> bytes \<times> ReadFrom \<Rightarrow> (bytes \<times> ReadFrom) list \<Rightarrow> (bytes, (bytes \<times> ReadFrom) list) cmd" where
  "resolve_from dec kf acc =
     (case kf of
        (sKey, UseLastID) \<Rightarrow>
          bind_cmd (getStreamSnapshot sKey) (\<lambda>(snap, _, exists, _).
            ok (acc @ [(sKey, After (if exists then last_seen dec snap else MinStreamID))]))
      | _ \<Rightarrow> ok (acc @ [kf]))"

text \<open>The blocking loop; \<open>None\<close> while it is still waiting after the wake-ups it has seen.\<close>

fun xread_wait :: "(DataEffect \<Rightarrow> bytes) \<Rightarrow> int \<Rightarrow> (bytes \<times> ReadFrom) list \<Rightarrow> wake list \<Rightarrow> Context \<Rightarrow> answer option" where
  "xread_wait dec count kfs wakes c =
     (case fst (tryReadStreams dec count kfs c) of
        Inl err \<Rightarrow> Some (WriteError err)
      | Inr results \<Rightarrow>
          if results \<noteq> [] then Some (writeXReadResults results)
          else
            case wakes of
              [] \<Rightarrow> None
            | Woken f # ws \<Rightarrow> xread_wait dec count kfs ws (c\<lparr>c_snapshot := f\<rparr>)
            | WaitFailed unblocked # _ \<Rightarrow>
                Some (if unblocked then WriteError (bstr ''UNBLOCKED client unblocked via CLIENT UNBLOCK'') else WriteNullArray))"

declare xread_wait.simps [simp del]

definition handleXRead ::
  "(DataEffect \<Rightarrow> bytes) \<Rightarrow> (bytes \<Rightarrow> f64 option) \<Rightarrow> bool \<Rightarrow> bytes list \<Rightarrow> wake list \<Rightarrow> Context \<Rightarrow> Writer \<Rightarrow> Writer option" where
  "handleXRead dec parse_float inScript args wakes c w =
     (if inScript then Some (h_writer (handleXReadNonBlocking dec parse_float args w))
      else if length args < 3 then Some (WriteWrongNumArguments (bstr ''xread'') w)
      else
        case parse_xread (\<lambda>v. case parse_float v of None \<Rightarrow> False | Some b \<Rightarrow> \<not> f64_lt b 0) (0, False) args of
          Inl a \<Rightarrow> Some (a w)
        | Inr (count, block, remaining) \<Rightarrow>
            (case parse_xread_streams remaining of
               Inl a \<Rightarrow> Some (a w)
             | Inr kfs \<Rightarrow>
                 if \<not> block then
                   Some (case fst (xread_now dec count kfs c) of Inl a \<Rightarrow> a w | Inr a \<Rightarrow> a w)
                 else
                   case fst (fold_cmd (resolve_from dec) kfs [] c) of
                     Inl err \<Rightarrow> Some (WriteError err w)
                   | Inr kfs' \<Rightarrow> map_option (\<lambda>a. a w) (xread_wait dec count kfs' wakes c)))"

end
