(* ===== verification/Stream_Delete.thy ===== *)
theory Stream_Delete
  imports Stream_Read
begin

text \<open>
  Removing entries: \<^verbatim>\<open>XDEL\<close>, \<^verbatim>\<open>XTRIM\<close> and \<^verbatim>\<open>XDELEX\<close> of \<^verbatim>\<open>redis/stream/handlers.go\<close>. The index of a
  stream value is an external trie that enumerates its keys in ascending order.
\<close>

section \<open>XDEL\<close>

definition parse_plain_id :: "bytes \<Rightarrow> StreamID option" where
  "parse_plain_id s =
     (case ParseStreamID s of Inl _ \<Rightarrow> None | Inr (sid, _, isSpecial) \<Rightarrow> if isSpecial then None else Some sid)"

definition has_entry :: "StreamEntry list \<Rightarrow> StreamID \<Rightarrow> bool" where
  "has_entry es sid \<longleftrightarrow> encodeStreamElementID sid \<in> set (map (\<lambda>e. encodeStreamElementID (se_ID e)) es)"

definition xdel_command :: "(DataEffect \<Rightarrow> bytes) \<Rightarrow> bytes \<Rightarrow> StreamID list \<Rightarrow> (answer, answer) cmd" where
  "xdel_command dec key ids =
     with_stream key (WriteInteger 0) (\<lambda>snap tips.
       let toDelete = filter (has_entry (snapshotToEntries dec snap)) ids in
       if toDelete = [] then ok (WriteInteger 0)
       else
         seq_cmd
           (or_reply
             (seq_cmd (emitNoop key tips)
               (each_cmd (\<lambda>sid. seq_cmd (emitStreamRemove key sid) (emitStreamRemove key sid)) toDelete)))
           (ok (WriteInteger (of_nat (length toDelete)))))"

definition handleXDel :: "(DataEffect \<Rightarrow> bytes) \<Rightarrow> bytes list \<Rightarrow> Writer \<Rightarrow> handler_result" where
  "handleXDel dec args w =
     (case args of
        key # i1 # is \<Rightarrow>
          (case parse_all parse_plain_id (i1 # is) of
             None \<Rightarrow> reject [key] (err_stream_id w)
           | Some ids \<Rightarrow> accept [key] w (run_cmd (xdel_command dec key ids)))
      | _ \<Rightarrow> reject [] (WriteWrongNumArguments (bstr ''xdel'') w))"

section \<open>XTRIM\<close>

definition entriesToStreamValue :: "(DataEffect \<Rightarrow> bytes) \<Rightarrow> StreamEntry list \<Rightarrow> ReducedEffect option \<Rightarrow> StreamValue" where
  "entriesToStreamValue dec es snap =
     (let (lastID, entriesAdded, maxDeletedID, _) = streamMetadata dec snap;
          sv = NewStreamValue\<lparr>sv_LastID := lastID, sv_EntriesAdded := entriesAdded, sv_MaxDeletedID := maxDeletedID\<rparr>;
          sv = foldl (\<lambda>sv e. sv\<lparr>sv_Entries := (sv_Entries sv)(Key (se_ID e) \<mapsto> e),
                                sv_Index := insort_insert (Key (se_ID e)) (sv_Index sv)\<rparr>) sv es
      in if es \<noteq> [] then sv\<lparr>sv_FirstID := se_ID (hd es)\<rparr> else sv)"

text \<open>The pending entries of a group: the consumer is read from the 24th byte of the record on.\<close>

definition load_pending :: "(DataEffect \<Rightarrow> bytes) \<Rightarrow> ReducedEffect option \<Rightarrow> StreamID \<rightharpoonup> PendingEntry" where
  "load_pending dec pelSnap =
     foldl (\<lambda>m (elemID, el).
        let raw = dec (el_Data el); sid = decodeStreamElementID elemID in
        if length elemID = 16 \<and> 24 \<le> length raw
        then m(sid \<mapsto> \<lparr>pe_ID = sid, pe_Consumer = drop 24 raw, pe_DeliveryTime = 0, pe_DeliveryCount = 0\<rparr>)
        else m) Map.empty (net_adds pelSnap)"

definition load_group :: "(DataEffect \<Rightarrow> bytes) \<Rightarrow> bytes \<Rightarrow> bytes \<Rightarrow> (bytes, ConsumerGroup) cmd" where
  "load_group dec key gName =
     bind_cmd (getGroupSnapshot key gName) (\<lambda>gSnap.
     bind_cmd (getPELSnapshot key gName) (\<lambda>pelSnap.
       let (lastDelivered, entriesRead, _) = getGroupMeta dec gSnap in
       ok \<lparr>cg_Name = gName, cg_LastDeliveredID = lastDelivered, cg_EntriesRead = entriesRead,
           cg_Pending = load_pending dec pelSnap, cg_Consumers = Map.empty, cg_MaxPending = 0, cg_CreatedAt = 0\<rparr>))"

definition populateStreamGroups :: "(DataEffect \<Rightarrow> bytes) \<Rightarrow> bytes \<Rightarrow> StreamValue \<Rightarrow> (bytes, StreamValue) cmd" where
  "populateStreamGroups dec key sv =
     bind_cmd (listGroupNames key) (\<lambda>groupNames.
       fold_cmd (\<lambda>gName sv. bind_cmd (load_group dec key gName) (\<lambda>g. ok (sv\<lparr>sv_Groups := sv_Groups sv @ [(gName, g)]\<rparr>)))
         groupNames sv)"

definition parse_refmode :: "bytes \<Rightarrow> RefMode option" where
  "parse_refmode a =
     (let opt = ToUpper a in
      if opt = bstr ''KEEPREF'' then Some RefModeKeepRef
      else if opt = bstr ''DELREF'' then Some RefModeDelRef
      else if opt = bstr ''ACKED'' then Some RefModeAcked
      else None)"

text \<open>\<^verbatim>\<open>XTRIM\<close> allows a limit only with \<^verbatim>\<open>~\<close>.\<close>

definition parse_xtrim_limit :: "TrimOptions \<Rightarrow> bytes list \<Rightarrow> answer + TrimOptions \<times> bytes list" where
  "parse_xtrim_limit opts args =
     (case args of
        a # r \<Rightarrow>
          if ToUpper a = bstr ''LIMIT'' \<and> r \<noteq> [] \<and> \<not> t_Approx opts
          then Inl (WriteError (bstr ''ERR syntax error, LIMIT cannot be used without the special ~ option''))
          else parse_limit opts args
      | [] \<Rightarrow> Inr (opts, []))"

definition parse_xtrim :: "bytes list \<Rightarrow> answer + TrimOptions" where
  "parse_xtrim args =
     (let strategy = ToUpper (hd args);
          start = (if strategy = bstr ''MAXLEN'' then parse_maxlen no_trim (tl args)
                   else if strategy = bstr ''MINID'' then parse_minid no_trim (tl args)
                   else Inl (WriteError (bstr ''ERR syntax error, MAXLEN or MINID must be specified'')))
      in case start of
           Inl a \<Rightarrow> Inl a
         | Inr (opts, r) \<Rightarrow>
             (case parse_xtrim_limit opts r of
                Inl a \<Rightarrow> Inl a
              | Inr (opts, []) \<Rightarrow> Inr opts
              | Inr (opts, m # r') \<Rightarrow>
                  (case parse_refmode m of
                     None \<Rightarrow> Inl err_syntax
                   | Some mode \<Rightarrow> if r' \<noteq> [] then Inl err_syntax else Inr (opts\<lparr>t_RefMode := mode\<rparr>))))"

definition xtrim_effects :: "bytes \<Rightarrow> RefMode \<Rightarrow> StreamEntry list \<Rightarrow> bytes list \<Rightarrow> (bytes, unit) cmd" where
  "xtrim_effects key mode es remaining =
     (let gone = filter (\<lambda>e. Key (se_ID e) \<notin> set remaining) es in
      seq_cmd (each_cmd (\<lambda>e. emitStreamRemove key (se_ID e)) gone)
        (when_cmd (mode = RefModeDelRef)
          (bind_cmd (listGroupNames key) (each_cmd (\<lambda>gName.
            bind_cmd (getPELSnapshot key gName) (\<lambda>pelSnap.
              each_cmd (\<lambda>e. when_cmd (pending_in (se_ID e) pelSnap) (emitPELRemove key gName (se_ID e))) gone))))))"

definition xtrim_command :: "(DataEffect \<Rightarrow> bytes) \<Rightarrow> i64 \<Rightarrow> bytes \<Rightarrow> TrimOptions \<Rightarrow> (answer, answer) cmd" where
  "xtrim_command dec nodeSize key opts =
     with_stream key (WriteInteger 0) (\<lambda>snap tips.
       let es = snapshotToEntries dec snap; opts = opts\<lparr>t_NodeSize := nodeSize\<rparr>;
           sv = entriesToStreamValue dec es snap
       in seq_cmd (or_reply (emitNoop key tips))
         (bind_cmd
           (if t_RefMode opts = RefModeAcked \<or> t_RefMode opts = RefModeDelRef
            then or_reply (populateStreamGroups dec key sv) else ok sv) (\<lambda>sv.
           let (trimmed, sv') = Trim opts sv in
           seq_cmd
             (when_cmd (0 < sint trimmed)
               (or_reply (xtrim_effects key (t_RefMode opts) es (map (\<lambda>e. Key (se_ID e)) (ForEach sv')))))
             (ok (WriteInteger trimmed)))))"

definition handleXTrim :: "(DataEffect \<Rightarrow> bytes) \<Rightarrow> i64 \<Rightarrow> bytes list \<Rightarrow> Writer \<Rightarrow> handler_result" where
  "handleXTrim dec nodeSize args w =
     (case args of
        key # a1 # a2 # r \<Rightarrow>
          (case parse_xtrim (a1 # a2 # r) of
             Inl a \<Rightarrow> reject [key] (a w)
           | Inr opts \<Rightarrow> accept [key] w (run_with_savepoint (xtrim_command dec nodeSize key opts)))
      | _ \<Rightarrow> reject [] (WriteWrongNumArguments (bstr ''xtrim'') w))"

section \<open>XDELEX\<close>

definition delete_one :: "(DataEffect \<Rightarrow> bytes) \<Rightarrow> bytes \<Rightarrow> RefMode \<Rightarrow> StreamEntry list \<Rightarrow> StreamID \<Rightarrow> int list \<Rightarrow> (bytes, int list) cmd" where
  "delete_one dec key mode es sid results =
     (if \<not> has_entry es sid then ok (results @ [- 1])
      else
        bind_cmd (trim_can dec key mode sid) (\<lambda>can.
          if \<not> can then ok (results @ [2])
          else
            seq_cmd (emitStreamRemove key sid)
              (seq_cmd (trim_handle key mode sid) (ok (results @ [1])))))"

definition write_id_results :: "int list \<Rightarrow> answer" where
  "write_id_results rs w = write_all (\<lambda>r. WriteInteger (word_of_int r)) rs (WriteArray (of_nat (length rs)) w)"

definition xdelex_command :: "(DataEffect \<Rightarrow> bytes) \<Rightarrow> bytes \<Rightarrow> RefMode \<Rightarrow> StreamID list \<Rightarrow> (answer, answer) cmd" where
  "xdelex_command dec key mode ids =
     with_stream key (write_id_results (replicate (length ids) (- 1))) (\<lambda>snap tips.
       seq_cmd (or_reply (emitNoop key tips))
         (bind_cmd (or_reply (fold_cmd (delete_one dec key mode (snapshotToEntries dec snap)) ids []))
           (\<lambda>results. ok (write_id_results results))))"

text \<open>The arguments from the reference mode on, which \<^verbatim>\<open>XACKDEL\<close> has too, after \<open>before\<close> other arguments.\<close>

definition parse_ids_args :: "nat \<Rightarrow> bytes list \<Rightarrow> answer + RefMode \<times> StreamID list" where
  "parse_ids_args before args =
     (let (bad, mode, r) =
            (case parse_refmode (hd args) of
               Some mode \<Rightarrow> (False, mode, tl args)
             | None \<Rightarrow> (ToUpper (hd args) \<noteq> bstr ''IDS'', RefModeKeepRef, args))
      in if bad then Inl err_syntax
         else
           case r of
             a # n # ids \<Rightarrow>
               if ToUpper a \<noteq> bstr ''IDS'' then Inl err_syntax
               else
                 (case atoi n of
                    None \<Rightarrow> Inl (WriteError (bstr ''ERR Number of IDs must be a positive integer''))
                  | Some numIds \<Rightarrow>
                      let len = int (length args + before); total = sint (word_of_int (len - int (length ids) + numIds) :: i64) in
                      if numIds < 1 then Inl (WriteError (bstr ''ERR Number of IDs must be a positive integer''))
                      else if total > len then
                        Inl (WriteError (bstr ''ERR The `numids` parameter must match the number of arguments''))
                      else if total \<noteq> len then Inl err_syntax
                      else
                        case parse_all parse_plain_id ids of
                          None \<Rightarrow> Inl err_stream_id
                        | Some sids \<Rightarrow> Inr (mode, sids))
           | _ \<Rightarrow> Inl err_syntax)"

definition handleXDelEx :: "(DataEffect \<Rightarrow> bytes) \<Rightarrow> bytes list \<Rightarrow> Writer \<Rightarrow> handler_result" where
  "handleXDelEx dec args w =
     (case args of
        key # r \<Rightarrow>
          if length args < 4 then reject [] (WriteWrongNumArguments (bstr ''xdelex'') w)
          else
            (case parse_ids_args 1 r of
               Inl a \<Rightarrow> reject [key] (a w)
             | Inr (mode, ids) \<Rightarrow> accept [key] w (run_with_savepoint (xdelex_command dec key mode ids)))
      | [] \<Rightarrow> reject [] (WriteWrongNumArguments (bstr ''xdelex'') w))"

end
