(* ===== verification/Stream_Admin.thy ===== *)
theory Stream_Admin
  imports Stream_Delete
begin

text \<open>\<^verbatim>\<open>XSETID\<close>, \<^verbatim>\<open>XIDMPRECORD\<close> and \<^verbatim>\<open>XCFGSET\<close> of \<^verbatim>\<open>redis/stream/handlers.go\<close>.\<close>

section \<open>XSETID\<close>

fun parse_xsetid :: "i64 option \<times> StreamID option \<Rightarrow> bytes list \<Rightarrow> answer + i64 option \<times> StreamID option" where
  "parse_xsetid acc [] = Inr acc"
| "parse_xsetid (added, maxdel) (a # r) =
     (let opt = ToUpper a in
      if opt = bstr ''ENTRIESADDED'' then
        (case r of
           [] \<Rightarrow> Inl err_syntax
         | v # r' \<Rightarrow>
             (case atoi v of
                None \<Rightarrow> Inl err_int
              | Some ea \<Rightarrow>
                  if ea < 0 then Inl (WriteError (bstr ''ERR entries_added must be positive''))
                  else parse_xsetid (Some (word_of_int ea), maxdel) r'))
      else if opt = bstr ''MAXDELETEDID'' then
        (case r of
           [] \<Rightarrow> Inl err_syntax
         | v # r' \<Rightarrow>
             (case parse_plain_id v of
                None \<Rightarrow> Inl err_stream_id
              | Some sid \<Rightarrow> parse_xsetid (added, Some sid) r'))
      else Inl err_syntax)"

text \<open>An entry that is inserted and removed twice, which leaves its ID among the removed ones.\<close>

definition emit_sentinel :: "bytes \<Rightarrow> StreamID \<Rightarrow> (bytes, unit) cmd" where
  "emit_sentinel key sid =
     seq_cmd (emitStreamInsert key sid []) (seq_cmd (emitStreamRemove key sid) (emitStreamRemove key sid))"

definition xsetid_command ::
  "(DataEffect \<Rightarrow> bytes) \<Rightarrow> bytes \<Rightarrow> StreamID \<Rightarrow> i64 option \<Rightarrow> StreamID option \<Rightarrow> (answer, answer) cmd" where
  "xsetid_command dec key lastID added maxdel =
     with_stream key (WriteError (bstr ''ERR no such key'')) (\<lambda>snap tips.
       let (curLastID, _, curMaxDeletedID, _) = streamMetadata dec snap;
           es = snapshotToEntries dec snap;
           curLastID = (if IsZero curLastID then streamLastID es else curLastID)
       in seq_cmd (guard_cmd (\<not> Compare lastID curMaxDeletedID < 0)
                     (WriteError (bstr ''ERR The ID specified in XSETID is smaller than current max_deleted_entry_id'')))
         (seq_cmd (guard_cmd (case maxdel of None \<Rightarrow> True | Some m \<Rightarrow> \<not> Compare m lastID > 0)
                     (WriteError (bstr ''ERR The ID specified in XSETID is smaller than the provided max_deleted_entry_id'')))
         (seq_cmd (guard_cmd (es = [] \<or> \<not> Compare lastID (se_ID (last es)) < 0)
                     (WriteError (bstr ''ERR The ID specified in XSETID is smaller than the target stream top item'')))
         (seq_cmd (guard_cmd (es = [] \<or> (case added of None \<Rightarrow> True | Some n \<Rightarrow> \<not> int (length es) > sint n))
                     (WriteError (bstr ''ERR The entries_added specified in XSETID is smaller than the target stream length'')))
         (seq_cmd
           (or_reply
             (seq_cmd (when_cmd (tips \<noteq> []) (emitNoop key tips))
             (seq_cmd (when_cmd (Compare lastID curLastID > 0) (emit_sentinel key lastID))
             (seq_cmd
               (case maxdel of
                  None \<Rightarrow> ok ()
                | Some m \<Rightarrow> when_cmd (Compare m curMaxDeletedID > 0) (emit_sentinel key m))
               (case added of None \<Rightarrow> ok () | Some n \<Rightarrow> setStreamEntriesAdded key n)))))
           (ok WriteOK))))))"

definition handleXSetId :: "(DataEffect \<Rightarrow> bytes) \<Rightarrow> bytes list \<Rightarrow> Writer \<Rightarrow> handler_result" where
  "handleXSetId dec args w =
     (case args of
        key # lastIDStr # r \<Rightarrow>
          (case parse_plain_id lastIDStr of
             None \<Rightarrow> reject [key] (err_stream_id w)
           | Some lastID \<Rightarrow>
               (case parse_xsetid (None, None) r of
                  Inl a \<Rightarrow> reject [key] (a w)
                | Inr (added, maxdel) \<Rightarrow> accept [key] w (run_cmd (xsetid_command dec key lastID added maxdel))))
      | _ \<Rightarrow> reject [] (WriteWrongNumArguments (bstr ''xsetid'') w))"

section \<open>XIDMPRECORD\<close>

definition xidmprecord_command ::
  "(DataEffect \<Rightarrow> bytes) \<Rightarrow> u64 \<Rightarrow> bytes \<Rightarrow> bytes \<Rightarrow> bytes \<Rightarrow> StreamID \<Rightarrow> (answer, answer) cmd" where
  "xidmprecord_command dec now key producer iid sid =
     with_stream key (WriteError (bstr ''ERR no such key'')) (\<lambda>snap _.
       seq_cmd (guard_cmd (list_ex (\<lambda>e. Compare (se_ID e) sid = 0) (snapshotToEntries dec snap))
                 (WriteError (bstr ''ERR No such message in stream'')))
       (bind_cmd (or_reply (lookupProducerSeq dec now key producer iid)) (\<lambda>found.
          case found of
            Some existingID \<Rightarrow>
              seq_cmd (guard_cmd (Compare existingID sid = 0)
                        (WriteError (bstr ''ERR IID already exists for this producer with a different stream ID'')))
                (ok WriteOK)
          | None \<Rightarrow>
              seq_cmd (or_reply (seq_cmd (emitProducerSeq dec now key producer iid sid) (incrementIidsAdded dec key)))
                (ok WriteOK))))"

definition handleXIdmpRecord :: "(DataEffect \<Rightarrow> bytes) \<Rightarrow> u64 \<Rightarrow> bytes list \<Rightarrow> Writer \<Rightarrow> handler_result" where
  "handleXIdmpRecord dec now args w =
     (case args of
        [key, producer, iid, idStr] \<Rightarrow>
          if producer = [] then reject [] (WriteError (bstr ''ERR producer ID must be non-empty'') w)
          else if iid = [] then reject [] (WriteError (bstr ''ERR idempotent ID must be non-empty'') w)
          else
            (case ParseStreamID idStr of
               Inl _ \<Rightarrow> reject [] (err_stream_id w)
             | Inr (sid, _, _) \<Rightarrow> accept [key] w (run_cmd (xidmprecord_command dec now key producer iid sid)))
      | _ \<Rightarrow> reject [] (WriteWrongNumArguments (bstr ''xidmprecord'') w))"

section \<open>XCFGSET\<close>

record CfgValues =
  cfg_duration :: "i64 option"
  cfg_maxsize :: "i64 option"

fun parse_xcfgset :: "CfgValues \<Rightarrow> bytes list \<Rightarrow> answer + CfgValues" where
  "parse_xcfgset cfg [] = Inr cfg"
| "parse_xcfgset cfg [a] = Inl err_syntax"
| "parse_xcfgset cfg (a # valStr # r) =
     (let opt = ToUpper a in
      case atoi valStr of
        None \<Rightarrow> Inl err_int
      | Some val \<Rightarrow>
          if 1 < length valStr \<and> hd valStr = 48 then Inl err_int
          else if opt = bstr ''IDMP-DURATION'' then
            (if val < 1 \<or> val > 86400 then Inl (WriteError (bstr ''ERR IDMP-DURATION must be between 1 and 86400''))
             else parse_xcfgset (cfg\<lparr>cfg_duration := Some (word_of_int val)\<rparr>) r)
          else if opt = bstr ''IDMP-MAXSIZE'' then
            (if val < 1 \<or> val > 10000 then Inl (WriteError (bstr ''ERR IDMP-MAXSIZE must be between 1 and 10000''))
             else parse_xcfgset (cfg\<lparr>cfg_maxsize := Some (word_of_int val)\<rparr>) r)
          else Inl err_syntax)"

text \<open>The settings to write, in the order in which the map is visited (\<open>durFirst\<close>).\<close>

definition cfg_fields :: "bool \<Rightarrow> CfgValues \<Rightarrow> (bytes \<times> i64) list" where
  "cfg_fields durFirst cfg =
     (let d = (case cfg_duration cfg of None \<Rightarrow> [] | Some v \<Rightarrow> [(bstr ''idmp-duration'', v)]);
          m = (case cfg_maxsize cfg of None \<Rightarrow> [] | Some v \<Rightarrow> [(bstr ''idmp-maxsize'', v)])
      in if durFirst then d @ m else m @ d)"

definition xcfgset_command :: "(DataEffect \<Rightarrow> bytes) \<Rightarrow> bool \<Rightarrow> bytes \<Rightarrow> CfgValues \<Rightarrow> (answer, answer) cmd" where
  "xcfgset_command dec durFirst key cfg =
     with_stream key (WriteError (bstr ''ERR no such key'')) (\<lambda>_ _.
       bind_cmd (or_reply (getStreamConfig dec key)) (\<lambda>(oldDuration, oldMaxsize, _).
         let changed = ((case cfg_duration cfg of None \<Rightarrow> False | Some v \<Rightarrow> v \<noteq> oldDuration) \<or>
                        (case cfg_maxsize cfg of None \<Rightarrow> False | Some v \<Rightarrow> v \<noteq> oldMaxsize))
         in seq_cmd
              (or_reply
                (seq_cmd (each_cmd (\<lambda>(field, v). emitCfgSet key field v) (cfg_fields durFirst cfg))
                  (when_cmd changed (clearAllProducerKeys dec key))))
              (ok WriteOK)))"

definition handleXCfgSet :: "(DataEffect \<Rightarrow> bytes) \<Rightarrow> bool \<Rightarrow> bytes list \<Rightarrow> Writer \<Rightarrow> handler_result" where
  "handleXCfgSet dec durFirst args w =
     (case args of
        [] \<Rightarrow> reject [] (WriteWrongNumArguments (bstr ''xcfgset'') w)
      | key # r \<Rightarrow>
          if r = [] then reject [key] (WriteError (bstr ''ERR At least one parameter (IDMP-DURATION or IDMP-MAXSIZE) is required'') w)
          else
            (case parse_xcfgset \<lparr>cfg_duration = None, cfg_maxsize = None\<rparr> r of
               Inl a \<Rightarrow> reject [key] (a w)
             | Inr cfg \<Rightarrow> accept [key] w (run_with_savepoint (xcfgset_command dec durFirst key cfg))))"

end
