(* ===== verification/Stream_XGroup.thy ===== *)
theory Stream_XGroup
  imports Stream_Admin
begin

text \<open>\<^verbatim>\<open>XGROUP\<close>, \<^verbatim>\<open>XACK\<close> and \<^verbatim>\<open>XPENDING\<close> of \<^verbatim>\<open>redis/stream/groups.go\<close>.\<close>

definition quoted :: "bytes \<Rightarrow> bytes" where
  "quoted s = [39] @ s @ [39]"

definition err_nogroup :: "bytes \<Rightarrow> bytes \<Rightarrow> answer" where
  "err_nogroup groupName key =
     WriteError (bstr ''NOGROUP No such consumer group '' @ quoted groupName @ bstr '' for key name '' @ quoted key)"

definition err_requires_key :: answer where
  "err_requires_key = WriteError (bstr ''ERR The XGROUP subcommand requires the key to exist.'')"

text \<open>Commands on an existing group of an existing stream.\<close>

definition with_group ::
  "bytes \<Rightarrow> bytes \<Rightarrow> answer \<Rightarrow> answer \<Rightarrow> (ReducedEffect option \<Rightarrow> (answer, answer) cmd) \<Rightarrow> (answer, answer) cmd" where
  "with_group key groupName missing nogroup f =
     with_stream key missing (\<lambda>snap _.
       bind_cmd (or_reply (groupExists key groupName)) (\<lambda>hasGroup. seq_cmd (guard_cmd hasGroup nogroup) (f snap)))"

section \<open>XGROUP\<close>

definition err_entriesread :: answer where
  "err_entriesread = WriteError (bstr ''ERR value for ENTRIESREAD must be positive or -1'')"

fun parse_group_opts :: "bool \<Rightarrow> bool \<times> i64 \<Rightarrow> bytes list \<Rightarrow> answer + bool \<times> i64" where
  "parse_group_opts allowMk acc [] = Inr acc"
| "parse_group_opts allowMk (mk, er) (a # r) =
     (let opt = ToUpper a in
      if allowMk \<and> opt = bstr ''MKSTREAM'' then parse_group_opts allowMk (True, er) r
      else if opt = bstr ''ENTRIESREAD'' then
        (case r of
           [] \<Rightarrow> Inl err_syntax
         | v # r' \<Rightarrow>
             (case atoi v of
                None \<Rightarrow> Inl err_int
              | Some n \<Rightarrow> if n < - 1 then Inl err_entriesread else parse_group_opts allowMk (mk, word_of_int n) r'))
      else Inl err_syntax)"

text \<open>The position a group starts from.\<close>

definition group_start :: "(DataEffect \<Rightarrow> bytes) \<Rightarrow> ReducedEffect option \<Rightarrow> bool \<Rightarrow> bytes \<Rightarrow> answer + StreamID" where
  "group_start dec snap exists idStr =
     (if idStr = bstr ''$'' then Inr (if exists then last_seen dec snap else MinStreamID)
      else if idStr = bstr ''0'' \<or> idStr = bstr ''0-0'' then Inr MinStreamID
      else case parse_plain_id idStr of None \<Rightarrow> Inl err_stream_id | Some sid \<Rightarrow> Inr sid)"

definition cap_entries_read :: "(DataEffect \<Rightarrow> bytes) \<Rightarrow> bytes \<Rightarrow> ReducedEffect option \<Rightarrow> i64 \<Rightarrow> (bytes, i64) cmd" where
  "cap_entries_read dec key snap entriesRead =
     bind_cmd (getStreamEntriesAdded dec key) (\<lambda>cfgEA.
       let ea = (if 0 \<le> sint cfgEA then cfgEA else fst (snd (streamMetadata dec snap)))
       in ok (if sint entriesRead > sint ea then ea else entriesRead))"

definition xgroup_create ::
  "(DataEffect \<Rightarrow> bytes) \<Rightarrow> u64 \<Rightarrow> bytes \<Rightarrow> bytes \<Rightarrow> bytes \<Rightarrow> bool \<Rightarrow> i64 \<Rightarrow> (answer, answer) cmd" where
  "xgroup_create dec now key groupName idStr mkStream entriesRead =
     bind_cmd (or_reply (getStreamSnapshot key)) (\<lambda>(snap, _, exists, wrongType).
     seq_cmd (guard_cmd (\<not> (exists \<and> wrongType)) WriteWrongType)
    (case group_start dec snap exists idStr of
       Inl a \<Rightarrow> stop a
     | Inr lastDeliveredID \<Rightarrow>
         seq_cmd (guard_cmd (exists \<or> mkStream)
           (WriteError (bstr ''ERR The XGROUP subcommand requires the key to exist. Note that for CREATE you may want to use the MKSTREAM option to create an empty stream automatically.'')))
        (seq_cmd
          (when_cmd (\<not> exists)
            (or_reply
              (seq_cmd (emitStreamTypeTag key)
              (seq_cmd (emit_cmd (data_effect key (insert_data ORDERED [] NoValue)) [])
                (setStreamEntriesAdded key 0)))))
        (bind_cmd (or_reply (groupExists key groupName)) (\<lambda>hasGroup.
         seq_cmd (guard_cmd (\<not> hasGroup) (WriteError (bstr ''BUSYGROUP Consumer Group name already exists'')))
        (bind_cmd
          (if 0 \<le> sint entriesRead \<and> exists then or_reply (cap_entries_read dec key snap entriesRead) else ok entriesRead)
          (\<lambda>entriesRead.
            seq_cmd
              (or_reply
                (seq_cmd (emitGroupInsert key groupName (encodeGroupMeta lastDeliveredID entriesRead now))
                  (emitGroupRegistryInsert key groupName)))
              (ok (WriteSimpleString (bstr ''OK''))))))))))"

definition handleXGroupCreate :: "(DataEffect \<Rightarrow> bytes) \<Rightarrow> u64 \<Rightarrow> bytes list \<Rightarrow> Writer \<Rightarrow> handler_result" where
  "handleXGroupCreate dec now args w =
     (case args of
        _ # key # groupName # idStr # r \<Rightarrow>
          (case parse_group_opts True (False, - 1) r of
             Inl a \<Rightarrow> reject [key] (a w)
           | Inr (mkStream, entriesRead) \<Rightarrow>
               accept [key] w (run_cmd (xgroup_create dec now key groupName idStr mkStream entriesRead)))
      | _ \<Rightarrow> reject [] (WriteWrongNumArguments (bstr ''xgroup|create'') w))"

definition handleXGroupDestroy :: "bytes list \<Rightarrow> Writer \<Rightarrow> handler_result" where
  "handleXGroupDestroy args w =
     (case args of
        _ # key # groupName # _ \<Rightarrow>
          accept [key] w (run_cmd (with_group key groupName (WriteInteger 0) (WriteInteger 0) (\<lambda>_.
            seq_cmd
              (or_reply
                (seq_cmd (emitGroupRemove key groupName)
                (seq_cmd (emitPELKeyRemove key groupName) (emitGroupRegistryRemove key groupName))))
              (ok (WriteInteger 1)))))
      | _ \<Rightarrow> reject [] (WriteWrongNumArguments (bstr ''xgroup|destroy'') w))"

definition handleXGroupCreateConsumer :: "u64 \<Rightarrow> bytes list \<Rightarrow> Writer \<Rightarrow> handler_result" where
  "handleXGroupCreateConsumer now args w =
     (case args of
        _ # key # groupName # consumerName # _ \<Rightarrow>
          accept [key] w (run_cmd (with_group key groupName err_requires_key (err_nogroup groupName key) (\<lambda>_.
            bind_cmd (or_reply (getGroupSnapshot key groupName)) (\<lambda>gSnap.
              if map_of (getConsumersFromGroup gSnap) consumerName \<noteq> None then ok (WriteInteger 0)
              else
                seq_cmd (or_reply (emitConsumerInsert key groupName consumerName (encodeConsumerMeta now 0)))
                  (ok (WriteInteger 1))))))
      | _ \<Rightarrow> reject [] (WriteWrongNumArguments (bstr ''xgroup|createconsumer'') w))"

definition handleXGroupDelConsumer :: "(DataEffect \<Rightarrow> bytes) \<Rightarrow> bytes list \<Rightarrow> Writer \<Rightarrow> handler_result" where
  "handleXGroupDelConsumer dec args w =
     (case args of
        _ # key # groupName # consumerName # _ \<Rightarrow>
          accept [key] w (run_with_savepoint (with_group key groupName err_requires_key (err_nogroup groupName key) (\<lambda>_.
            bind_cmd (or_reply (getPELSnapshot key groupName)) (\<lambda>pelSnap.
              seq_cmd
                (or_reply
                  (seq_cmd
                    (each_cmd (\<lambda>(elemID, el).
                       when_cmd (fst (decodePELEntry (dec (el_Data el))) = consumerName \<and> length elemID = 16)
                         (emitPELRemove key groupName (decodeStreamElementID elemID))) (net_adds pelSnap))
                    (emitConsumerRemove key groupName consumerName)))
                (ok (WriteInteger (consumerPendingCount dec pelSnap consumerName)))))))
      | _ \<Rightarrow> reject [] (WriteWrongNumArguments (bstr ''xgroup|delconsumer'') w))"

definition xgroup_setid ::
  "(DataEffect \<Rightarrow> bytes) \<Rightarrow> bytes \<Rightarrow> bytes \<Rightarrow> bytes \<Rightarrow> i64 \<Rightarrow> (answer, answer) cmd" where
  "xgroup_setid dec key groupName idStr entriesRead =
     with_group key groupName err_requires_key (err_nogroup groupName key) (\<lambda>snap.
       case (if idStr = bstr ''-'' then Inr MinStreamID else group_start dec snap True idStr) of
         Inl a \<Rightarrow> stop a
       | Inr lastDeliveredID \<Rightarrow>
           bind_cmd (or_reply (getGroupSnapshot key groupName)) (\<lambda>gSnap.
             let (_, existingEntriesRead, existingCreatedAt) = getGroupMeta dec gSnap in
             bind_cmd
               (if 0 \<le> sint entriesRead then or_reply (cap_entries_read dec key snap entriesRead) else ok existingEntriesRead)
               (\<lambda>finalEntriesRead.
                 seq_cmd (or_reply (emitGroupInsert key groupName (encodeGroupMeta lastDeliveredID finalEntriesRead existingCreatedAt)))
                   (ok (WriteSimpleString (bstr ''OK''))))))"

definition handleXGroupSetID :: "(DataEffect \<Rightarrow> bytes) \<Rightarrow> bytes list \<Rightarrow> Writer \<Rightarrow> handler_result" where
  "handleXGroupSetID dec args w =
     (case args of
        _ # key # groupName # idStr # r \<Rightarrow>
          (case parse_group_opts False (False, - 1) r of
             Inl a \<Rightarrow> reject [key] (a w)
           | Inr (_, entriesRead) \<Rightarrow> accept [key] w (run_cmd (xgroup_setid dec key groupName idStr entriesRead)))
      | _ \<Rightarrow> reject [] (WriteWrongNumArguments (bstr ''xgroup|setid'') w))"

definition handleXGroupHelp :: answer where
  "handleXGroupHelp w =
     (let help =
        [bstr ''XGROUP <subcommand> [<arg> [value] [opt] ...]. Subcommands are:'',
         bstr ''CREATE <key> <groupname> <id|$> [option]'',
         bstr ''    Create a new consumer group. Options are:'',
         bstr ''    * MKSTREAM'',
         bstr ''      Create the empty stream if it does not exist.'',
         bstr ''    * ENTRIESREAD entries_read'',
         bstr ''      Set the group'' @ [39] @ bstr ''s current ID.'',
         bstr ''SETID <key> <groupname> <id|$> [ENTRIESREAD entries_read]'',
         bstr ''    Set the current group ID.'',
         bstr ''DESTROY <key> <groupname>'',
         bstr ''    Remove the specified group.'',
         bstr ''CREATECONSUMER <key> <groupname> <consumername>'',
         bstr ''    Create a consumer named <consumername> in the group.'',
         bstr ''DELCONSUMER <key> <groupname> <consumername>'',
         bstr ''    Remove the specified consumer.'',
         bstr ''HELP'',
         bstr ''    Print this help.'']
      in write_all WriteBulkStringStr help (WriteArray (of_nat (length help)) w))"

definition handleXGroup :: "(DataEffect \<Rightarrow> bytes) \<Rightarrow> u64 \<Rightarrow> bytes list \<Rightarrow> Writer \<Rightarrow> handler_result" where
  "handleXGroup dec now args w =
     (case args of
        [] \<Rightarrow> reject [] (WriteWrongNumArguments (bstr ''xgroup'') w)
      | a # r \<Rightarrow>
          let subCmd = ToUpper a in
          if subCmd = bstr ''CREATE'' then handleXGroupCreate dec now args w
          else if subCmd = bstr ''DESTROY'' then handleXGroupDestroy args w
          else if subCmd = bstr ''CREATECONSUMER'' then handleXGroupCreateConsumer now args w
          else if subCmd = bstr ''DELCONSUMER'' then handleXGroupDelConsumer dec args w
          else if subCmd = bstr ''SETID'' then handleXGroupSetID dec args w
          else if subCmd = bstr ''HELP'' then
            (if r \<noteq> [] then
               reject [] (WriteError (bstr ''ERR wrong number of arguments for '' @ quoted (bstr ''xgroup|help'') @ bstr '' command'') w)
             else accept [] w (run_cmd (ok handleXGroupHelp)))
          else reject [] (WriteError (bstr ''ERR unknown subcommand '' @ quoted subCmd @ bstr ''. Try XGROUP HELP.'') w))"

section \<open>XACK\<close>

definition handleXAck :: "bytes list \<Rightarrow> Writer \<Rightarrow> handler_result" where
  "handleXAck args w =
     (case args of
        key # groupName # i1 # is \<Rightarrow>
          (case parse_all parse_plain_id (i1 # is) of
             None \<Rightarrow> reject [key] (err_stream_id w)
           | Some ids \<Rightarrow>
               accept [key] w (run_cmd (with_group key groupName (WriteInteger 0) (err_nogroup groupName key) (\<lambda>_.
                 bind_cmd (or_reply (getPELSnapshot key groupName)) (\<lambda>pelSnap.
                   let acked = filter (\<lambda>sid. pending_in sid pelSnap) ids in
                   seq_cmd (or_reply (each_cmd (emitPELRemove key groupName) acked))
                     (ok (WriteInteger (of_nat (length acked)))))))))
      | _ \<Rightarrow> reject [] (WriteWrongNumArguments (bstr ''xack'') w))"

section \<open>XPENDING\<close>

definition writePendingSummary :: "PendingEntry list \<Rightarrow> answer" where
  "writePendingSummary pes w =
     (if pes = [] then WriteNullArray (WriteNullBulkString (WriteNullBulkString (WriteInteger 0 (WriteArray 4 w))))
      else
        let names = sort (remdups (map pe_Consumer pes)) in
        write_all (\<lambda>name w.
            WriteBulkStringStr (fmt_int (int (length (filter (\<lambda>pe. pe_Consumer pe = name) pes))))
              (WriteBulkStringStr name (WriteArray 2 w))) names
          (WriteArray (of_nat (length names))
            (WriteBulkStringStr (StreamID_String (pe_ID (last pes)))
              (WriteBulkStringStr (StreamID_String (pe_ID (hd pes)))
                (WriteInteger (of_nat (length pes)) (WriteArray 4 w))))))"

record PendingQuery =
  pq_minIdle :: i64
  pq_start :: StreamID
  pq_startExcl :: bool
  pq_end :: StreamID
  pq_endExcl :: bool
  pq_count :: int
  pq_consumer :: bytes

definition pending_matches :: "u64 \<Rightarrow> PendingQuery \<Rightarrow> PendingEntry \<Rightarrow> bool" where
  "pending_matches now q pe \<longleftrightarrow>
     \<not> (pq_consumer q \<noteq> [] \<and> pe_Consumer pe \<noteq> pq_consumer q) \<and>
     \<not> (pq_startExcl q \<and> Compare (pe_ID pe) (pq_start q) \<le> 0) \<and>
     \<not> (\<not> pq_startExcl q \<and> Compare (pe_ID pe) (pq_start q) < 0) \<and>
     \<not> (pq_endExcl q \<and> Compare (pe_ID pe) (pq_end q) \<ge> 0) \<and>
     \<not> (\<not> pq_endExcl q \<and> Compare (pe_ID pe) (pq_end q) > 0) \<and>
     \<not> (0 \<le> sint (pq_minIdle q) \<and> sint (now - pe_DeliveryTime pe) < sint (pq_minIdle q))"

fun pending_loop :: "u64 \<Rightarrow> PendingQuery \<Rightarrow> PendingEntry list \<Rightarrow> PendingEntry list \<Rightarrow> PendingEntry list" where
  "pending_loop now q [] filtered = filtered"
| "pending_loop now q (pe # pes) filtered =
     (if \<not> pending_matches now q pe then pending_loop now q pes filtered
      else if pq_count q > 0 \<and> int (length (filtered @ [pe])) \<ge> pq_count q then filtered @ [pe]
      else pending_loop now q pes (filtered @ [pe]))"

definition parse_pending :: "bytes list \<Rightarrow> answer + PendingQuery" where
  "parse_pending args =
     (let idle =
        (if ToUpper (hd args) = bstr ''IDLE'' then
           (case tl args of
              [] \<Rightarrow> Inl err_syntax
            | v # r \<Rightarrow>
                (case parse_nonneg v of
                   None \<Rightarrow> Inl (WriteError (bstr ''ERR Invalid min-idle-time argument for XPENDING''))
                 | Some mi \<Rightarrow> Inr (mi, r)))
         else Inr (- 1, args))
      in case idle of
           Inl a \<Rightarrow> Inl a
         | Inr (minIdle, startStr # endStr # countStr # r) \<Rightarrow>
             (case (ParseStreamIDForRange startStr False, ParseStreamIDForRange endStr True) of
                (Inr (start, startExcl), Inr (fin, endExcl)) \<Rightarrow>
                  (case parse_nonneg countStr of
                     None \<Rightarrow> Inl err_int
                   | Some count \<Rightarrow>
                       Inr \<lparr>pq_minIdle = minIdle, pq_start = start, pq_startExcl = startExcl, pq_end = fin,
                            pq_endExcl = endExcl, pq_count = sint count, pq_consumer = (case r of [] \<Rightarrow> [] | c # _ \<Rightarrow> c)\<rparr>)
              | _ \<Rightarrow> Inl err_stream_id)
         | Inr _ \<Rightarrow> Inl err_syntax)"

definition write_pending :: "u64 \<Rightarrow> PendingEntry list \<Rightarrow> answer" where
  "write_pending now pes w =
     write_all (\<lambda>pe w.
         WriteInteger (pe_DeliveryCount pe) (WriteInteger (now - pe_DeliveryTime pe)
           (WriteBulkStringStr (pe_Consumer pe) (WriteBulkStringStr (StreamID_String (pe_ID pe)) (WriteArray 4 w))))) pes
       (WriteArray (of_nat (length pes)) w)"

definition handleXPending :: "(DataEffect \<Rightarrow> bytes) \<Rightarrow> u64 \<Rightarrow> bytes list \<Rightarrow> Writer \<Rightarrow> handler_result" where
  "handleXPending dec now args w =
     (case args of
        key # groupName # r \<Rightarrow>
          accept [key] w (run_cmd (with_group key groupName (WriteError (bstr ''ERR no such key'')) (err_nogroup groupName key) (\<lambda>_.
            bind_cmd (or_reply (getPELSnapshot key groupName)) (\<lambda>pelSnap.
              let pes = pelToEntries dec pelSnap in
              if r = [] then ok (writePendingSummary pes)
              else
                case parse_pending r of
                  Inl a \<Rightarrow> stop a
                | Inr q \<Rightarrow> ok (write_pending now (pending_loop now q pes []))))))
      | _ \<Rightarrow> reject [] (WriteWrongNumArguments (bstr ''xpending'') w))"

end
