(* ===== verification/Stream_Claim.thy ===== *)
theory Stream_Claim
  imports Stream_XGroup
begin

text \<open>
  Delivery to consumers: \<^verbatim>\<open>XREADGROUP\<close>, \<^verbatim>\<open>XACKDEL\<close>, \<^verbatim>\<open>XCLAIM\<close> and \<^verbatim>\<open>XAUTOCLAIM\<close> of
  \<^verbatim>\<open>redis/stream/groups.go\<close>. The clock does not advance within one attempt of a command.
\<close>

section \<open>XREADGROUP\<close>

datatype rg_stop = RGError bytes | RGNoGroup | RGWrongType

definition rg_err :: "(bytes, 'a) cmd \<Rightarrow> (rg_stop, 'a) cmd" where [cmd_defs]:
  "rg_err m c = (case m c of (Inl err, c') \<Rightarrow> (Inl (RGError err), c') | (Inr x, c') \<Rightarrow> (Inr x, c'))"

text \<open>A failing read leaves no deliveries.\<close>

definition restore_on_stop :: "('e, 'a) cmd \<Rightarrow> ('e, 'a) cmd" where [cmd_defs]:
  "restore_on_stop m c =
     (case m c of (Inl e, c') \<Rightarrow> (Inl e, c'\<lparr>c_emitted := c_emitted c\<rparr>) | (Inr x, c') \<Rightarrow> (Inr x, c'))"

datatype GroupFrom = NewOnly | History StreamID

definition find_entry :: "StreamEntry list \<Rightarrow> StreamID \<Rightarrow> StreamEntry option" where
  "find_entry es sid = find (\<lambda>e. Compare (se_ID e) sid = 0) es"

text \<open>Delivering new entries to a consumer: the group moves on, and the entries become pending.\<close>

definition deliver_new ::
  "bytes \<Rightarrow> bytes \<Rightarrow> bytes \<Rightarrow> u64 \<Rightarrow> bool \<Rightarrow> i64 \<times> i64 \<Rightarrow> StreamEntry list \<Rightarrow> (bytes, unit) cmd \<Rightarrow> (bytes, unit) cmd" where
  "deliver_new sKey groupName consumerName now noAck er_ca filtered between =
     (case er_ca of (entriesRead, createdAt) \<Rightarrow>
        let n = of_nat (length filtered);
            newEntriesRead = (if 0 \<le> sint entriesRead then entriesRead + n else n)
        in seq_cmd (emitGroupInsert sKey groupName (encodeGroupMeta (se_ID (last filtered)) newEntriesRead createdAt))
          (seq_cmd between
            (when_cmd (\<not> noAck)
              (each_cmd (\<lambda>e. emitPELInsert sKey groupName (se_ID e) (encodePELEntry consumerName now 1)) filtered))))"

fun history_loop :: "StreamEntry list \<Rightarrow> bytes \<Rightarrow> StreamID \<Rightarrow> int \<Rightarrow> PendingEntry list \<Rightarrow> StreamEntry list \<Rightarrow> StreamEntry list" where
  "history_loop es consumerName startID count [] result = result"
| "history_loop es consumerName startID count (pe # pes) result =
     (if pe_Consumer pe \<noteq> consumerName then history_loop es consumerName startID count pes result
      else if Compare (pe_ID pe) startID \<le> 0 then history_loop es consumerName startID count pes result
      else
        let result' = result @ [case find_entry es (pe_ID pe) of Some e \<Rightarrow> e | None \<Rightarrow> \<lparr>se_ID = pe_ID pe, se_Fields = []\<rparr>]
        in if count > 0 \<and> int (length result') \<ge> count then result'
           else history_loop es consumerName startID count pes result')"

definition consumer_active :: "(DataEffect \<Rightarrow> bytes) \<Rightarrow> ReducedEffect option \<Rightarrow> bytes \<Rightarrow> i64" where
  "consumer_active dec gSnap consumerName =
     (case map_of (getConsumersFromGroup gSnap) consumerName of
        None \<Rightarrow> 0
      | Some el \<Rightarrow> snd (decodeConsumerMeta (dec (el_Data el))))"

text \<open>The stream and the group that a read needs.\<close>

definition rg_prepare :: "bytes \<Rightarrow> bytes \<Rightarrow> (rg_stop, ReducedEffect option \<times> ReducedEffect option) cmd" where
  "rg_prepare sKey groupName =
     bind_cmd (rg_err (getStreamSnapshot sKey)) (\<lambda>(snap, _, exists, wrongType).
     seq_cmd (guard_cmd (\<not> wrongType) RGWrongType)
    (bind_cmd (rg_err (getGroupSnapshot sKey groupName)) (\<lambda>gSnap.
     seq_cmd (guard_cmd (exists \<and> map_of (net_adds gSnap) (bstr ''__group__'') \<noteq> None) RGNoGroup) (ok (snap, gSnap)))))"

definition read_group_stream ::
  "(DataEffect \<Rightarrow> bytes) \<Rightarrow> u64 \<Rightarrow> bytes \<Rightarrow> bytes \<Rightarrow> int \<Rightarrow> bool \<Rightarrow> bytes \<times> GroupFrom \<Rightarrow> streamResult list \<Rightarrow>
   (rg_stop, streamResult list) cmd" where
  "read_group_stream dec now groupName consumerName count noAck kf results =
     (case kf of (sKey, from) \<Rightarrow>
        bind_cmd (rg_prepare sKey groupName) (\<lambda>(snap, gSnap).
          let es = snapshotToEntries dec snap in
          case from of
            NewOnly \<Rightarrow>
              (let (lastDelivered, er_ca) = getGroupMeta dec gSnap;
                   filtered = rangeEntries es lastDelivered MaxStreamID True False count
               in if filtered = [] then ok results
                  else
                    seq_cmd (rg_err (deliver_new sKey groupName consumerName now noAck er_ca filtered
                              (emitConsumerInsert sKey groupName consumerName (encodeConsumerMeta now now))))
                      (ok (results @ [(sKey, filtered)])))
          | History startID \<Rightarrow>
              bind_cmd (rg_err (getPELSnapshot sKey groupName)) (\<lambda>pelSnap.
                if net_adds pelSnap = [] then ok results
                else
                  let pending = history_loop es consumerName startID count (pelToEntries dec pelSnap) []
                  in seq_cmd (rg_err (emitConsumerInsert sKey groupName consumerName
                               (encodeConsumerMeta now (consumer_active dec gSnap consumerName))))
                       (ok (if pending \<noteq> [] then results @ [(sKey, pending)] else results)))))"

definition doXReadGroup ::
  "(DataEffect \<Rightarrow> bytes) \<Rightarrow> u64 \<Rightarrow> (bytes \<times> GroupFrom) list \<Rightarrow> bytes \<Rightarrow> bytes \<Rightarrow> int \<Rightarrow> bool \<Rightarrow> (rg_stop, streamResult list) cmd" where
  "doXReadGroup dec now kfs groupName consumerName count noAck =
     restore_on_stop (fold_cmd (read_group_stream dec now groupName consumerName count noAck) kfs [])"

record claimEntry =
  ce_entry :: StreamEntry
  ce_idleTime :: i64
  ce_deliveryCount :: i64

text \<open>Claiming the pending entries that have been idle for long enough, at most \<open>remaining\<close> of them.\<close>

fun claim_idle ::
  "bytes \<Rightarrow> bytes \<Rightarrow> bytes \<Rightarrow> u64 \<Rightarrow> i64 \<Rightarrow> StreamEntry list \<Rightarrow> PendingEntry list \<Rightarrow> int \<Rightarrow> claimEntry list \<Rightarrow>
   (bytes, int \<times> claimEntry list) cmd" where
  "claim_idle sKey groupName consumerName now minIdle es [] remaining acc = ok (remaining, acc)"
| "claim_idle sKey groupName consumerName now minIdle es (pe # pes) remaining acc =
     (if remaining \<le> 0 then ok (remaining, acc)
      else if sint (now - pe_DeliveryTime pe) < sint minIdle
      then claim_idle sKey groupName consumerName now minIdle es pes remaining acc
      else
        case find_entry es (pe_ID pe) of
          None \<Rightarrow> claim_idle sKey groupName consumerName now minIdle es pes remaining acc
        | Some e \<Rightarrow>
            seq_cmd (emitPELInsert sKey groupName (pe_ID pe) (encodePELEntry consumerName now (pe_DeliveryCount pe + 1)))
              (claim_idle sKey groupName consumerName now minIdle es pes (remaining - 1)
                (acc @ [\<lparr>ce_entry = e, ce_idleTime = now - pe_DeliveryTime pe, ce_deliveryCount = pe_DeliveryCount pe\<rparr>])))"

type_synonym streamResultWithClaim = "bytes \<times> claimEntry list"

definition claim_stream ::
  "(DataEffect \<Rightarrow> bytes) \<Rightarrow> u64 \<Rightarrow> bytes \<Rightarrow> bytes \<Rightarrow> int \<Rightarrow> bool \<Rightarrow> i64 \<Rightarrow> bytes \<times> GroupFrom \<Rightarrow> streamResultWithClaim list \<Rightarrow>
   (rg_stop, streamResultWithClaim list) cmd" where
  "claim_stream dec now groupName consumerName count noAck minIdle kf results =
     (case kf of (sKey, from) \<Rightarrow>
        bind_cmd (rg_prepare sKey groupName) (\<lambda>(snap, gSnap).
          if from \<noteq> NewOnly then ok results
          else
            let es = snapshotToEntries dec snap; remaining = (if count \<le> 0 then 100 else count) in
            bind_cmd (rg_err (getPELSnapshot sKey groupName)) (\<lambda>pelSnap.
            bind_cmd (rg_err (claim_idle sKey groupName consumerName now minIdle es (pelToEntries dec pelSnap) remaining []))
              (\<lambda>(remaining, claimed).
                 let (lastDelivered, er_ca) = getGroupMeta dec gSnap;
                     filtered = (if remaining > 0 then rangeEntries es lastDelivered MaxStreamID True False remaining else []);
                     claimed' = claimed @ map (\<lambda>e. \<lparr>ce_entry = e, ce_idleTime = 0, ce_deliveryCount = 0\<rparr>) filtered
                 in seq_cmd (rg_err (when_cmd (filtered \<noteq> [])
                              (deliver_new sKey groupName consumerName now noAck er_ca filtered (ok ()))))
                   (seq_cmd (rg_err (when_cmd (claimed' \<noteq> [])
                              (emitConsumerInsert sKey groupName consumerName (encodeConsumerMeta now now))))
                     (ok (if claimed' \<noteq> [] then results @ [(sKey, claimed')] else results)))))))"

definition doXReadGroupClaim ::
  "(DataEffect \<Rightarrow> bytes) \<Rightarrow> u64 \<Rightarrow> (bytes \<times> GroupFrom) list \<Rightarrow> bytes \<Rightarrow> bytes \<Rightarrow> int \<Rightarrow> bool \<Rightarrow> i64 \<Rightarrow>
   (rg_stop, streamResultWithClaim list) cmd" where
  "doXReadGroupClaim dec now kfs groupName consumerName count noAck minIdle =
     restore_on_stop (fold_cmd (claim_stream dec now groupName consumerName count noAck minIdle) kfs [])"

text \<open>Parsing. \<open>checked\<close> says whether the values of \<^verbatim>\<open>BLOCK\<close> and \<^verbatim>\<open>CLAIM\<close> are looked at.\<close>

record RGOpts =
  rg_count :: int
  rg_block :: bool
  rg_noAck :: bool
  rg_claimMinIdle :: i64

definition rg_parse_block :: "bytes \<Rightarrow> RGOpts \<Rightarrow> answer + RGOpts" where
  "rg_parse_block v opts =
     (case atoi v of
        None \<Rightarrow> Inl (WriteError (bstr ''ERR timeout is not an integer or out of range''))
      | Some b \<Rightarrow>
          if b < 0 then Inl (WriteError (bstr ''ERR timeout is negative'')) else Inr (opts\<lparr>rg_block := True\<rparr>))"

definition rg_parse_claim :: "bytes \<Rightarrow> RGOpts \<Rightarrow> answer + RGOpts" where
  "rg_parse_claim v opts =
     (let bad = WriteError (bstr ''ERR min-idle-time is not an integer or out of range'') in
      if v \<noteq> [] \<and> hd v = 43 \<or> v = bstr ''-0'' then Inl bad
      else
        case atoi v of
          None \<Rightarrow> Inl bad
        | Some m \<Rightarrow>
            if m < 0 then Inl (WriteError (bstr ''ERR min-idle-time must be a positive integer''))
            else Inr (opts\<lparr>rg_claimMinIdle := word_of_int m\<rparr>))"

fun parse_xreadgroup :: "bool \<Rightarrow> RGOpts \<Rightarrow> bytes list \<Rightarrow> answer + RGOpts \<times> bytes list" where
  "parse_xreadgroup checked opts [] = Inl err_syntax"
| "parse_xreadgroup checked opts (a # r) =
     (let opt = ToUpper a in
      if opt = bstr ''COUNT'' then
        (case r of
           [] \<Rightarrow> Inl err_syntax
         | v # r' \<Rightarrow>
             (case atoi v of
                None \<Rightarrow> Inl err_int
              | Some c \<Rightarrow> if c < 0 then Inl err_int else parse_xreadgroup checked (opts\<lparr>rg_count := c\<rparr>) r'))
      else if opt = bstr ''BLOCK'' then
        (case r of
           [] \<Rightarrow> Inl err_syntax
         | v # r' \<Rightarrow>
             (case (if checked then rg_parse_block v opts else Inr opts) of
                Inl e \<Rightarrow> Inl e
              | Inr opts' \<Rightarrow> parse_xreadgroup checked opts' r'))
      else if opt = bstr ''CLAIM'' then
        (case r of
           [] \<Rightarrow> Inl err_syntax
         | v # r' \<Rightarrow>
             (case (if checked then rg_parse_claim v opts else Inr opts) of
                Inl e \<Rightarrow> Inl e
              | Inr opts' \<Rightarrow> parse_xreadgroup checked opts' r'))
      else if opt = bstr ''NOACK'' then parse_xreadgroup checked (opts\<lparr>rg_noAck := True\<rparr>) r
      else if opt = bstr ''STREAMS'' then Inr (opts, r)
      else Inl err_syntax)"

definition parse_group_from :: "bytes \<Rightarrow> GroupFrom option" where
  "parse_group_from idStr =
     (if idStr = bstr ''>'' then Some NewOnly
      else
        case ParseStreamID idStr of
          Inl _ \<Rightarrow> None
        | Inr (sid, _, isSpecial) \<Rightarrow>
            if isSpecial \<and> idStr \<noteq> bstr ''0'' \<and> idStr \<noteq> bstr ''0-0'' then None else Some (History sid))"

definition parse_group_streams :: "bytes list \<Rightarrow> answer + (bytes \<times> GroupFrom) list" where
  "parse_group_streams remaining =
     (if length remaining < 2 \<or> length remaining mod 2 \<noteq> 0 then
        Inl (WriteError (bstr ''ERR Unbalanced '' @ quoted (bstr ''xreadgroup'') @
          bstr '' list of streams: for each stream key an ID or '' @ quoted (bstr ''>'') @ bstr '' must be specified.''))
      else
        let n = length remaining div 2 in
        case parse_all parse_group_from (drop n remaining) of
          None \<Rightarrow> Inl err_stream_id
        | Some froms \<Rightarrow> Inr (zip (take n remaining) froms))"

definition parse_rg_args :: "bool \<Rightarrow> bytes list \<Rightarrow> answer + bytes \<times> bytes \<times> RGOpts \<times> (bytes \<times> GroupFrom) list" where
  "parse_rg_args checked args =
     (if length args < 6 then Inl (WriteWrongNumArguments (bstr ''xreadgroup''))
      else if ToUpper (args ! 0) \<noteq> bstr ''GROUP'' then Inl err_syntax
      else
        case parse_xreadgroup checked \<lparr>rg_count = 0, rg_block = False, rg_noAck = False, rg_claimMinIdle = - 1\<rparr> (drop 3 args) of
          Inl a \<Rightarrow> Inl a
        | Inr (opts, remaining) \<Rightarrow>
            (case parse_group_streams remaining of
               Inl a \<Rightarrow> Inl a
             | Inr kfs \<Rightarrow> Inr (args ! 1, args ! 2, opts, kfs)))"

definition rg_answer :: "answer \<Rightarrow> (rg_stop, 'a) cmd \<Rightarrow> (answer, 'a) cmd" where [cmd_defs]:
  "rg_answer nogroup m c =
     (case m c of
        (Inl (RGError err), c') \<Rightarrow> (Inl (WriteError err), c')
      | (Inl RGNoGroup, c') \<Rightarrow> (Inl nogroup, c')
      | (Inl RGWrongType, c') \<Rightarrow> (Inl WriteWrongType, c')
      | (Inr x, c') \<Rightarrow> (Inr x, c'))"

definition xreadgroup_try ::
  "(DataEffect \<Rightarrow> bytes) \<Rightarrow> u64 \<Rightarrow> bytes \<Rightarrow> bytes \<Rightarrow> RGOpts \<Rightarrow> (bytes \<times> GroupFrom) list \<Rightarrow> (answer, streamResult list) cmd" where
  "xreadgroup_try dec now groupName consumerName opts kfs =
     rg_answer (err_nogroup groupName (fst (hd kfs)))
       (doXReadGroup dec now kfs groupName consumerName (rg_count opts) (rg_noAck opts))"

definition xreadgroup_now ::
  "(DataEffect \<Rightarrow> bytes) \<Rightarrow> u64 \<Rightarrow> bytes \<Rightarrow> bytes \<Rightarrow> RGOpts \<Rightarrow> (bytes \<times> GroupFrom) list \<Rightarrow> (answer, answer) cmd" where
  "xreadgroup_now dec now groupName consumerName opts kfs =
     bind_cmd (xreadgroup_try dec now groupName consumerName opts kfs) (\<lambda>results.
       ok (if results = [] then WriteNullArray else writeXReadResults results))"

definition handleXReadGroupNonBlocking :: "(DataEffect \<Rightarrow> bytes) \<Rightarrow> u64 \<Rightarrow> bytes list \<Rightarrow> Writer \<Rightarrow> handler_result" where
  "handleXReadGroupNonBlocking dec now args w =
     (case parse_rg_args False args of
        Inl a \<Rightarrow> reject [] (a w)
      | Inr (groupName, consumerName, opts, kfs) \<Rightarrow>
          accept (map fst kfs) w (run_cmd (xreadgroup_now dec now groupName consumerName opts kfs)))"

end
