(* ===== verification/Stream_Deliver.thy ===== *)
theory Stream_Deliver
  imports Stream_Claim
begin

text \<open>Blocking \<^verbatim>\<open>XREADGROUP\<close>, \<^verbatim>\<open>XACKDEL\<close>, \<^verbatim>\<open>XCLAIM\<close> and \<^verbatim>\<open>XAUTOCLAIM\<close> of \<^verbatim>\<open>redis/stream/groups.go\<close>.\<close>

section \<open>XREADGROUP\<close>

definition writeStreamEntriesWithClaim :: "claimEntry list \<Rightarrow> answer" where
  "writeStreamEntriesWithClaim ces w =
     write_all (\<lambda>ce w.
         WriteInteger (ce_deliveryCount ce) (WriteInteger (ce_idleTime ce)
           (write_all WriteBulkString (se_Fields (ce_entry ce))
             (WriteArray (of_nat (length (se_Fields (ce_entry ce))))
               (WriteBulkStringStr (StreamID_String (se_ID (ce_entry ce))) (WriteArray 4 w)))))) ces
       (WriteArray (of_nat (length ces)) w)"

definition writeXReadResultsWithClaim :: "streamResultWithClaim list \<Rightarrow> answer" where
  "writeXReadResultsWithClaim rs w =
     write_all (\<lambda>(key, ces) w. writeStreamEntriesWithClaim ces (WriteBulkStringStr key (WriteArray 2 w))) rs
       (WriteArray (of_nat (length rs)) w)"

text \<open>The last result of a key counts.\<close>

definition writeXReadGroupHistoryResults :: "streamResult list \<Rightarrow> bytes list \<Rightarrow> answer" where
  "writeXReadGroupHistoryResults rs streamKeys w =
     write_all (\<lambda>sk w.
         let w = WriteBulkStringStr sk (WriteArray 2 w) in
         case map_of (rev rs) sk of
           Some es \<Rightarrow> if es \<noteq> [] then writeStreamEntries es w else WriteArray 0 w
         | None \<Rightarrow> WriteArray 0 w) streamKeys
       (WriteArray (of_nat (length streamKeys)) w)"

text \<open>
  The blocking loop. \<open>idle\<close> is what the loop does after an attempt without results; a wake-up comes with
  the time at which it happens. The result is the reply, \<open>None\<close> while still waiting, and the context.
\<close>

fun block_loop ::
  "(u64 \<Rightarrow> (answer, 'r list) cmd) \<Rightarrow> (answer, unit) cmd \<Rightarrow> ('r list \<Rightarrow> answer) \<Rightarrow> u64 \<Rightarrow> (u64 \<times> wake) list \<Rightarrow> Context \<Rightarrow>
   answer option \<times> Context" where
  "block_loop attempt idle show_ok now wakes c =
     (case attempt now c of
        (Inl a, c1) \<Rightarrow> (Some a, c1)
      | (Inr results, c1) \<Rightarrow>
          if results \<noteq> [] then (Some (show_ok results), c1)
          else
            case idle c1 of
              (Inl a, c2) \<Rightarrow> (Some a, c2)
            | (Inr _, c2) \<Rightarrow>
                (case wakes of
                   [] \<Rightarrow> (None, c2)
                 | (now', Woken f) # ws \<Rightarrow> block_loop attempt idle show_ok now' ws (c2\<lparr>c_snapshot := f\<rparr>)
                 | (_, WaitFailed unblocked) # _ \<Rightarrow> (Some (if unblocked then err_unblocked else WriteNullArray), c2)))"

declare block_loop.simps [simp del]

text \<open>With \<^verbatim>\<open>CLAIM\<close>, the pending entries are read to find when the next one can be claimed.\<close>

definition read_pels :: "bytes \<Rightarrow> bytes list \<Rightarrow> (answer, unit) cmd" where
  "read_pels groupName streamKeys =
     or_reply (each_cmd (\<lambda>sKey. bind_cmd (getPELSnapshot sKey groupName) (\<lambda>_. ok ())) streamKeys)"

definition err_nogroup_read :: "bytes \<Rightarrow> bytes \<Rightarrow> answer" where
  "err_nogroup_read key groupName =
     WriteError (bstr ''NOGROUP No such key '' @ quoted key @ bstr '' or consumer group '' @ quoted groupName @
       bstr '' in XREADGROUP with GROUP option'')"

definition xreadgroup_claim_try ::
  "(DataEffect \<Rightarrow> bytes) \<Rightarrow> u64 \<Rightarrow> bytes \<Rightarrow> bytes \<Rightarrow> RGOpts \<Rightarrow> (bytes \<times> GroupFrom) list \<Rightarrow> (answer, streamResultWithClaim list) cmd" where
  "xreadgroup_claim_try dec now groupName consumerName opts kfs =
     rg_answer (err_nogroup_read (fst (hd kfs)) groupName)
       (doXReadGroupClaim dec now kfs groupName consumerName (rg_count opts) (rg_noAck opts) (rg_claimMinIdle opts))"

definition finish :: "('r list \<Rightarrow> answer) \<Rightarrow> ((answer + 'r list) \<times> Context) \<Rightarrow> answer option \<times> Context" where
  "finish show_ok rc =
     (case rc of
        (Inl a, c) \<Rightarrow> (Some a, c)
      | (Inr results, c) \<Rightarrow> (Some (show_ok results), c))"

definition null_or :: "('r list \<Rightarrow> answer) \<Rightarrow> 'r list \<Rightarrow> answer" where
  "null_or show_ok results = (if results = [] then WriteNullArray else show_ok results)"

definition handleXReadGroup ::
  "(DataEffect \<Rightarrow> bytes) \<Rightarrow> bool \<Rightarrow> u64 \<Rightarrow> bytes list \<Rightarrow> (u64 \<times> wake) list \<Rightarrow> Context \<times> Writer \<Rightarrow> Writer option \<times> Context" where
  "handleXReadGroup dec inScript now args wakes cw =
     (let (c, w) = cw;
          say = (\<lambda>(r, c). (map_option (\<lambda>a. a w) r, c))
      in if inScript then (Some (h_writer (handleXReadGroupNonBlocking dec now args w)), c)
         else
           case parse_rg_args True args of
             Inl a \<Rightarrow> (Some (a w), c)
           | Inr (groupName, consumerName, opts, kfs) \<Rightarrow>
               let hasNewOnly = list_ex (\<lambda>(_, from). from = NewOnly) kfs;
                   claim = (\<lambda>now. xreadgroup_claim_try dec now groupName consumerName opts kfs);
                   try = (\<lambda>now. xreadgroup_try dec now groupName consumerName opts kfs)
               in if 0 \<le> sint (rg_claimMinIdle opts) \<and> hasNewOnly then
                    (if \<not> rg_block opts then say (finish (null_or writeXReadResultsWithClaim) (claim now c))
                     else say (block_loop claim (read_pels groupName (map fst kfs)) writeXReadResultsWithClaim now wakes c))
                  else if \<not> rg_block opts then say (finish (null_or writeXReadResults) (try now c))
                  else if \<not> hasNewOnly then
                    say (finish (\<lambda>rs. writeXReadGroupHistoryResults rs (map fst kfs)) (try now c))
                  else say (block_loop try (ok ()) writeXReadResults now wakes c))"

section \<open>XACKDEL\<close>

definition ackdel_one ::
  "bytes \<Rightarrow> bytes \<Rightarrow> RefMode \<Rightarrow> ReducedEffect option \<Rightarrow> StreamID \<Rightarrow> int list \<Rightarrow> (bytes, int list) cmd" where
  "ackdel_one key groupName mode pelSnap sid results =
     (if \<not> pending_in sid pelSnap then ok (results @ [- 1])
      else
        seq_cmd (emitPELRemove key groupName sid)
          (case mode of
             RefModeKeepRef \<Rightarrow> seq_cmd (emitStreamRemove key sid) (ok (results @ [1]))
           | RefModeDelRef \<Rightarrow>
               bind_cmd (listGroupNames key) (\<lambda>names.
                 seq_cmd (each_cmd (\<lambda>g. emitPELRemove key g sid) (filter (\<lambda>g. g \<noteq> groupName) names))
                   (seq_cmd (emitStreamRemove key sid) (ok (results @ [1]))))
           | RefModeAcked \<Rightarrow>
               bind_cmd (listGroupNames key) (\<lambda>names.
               bind_cmd
                 (all_cmd (\<lambda>g. bind_cmd (getPELSnapshot key g) (\<lambda>other. ok (\<not> pending_in sid other)))
                   (filter (\<lambda>g. g \<noteq> groupName) names))
                 (\<lambda>allAcked.
                   if allAcked then seq_cmd (emitStreamRemove key sid) (ok (results @ [1])) else ok (results @ [2])))))"

definition xackdel_command :: "bytes \<Rightarrow> bytes \<Rightarrow> RefMode \<Rightarrow> StreamID list \<Rightarrow> (answer, answer) cmd" where
  "xackdel_command key groupName mode ids =
     (let none = write_id_results (replicate (length ids) (- 1)) in
      with_group key groupName none none (\<lambda>_.
        bind_cmd (or_reply (getPELSnapshot key groupName)) (\<lambda>pelSnap.
        bind_cmd (or_reply (fold_cmd (ackdel_one key groupName mode pelSnap) ids [])) (\<lambda>results. ok (write_id_results results)))))"

definition handleXAckDel :: "bytes list \<Rightarrow> Writer \<Rightarrow> handler_result" where
  "handleXAckDel args w =
     (case args of
        key # groupName # r \<Rightarrow>
          if length args < 5 then reject [] (WriteWrongNumArguments (bstr ''xackdel'') w)
          else
            (case parse_ids_args 2 r of
               Inl a \<Rightarrow> reject [key] (a w)
             | Inr (mode, ids) \<Rightarrow> accept [key] w (run_with_savepoint (xackdel_command key groupName mode ids)))
      | _ \<Rightarrow> reject [] (WriteWrongNumArguments (bstr ''xackdel'') w))"

section \<open>XCLAIM\<close>

record ClaimOpts =
  cl_ids :: "StreamID list"
  cl_force :: bool
  cl_justID :: bool
  cl_idleMs :: i64
  cl_timeMs :: i64
  cl_retryCount :: i64

definition no_claim_opts :: ClaimOpts where
  "no_claim_opts = \<lparr>cl_ids = [], cl_force = False, cl_justID = False, cl_idleMs = - 1, cl_timeMs = - 1, cl_retryCount = - 1\<rparr>"

fun parse_xclaim :: "ClaimOpts \<Rightarrow> bytes list \<Rightarrow> answer + ClaimOpts" where
  "parse_xclaim opts [] = Inr opts"
| "parse_xclaim opts (a # r) =
     (let arg = ToUpper a in
      if arg = bstr ''IDLE'' \<or> arg = bstr ''TIME'' \<or> arg = bstr ''RETRYCOUNT'' then
        (case r of
           [] \<Rightarrow> Inl err_syntax
         | v # r' \<Rightarrow>
             (case atoi v of
                None \<Rightarrow> Inl err_int
              | Some n \<Rightarrow>
                  if arg = bstr ''IDLE'' then parse_xclaim (opts\<lparr>cl_idleMs := word_of_int n\<rparr>) r'
                  else if arg = bstr ''TIME'' then parse_xclaim (opts\<lparr>cl_timeMs := word_of_int n\<rparr>) r'
                  else parse_xclaim (opts\<lparr>cl_retryCount := word_of_int n\<rparr>) r'))
      else if arg = bstr ''FORCE'' then parse_xclaim (opts\<lparr>cl_force := True\<rparr>) r
      else if arg = bstr ''JUSTID'' then parse_xclaim (opts\<lparr>cl_justID := True\<rparr>) r
      else if arg = bstr ''LASTID'' then (case r of [] \<Rightarrow> Inl err_syntax | _ # r' \<Rightarrow> parse_xclaim opts r')
      else
        case parse_plain_id a of
          None \<Rightarrow> Inl err_stream_id
        | Some sid \<Rightarrow> parse_xclaim (opts\<lparr>cl_ids := cl_ids opts @ [sid]\<rparr>) r)"

definition find_pending :: "(DataEffect \<Rightarrow> bytes) \<Rightarrow> ReducedEffect option \<Rightarrow> StreamID \<Rightarrow> PendingEntry option" where
  "find_pending dec pelSnap sid =
     (case map_of (net_adds pelSnap) (encodeStreamElementID sid) of
        None \<Rightarrow> None
      | Some el \<Rightarrow>
          let (consumer, deliveryTime, deliveryCount) = decodePELEntry (dec (el_Data el))
          in Some \<lparr>pe_ID = sid, pe_Consumer = consumer, pe_DeliveryTime = deliveryTime, pe_DeliveryCount = deliveryCount\<rparr>)"

definition claim_time :: "u64 \<Rightarrow> ClaimOpts \<Rightarrow> i64" where
  "claim_time now opts =
     (if 0 \<le> sint (cl_timeMs opts) then cl_timeMs opts
      else if 0 \<le> sint (cl_idleMs opts) then now - cl_idleMs opts
      else now)"

definition claim_count :: "ClaimOpts \<Rightarrow> PendingEntry option \<Rightarrow> i64" where
  "claim_count opts pe =
     (if 0 \<le> sint (cl_retryCount opts) then cl_retryCount opts
      else
        case pe of
          None \<Rightarrow> 1
        | Some p \<Rightarrow> if cl_justID opts then pe_DeliveryCount p else pe_DeliveryCount p + 1)"

definition claim_one ::
  "(DataEffect \<Rightarrow> bytes) \<Rightarrow> u64 \<Rightarrow> bytes \<Rightarrow> bytes \<Rightarrow> bytes \<Rightarrow> i64 \<Rightarrow> ClaimOpts \<Rightarrow> StreamEntry list \<Rightarrow> ReducedEffect option \<Rightarrow>
   StreamID \<Rightarrow> StreamEntry list \<Rightarrow> (bytes, StreamEntry list) cmd" where
  "claim_one dec now key groupName consumerName minIdleTime opts es pelSnap sid claimed =
     (let pe = find_pending dec pelSnap sid in
      if pe = None \<and> \<not> cl_force opts then ok claimed
      else if (case pe of None \<Rightarrow> False
                 | Some p \<Rightarrow> 0 < sint minIdleTime \<and> sint (now - pe_DeliveryTime p) < sint minIdleTime) then ok claimed
      else
        seq_cmd (emitPELInsert key groupName sid (encodePELEntry consumerName (claim_time now opts) (claim_count opts pe)))
          (ok (case find_entry es sid of None \<Rightarrow> claimed | Some e \<Rightarrow> claimed @ [e])))"

definition write_claimed :: "bool \<Rightarrow> StreamEntry list \<Rightarrow> answer" where
  "write_claimed justID es w =
     (if justID then write_all (\<lambda>e. WriteBulkStringStr (StreamID_String (se_ID e))) es (WriteArray (of_nat (length es)) w)
      else writeStreamEntries es w)"

definition xclaim_command ::
  "(DataEffect \<Rightarrow> bytes) \<Rightarrow> u64 \<Rightarrow> bytes \<Rightarrow> bytes \<Rightarrow> bytes \<Rightarrow> i64 \<Rightarrow> ClaimOpts \<Rightarrow> (answer, answer) cmd" where
  "xclaim_command dec now key groupName consumerName minIdleTime opts =
     with_group key groupName (WriteArray 0) (err_nogroup groupName key) (\<lambda>snap.
       bind_cmd (or_reply (getPELSnapshot key groupName)) (\<lambda>pelSnap.
       bind_cmd
         (or_reply (fold_cmd (claim_one dec now key groupName consumerName minIdleTime opts (snapshotToEntries dec snap) pelSnap)
            (cl_ids opts) []))
         (\<lambda>claimed.
            seq_cmd (or_reply (emitConsumerInsert key groupName consumerName (encodeConsumerMeta now now)))
              (ok (write_claimed (cl_justID opts) claimed)))))"

definition handleXClaim :: "(DataEffect \<Rightarrow> bytes) \<Rightarrow> u64 \<Rightarrow> bytes list \<Rightarrow> Writer \<Rightarrow> handler_result" where
  "handleXClaim dec now args w =
     (case args of
        key # groupName # consumerName # minIdleStr # i1 # is \<Rightarrow>
          (case parse_nonneg minIdleStr of
             None \<Rightarrow> reject [key] (WriteError (bstr ''ERR Invalid min-idle-time argument for XCLAIM'') w)
           | Some minIdleTime \<Rightarrow>
               (case parse_xclaim no_claim_opts (i1 # is) of
                  Inl a \<Rightarrow> reject [key] (a w)
                | Inr opts \<Rightarrow>
                    accept [key] w (run_with_savepoint (xclaim_command dec now key groupName consumerName minIdleTime opts))))
      | _ \<Rightarrow> reject [] (WriteWrongNumArguments (bstr ''xclaim'') w))"

section \<open>XAUTOCLAIM\<close>

fun parse_xautoclaim :: "int \<times> bool \<Rightarrow> bytes list \<Rightarrow> answer + int \<times> bool" where
  "parse_xautoclaim acc [] = Inr acc"
| "parse_xautoclaim (count, justID) (a # r) =
     (let opt = ToUpper a in
      if opt = bstr ''COUNT'' then
        (case r of
           [] \<Rightarrow> Inl err_syntax
         | v # r' \<Rightarrow>
             (case atoi v of
                None \<Rightarrow> Inl (WriteError (bstr ''ERR COUNT must be > 0''))
              | Some c \<Rightarrow>
                  if c < 1 \<or> c > 2147483647 then Inl (WriteError (bstr ''ERR COUNT must be > 0''))
                  else parse_xautoclaim (c, justID) r'))
      else if opt = bstr ''JUSTID'' then parse_xautoclaim (count, True) r
      else Inl err_syntax)"

text \<open>The scan: what was claimed, the IDs of deleted entries, and where to go on.\<close>

fun autoclaim_loop ::
  "bytes \<Rightarrow> bytes \<Rightarrow> bytes \<Rightarrow> u64 \<Rightarrow> i64 \<Rightarrow> StreamID \<Rightarrow> int \<Rightarrow> StreamEntry list \<Rightarrow> PendingEntry list \<Rightarrow> nat \<Rightarrow>
   StreamEntry list \<times> StreamID list \<Rightarrow> (bytes, StreamEntry list \<times> StreamID list \<times> StreamID) cmd" where
  "autoclaim_loop key groupName consumerName now minIdle startID count es [] n (claimed, deleted) = ok (claimed, deleted, MinStreamID)"
| "autoclaim_loop key groupName consumerName now minIdle startID count es (pe # pes) n (claimed, deleted) =
     (let loop = autoclaim_loop key groupName consumerName now minIdle startID count es pes in
      if Compare (pe_ID pe) startID < 0 then loop n (claimed, deleted)
      else if int n \<ge> count then ok (claimed, deleted, pe_ID pe)
      else if sint (now - pe_DeliveryTime pe) < sint minIdle then loop (Suc n) (claimed, deleted)
      else
        case find_entry es (pe_ID pe) of
          None \<Rightarrow> seq_cmd (emitPELRemove key groupName (pe_ID pe)) (loop (Suc n) (claimed, deleted @ [pe_ID pe]))
        | Some e \<Rightarrow>
            seq_cmd (emitPELInsert key groupName (pe_ID pe) (encodePELEntry consumerName now (pe_DeliveryCount pe + 1)))
              (loop (Suc n) (claimed @ [e], deleted)))"

definition write_autoclaim :: "bool \<Rightarrow> StreamEntry list \<times> StreamID list \<times> StreamID \<Rightarrow> answer" where
  "write_autoclaim justID r w =
     (case r of (claimed, deleted, cursor) \<Rightarrow>
        write_all (\<lambda>sid. WriteBulkStringStr (StreamID_String sid)) deleted
          (WriteArray (of_nat (length deleted))
            (write_claimed justID claimed (WriteBulkStringStr (StreamID_String cursor) (WriteArray 3 w)))))"

definition xautoclaim_command ::
  "(DataEffect \<Rightarrow> bytes) \<Rightarrow> u64 \<Rightarrow> bytes \<Rightarrow> bytes \<Rightarrow> bytes \<Rightarrow> i64 \<Rightarrow> StreamID \<Rightarrow> int \<Rightarrow> bool \<Rightarrow> (answer, answer) cmd" where
  "xautoclaim_command dec now key groupName consumerName minIdleTime startID count justID =
     with_group key groupName (write_autoclaim False ([], [], MinStreamID)) (err_nogroup groupName key) (\<lambda>snap.
       bind_cmd (or_reply (getPELSnapshot key groupName)) (\<lambda>pelSnap.
       bind_cmd
         (or_reply (autoclaim_loop key groupName consumerName now minIdleTime startID count (snapshotToEntries dec snap)
            (pelToEntries dec pelSnap) 0 ([], [])))
         (\<lambda>r.
            seq_cmd (or_reply (emitConsumerInsert key groupName consumerName (encodeConsumerMeta now now)))
              (ok (write_autoclaim justID r)))))"

definition handleXAutoClaim :: "(DataEffect \<Rightarrow> bytes) \<Rightarrow> u64 \<Rightarrow> bytes list \<Rightarrow> Writer \<Rightarrow> handler_result" where
  "handleXAutoClaim dec now args w =
     (case args of
        key # groupName # consumerName # minIdleStr # startStr # r \<Rightarrow>
          (case parse_nonneg minIdleStr of
             None \<Rightarrow> reject [key] (WriteError (bstr ''ERR Invalid min-idle-time argument for XAUTOCLAIM'') w)
           | Some minIdleTime \<Rightarrow>
               (case ParseStreamID startStr of
                  Inl _ \<Rightarrow> reject [key] (err_stream_id w)
                | Inr (startID, _, _) \<Rightarrow>
                    (case parse_xautoclaim (100, False) r of
                       Inl a \<Rightarrow> reject [key] (a w)
                     | Inr (count, justID) \<Rightarrow>
                         accept [key] w (run_with_savepoint
                           (xautoclaim_command dec now key groupName consumerName minIdleTime startID count justID)))))
      | _ \<Rightarrow> reject [] (WriteWrongNumArguments (bstr ''xautoclaim'') w))"

end
