(* ===== verification/Stream_Range_Facts.thy ===== *)
theory Stream_Range_Facts
  imports Stream_Deliver
begin

text \<open>Ranges of a stream, and the keys under which its parts are stored.\<close>

section \<open>Ranges\<close>

definition in_range :: "StreamID \<Rightarrow> StreamID \<Rightarrow> bool \<Rightarrow> bool \<Rightarrow> StreamEntry \<Rightarrow> bool" where
  "in_range start fin startExcl endExcl e \<longleftrightarrow>
     (if startExcl then start < se_ID e else start \<le> se_ID e) \<and> (if endExcl then se_ID e < fin else se_ID e \<le> fin)"

definition limited :: "int \<Rightarrow> 'a list \<Rightarrow> 'a list" where
  "limited count xs = (if count > 0 then take (nat count) xs else xs)"

lemma Compare_order [simp]:
  "Compare a b \<le> 0 \<longleftrightarrow> a \<le> b" "Compare a b < 0 \<longleftrightarrow> a < b" "0 < Compare a b \<longleftrightarrow> b < a" "0 \<le> Compare a b \<longleftrightarrow> b \<le> a"
  by (auto simp: Compare_cases)

lemma filter_none: "(\<And>x. x \<in> set xs \<Longrightarrow> \<not> P x) \<Longrightarrow> filter P xs = []"
  by (simp add: filter_empty_conv)

lemma take_one_more:
  "int (length res) < n \<Longrightarrow> take (nat n - length res) (e # ys) = e # take (nat n - Suc (length res)) ys"
proof -
  assume "int (length res) < n"
  then have "nat n - length res = Suc (nat n - Suc (length res))" by linarith
  then show ?thesis by simp
qed

lemma range_loop_eq:
  "sorted (map se_ID es) \<Longrightarrow> (count > 0 \<longrightarrow> int (length res) < count) \<Longrightarrow>
   range_loop start fin sx ex count es res =
   res @ (let xs = filter (in_range start fin sx ex) es in if count > 0 then take (nat count - length res) xs else xs)"
proof (induction es arbitrary: res)
  case (Cons e es)
  have srt: "sorted (map se_ID es)" using Cons.prems(1) by simp
  show ?case
  proof (cases "in_range start fin sx ex e")
    case True
    then have step: "range_loop start fin sx ex count (e # es) res =
        (if count > 0 \<and> int (length (res @ [e])) \<ge> count then res @ [e] else range_loop start fin sx ex count es (res @ [e]))"
      by (auto simp: in_range_def Let_def split: if_splits)
    show ?thesis
    proof (cases "count > 0 \<and> int (length (res @ [e])) \<ge> count")
      case stop: True
      then have "nat count - length res = 1" using Cons.prems(2) by auto
      then show ?thesis unfolding step if_P [OF stop] using True stop by (simp add: Let_def)
    next
      case False
      then have "range_loop start fin sx ex count es (res @ [e]) =
          (res @ [e]) @ (let xs = filter (in_range start fin sx ex) es in if count > 0 then take (nat count - length (res @ [e])) xs else xs)"
        by (intro Cons.IH [OF srt]) auto
      then show ?thesis unfolding step if_not_P [OF False]
        using True Cons.prems(2) by (cases "count > 0") (simp_all add: Let_def take_one_more)
    qed
  next
    case False
    show ?thesis
    proof (cases "\<not> ex \<and> fin < se_ID e \<and> (if sx then start < se_ID e else start \<le> se_ID e)")
      case True
      have "filter (in_range start fin sx ex) es = []"
        using True Cons.prems(1) by (intro filter_none) (auto simp: in_range_def dest: order.strict_trans2)
      then show ?thesis using False True by (auto simp: Let_def split: if_splits)
    next
      case skip: False
      then have "range_loop start fin sx ex count (e # es) res = range_loop start fin sx ex count es res"
        using False by (auto simp: in_range_def Let_def split: if_splits)
      then show ?thesis using Cons.IH [OF srt Cons.prems(2)] False by simp
    qed
  qed
qed simp

lemma range_reverse_loop_eq:
  "sorted (map se_ID (rev es)) \<Longrightarrow> (count > 0 \<longrightarrow> int (length res) < count) \<Longrightarrow>
   range_reverse_loop start fin sx ex count es res =
   res @ (let xs = filter (in_range start fin sx ex) es in if count > 0 then take (nat count - length res) xs else xs)"
proof (induction es arbitrary: res)
  case (Cons e es)
  have srt: "sorted (map se_ID (rev es))" and le: "\<And>x. x \<in> set es \<Longrightarrow> se_ID x \<le> se_ID e"
    using Cons.prems(1) by (auto simp: sorted_append)
  show ?case
  proof (cases "in_range start fin sx ex e")
    case True
    then have step: "range_reverse_loop start fin sx ex count (e # es) res =
        (if count > 0 \<and> int (length (res @ [e])) \<ge> count then res @ [e] else range_reverse_loop start fin sx ex count es (res @ [e]))"
      by (auto simp: in_range_def Let_def split: if_splits)
    show ?thesis
    proof (cases "count > 0 \<and> int (length (res @ [e])) \<ge> count")
      case stop: True
      then have "nat count - length res = 1" using Cons.prems(2) by auto
      then show ?thesis unfolding step if_P [OF stop] using True stop by (simp add: Let_def)
    next
      case False
      then have "range_reverse_loop start fin sx ex count es (res @ [e]) =
          (res @ [e]) @ (let xs = filter (in_range start fin sx ex) es in if count > 0 then take (nat count - length (res @ [e])) xs else xs)"
        by (intro Cons.IH [OF srt]) auto
      then show ?thesis unfolding step if_not_P [OF False]
        using True Cons.prems(2) by (cases "count > 0") (simp_all add: Let_def take_one_more)
    qed
  next
    case False
    show ?thesis
    proof (cases "\<not> sx \<and> se_ID e < start \<and> (if ex then se_ID e < fin else se_ID e \<le> fin)")
      case True
      have "filter (in_range start fin sx ex) es = []"
        using True le by (intro filter_none) (auto simp: in_range_def dest: order.strict_trans1)
      then show ?thesis using False True by (auto simp: Let_def split: if_splits)
    next
      case skip: False
      then have "range_reverse_loop start fin sx ex count (e # es) res = range_reverse_loop start fin sx ex count es res"
        using False by (auto simp: in_range_def Let_def split: if_splits)
      then show ?thesis using Cons.IH [OF srt Cons.prems(2)] False by simp
    qed
  qed
qed simp

lemma rangeEntries_eq:
  "sorted (map se_ID es) \<Longrightarrow> rangeEntries es start fin sx ex count = limited count (filter (in_range start fin sx ex) es)"
  by (simp add: rangeEntries_def range_loop_eq limited_def Let_def)

lemma rangeEntriesReverse_eq:
  "sorted (map se_ID es) \<Longrightarrow>
   rangeEntriesReverse es start fin sx ex count = limited count (rev (filter (in_range start fin sx ex) es))"
  by (simp add: rangeEntriesReverse_def range_reverse_loop_eq limited_def Let_def rev_filter)

text \<open>
  Claim C15. On a stream in the order of its IDs, the early exits of the range loops do not change the result:
  \<^verbatim>\<open>XRANGE\<close> returns the entries between the two bounds, each inclusive or exclusive as asked, in order and cut off
  after the count, and \<^verbatim>\<open>XREVRANGE\<close> the same entries from the other end.
\<close>

theorem ranges_exact:
  assumes "sorted (map se_ID es)"
  shows "rangeEntries es start fin sx ex count = limited count (filter (in_range start fin sx ex) es) \<and>
    rangeEntriesReverse es start fin sx ex count = limited count (rev (filter (in_range start fin sx ex) es))"
  using rangeEntries_eq [OF assms] rangeEntriesReverse_eq [OF assms] by blast

theorem ranges_exact_witness:
  "rangeEntriesReverse (map (\<lambda>n. \<lparr>se_ID = StreamID n 0, se_Fields = []\<rparr>) [1, 2, 3]) (StreamID 1 0) (StreamID 3 0) True False 1 =
   [\<lparr>se_ID = StreamID 3 0, se_Fields = []\<rparr>]"
proof -
  let ?es = "map (\<lambda>n. \<lparr>se_ID = StreamID n 0, se_Fields = []\<rparr>) [1, 2, 3 :: u64]"
  have "sorted (map se_ID ?es)" by (simp add: less_eq_StreamID_def)
  from ranges_exact [OF this, of "StreamID 1 0" "StreamID 3 0" True False 1] show ?thesis
    by (simp add: limited_def in_range_def less_eq_StreamID_def less_StreamID_def)
qed

section \<open>Keys\<close>

text \<open>What is stored under the keys of a stream.\<close>

datatype part = Entries | Group bytes | Pending bytes | Producer bytes | Settings

fun part_key :: "bytes \<Rightarrow> part \<Rightarrow> bytes" where
  "part_key stream Entries = stream"
| "part_key stream (Group g) = groupKey stream g"
| "part_key stream (Pending g) = pelKey stream g"
| "part_key stream (Producer p) = producerKey stream p"
| "part_key stream Settings = cfgKey stream"

fun part_suffix :: "part \<Rightarrow> bytes" where
  "part_suffix Entries = []"
| "part_suffix (Group g) = 1 # 103 # 1 # g"
| "part_suffix (Pending g) = 1 # 112 # 101 # 108 # 1 # g"
| "part_suffix (Producer p) = 1 # 112 # 1 # p"
| "part_suffix Settings = [1, 99, 102, 103]"

lemma part_key_suffix: "part_key stream p = stream @ part_suffix p"
  by (cases p) (simp_all add: groupKey_def pelKey_def producerKey_def cfgKey_def bytes_simps)

lemma part_suffix_inj: "part_suffix p = part_suffix q \<Longrightarrow> p = q"
  by (cases p; cases q) auto

lemma part_suffix_start: "part_suffix p = [] \<or> hd (part_suffix p) = 1"
  by (cases p) auto

lemma split_at_one:
  assumes "s @ r = s' @ r'" "1 \<notin> set s" "1 \<notin> set s'" "r = [] \<or> hd r = 1" "r' = [] \<or> hd r' = (1 :: byte)"
  shows "s = s'"
proof -
  have "takeWhile (\<lambda>b. b \<noteq> 1) (s @ r) = s" if "1 \<notin> set s" "r = [] \<or> hd r = 1" for s r :: bytes
  proof -
    have "takeWhile (\<lambda>b. b \<noteq> 1) r = []" using that(2) by (cases r) auto
    then show ?thesis using that(1) by (subst takeWhile_append2) auto
  qed
  from this [OF assms(2,4)] this [OF assms(3,5)] show ?thesis using assms(1) by simp
qed

text \<open>
  The parts of streams do not share keys: for stream names without the byte 1, the key of the entries, of a
  group, of a pending list, of a producer or of the settings determines the stream, the kind of part and its name. The
  registries of groups and of producers are not apart from these, however: they are the keys of a group and of
  a producer with the name \<^verbatim>\<open>__registry__\<close>.
\<close>

theorem stream_keys_apart:
  assumes "1 \<notin> set s" "1 \<notin> set s'"
  shows "(part_key s p = part_key s' q \<longleftrightarrow> s = s' \<and> p = q) \<and>
    group_registry_key s = part_key s (Group (bstr ''__registry__'')) \<and>
    producer_registry_key s = part_key s (Producer (bstr ''__registry__''))"
proof -
  have "s = s' \<and> p = q" if "part_key s p = part_key s' q"
  proof -
    have "s @ part_suffix p = s' @ part_suffix q" using that by (simp add: part_key_suffix)
    moreover from this have "s = s'" using split_at_one assms part_suffix_start by blast
    ultimately show ?thesis using part_suffix_inj by auto
  qed
  then show ?thesis by (auto simp: group_registry_key_def producer_registry_key_def groupKey_def producerKey_def)
qed

theorem stream_keys_apart_witness:
  "part_key [97] (Group [98]) \<noteq> part_key [97] (Pending [98])"
  using stream_keys_apart [of "[97]" "[97]" "Group [98]" "Pending [98]"] by simp

end
