(* ===== verification/Stream_Add_Facts.thy ===== *)
theory Stream_Add_Facts
  imports Stream_Range_Facts "HOL-Library.Sublist"
begin

text \<open>What \<^verbatim>\<open>XADD\<close> adds to a stream.\<close>

section \<open>The stream in a snapshot\<close>

text \<open>The snapshot that a command works with: none for a deleted key or a key of another type.\<close>

definition classify :: "ReducedEffect option \<Rightarrow> tip list \<Rightarrow> ReducedEffect option \<times> tip list \<times> bool \<times> bool" where
  "classify s tips =
     (case s of
        None \<Rightarrow> (None, tips, False, False)
      | Some r \<Rightarrow>
          if r_Op r = REMOVE_OP then (None, tips, False, False)
          else if r_Collection r = ORDERED \<or> r_TypeTag r = TYPE_STREAM then (Some r, tips, True, False)
          else (None, tips, True, True))"

definition stream_of :: "ReducedEffect option \<Rightarrow> ReducedEffect option" where
  "stream_of s = fst (classify s [])"

lemma classify_eq: "classify s tips = (stream_of s, tips, snd (snd (classify s [])))"
  by (auto simp: stream_of_def classify_def split: option.splits)

lemma getStreamSnapshot_eq: "GetSnapshot key c = Inr (s, tips) \<Longrightarrow> getStreamSnapshot key c = (Inr (classify s tips), c)"
  by (auto simp: getStreamSnapshot_def cmd_defs classify_def split: option.splits CollectionKind.splits intro: CollectionKind.exhaust)

lemma stream_of_ordered:
  "stream_of (Some r) = Some r" if "r_Op r = INSERT_OP" "r_Collection r = ORDERED"
  using that by (simp add: stream_of_def classify_def)

text \<open>
  A stream as the commands build it: an ordered collection of elements with IDs of 16 bytes, in
  strictly ascending order.
\<close>

definition elem_id :: "ReducedElement \<Rightarrow> bytes" where
  "elem_id el = d_Id (el_Data el)"

definition stream_ok :: "ReducedEffect option \<Rightarrow> bool" where
  "stream_ok s \<longleftrightarrow>
     (case s of
        None \<Rightarrow> True
      | Some r \<Rightarrow>
          r_Op r = INSERT_OP \<and> r_Collection r = ORDERED \<and> r_NetAdds r = [] \<and>
          list_all (\<lambda>el. length (elem_id el) = 16) (r_Ordered r) \<and>
          sorted_wrt (<) (map (\<lambda>el. decodeStreamElementID (elem_id el)) (r_Ordered r)))"

lemma stream_ok_stream_of [simp]: "stream_ok s \<Longrightarrow> stream_of s = s"
  by (auto simp: stream_ok_def stream_of_def classify_def split: option.splits)

lemma entries_ok:
  "stream_ok (Some r) \<Longrightarrow> snapshotToEntries dec (Some r) = map (\<lambda>el. entry_of dec (elem_id el) el) (r_Ordered r)"
  by (auto simp: stream_ok_def snapshotToEntries_def elem_id_def list_all_iff)

lemma entries_sorted: "stream_ok s \<Longrightarrow> sorted_wrt (<) (map se_ID (snapshotToEntries dec s))"
proof (cases s)
  case (Some r)
  assume ok: "stream_ok s"
  have "map se_ID (snapshotToEntries dec s) = map (\<lambda>el. decodeStreamElementID (elem_id el)) (r_Ordered r)"
    using entries_ok [of r dec] ok Some by (simp add: entry_of_def comp_def)
  then show ?thesis using ok Some by (simp add: stream_ok_def)
qed (simp add: snapshotToEntries_def)

lemma streamMetadata_ok:
  assumes "stream_ok (Some r)"
  shows "fst (streamMetadata dec (Some r)) = max (streamLastID (snapshotToEntries dec (Some r))) (max_removed (r_NetRemoves r))"
proof -
  have last: "streamLastID (snapshotToEntries dec (Some r)) =
      (if r_Ordered r = [] then MinStreamID else decodeStreamElementID (d_Id (el_Data (last (r_Ordered r)))))"
    unfolding entries_ok [OF assms] by (simp add: streamLastID_def last_map entry_of_def elem_id_def)
  have "length (d_Id (el_Data (last (r_Ordered r)))) = 16" if "r_Ordered r \<noteq> []"
    using that assms by (auto simp: stream_ok_def list_all_iff elem_id_def)
  then show ?thesis unfolding last using assms
    by (auto simp: stream_ok_def streamMetadata_def Let_def max_def)
qed

lemma IsZero_iff: "IsZero a \<longleftrightarrow> a = MinStreamID"
  by (auto simp: IsZero_def MinStreamID_def StreamID.expand)

lemma last_id_ok:
  assumes "stream_ok s"
  shows "last_id dec s = fst (streamMetadata dec s)" "e \<in> set (snapshotToEntries dec s) \<Longrightarrow> se_ID e \<le> last_id dec s"
proof -
  let ?es = "snapshotToEntries dec s"
  have le: "streamLastID ?es \<le> fst (streamMetadata dec s)"
    by (cases s) (use assms streamMetadata_ok in \<open>auto simp: streamLastID_def snapshotToEntries_def MinStreamID_least\<close>)
  then show eq: "last_id dec s = fst (streamMetadata dec s)"
    using MinStreamID_least [of "streamLastID ?es"] by (auto simp: last_id_def IsZero_iff Let_def)
  assume e: "e \<in> set ?es"
  have "se_ID e \<le> streamLastID ?es"
    using entries_sorted [OF assms, of dec] e
    by (cases ?es rule: rev_cases) (auto simp: streamLastID_def sorted_wrt_append)
  then show "se_ID e \<le> last_id dec s" using le eq by simp
qed

section \<open>The effects of XADD\<close>

text \<open>Whatever an effect does elsewhere, what it inserts into the stream is an entry with these fields and a larger ID.\<close>

definition inserts_above :: "bytes \<Rightarrow> bytes list \<Rightarrow> StreamID \<Rightarrow> Effect \<Rightarrow> bool" where
  "inserts_above key fs lastID e \<longleftrightarrow>
     (case e_Kind e of
        Data d \<Rightarrow> e_Key e = key \<and> d_Op d = INSERT_OP \<longrightarrow> (\<exists>sid > lastID. e = stream_insert key sid fs)
      | _ \<Rightarrow> True)"

lemma other_keys [simp]:
  "groupKey key g \<noteq> key" "pelKey key g \<noteq> key" "producerKey key p \<noteq> key" "cfgKey key \<noteq> key"
  "group_registry_key key \<noteq> key" "producer_registry_key key \<noteq> key"
  by (simp_all add: groupKey_def pelKey_def producerKey_def cfgKey_def group_registry_key_def producer_registry_key_def)

lemma inserts_above_simps [simp]:
  "key' \<noteq> key \<Longrightarrow> inserts_above key fs lastID (data_effect key' d)"
  "inserts_above key fs lastID (data_effect key' (remove_data kind i))"
  "inserts_above key fs lastID (meta_effect key' t)"
  "inserts_above key fs lastID \<lparr>e_Key = key', e_Kind = Noop\<rparr>"
  "lastID < sid \<Longrightarrow> inserts_above key fs lastID (stream_insert key sid fs)"
  by (auto simp: inserts_above_def data_effect_def remove_data_def meta_effect_def stream_insert_def)

lemmas stream_cmd_defs =
  emitStreamInsert_def emitStreamRemove_def stream_remove_def emitStreamTypeTag_def emitNoop_def keyed_insert_def keyed_remove_def
  emitPELRemove_def getGroupSnapshot_def getPELSnapshot_def listGroupNames_def emitCfgSet_def getConfigCounter_def
  getStreamConfig_def getStreamEntriesAdded_def incrementStreamEntriesAdded_def getIdmpGeneration_def getIidsAdded_def
  incrementIidsAdded_def getIidsDuplicates_def incrementIidsDuplicates_def emitProducerRegistryInsert_def
  emitProducerSeqWithConfig_def lookupProducerSeqWithConfig_def

lemma emits_trim_can: "emits P (trim_can dec key mode sid)"
  unfolding trim_can_def stream_cmd_defs by (intro emits_intros)

lemma emits_trim_handle: "emits (inserts_above key fs lastID) (trim_handle key mode sid)"
  unfolding trim_handle_def stream_cmd_defs by (intro emits_intros) simp

lemma emits_trim_by_minid: "emits (inserts_above key fs lastID) (trim_by_minid dec key mode m lim es n)"
  by (induction es arbitrary: n)
    (auto intro!: emits_intros emits_trim_can emits_trim_handle simp: stream_cmd_defs)

lemma emits_trim_by_len: "emits (inserts_above key fs lastID) (trim_by_len dec key mode m lim es n)"
  by (induction es arbitrary: n)
    (auto intro!: emits_intros emits_trim_can emits_trim_handle simp: stream_cmd_defs)

lemma emits_trimEntries: "emits (inserts_above key fs lastID) (trimEntries dec key es opts)"
  unfolding trimEntries_def Let_def by (intro emits_intros emits_trim_by_minid emits_trim_by_len)

lemma emits_xadd_write:
  "lastID < sid \<Longrightarrow> emits (inserts_above key fs lastID) (xadd_write dec ns now key opts fs snap tips ex gen ms sid)"
  unfolding xadd_write_def stream_cmd_defs Let_def by (intro emits_intros emits_trimEntries) simp_all

lemma emits_xadd_body:
  assumes "\<not> ex \<longrightarrow> snap = None" "lastID = last_id dec snap"
  shows "emits (inserts_above key fs lastID) (xadd_body dec ns now key opts idStr fs (snap, tips, ex, wt))"
proof -
  have *: "(if IsZero (fst (streamMetadata dec snap)) \<and> ex then streamLastID (snapshotToEntries dec snap)
      else fst (streamMetadata dec snap)) = lastID"
    using assms by (auto simp: last_id_def Let_def streamLastID_def snapshotToEntries_def streamMetadata_def IsZero_iff)
  have guarded: "emits P (seq_cmd (guard_cmd b a) m)" if "b \<Longrightarrow> emits P m" for b a and m :: "(answer, answer) cmd" and P
    using that by (cases b) (auto simp: guard_cmd_def seq_cmd_def bind_cmd_def ok_def stop_def emits_def intro: exI [of _ "[]"])
  show ?thesis unfolding xadd_body_def Let_def prod.case *
    by (intro guarded emits_intros emits_xadd_write) (auto simp: stream_cmd_defs xadd_config_def Let_def intro!: emits_intros)
qed

lemma classify_none: "classify s tips = (snap, tips', ex, wt) \<Longrightarrow> snap = stream_of s \<and> tips' = tips \<and> (\<not> ex \<longrightarrow> snap = None)"
  by (auto simp: classify_def stream_of_def split: option.splits if_splits)

lemma parse_threshold_suffix: "parse_threshold args = Some (a, t, r) \<Longrightarrow> suffix r args"
  by (auto simp: parse_threshold_def split: list.splits if_splits intro: suffix_ConsI)

lemma parse_limit_suffix: "parse_limit opts args = Inr (o', r) \<Longrightarrow> suffix r args"
  by (auto simp: parse_limit_def split: list.splits if_splits option.splits intro: suffix_ConsI)

lemma parse_maxlen_suffix: "parse_maxlen opts args = Inr (o', r) \<Longrightarrow> suffix r args"
  by (auto simp: parse_maxlen_def dest: parse_threshold_suffix split: option.splits prod.splits)

lemma parse_minid_suffix: "parse_minid opts args = Inr (o', r) \<Longrightarrow> suffix r args"
  by (auto simp: parse_minid_def dest: parse_threshold_suffix split: option.splits prod.splits sum.splits)

lemma parse_idmp_suffix: "parse_idmp opts args = Inr (o', r) \<Longrightarrow> suffix r args"
  by (auto simp: parse_idmp_def split: list.splits if_splits intro: suffix_ConsI)

lemma parse_idmpauto_suffix: "parse_idmpauto opts args = Inr (o', r) \<Longrightarrow> suffix r args"
  by (auto simp: parse_idmpauto_def split: list.splits if_splits intro: suffix_ConsI)

lemma xadd_option_suffix: "xadd_option opts a r = Some (Inr (o', r')) \<Longrightarrow> suffix r' r"
  unfolding xadd_option_def Let_def
  by (auto split: if_splits sum.splits prod.splits
      dest: parse_idmp_suffix parse_idmpauto_suffix parse_maxlen_suffix parse_minid_suffix parse_limit_suffix
      intro: suffix_order.trans)

lemma parse_xadd_suffix: "parse_xadd opts args = Inr (o', r) \<Longrightarrow> suffix r args"
proof (induction opts args rule: parse_xadd.induct)
  case (2 opts a r0)
  show ?case
  proof (cases "xadd_option opts a r0")
    case None
    then show ?thesis using "2.prems" by simp
  next
    case (Some v)
    show ?thesis
    proof (cases v)
      case (Inr p)
      obtain opts' r' where p: "p = (opts', r')" by (cases p)
      have "suffix r r'" using "2.IH" [OF Some Inr p [symmetric]] "2.prems" Some Inr p by simp
      moreover have "suffix r' r0" using Some Inr p by (simp add: xadd_option_suffix)
      ultimately show ?thesis by (meson suffix_ConsI suffix_order.trans)
    qed (use "2.prems" Some in simp)
  qed
qed simp

lemma xadd_handler:
  assumes "h_runner (handleXAdd dec ns now args w0) = Some f"
  obtains key opts idStr fs where "hd args = key" "f = run_with_savepoint (xadd_command dec ns now key opts idStr fs)"
    "suffix fs args"
proof -
  obtain key r where args: "args = key # r" and len: "\<not> length args < 4"
    using assms by (cases args) (auto simp: handleXAdd_def reject_def split: if_splits)
  obtain opts idStr fs where p: "parse_xadd no_xadd_opts r = Inr (opts, idStr # fs)"
    using assms len unfolding handleXAdd_def args by (auto simp: reject_def split: sum.splits list.splits)
  have "\<exists>opts'. f = run_with_savepoint (xadd_command dec ns now key opts' idStr fs)"
    using assms len p unfolding handleXAdd_def args by (auto simp: reject_def accept_def Let_def split: sum.splits if_splits)
  moreover have "suffix fs args"
    using parse_xadd_suffix [OF p] unfolding args by (meson suffix_ConsD suffix_ConsI)
  ultimately show thesis using that args by auto
qed

lemma returns_xadd_body:
  "returns (\<lambda>a. \<exists>sid. a = WriteBulkStringStr (StreamID_String sid)) (xadd_body dec ns now key opts idStr fs p)"
  unfolding xadd_body_def Let_def by (intro returns_intros) blast+

text \<open>
  Claim C14. \<^verbatim>\<open>XADD\<close> with any options and on any engine leaves effects only if it replies with an ID, and what it inserts into
  the stream is an entry with the given fields and an ID above the last ID of the stream; on a stream in ascending order that
  ID is above the IDs of all its entries, so the stream stays in order.
\<close>

theorem xadd_ids_increase:
  assumes "h_runner (handleXAdd dec ns now args w0) = Some f" "GetSnapshot (hd args) c = Inr (s, tips)"
  shows "\<exists>es a fs. f (c, w) = Some (c\<lparr>c_emitted := c_emitted c @ es\<rparr>, a w) \<and> suffix fs args \<and>
    (es = [] \<or> (\<exists>sid. a = WriteBulkStringStr (StreamID_String sid))) \<and>
    (\<forall>e \<in> set (map fst es). inserts_above (hd args) fs (last_id dec (stream_of s)) e) \<and>
    (stream_ok s \<longrightarrow> (\<forall>e \<in> set (snapshotToEntries dec s). se_ID e \<le> last_id dec (stream_of s)))"
proof -
  obtain key opts idStr fs where h: "hd args = key" "suffix fs args"
    "f = run_with_savepoint (xadd_command dec ns now key opts idStr fs)"
    using xadd_handler [OF assms(1)] by metis
  obtain snap tips' ex wt where cl: "classify s tips = (snap, tips', ex, wt)" by (cases "classify s tips") auto
  have snap: "snap = stream_of s" "\<not> ex \<longrightarrow> snap = None" using classify_none [OF cl] by auto
  define m where "m = xadd_body dec ns now key opts idStr fs (snap, tips', ex, wt)"
  have m: "emits (inserts_above key fs (last_id dec (stream_of s))) m"
    unfolding m_def by (rule emits_xadd_body) (use snap in auto)
  have "or_reply (getStreamSnapshot key) c = (Inr (snap, tips', ex, wt), c)"
    using getStreamSnapshot_eq assms(2) cl h(1) by (intro or_reply_ok) auto
  then have "xadd_command dec ns now key opts idStr fs c = m c"
    unfolding xadd_command_def m_def by (rule bind_cmd_ok)
  then have f: "f (c, w) = run_with_savepoint m (c, w)" unfolding h(3) run_with_savepoint_def by simp
  have le: "stream_ok s \<longrightarrow> (\<forall>e \<in> set (snapshotToEntries dec s). se_ID e \<le> last_id dec (stream_of s))"
    using last_id_ok(2) by auto
  from m show ?thesis
  proof (cases rule: run_with_savepoint_cases [where c = c and w = w])
    case (stopped a)
    then show ?thesis using f h(2) le by (intro exI [of _ "[]"]) auto
  next
    case (succeeded a es)
    have "\<exists>sid. a = WriteBulkStringStr (StreamID_String sid)"
      using returns_xadd_body succeeded(2) unfolding m_def returns_def by blast
    then show ?thesis using succeeded f h(1,2) le by (intro exI [of _ es] exI [of _ a] exI [of _ fs]) auto
  qed
qed

text \<open>A context in which every key is missing and no emission fails.\<close>

text \<open>\<^verbatim>\<open>XADD k 5-1 f v\<close>.\<close>

definition xadd_args :: "bytes list" where
  "xadd_args = [[107], [53, 45, 49], [102], [118]]"

lemma xadd_args_runner:
  "h_runner (handleXAdd dec ns now xadd_args w) =
   Some (run_with_savepoint (xadd_command dec ns now [107] no_xadd_opts [53, 45, 49] [[102], [118]]))"
  by (simp add: handleXAdd_def xadd_args_def xadd_option_def ToUpper_eq upper_def upper_byte_def bytes_simps no_xadd_opts_def
      accept_def Let_def)

theorem xadd_ids_increase_witness:
  "\<exists>es a. run_with_savepoint (xadd_command GetRaw 100 0 [107] no_xadd_opts [53, 45, 49] [[102], [118]]) (empty_context, NewWriter []) =
     Some (empty_context\<lparr>c_emitted := es\<rparr>, a (NewWriter [])) \<and>
     (es = [] \<or> (\<exists>sid. a = WriteBulkStringStr (StreamID_String sid)))"
  using xadd_ids_increase [OF xadd_args_runner, of empty_context None "[]" GetRaw 100 0 "NewWriter []"]
  by (auto simp: empty_context_def GetSnapshot_def)

end
