(* ===== verification/Stream_Refine.thy ===== *)
theory Stream_Refine
  imports Stream_Add_Facts
begin

text \<open>
  Streams as lists: what the effects of the stream commands do to the entries, given what the engine does with
  effects on an ordered collection. An insertion at the tail appends; a removal takes a present element out
  and records an absent one, as the comments of the stream commands say.
\<close>

section \<open>The engine\<close>

definition elems :: "ReducedEffect option \<Rightarrow> ReducedElement list" where
  "elems s = (case s of None \<Rightarrow> [] | Some r \<Rightarrow> r_Ordered r)"

definition removes :: "ReducedEffect option \<Rightarrow> bytes list" where
  "removes s = (case s of None \<Rightarrow> [] | Some r \<Rightarrow> r_NetRemoves r)"

definition plain_ordered :: "ReducedEffect \<Rightarrow> bool" where
  "plain_ordered r \<longleftrightarrow> r_Op r = INSERT_OP \<and> r_Collection r = ORDERED \<and> r_NetAdds r = []"

definition tail_insert :: "bytes \<Rightarrow> bytes \<Rightarrow> bytes \<Rightarrow> Effect" where
  "tail_insert key i v = data_effect key ((insert_data ORDERED i (Raw v))\<lparr>d_Placement := PLACE_TAIL\<rparr>)"

definition ordered_engine :: "(ReducedEffect option \<Rightarrow> Effect \<Rightarrow> ReducedEffect option) \<Rightarrow> (DataEffect \<Rightarrow> bytes) \<Rightarrow> bool" where
  "ordered_engine reduce dec \<longleftrightarrow>
     (\<forall>s key i v. stream_ok s \<and> i \<notin> elem_id ` set (elems s) \<longrightarrow>
        (\<exists>r el. reduce s (tail_insert key i v) = Some r \<and> plain_ordered r \<and> r_Ordered r = elems s @ [el] \<and>
           elem_id el = i \<and> dec (el_Data el) = v \<and> set (r_NetRemoves r) \<subseteq> set (removes s))) \<and>
     (\<forall>r key i. stream_ok (Some r) \<and> i \<in> elem_id ` set (r_Ordered r) \<longrightarrow>
        (\<exists>r'. reduce (Some r) (data_effect key (remove_data ORDERED i)) = Some r' \<and> plain_ordered r' \<and>
           r_Ordered r' = filter (\<lambda>el. elem_id el \<noteq> i) (r_Ordered r) \<and> r_NetRemoves r' = r_NetRemoves r)) \<and>
     (\<forall>r key i. stream_ok (Some r) \<and> i \<notin> elem_id ` set (r_Ordered r) \<longrightarrow>
        (\<exists>r'. reduce (Some r) (data_effect key (remove_data ORDERED i)) = Some r' \<and> plain_ordered r' \<and>
           r_Ordered r' = r_Ordered r \<and> set (r_NetRemoves r') = insert i (set (r_NetRemoves r)))) \<and>
     (\<forall>r key t. stream_ok (Some r) \<longrightarrow>
        (\<exists>r'. reduce (Some r) (meta_effect key t) = Some r' \<and> plain_ordered r' \<and> r_Ordered r' = r_Ordered r \<and>
           r_NetRemoves r' = r_NetRemoves r)) \<and>
     (\<forall>s key. reduce s \<lparr>e_Key = key, e_Kind = Noop\<rparr> = s)"

lemma engine_insert:
  "ordered_engine reduce dec \<Longrightarrow> stream_ok s \<Longrightarrow> i \<notin> elem_id ` set (elems s) \<Longrightarrow>
   \<exists>r el. reduce s (tail_insert key i v) = Some r \<and> plain_ordered r \<and> r_Ordered r = elems s @ [el] \<and>
     elem_id el = i \<and> dec (el_Data el) = v \<and> set (r_NetRemoves r) \<subseteq> set (removes s)"
  unfolding ordered_engine_def by (drule conjunct1) blast

lemma engine_remove:
  "ordered_engine reduce dec \<Longrightarrow> stream_ok (Some r) \<Longrightarrow> i \<in> elem_id ` set (r_Ordered r) \<Longrightarrow>
   \<exists>r'. reduce (Some r) (data_effect key (remove_data ORDERED i)) = Some r' \<and> plain_ordered r' \<and>
     r_Ordered r' = filter (\<lambda>el. elem_id el \<noteq> i) (r_Ordered r) \<and> r_NetRemoves r' = r_NetRemoves r"
  unfolding ordered_engine_def by (drule conjunct2, drule conjunct1) blast

lemma engine_remove_absent:
  "ordered_engine reduce dec \<Longrightarrow> stream_ok (Some r) \<Longrightarrow> i \<notin> elem_id ` set (r_Ordered r) \<Longrightarrow>
   \<exists>r'. reduce (Some r) (data_effect key (remove_data ORDERED i)) = Some r' \<and> plain_ordered r' \<and>
     r_Ordered r' = r_Ordered r \<and> set (r_NetRemoves r') = insert i (set (r_NetRemoves r))"
  unfolding ordered_engine_def by (drule conjunct2, drule conjunct2, drule conjunct1) blast

lemma ordered_engine_meta:
  "ordered_engine reduce dec \<Longrightarrow> stream_ok (Some r) \<Longrightarrow>
   \<exists>r'. reduce (Some r) (meta_effect key t) = Some r' \<and> plain_ordered r' \<and> r_Ordered r' = r_Ordered r \<and>
     r_NetRemoves r' = r_NetRemoves r"
  unfolding ordered_engine_def by (drule conjunct2, drule conjunct2, drule conjunct2, drule conjunct1) blast

lemma engine_noop: "ordered_engine reduce dec \<Longrightarrow> reduce s \<lparr>e_Key = key, e_Kind = Noop\<rparr> = s"
  unfolding ordered_engine_def by blast

lemma stream_ok_plain:
  "plain_ordered r \<Longrightarrow> stream_ok (Some r) \<longleftrightarrow>
     list_all (\<lambda>el. length (elem_id el) = 16) (r_Ordered r) \<and>
     sorted_wrt (<) (map (\<lambda>el. decodeStreamElementID (elem_id el)) (r_Ordered r))"
  by (simp add: stream_ok_def plain_ordered_def)

lemma snapshotToEntries_elems:
  "stream_ok s \<Longrightarrow> snapshotToEntries dec s = map (\<lambda>el. entry_of dec (elem_id el) el) (elems s)"
  by (cases s) (simp_all add: elems_def entries_ok, simp add: snapshotToEntries_def)

lemma stream_ok_elems:
  "stream_ok s \<Longrightarrow> list_all (\<lambda>el. length (elem_id el) = 16) (elems s) \<and>
     sorted_wrt (<) (map (\<lambda>el. decodeStreamElementID (elem_id el)) (elems s))"
  by (cases s) (simp_all add: elems_def stream_ok_def)

section \<open>Appending\<close>

text \<open>The largest removed ID.\<close>

lemma Max_insert_max:
  "finite D \<Longrightarrow> Max (insert (max a x) D) = Max (insert a (insert x (D :: StreamID set)))"
  by (cases "D = {}") (simp_all add: Max_insert max.assoc)

lemma max_removed_gen:
  "foldl (\<lambda>m i. if length i = 16 \<and> Compare (decodeStreamElementID i) m > 0 then decodeStreamElementID i else m) a is =
   Max (insert a (decodeStreamElementID ` {i \<in> set is. length i = 16}))"
proof (induction "is" arbitrary: a)
  case (Cons i "is")
  let ?D = "decodeStreamElementID ` {i \<in> set is. length i = 16}"
  show ?case
  proof (cases "length i = 16")
    case True
    have "{j \<in> set (i # is). length j = 16} = insert i {j \<in> set is. length j = 16}" using True by auto
    moreover have "Max (insert (max a (decodeStreamElementID i)) ?D) = Max (insert a (insert (decodeStreamElementID i) ?D))"
      by (rule Max_insert_max) simp
    moreover have "(if Compare (decodeStreamElementID i) a > 0 then decodeStreamElementID i else a) = max a (decodeStreamElementID i)"
      by (auto simp: max_def)
    ultimately show ?thesis using Cons True by simp
  next
    case False
    then have "{j \<in> set (i # is). length j = 16} = {j \<in> set is. length j = 16}" by auto
    then show ?thesis using Cons False by simp
  qed
qed simp

lemma max_removed_eq: "max_removed is = Max (insert MinStreamID (decodeStreamElementID ` {i \<in> set is. length i = 16}))"
  unfolding max_removed_def by (rule max_removed_gen)

lemma max_removed_mono: "set is \<subseteq> set js \<Longrightarrow> max_removed is \<le> max_removed js"
  unfolding max_removed_eq by (rule Max_mono) auto

lemma last_id_max:
  "stream_ok s \<Longrightarrow> last_id dec s = max (streamLastID (snapshotToEntries dec s)) (max_removed (removes s))"
  by (cases s) (simp_all add: last_id_ok streamMetadata_ok removes_def,
      simp add: streamMetadata_def streamLastID_def snapshotToEntries_def max_removed_def)

lemma entry_above:
  assumes "stream_ok s" "last_id dec s < sid" "el \<in> set (elems s)"
  shows "decodeStreamElementID (elem_id el) < sid"
proof -
  have "entry_of dec (elem_id el) el \<in> set (snapshotToEntries dec s)"
    using assms(1,3) by (simp add: snapshotToEntries_elems)
  from last_id_ok(2) [OF assms(1) this] show ?thesis using assms(2) by (simp add: entry_of_def)
qed

lemma insert_appends:
  assumes eng: "ordered_engine reduce dec" and s: "stream_ok s" and above: "last_id dec s < sid"
    and fs: "decodeStreamFields (encodeStreamFields fs) = fs"
  obtains r where "reduce s (stream_insert key sid fs) = Some r" "stream_ok (Some r)"
    "snapshotToEntries dec (Some r) = snapshotToEntries dec s @ [\<lparr>se_ID = sid, se_Fields = fs\<rparr>]"
    "last_id dec (Some r) = sid"
proof -
  have new: "encodeStreamElementID sid \<notin> elem_id ` set (elems s)"
  proof
    assume "encodeStreamElementID sid \<in> elem_id ` set (elems s)"
    then obtain el where el: "el \<in> set (elems s)" "elem_id el = encodeStreamElementID sid" by auto
    show False using entry_above [OF s above el(1)] by (simp add: el(2))
  qed
  obtain r el where r: "reduce s (stream_insert key sid fs) = Some r" "plain_ordered r" "r_Ordered r = elems s @ [el]"
    "elem_id el = encodeStreamElementID sid" "dec (el_Data el) = encodeStreamFields fs" "set (r_NetRemoves r) \<subseteq> set (removes s)"
    using engine_insert [OF eng s new, of key "encodeStreamFields fs"] unfolding tail_insert_def stream_insert_def by blast
  have ok: "stream_ok (Some r)"
    using stream_ok_elems [OF s] entry_above [OF s above] r(4) by (simp add: stream_ok_plain [OF r(2)] r(3) sorted_wrt_append)
  have es: "snapshotToEntries dec (Some r) = snapshotToEntries dec s @ [\<lparr>se_ID = sid, se_Fields = fs\<rparr>]"
    using r(3,4,5) fs by (simp add: entries_ok [OF ok] snapshotToEntries_elems [OF s] entry_of_def)
  have "max_removed (r_NetRemoves r) \<le> max_removed (removes s)" using r(6) by (rule max_removed_mono)
  also have "\<dots> \<le> last_id dec s" by (simp add: last_id_max [OF s])
  also note above
  finally have "last_id dec (Some r) = sid"
    by (simp add: last_id_max [OF ok] es streamLastID_def removes_def)
  then show thesis using that r(1) ok es by blast
qed

text \<open>A type tag and a noop leave the entries as they are.\<close>

lemma meta_keeps:
  assumes "ordered_engine reduce dec" "stream_ok (Some r)"
  obtains r' where "reduce (Some r) (meta_effect key t) = Some r'" "stream_ok (Some r')"
    "snapshotToEntries dec (Some r') = snapshotToEntries dec (Some r)" "last_id dec (Some r') = last_id dec (Some r)"
proof -
  obtain r' where r': "reduce (Some r) (meta_effect key t) = Some r'" "plain_ordered r'" "r_Ordered r' = r_Ordered r"
    "r_NetRemoves r' = r_NetRemoves r"
    using ordered_engine_meta [OF assms] by blast
  have ok: "stream_ok (Some r')" using assms(2) by (simp add: stream_ok_plain [OF r'(2)] r'(3)) (simp add: stream_ok_def)
  have "snapshotToEntries dec (Some r') = snapshotToEntries dec (Some r)" by (simp add: entries_ok ok assms(2) r'(3))
  moreover from this have "last_id dec (Some r') = last_id dec (Some r)"
    by (simp add: last_id_max [OF ok] last_id_max [OF assms(2)] removes_def r'(4))
  ultimately show thesis using that r'(1) ok by blast
qed

section \<open>XADD on an existing or new stream\<close>

lemma incrementStreamEntriesAdded_ok:
  assumes "reads_ok c"
  obtains v where "incrementStreamEntriesAdded dec key c = (Inr (), adding [(data_effect (cfgKey key) (insert_data KEYED (bstr ''entries-added'') (Raw v)), [])] c)"
proof -
  obtain snap tips where "snapshot_cmd (cfgKey key) c = (Inr (snap, tips), c)" using snapshot_cmd_ok [OF assms] by blast
  then show thesis
    using that assms by (simp add: stream_cmd_defs bind_cmd_def ok_def emit_cmd_ok)
qed

lemma xadd_write_ok:
  assumes "reads_ok c" "\<not> xa_hasIDMP opts" "\<not> t_HasMaxLen (xa_trim opts)" "t_MinID (xa_trim opts) = None"
  obtains es where "xadd_write dec ns now key opts fs snap tips ex gen ms sid c = (Inr (), adding es c)"
    "on_key key es = (if tips \<noteq> [] then [\<lparr>e_Key = key, e_Kind = Noop\<rparr>] else []) @ [stream_insert key sid fs] @
       (if ex then [] else [meta_effect key TYPE_STREAM])"
proof -
  define n where "n = (if tips \<noteq> [] then [(\<lparr>e_Key = key, e_Kind = Noop\<rparr>, tips)] else [])"
  have 1: "when_cmd (tips \<noteq> []) (emitNoop key tips) c = (Inr (), adding n c)"
    using assms(1) by (auto simp: when_cmd_def emitNoop_def emit_cmd_ok ok_def n_def)
  have 2: "emitStreamInsert key sid fs (adding n c) = (Inr (), adding (n @ [(stream_insert key sid fs, [])]) c)"
    using assms(1) by (simp add: emitStreamInsert_def emit_cmd_ok)
  obtain v where 3: "incrementStreamEntriesAdded dec key (adding (n @ [(stream_insert key sid fs, [])]) c) =
      (Inr (), adding (n @ [(stream_insert key sid fs, []), (data_effect (cfgKey key) (insert_data KEYED (bstr ''entries-added'') (Raw v)), [])]) c)"
    using incrementStreamEntriesAdded_ok [of "adding (n @ [(stream_insert key sid fs, [])]) c"] assms(1) by auto
  define t where "t = (if ex then [] else [(meta_effect key TYPE_STREAM, [] :: tip list)])"
  have 4: "when_cmd (\<not> ex) (emitStreamTypeTag key) (adding l c) = (Inr (), adding (l @ t) c)" for l
    using assms(1) by (auto simp: when_cmd_def emitStreamTypeTag_def emit_cmd_ok ok_def t_def)
  have "xadd_write dec ns now key opts fs snap tips ex gen ms sid c =
      (Inr (), adding (n @ [(stream_insert key sid fs, []), (data_effect (cfgKey key) (insert_data KEYED (bstr ''entries-added'') (Raw v)), [])] @ t) c)"
    unfolding xadd_write_def seq_cmd_def bind_cmd_def 1 prod.case sum.case 2 3 4
    using assms(2-4) by (simp add: when_cmd_def ok_def)
  moreover have "e_Key (stream_insert key sid fs) = key" "e_Key (meta_effect key TYPE_STREAM) = key"
    "e_Key (data_effect (cfgKey key) d) \<noteq> key" for d
    by (simp_all add: stream_insert_def data_effect_def meta_effect_def)
  ultimately show thesis using that by (simp add: on_key_def n_def t_def)
qed

lemma no_opts:
  "\<not> xa_hasIDMP no_xadd_opts" "\<not> t_HasMaxLen (xa_trim no_xadd_opts)" "t_MinID (xa_trim no_xadd_opts) = None"
  by (simp_all add: no_xadd_opts_def no_trim_def)

lemma no_mk: "\<not> xa_noMkStream no_xadd_opts"
  by (simp add: no_xadd_opts_def)

lemma xadd_body_ok:
  assumes "reads_ok c" "stream_ok s" "ex \<longleftrightarrow> s \<noteq> None" "xadd_id dec now s idStr = Inr sid" "last_id dec s < sid"
  obtains es where "xadd_body dec ns now key no_xadd_opts idStr fs (s, tips, ex, False) c =
      (Inr (WriteBulkStringStr (StreamID_String sid)), adding es c)"
    "on_key key es = (if tips \<noteq> [] then [\<lparr>e_Key = key, e_Kind = Noop\<rparr>] else []) @ [stream_insert key sid fs] @
       (if ex then [] else [meta_effect key TYPE_STREAM])"
proof -
  obtain es where es: "xadd_write dec ns now key no_xadd_opts fs s tips ex 0 0 sid c = (Inr (), adding es c)"
    "on_key key es = (if tips \<noteq> [] then [\<lparr>e_Key = key, e_Kind = Noop\<rparr>] else []) @ [stream_insert key sid fs] @
       (if ex then [] else [meta_effect key TYPE_STREAM])"
    using xadd_write_ok [OF assms(1) no_opts] .
  have last: "(if IsZero (fst (streamMetadata dec s)) \<and> ex then streamLastID (snapshotToEntries dec s)
      else fst (streamMetadata dec s)) = last_id dec s"
    using assms(3) by (auto simp: last_id_def Let_def streamLastID_def snapshotToEntries_def streamMetadata_def IsZero_iff)
  have nz: "\<not> IsZero sid" using assms(5) MinStreamID_least [of "last_id dec s"] by (auto simp: IsZero_iff)
  have "xadd_body dec ns now key no_xadd_opts idStr fs (s, tips, ex, False) c =
      (Inr (WriteBulkStringStr (StreamID_String sid)), adding es c)"
    unfolding xadd_body_def prod.case Let_def last assms(4)
    using assms(5) nz es(1) no_opts by (simp add: cmd_defs xadd_config_def linorder_not_le [symmetric] no_mk)
  then show thesis using that es(2) by blast
qed

lemma xadd_plain_runner:
  assumes "xadd_option no_xadd_opts idStr fs = None" "fs \<noteq> []" "even (length fs)"
  shows "h_runner (handleXAdd dec ns now (key # idStr # fs) w0) =
    Some (run_with_savepoint (xadd_command dec ns now key no_xadd_opts idStr fs))"
proof -
  have "2 \<le> length fs" using assms(2,3) by (cases fs; cases "tl fs") auto
  then show ?thesis using assms by (simp add: handleXAdd_def accept_def no_xadd_opts_def Let_def even_iff_mod_2_eq_zero)
qed

text \<open>
  Claim C2. \<^verbatim>\<open>XADD key id field value ...\<close> refines appending to a list: on a missing key or a stream in order, with an ID that is
  given, completed or generated above the last ID, the command replies with the ID and emits effects after which the stream
  has exactly its old entries followed by the new one, is still in strictly ascending order, and has the new ID as its last.
\<close>

theorem xadd_refines:
  assumes "ordered_engine reduce dec" "reads_ok c" "GetSnapshot key c = Inr (s, tips)" "stream_ok s"
    and "xadd_option no_xadd_opts idStr fs = None" "fs \<noteq> []" "even (length fs)" "list_all field_ok fs" "length fs < 2 ^ 32"
    and "xadd_id dec now s idStr = Inr sid" "last_id dec s < sid"
  shows "\<exists>f es r. h_runner (handleXAdd dec ns now (key # idStr # fs) w0) = Some f \<and>
    f (c, w) = Some (adding es c, WriteBulkStringStr (StreamID_String sid) w) \<and>
    foldl reduce s (on_key key es) = Some r \<and> stream_ok (Some r) \<and>
    snapshotToEntries dec (Some r) = snapshotToEntries dec s @ [\<lparr>se_ID = sid, se_Fields = fs\<rparr>] \<and> last_id dec (Some r) = sid"
proof -
  define ex where "ex = (s \<noteq> None)"
  have cl: "classify s tips = (s, tips, ex, False)"
    using assms(4) by (auto simp: classify_def stream_ok_def ex_def split: option.splits)
  obtain es where es: "xadd_body dec ns now key no_xadd_opts idStr fs (s, tips, ex, False) c =
      (Inr (WriteBulkStringStr (StreamID_String sid)), adding es c)"
    "on_key key es = (if tips \<noteq> [] then [\<lparr>e_Key = key, e_Kind = Noop\<rparr>] else []) @ [stream_insert key sid fs] @
       (if ex then [] else [meta_effect key TYPE_STREAM])"
    using xadd_body_ok [OF assms(2,4) _ assms(10,11)] unfolding ex_def by metis
  have "or_reply (getStreamSnapshot key) c = (Inr (s, tips, ex, False), c)"
    using getStreamSnapshot_eq [OF assms(3)] cl by (intro or_reply_ok) simp
  then have "xadd_command dec ns now key no_xadd_opts idStr fs c = (Inr (WriteBulkStringStr (StreamID_String sid)), adding es c)"
    using es(1) by (simp add: xadd_command_def bind_cmd_def)
  then have run: "run_with_savepoint (xadd_command dec ns now key no_xadd_opts idStr fs) (c, w) =
      Some (adding es c, WriteBulkStringStr (StreamID_String sid) w)"
    by (simp add: run_with_savepoint_def)
  obtain r where r: "reduce s (stream_insert key sid fs) = Some r" "stream_ok (Some r)"
    "snapshotToEntries dec (Some r) = snapshotToEntries dec s @ [\<lparr>se_ID = sid, se_Fields = fs\<rparr>]" "last_id dec (Some r) = sid"
    using insert_appends [OF assms(1,4,11) decode_encode_fields [OF assms(8,9)]] .
  obtain r' where r': "reduce (Some r) (meta_effect key TYPE_STREAM) = Some r'" "stream_ok (Some r')"
    "snapshotToEntries dec (Some r') = snapshotToEntries dec (Some r)" "last_id dec (Some r') = last_id dec (Some r)"
    using meta_keeps [OF assms(1) r(2)] .
  have "foldl reduce s (on_key key es) = (if ex then Some r else Some r')"
    unfolding es(2) using r(1) r'(1) engine_noop [OF assms(1)] by simp
  then show ?thesis using xadd_plain_runner [OF assms(5-7)] run r r'
    by (intro exI [of _ "run_with_savepoint (xadd_command dec ns now key no_xadd_opts idStr fs)"] exI [of _ es]
        exI [of _ "if ex then r else r'"]) auto
qed

text \<open>An engine with these laws.\<close>

definition empty_stream :: ReducedEffect where
  "empty_stream = \<lparr>r_Op = INSERT_OP, r_Collection = ORDERED, r_Scalar = None, r_NetAdds = [], r_NetRemoves = [],
     r_Ordered = [], r_TypeTag = TYPE_UNSPECIFIED\<rparr>"

definition list_reduce :: "ReducedEffect option \<Rightarrow> Effect \<Rightarrow> ReducedEffect option" where
  "list_reduce s e =
     (let r = (case s of None \<Rightarrow> empty_stream | Some r \<Rightarrow> r)
      in case e_Kind e of
           Meta t \<Rightarrow> Some (r\<lparr>r_TypeTag := t\<rparr>)
         | Noop \<Rightarrow> s
         | Data d \<Rightarrow>
             if d_Op d = INSERT_OP then Some (r\<lparr>r_Ordered := r_Ordered r @ [\<lparr>el_Data = d, el_ExpiresAt = None\<rparr>]\<rparr>)
             else if d_Id d \<in> elem_id ` set (r_Ordered r)
             then Some (r\<lparr>r_Ordered := filter (\<lambda>el. elem_id el \<noteq> d_Id d) (r_Ordered r)\<rparr>)
             else Some (r\<lparr>r_NetRemoves := d_Id d # r_NetRemoves r\<rparr>))"

lemma list_engine: "ordered_engine list_reduce GetRaw"
  unfolding ordered_engine_def
  by (intro conjI allI impI)
    (auto simp: list_reduce_def tail_insert_def data_effect_def insert_data_def remove_data_def meta_effect_def plain_ordered_def
      stream_ok_def elems_def removes_def empty_stream_def elem_id_def GetRaw_def split: option.splits)

theorem xadd_refines_witness:
  "\<exists>f es r. h_runner (handleXAdd GetRaw 100 0 [[107], [53, 45, 49], [102], [118]] (NewWriter [])) = Some f \<and>
     f (empty_context, NewWriter []) = Some (adding es empty_context, WriteBulkStringStr (StreamID_String (StreamID 5 1)) (NewWriter [])) \<and>
     foldl list_reduce None (on_key [107] es) = Some r \<and>
     snapshotToEntries GetRaw (Some r) = [\<lparr>se_ID = StreamID 5 1, se_Fields = [[102], [118]]\<rparr>]"
proof -
  have o: "xadd_option no_xadd_opts [53, 45, 49] [[102], [118]] = None"
    by (simp add: xadd_option_def ToUpper_eq bytes_simps)
  have i: "xadd_id GetRaw 0 None [53, 45, 49] = Inr (StreamID 5 1)"
    by (simp add: xadd_id_def ParseStreamID_def split_dash_def parse_uint64_def is_digit_def dec_val_def dec_step_def bytes_simps Let_def)
  have "last_id GetRaw None < StreamID 5 1"
    by (simp add: last_id_def streamMetadata_def streamLastID_def snapshotToEntries_def MinStreamID_def less_StreamID_def Let_def)
  moreover have "reads_ok empty_context" by (simp add: reads_ok_def empty_context_def)
  moreover have "GetSnapshot [107] empty_context = Inr (None, [])" by (simp add: empty_context_def GetSnapshot_def)
  moreover have "stream_ok None" "list_all field_ok [[102], [118]]" "length [[102 :: byte], [118]] < 2 ^ 32"
    "even (length [[102 :: byte], [118]])"
    by (simp_all add: stream_ok_def field_ok_def)
  ultimately have "\<exists>f es r. h_runner (handleXAdd GetRaw 100 0 [[107], [53, 45, 49], [102], [118]] (NewWriter [])) = Some f \<and>
     f (empty_context, NewWriter []) = Some (adding es empty_context, WriteBulkStringStr (StreamID_String (StreamID 5 1)) (NewWriter [])) \<and>
     foldl list_reduce None (on_key [107] es) = Some r \<and> stream_ok (Some r) \<and>
     snapshotToEntries GetRaw (Some r) = snapshotToEntries GetRaw None @ [\<lparr>se_ID = StreamID 5 1, se_Fields = [[102], [118]]\<rparr>] \<and>
     last_id GetRaw (Some r) = StreamID 5 1"
    using o i by (intro xadd_refines [OF list_engine]) (assumption | simp only: list.distinct simp_thms)+
  then show ?thesis unfolding snapshotToEntries_def [of _ None] option.case append_Nil by blast
qed

section \<open>Removing\<close>

lemma remove_present:
  assumes eng: "ordered_engine reduce dec" and ok: "stream_ok (Some r)" and sid: "sid \<in> set (map se_ID (snapshotToEntries dec (Some r)))"
  obtains r' where "reduce (Some r) (stream_remove key sid) = Some r'" "stream_ok (Some r')"
    "snapshotToEntries dec (Some r') = filter (\<lambda>e. se_ID e \<noteq> sid) (snapshotToEntries dec (Some r))" "r_NetRemoves r' = r_NetRemoves r"
proof -
  have len: "\<forall>el \<in> set (r_Ordered r). length (elem_id el) = 16" using ok by (simp add: stream_ok_def list_all_iff)
  have eq: "elem_id el = encodeStreamElementID sid \<longleftrightarrow> decodeStreamElementID (elem_id el) = sid" if "el \<in> set (r_Ordered r)" for el
    using len that encode_decode_id by force
  have mem: "encodeStreamElementID sid \<in> elem_id ` set (r_Ordered r)"
  proof -
    obtain el where "el \<in> set (r_Ordered r)" "decodeStreamElementID (elem_id el) = sid"
      using sid by (auto simp: entries_ok [OF ok] entry_of_def)
    then show ?thesis using eq by (metis imageI)
  qed
  obtain r' where r': "reduce (Some r) (stream_remove key sid) = Some r'" "plain_ordered r'"
    "r_Ordered r' = filter (\<lambda>el. elem_id el \<noteq> encodeStreamElementID sid) (r_Ordered r)" "r_NetRemoves r' = r_NetRemoves r"
    using engine_remove [OF eng ok mem] unfolding stream_remove_def by blast
  have ok': "stream_ok (Some r')"
    using ok len by (simp add: stream_ok_plain [OF r'(2)] r'(3) list_all_iff)
      (simp add: stream_ok_def sorted_wrt_map sorted_wrt_filter)
  have "filter (\<lambda>el. elem_id el \<noteq> encodeStreamElementID sid) (r_Ordered r) =
      filter (\<lambda>el. decodeStreamElementID (elem_id el) \<noteq> sid) (r_Ordered r)"
    by (rule filter_cong) (use eq in auto)
  then have "snapshotToEntries dec (Some r') = filter (\<lambda>e. se_ID e \<noteq> sid) (snapshotToEntries dec (Some r))"
    by (simp add: entries_ok [OF ok] entries_ok [OF ok'] r'(3) filter_map comp_def entry_of_def)
  then show thesis using that r'(1,4) ok' by blast
qed

text \<open>Removing the oldest entries, each once.\<close>

lemma remove_oldest:
  assumes eng: "ordered_engine reduce dec"
  shows "stream_ok (Some r) \<Longrightarrow>
    \<exists>r'. foldl reduce (Some r) (map (\<lambda>e. stream_remove key (se_ID e)) (take k (snapshotToEntries dec (Some r)))) = Some r' \<and>
      stream_ok (Some r') \<and> snapshotToEntries dec (Some r') = drop k (snapshotToEntries dec (Some r)) \<and> r_NetRemoves r' = r_NetRemoves r"
proof (induction k arbitrary: r)
  case 0
  then show ?case by auto
next
  case (Suc k)
  show ?case
  proof (cases "snapshotToEntries dec (Some r)")
    case Nil
    then show ?thesis using Suc.prems by auto
  next
    case (Cons e es)
    have srt: "\<forall>x \<in> set es. se_ID e < se_ID x" using entries_sorted [OF Suc.prems, of dec] by (simp add: Cons)
    obtain r1 where r1: "reduce (Some r) (stream_remove key (se_ID e)) = Some r1" "stream_ok (Some r1)"
      "snapshotToEntries dec (Some r1) = filter (\<lambda>x. se_ID x \<noteq> se_ID e) (e # es)" "r_NetRemoves r1 = r_NetRemoves r"
      using remove_present [OF eng Suc.prems, of "se_ID e"] by (auto simp: Cons)
    have f: "filter (\<lambda>x. se_ID x \<noteq> se_ID e) (e # es) = es" using srt by (auto intro!: filter_True)
    show ?thesis using Suc.IH [OF r1(2)] r1(1,4) unfolding r1(3) f by (simp add: Cons)
  qed
qed

definition one_entry_stream :: ReducedEffect where
  "one_entry_stream = empty_stream\<lparr>r_Ordered := [\<lparr>el_Data = insert_data ORDERED (encodeStreamElementID (StreamID 5 1)) (Raw []),
     el_ExpiresAt = None\<rparr>]\<rparr>"

end
