(* ===== verification/Stream_Trim_Facts.thy ===== *)
theory Stream_Trim_Facts
  imports Stream_Trim
begin

text \<open>What trimming removes: the oldest entries that may go, as many as the options allow.\<close>

section \<open>The loop\<close>

definition trimmable :: "TrimOptions \<Rightarrow> StreamValue \<Rightarrow> bytes \<Rightarrow> bool" where
  "trimmable opts sv k \<longleftrightarrow> (\<exists>e. sv_Entries sv k = Some e \<and> canTrim opts (sv_Groups sv) (se_ID e))"

lemma canTrim_handleTrim [simp]: "canTrim opts (handleTrim opts i gs) j = canTrim opts gs j"
  by (simp add: canTrim_def handleTrim_def)

lemma trim_loop_eq:
  "\<exists>gs'. trim_loop opts E stop lim ks (n, ts, gs) =
     (let xs = take (nat (lim - n)) (filter (\<lambda>k. \<exists>e. E k = Some e \<and> canTrim opts gs (se_ID e)) (takeWhile (\<lambda>k. \<not> stop k) ks))
      in (n + int (length xs), ts @ xs, gs'))"
proof (induction ks arbitrary: n ts gs)
  case (Cons k ks)
  show ?case
  proof (cases "\<not> n < lim \<or> stop k")
    case True
    then show ?thesis by (auto simp: Let_def)
  next
    case False
    then have n: "nat (lim - n) = Suc (nat (lim - (n + 1)))" and s: "\<not> stop k" "n < lim" by auto
    show ?thesis
    proof (cases "E k")
      case None
      then show ?thesis using Cons.IH [of n ts gs] s by (simp add: Let_def)
    next
      case (Some e)
      show ?thesis
      proof (cases "canTrim opts gs (se_ID e)")
        case True
        then show ?thesis
          using Some Cons.IH [of "n + 1" "ts @ [k]" "handleTrim opts (se_ID e) gs"] s by (simp add: Let_def n add.assoc)
      next
        case False
        then show ?thesis using Some Cons.IH [of n ts gs] s by (simp add: Let_def)
      qed
    qed
  qed
qed simp

section \<open>The keys that are trimmed\<close>

definition minid_keys :: "TrimOptions \<Rightarrow> StreamValue \<Rightarrow> bytes list" where
  "minid_keys opts sv =
     (case t_MinID opts of
        None \<Rightarrow> []
      | Some minID \<Rightarrow>
          take (nat (sint (trim_limit opts (length (sv_Index sv)))))
            (filter (trimmable opts sv) (takeWhile (\<lambda>k. \<not> Key minID \<le> k) (sv_Index sv))))"

definition maxlen_keys :: "TrimOptions \<Rightarrow> StreamValue \<Rightarrow> bytes list" where
  "maxlen_keys opts sv =
     (if t_HasMaxLen opts then
        let m = length (minid_keys opts sv) in
        take (nat (sint (trim_goal opts (length (sv_Index sv)) m))) (filter (trimmable opts sv) (drop m (sv_Index sv)))
      else [])"

lemma canTrim_after:
  "trim_loop opts E stop lim ks (n, ts, gs) = (n', ts', gs') \<Longrightarrow> canTrim opts gs' j = canTrim opts gs j"
proof (induction ks arbitrary: n ts gs)
  case (Cons k ks)
  show ?case
  proof (cases "\<not> n < lim \<or> stop k")
    case True
    then show ?thesis using Cons.prems by auto
  next
    case False
    then show ?thesis using Cons.prems Cons.IH by (auto split: option.splits if_splits)
  qed
qed simp

lemma remove_key_sel [simp]:
  "sv_Index (remove_key k sv) = filter (\<lambda>k'. k' \<noteq> k) (sv_Index sv)"
  "sv_Entries (remove_key k sv) = (sv_Entries sv)(k := None)"
  "sv_Groups (remove_key k sv) = sv_Groups sv"
  by (auto simp: remove_key_def Let_def split: option.splits)

lemma update_first_sel [simp]:
  "sv_Index (update_first sv) = sv_Index sv" "sv_Entries (update_first sv) = sv_Entries sv"
  "sv_Groups (update_first sv) = sv_Groups sv"
  by (auto simp: update_first_def split: list.splits option.splits)

lemma remove_keys_Index:
  "sv_Index (foldl (\<lambda>sv k. remove_key k sv) sv ts) = filter (\<lambda>k. k \<notin> set ts) (sv_Index sv)"
proof (induction ts arbitrary: sv)
  case (Cons t ts)
  have "sv_Index (foldl (\<lambda>sv k. remove_key k sv) sv (t # ts)) = filter (\<lambda>k. k \<notin> set ts) (filter (\<lambda>k'. k' \<noteq> t) (sv_Index sv))"
    using Cons.IH [of "remove_key t sv"] by simp
  then show ?case by (simp add: conj_commute cong: conj_cong)
qed simp

lemma remove_keys_Entries:
  "sv_Entries (foldl (\<lambda>sv k. remove_key k sv) sv ts) = (\<lambda>k. if k \<in> set ts then None else sv_Entries sv k)"
  by (induction ts arbitrary: sv) (auto simp: fun_eq_iff)

lemma Trim_keys:
  "sv_Index (snd (Trim opts sv)) = filter (\<lambda>k. k \<notin> set (minid_keys opts sv @ maxlen_keys opts sv)) (sv_Index sv) \<and>
   fst (Trim opts sv) = of_nat (length (minid_keys opts sv @ maxlen_keys opts sv)) \<and>
   sv_Entries (snd (Trim opts sv)) = (\<lambda>k. if k \<in> set (minid_keys opts sv @ maxlen_keys opts sv) then None else sv_Entries sv k)"
proof (cases "sv_Index sv = []")
  case True
  then show ?thesis by (auto simp: Trim_def minid_keys_def maxlen_keys_def split: option.splits)
next
  case False
  let ?L = "length (sv_Index sv)"
  define r1 where "r1 = (case t_MinID opts of
                 None \<Rightarrow> (0, [], sv_Groups sv)
               | Some minID \<Rightarrow>
                   trim_loop opts (sv_Entries sv) (\<lambda>k. Key minID \<le> k) (sint (trim_limit opts ?L)) (sv_Index sv)
                     (0, [], sv_Groups sv))"
  obtain n1 ts gs where r1: "r1 = (n1, ts, gs)" by (cases r1)
  have ts: "ts = minid_keys opts sv"
    using r1 trim_loop_eq [of opts "sv_Entries sv" "\<lambda>k. Key (the (t_MinID opts)) \<le> k" "sint (trim_limit opts ?L)"
        "sv_Index sv" 0 "[]" "sv_Groups sv"]
    by (cases "t_MinID opts") (auto simp: r1_def minid_keys_def trimmable_def [abs_def] Let_def)
  have can: "canTrim opts gs j = canTrim opts (sv_Groups sv) j" for j
    using r1 canTrim_after unfolding r1_def by (cases "t_MinID opts") auto
  define r2 where "r2 = (if t_HasMaxLen opts then
                 trim_loop opts (sv_Entries sv) (\<lambda>_. False) (sint (trim_goal opts ?L (length ts)))
                   (drop (length ts) (sv_Index sv)) (0, ts, gs)
               else (0, ts, gs))"
  obtain n2 ts' gs' where r2: "r2 = (n2, ts', gs')" by (cases r2)
  have tw: "takeWhile (\<lambda>k. True) xs = xs" for xs :: "bytes list" by (induction xs) auto
  have ts': "ts' = minid_keys opts sv @ maxlen_keys opts sv"
    using r2 trim_loop_eq [of opts "sv_Entries sv" "\<lambda>_. False" "sint (trim_goal opts ?L (length ts))"
        "drop (length ts) (sv_Index sv)" 0 ts gs]
    by (cases "t_HasMaxLen opts") (auto simp: r2_def maxlen_keys_def trimmable_def [abs_def] Let_def can ts tw)
  have "Trim opts sv = (if ts' = [] then (0, sv\<lparr>sv_Groups := gs'\<rparr>)
      else (of_nat (length ts'), update_first (foldl (\<lambda>sv k. remove_key k sv) (sv\<lparr>sv_Groups := gs'\<rparr>) ts')))"
    unfolding Trim_def if_not_P [OF False] Let_def r1_def [symmetric] r1 prod.case r2_def [symmetric] r2 ..
  then show ?thesis unfolding ts' [symmetric]
    by (auto simp: remove_keys_Index remove_keys_Entries)
qed

section \<open>How many\<close>

lemma sint64_add:
  "MinInt64 \<le> sint a + sint b \<Longrightarrow> sint a + sint b \<le> MaxInt64 \<Longrightarrow> sint (a + b :: i64) = sint a + sint b"
  using sint64_of_int [of "sint a + sint b"] by simp

lemma sint64_diff:
  "MinInt64 \<le> sint a - sint b \<Longrightarrow> sint a - sint b \<le> MaxInt64 \<Longrightarrow> sint (a - b :: i64) = sint a - sint b"
  using sint64_of_int [of "sint a - sint b"] by simp

lemma sint64_of_nat: "int n \<le> MaxInt64 \<Longrightarrow> sint (of_nat n :: i64) = int n"
  using sint64_of_int [of "int n"] by simp

lemma sdiv_mult:
  assumes "(0 :: int) < l"
  shows "0 \<le> k \<Longrightarrow> 0 \<le> k sdiv l * l \<and> k sdiv l * l \<le> k \<and> k < k sdiv l * l + l"
    and "k \<le> 0 \<Longrightarrow> k \<le> k sdiv l * l \<and> k sdiv l * l \<le> 0"
proof -
  have pos: "m sdiv l = m div l" if "0 \<le> m" for m
    using that assms by (cases "m = 0") (simp_all add: signed_divide_int_def)
  have le: "0 \<le> m div l * l \<and> m div l * l \<le> m \<and> m < m div l * l + l" if "0 \<le> m" for m
    using that assms div_mult_mod_eq [of m l] pos_mod_bound [of l m] pos_mod_sign [of l m]
    by (smt (verit) mult_nonneg_nonneg pos_imp_zdiv_nonneg_iff)
  show "0 \<le> k \<Longrightarrow> 0 \<le> k sdiv l * l \<and> k sdiv l * l \<le> k \<and> k < k sdiv l * l + l" using pos le by simp
  have "k sdiv l = - (- k div l)" if "k < 0" using that assms by (simp add: signed_divide_int_def)
  then show "k \<le> 0 \<Longrightarrow> k \<le> k sdiv l * l \<and> k sdiv l * l \<le> 0" using le [of "- k"] by (cases "k = 0") auto
qed

lemma sint_round_down:
  assumes "0 < sint n"
  shows "sint (go_div a n * n) = sint a sdiv sint n * sint n"
proof -
  have "MinInt64 \<le> sint a sdiv sint n * sint n \<and> sint a sdiv sint n * sint n \<le> MaxInt64"
    using sdiv_mult [OF assms, of "sint a"] sint64_range [of a] by (cases "0 \<le> sint a") auto
  then show ?thesis using sint64_of_int [of "sint a sdiv sint n * sint n"] by (simp add: go_div_def)
qed

text \<open>Rounding up to whole nodes does not overflow when the bound leaves room for a node.\<close>

definition maxlen_fits :: "TrimOptions \<Rightarrow> bool" where
  "maxlen_fits opts \<longleftrightarrow> 0 \<le> sint (t_MaxLen opts) \<and>
     (t_Approx opts \<and> 0 < sint (t_NodeSize opts) \<longrightarrow> sint (t_MaxLen opts) + sint (t_NodeSize opts) \<le> MaxInt64)"

lemma effectiveMaxLen_bounds:
  assumes "maxlen_fits opts"
  shows "sint (t_MaxLen opts) \<le> sint (effectiveMaxLen opts)"
proof (cases "t_Approx opts \<and> 0 < sint (t_NodeSize opts)")
  case True
  let ?m = "sint (t_MaxLen opts)" and ?n = "sint (t_NodeSize opts)"
  have b: "0 \<le> ?m" "0 < ?n" "?m + ?n \<le> MaxInt64" using assms True by (auto simp: maxlen_fits_def)
  have "sint (t_MaxLen opts + t_NodeSize opts) = ?m + ?n" by (rule sint64_add) (use b in auto)
  then have "sint (t_MaxLen opts + t_NodeSize opts - 1) = ?m + ?n - 1"
    using sint64_diff [of "t_MaxLen opts + t_NodeSize opts" 1] b by simp
  then show ?thesis
    using True sint_round_down [OF b(2)] sdiv_mult(1) [OF b(2), of "?m + ?n - 1"] b by (simp add: effectiveMaxLen_def)
qed (auto simp: effectiveMaxLen_def)

lemma trim_goal_le:
  assumes "maxlen_fits opts" "int len \<le> MaxInt64"
  shows "nat (sint (trim_goal opts len 0)) \<le> len - nat (sint (t_MaxLen opts))"
proof -
  let ?e = "sint (effectiveMaxLen opts)"
  have e: "sint (t_MaxLen opts) \<le> ?e" "0 \<le> sint (t_MaxLen opts)"
    using effectiveMaxLen_bounds [OF assms(1)] assms(1) by (auto simp: maxlen_fits_def)
  have t: "sint (of_nat len - effectiveMaxLen opts) = int len - ?e"
    using sint64_diff [of "of_nat len" "effectiveMaxLen opts"] e assms(2) sint64_range [of "effectiveMaxLen opts"]
    by (simp add: sint64_of_nat)
  define v where "v = (if sint (of_nat len - effectiveMaxLen opts) > sint (trim_limit opts len)
      then trim_limit opts len else of_nat len - effectiveMaxLen opts)"
  have v: "sint v \<le> int len - ?e" by (auto simp: v_def t)
  define g where "g = (if t_Approx opts \<and> t_HasExplicitLimit opts \<and> 0 < sint (t_NodeSize opts)
      then go_div v (t_NodeSize opts) * t_NodeSize opts else v)"
  have "sint g \<le> max 0 (int len - ?e)"
    using v sdiv_mult [of "sint (t_NodeSize opts)" "sint v"]
    by (cases "0 \<le> sint v") (auto simp: g_def sint_round_down le_max_iff_disj)
  moreover have "trim_goal opts len 0 = (if 0 < sint (of_nat len - effectiveMaxLen opts) then g else of_nat len - effectiveMaxLen opts)"
    by (simp only: trim_goal_def Let_def g_def v_def semiring_1_class.of_nat_0 diff_zero)
  ultimately have "sint (trim_goal opts len 0) \<le> max 0 (int len - ?e)" using t by auto
  then show ?thesis using e by linarith
qed

section \<open>Well-formed streams\<close>

text \<open>The index enumerates the keys in ascending order, and each is the key of the entry stored under it.\<close>

definition sv_wf :: "StreamValue \<Rightarrow> bool" where
  "sv_wf sv \<longleftrightarrow> sorted_wrt (<) (sv_Index sv) \<and>
     list_all (\<lambda>k. case sv_Entries sv k of None \<Rightarrow> False | Some e \<Rightarrow> Key (se_ID e) = k) (sv_Index sv)"

lemma map_filter_cong: "(\<And>x. x \<in> set xs \<Longrightarrow> f x = g x) \<Longrightarrow> List.map_filter f xs = List.map_filter g xs"
  by (induction xs) (auto simp: List.map_filter_simps split: option.splits)

lemma ForEach_Trim:
  "ForEach (snd (Trim opts sv)) =
   List.map_filter (sv_Entries sv) (filter (\<lambda>k. k \<notin> set (minid_keys opts sv @ maxlen_keys opts sv)) (sv_Index sv))"
  unfolding ForEach_def Trim_keys [THEN conjunct1] Trim_keys [THEN conjunct2, THEN conjunct2]
  by (rule map_filter_cong) auto

lemma filter_not_take:
  "distinct xs \<Longrightarrow> filter (\<lambda>x. x \<notin> set (take n xs)) xs = drop n xs"
proof (induction xs arbitrary: n)
  case (Cons x xs)
  then show ?case
  proof (cases n)
    case (Suc m)
    have "filter (\<lambda>y. y \<noteq> x \<and> y \<notin> set (take m xs)) xs = filter (\<lambda>y. y \<notin> set (take m xs)) xs"
      using Cons.prems by (intro filter_cong) auto
    then show ?thesis using Cons Suc by simp
  qed simp
qed simp

lemma sv_wf_distinct: "sv_wf sv \<Longrightarrow> distinct (sv_Index sv)"
  by (simp add: sv_wf_def strict_sorted_iff)

lemma sv_wf_entry: "sv_wf sv \<Longrightarrow> k \<in> set (sv_Index sv) \<Longrightarrow> \<exists>e. sv_Entries sv k = Some e \<and> Key (se_ID e) = k"
  by (fastforce simp: sv_wf_def list_all_iff split: option.splits)

lemma trimmable_all:
  assumes "sv_wf sv" "t_RefMode opts \<noteq> RefModeAcked" "set xs \<subseteq> set (sv_Index sv)"
  shows "filter (trimmable opts sv) xs = xs"
  using assms sv_wf_entry [OF assms(1)] by (intro filter_True) (auto simp: trimmable_def canTrim_def)

lemma map_filter_index:
  "(\<And>k. k \<in> set ks \<Longrightarrow> \<exists>e. E k = Some e) \<Longrightarrow> List.map_filter E (drop n ks) = drop n (List.map_filter E ks)"
proof (induction ks arbitrary: n)
  case (Cons k ks)
  obtain e where e: "E k = Some e" using Cons.prems [of k] by auto
  show ?case using Cons.IH Cons.prems e by (cases n) (simp_all add: List.map_filter_simps)
qed (simp add: List.map_filter_simps)

lemma map_filter_keys:
  "(\<And>k. k \<in> set ks \<Longrightarrow> \<exists>e. E k = Some e \<and> Key (se_ID e) = k) \<Longrightarrow>
   List.map_filter E (filter (\<lambda>k. Key m \<le> k) ks) = filter (\<lambda>e. m \<le> se_ID e) (List.map_filter E ks)"
proof (induction ks)
  case (Cons k ks)
  obtain e where e: "E k = Some e" "Key (se_ID e) = k" using Cons.prems [of k] by auto
  have "Key m \<le> k \<longleftrightarrow> m \<le> se_ID e" using sid_key.less_iff [of "se_ID e" m] e(2) by (auto simp: linorder_not_less [symmetric])
  then show ?case using Cons e by (simp add: List.map_filter_simps)
qed (simp add: List.map_filter_simps)

lemma takeWhile_sorted:
  "sorted_wrt (<) ks \<Longrightarrow> takeWhile (\<lambda>k. \<not> m \<le> k) ks = filter (\<lambda>k. \<not> m \<le> (k :: bytes)) ks"
proof (induction ks)
  case (Cons k ks)
  have "filter (\<lambda>k. \<not> m \<le> k) ks = []" if "m \<le> k"
    using that Cons.prems by (auto simp: filter_empty_conv)
  then show ?case using Cons by auto
qed simp

lemma exact_maxlen_keys:
  assumes "sv_wf sv" "\<not> t_Approx opts" "t_Limit opts = 0" "t_RefMode opts \<noteq> RefModeAcked"
    and "int (length (sv_Index sv)) \<le> MaxInt64" "t_HasMaxLen opts" "t_MinID opts = None" "0 \<le> sint (t_MaxLen opts)"
  shows "minid_keys opts sv @ maxlen_keys opts sv = take (length (sv_Index sv) - nat (sint (t_MaxLen opts))) (sv_Index sv)"
proof -
  let ?L = "length (sv_Index sv)"
  have l: "sint (of_nat ?L :: i64) = int ?L" using assms(5) by (rule sint64_of_nat)
  have lim: "trim_limit opts ?L = of_nat ?L" using assms by (simp add: trim_limit_def)
  have "sint (of_nat ?L - t_MaxLen opts) = int ?L - sint (t_MaxLen opts)"
    using sint64_diff [of "of_nat ?L" "t_MaxLen opts"] assms(8) l assms(5) sint64_range [of "t_MaxLen opts"] by simp
  then have "nat (sint (trim_goal opts ?L 0)) = ?L - nat (sint (t_MaxLen opts))"
    using assms(2,7) by (auto simp: trim_goal_def effectiveMaxLen_def lim l Let_def)
  then show ?thesis using assms(6,7) trimmable_all [OF assms(1,4)] by (simp add: minid_keys_def maxlen_keys_def)
qed

text \<open>
  Claim C10. Exact trimming of a stream: \<^verbatim>\<open>MAXLEN n\<close> keeps the \<open>n\<close> newest entries in their order and nothing else,
  and \<^verbatim>\<open>MINID m\<close> keeps exactly the entries whose ID is at least \<open>m\<close>.
\<close>

theorem Trim_exact:
  assumes "sv_wf sv" "\<not> t_Approx opts" "t_Limit opts = 0" "t_RefMode opts \<noteq> RefModeAcked"
    and "int (length (sv_Index sv)) \<le> MaxInt64"
  shows "(t_HasMaxLen opts \<and> t_MinID opts = None \<and> 0 \<le> sint (t_MaxLen opts) \<longrightarrow>
      ForEach (snd (Trim opts sv)) = drop (length (sv_Index sv) - nat (sint (t_MaxLen opts))) (ForEach sv)) \<and>
    (\<not> t_HasMaxLen opts \<and> t_MinID opts = Some m \<longrightarrow>
      ForEach (snd (Trim opts sv)) = filter (\<lambda>e. m \<le> se_ID e) (ForEach sv))"
proof (intro conjI impI)
  let ?L = "length (sv_Index sv)"
  have l: "sint (of_nat ?L :: i64) = int ?L" using assms(5) by (rule sint64_of_nat)
  have lim: "trim_limit opts ?L = of_nat ?L" using assms by (simp add: trim_limit_def)
  show "ForEach (snd (Trim opts sv)) = drop (?L - nat (sint (t_MaxLen opts))) (ForEach sv)"
    if h: "t_HasMaxLen opts \<and> t_MinID opts = None \<and> 0 \<le> sint (t_MaxLen opts)"
  proof -
    have "minid_keys opts sv @ maxlen_keys opts sv = take (?L - nat (sint (t_MaxLen opts))) (sv_Index sv)"
      using exact_maxlen_keys [OF assms] h by simp
    then show ?thesis
      unfolding ForEach_Trim using filter_not_take [OF sv_wf_distinct [OF assms(1)]] sv_wf_entry [OF assms(1)]
      by (simp add: ForEach_def) (rule map_filter_index, blast)
  qed
  show "ForEach (snd (Trim opts sv)) = filter (\<lambda>e. m \<le> se_ID e) (ForEach sv)"
    if h: "\<not> t_HasMaxLen opts \<and> t_MinID opts = Some m"
  proof -
    have tw: "takeWhile (\<lambda>k. \<not> Key m \<le> k) (sv_Index sv) = filter (\<lambda>k. \<not> Key m \<le> k) (sv_Index sv)"
      by (rule takeWhile_sorted) (use assms(1) in \<open>simp add: sv_wf_def\<close>)
    have "minid_keys opts sv @ maxlen_keys opts sv = filter (\<lambda>k. \<not> Key m \<le> k) (sv_Index sv)"
      using h trimmable_all [OF assms(1,4), of "filter (\<lambda>k. \<not> Key m \<le> k) (sv_Index sv)"]
      by (simp add: minid_keys_def maxlen_keys_def lim l tw del: filter_filter)
    then have "ForEach (snd (Trim opts sv)) = List.map_filter (sv_Entries sv) (filter (\<lambda>k. Key m \<le> k) (sv_Index sv))"
      unfolding ForEach_Trim by (auto intro!: arg_cong [where f = "List.map_filter (sv_Entries sv)"] filter_cong)
    then show ?thesis using map_filter_keys [OF sv_wf_entry [OF assms(1)]] by (simp add: ForEach_def)
  qed
qed

text \<open>Three entries, as a stream holds them.\<close>

definition three_entries :: StreamValue where
  "three_entries =
     (let e = (\<lambda>n. \<lparr>se_ID = StreamID n 0, se_Fields = []\<rparr>); ks = map (\<lambda>n. Key (StreamID n 0)) [1, 2, 3] in
      NewStreamValue\<lparr>sv_Index := ks, sv_Entries := map_of (zip ks [e 1, e 2, e 3]), sv_LastID := StreamID 3 0\<rparr>)"

lemma Key_eq_iff: "Key a = Key b \<longleftrightarrow> a = b"
  using sid_key.less_iff [of a b] sid_key.less_iff [of b a] by (auto simp: neq_iff)

lemma three_entries_wf: "sv_wf three_entries"
  by (simp add: sv_wf_def three_entries_def Let_def sid_key.less_iff Key_eq_iff less_StreamID_def NewStreamValue_def)

lemma three_entries_ForEach: "ForEach three_entries = map (\<lambda>n. \<lparr>se_ID = StreamID n 0, se_Fields = []\<rparr>) [1, 2, 3]"
  by (simp add: ForEach_def three_entries_def Let_def Key_eq_iff NewStreamValue_def List.map_filter_simps)

lemma three_entries_length: "length (sv_Index three_entries) = 3"
  by (simp add: three_entries_def Let_def)

theorem Trim_exact_witness:
  "ForEach (snd (Trim \<lparr>t_MaxLen = 1, t_MinID = None, t_Approx = False, t_Limit = 0, t_NodeSize = 100,
     t_RefMode = RefModeKeepRef, t_HasMaxLen = True, t_HasExplicitLimit = False\<rparr> three_entries)) = [\<lparr>se_ID = StreamID 3 0, se_Fields = []\<rparr>]"
proof -
  let ?o = "\<lparr>t_MaxLen = 1, t_MinID = None, t_Approx = False, t_Limit = 0, t_NodeSize = 100,
     t_RefMode = RefModeKeepRef, t_HasMaxLen = True, t_HasExplicitLimit = False\<rparr>"
  show ?thesis using Trim_exact [OF three_entries_wf, of ?o MinStreamID]
    unfolding three_entries_length three_entries_ForEach by simp
qed

text \<open>
  Claim C11. Trimming by length is safe under every option as long as the bound is not negative and, when it is approximate, can be
  rounded up to whole nodes within 64 bits (\<open>maxlen_fits\<close>; \<open>Trim_approx_overflow\<close> below shows that a larger bound empties the stream):
  whatever the limit, the rounding and the reference mode, the entries that remain are the old ones in their order, at least
  \<^verbatim>\<open>MaxLen\<close> of them (or all there were), the reply is the number that went, and with \<^verbatim>\<open>ACKED\<close> none of those that went was pending in a
  consumer group or not yet delivered to it.
\<close>

theorem Trim_safe:
  assumes "sv_wf sv" "t_MinID opts = None" "t_HasMaxLen opts \<longrightarrow> maxlen_fits opts"
    and "int (length (sv_Index sv)) \<le> MaxInt64"
  defines "sv' \<equiv> snd (Trim opts sv)"
  shows "(\<exists>P. sv_Index sv' = filter P (sv_Index sv)) \<and>
    min (length (sv_Index sv)) (nat (sint (t_MaxLen opts))) \<le> length (sv_Index sv') \<and>
    sint (fst (Trim opts sv)) = int (length (sv_Index sv)) - int (length (sv_Index sv')) \<and>
    (\<forall>k e n g. k \<in> set (sv_Index sv) - set (sv_Index sv') \<and> sv_Entries sv k = Some e \<and>
       t_RefMode opts = RefModeAcked \<and> (n, g) \<in> set (sv_Groups sv) \<longrightarrow>
       se_ID e \<le> cg_LastDeliveredID g \<and> cg_Pending g (se_ID e) = None)"
proof -
  let ?L = "length (sv_Index sv)"
  define T where "T = maxlen_keys opts sv"
  have T: "minid_keys opts sv @ maxlen_keys opts sv = T" using assms(2) by (simp add: minid_keys_def T_def)
  have idx: "sv_Index sv' = filter (\<lambda>k. k \<notin> set T) (sv_Index sv)" and cnt: "fst (Trim opts sv) = of_nat (length T)"
    using Trim_keys [of opts sv] unfolding T sv'_def by auto
  have sub: "set T \<subseteq> set (filter (trimmable opts sv) (sv_Index sv))"
    using assms(2) by (auto simp: T_def maxlen_keys_def minid_keys_def dest: in_set_takeD)
  have d: "distinct T" "distinct (sv_Index sv)"
    using sv_wf_distinct [OF assms(1)] assms(2) by (simp_all add: T_def maxlen_keys_def minid_keys_def distinct_take)
  have len: "length (sv_Index sv') + length T = ?L"
  proof -
    have "set (filter (\<lambda>k. k \<in> set T) (sv_Index sv)) = set T" using sub by auto
    then have "length (filter (\<lambda>k. k \<in> set T) (sv_Index sv)) = length T"
      using d distinct_card [of T] distinct_card [of "filter (\<lambda>k. k \<in> set T) (sv_Index sv)"] by simp
    then show ?thesis using sum_length_filter_compl [of "\<lambda>k. k \<in> set T" "sv_Index sv"] by (simp add: idx)
  qed
  have "length T \<le> ?L - nat (sint (t_MaxLen opts))" if "t_HasMaxLen opts"
    using trim_goal_le [of opts ?L] that assms(2,3,4) by (simp add: T_def maxlen_keys_def minid_keys_def)
  moreover have "T = []" if "\<not> t_HasMaxLen opts" using that by (simp add: T_def maxlen_keys_def)
  ultimately have m: "min ?L (nat (sint (t_MaxLen opts))) \<le> length (sv_Index sv')" using len by fastforce
  have "sint (fst (Trim opts sv)) = int (length T)" unfolding cnt by (rule sint64_of_nat) (use len assms(4) in linarith)
  moreover have "se_ID e \<le> cg_LastDeliveredID g \<and> cg_Pending g (se_ID e) = None"
    if "k \<in> set (sv_Index sv) - set (sv_Index sv')" "sv_Entries sv k = Some e" "t_RefMode opts = RefModeAcked"
      "(n, g) \<in> set (sv_Groups sv)" for k e n g
  proof -
    have "canTrim opts (sv_Groups sv) (se_ID e)" using that(1,2) sub by (auto simp: idx trimmable_def)
    then show ?thesis using that(3,4) by (auto simp: canTrim_def list_all_iff Compare_cases linorder_not_less split: if_splits)
  qed
  ultimately show ?thesis using idx m len by (intro conjI allI impI) (blast, simp, linarith, blast, blast)
qed

theorem Trim_safe_witness:
  "1 \<le> length (sv_Index (snd (Trim \<lparr>t_MaxLen = 1, t_MinID = None, t_Approx = True,
     t_Limit = 0, t_NodeSize = 1, t_RefMode = RefModeAcked, t_HasMaxLen = True, t_HasExplicitLimit = False\<rparr> three_entries)))"
  using Trim_safe [OF three_entries_wf, of "\<lparr>t_MaxLen = 1, t_MinID = None, t_Approx = True,
     t_Limit = 0, t_NodeSize = 1, t_RefMode = RefModeAcked, t_HasMaxLen = True, t_HasExplicitLimit = False\<rparr>"]
  unfolding three_entries_length by (simp add: maxlen_fits_def)

section \<open>A bound that is too large\<close>

text \<open>
  \<^verbatim>\<open>MAXLEN ~ 9223372036854775807\<close> with the default node size of 100 empties every stream of at most 107
  entries, although no stream can be longer than the bound: rounding the bound up to whole nodes overflows.
\<close>

theorem Trim_approx_overflow:
  assumes "sv_wf sv" "length (sv_Index sv) \<le> 107"
  shows "ForEach (snd (Trim \<lparr>t_MaxLen = 0x7FFFFFFFFFFFFFFF, t_MinID = None, t_Approx = True, t_Limit = 0, t_NodeSize = 100,
     t_RefMode = RefModeKeepRef, t_HasMaxLen = True, t_HasExplicitLimit = False\<rparr> sv)) = []"
proof -
  let ?o = "\<lparr>t_MaxLen = 0x7FFFFFFFFFFFFFFF, t_MinID = None, t_Approx = True, t_Limit = 0, t_NodeSize = 100,
     t_RefMode = RefModeKeepRef, t_HasMaxLen = True, t_HasExplicitLimit = False\<rparr>" and ?L = "length (sv_Index sv)"
  have e: "effectiveMaxLen ?o = word_of_int (- 9223372036854775700)"
    by (simp add: effectiveMaxLen_def go_div_def)
  have "sint (of_nat ?L - effectiveMaxLen ?o) = int ?L + 9223372036854775700"
    using sint64_of_int [of "int ?L + 9223372036854775700"] assms(2) by (simp add: e)
  then have "nat (sint (trim_goal ?o ?L 0)) = 10000"
    using assms(2) by (simp add: trim_goal_def trim_limit_def Let_def)
  then have "minid_keys ?o sv @ maxlen_keys ?o sv = sv_Index sv"
    using trimmable_all [OF assms(1), of ?o "sv_Index sv"] assms(2) by (simp add: minid_keys_def maxlen_keys_def)
  then show ?thesis unfolding ForEach_Trim by (simp add: filter_empty_conv List.map_filter_simps)
qed

theorem Trim_approx_overflow_witness:
  "ForEach (snd (Trim \<lparr>t_MaxLen = 0x7FFFFFFFFFFFFFFF, t_MinID = None, t_Approx = True, t_Limit = 0, t_NodeSize = 100,
     t_RefMode = RefModeKeepRef, t_HasMaxLen = True, t_HasExplicitLimit = False\<rparr> three_entries)) = []"
  by (rule Trim_approx_overflow [OF three_entries_wf]) (simp add: three_entries_length)

end
