(* ===== verification/Stream_Group_Facts.thy ===== *)
theory Stream_Group_Facts
  imports Stream_Refine Stream_Trim_Facts
begin

text \<open>New IDs, delivery to consumer groups, and what goes wrong with short names and in scripts.\<close>

section \<open>New IDs\<close>

lemma word_Suc_greater:
  assumes "(a :: u64) \<noteq> - 1" shows "a < a + 1"
proof -
  have "uint (- 1 :: u64) = 18446744073709551615" by (simp add: unsigned_minus_1_eq_mask mask_eq_exp_minus_1)
  moreover have "uint a \<noteq> uint (- 1 :: u64)" using assms by (simp add: word_uint_eq_iff)
  ultimately have "uint a + 1 < 2 ^ 64" using unsigned_less [of a, where ?'a = int] by simp
  then have "a \<le> a + 1" using no_olen_add [of a 1] by simp
  then show ?thesis by (simp add: order_le_less)
qed

text \<open>
  An ID that is generated from the clock is above the last ID of the stream, whatever the clock shows, unless the
  last ID is the largest of all; an ID completed for a given time is above it unless the sequence number is exhausted,
  in which case it wraps around to zero.
\<close>

theorem generated_ids_above:
  "(last_id dec s \<noteq> MaxStreamID \<longrightarrow> last_id dec s < generateStreamID dec now s) \<and>
   (\<forall>sid. generateStreamIDWithMs dec s ms = Some sid \<longrightarrow>
      Ms sid = ms \<and> (last_id dec s < sid \<or> Seq (last_id dec s) = NOT 0 \<and> sid = StreamID (Ms (last_id dec s)) 0))"
proof -
  obtain m q where l: "last_id dec s = StreamID m q" by (cases "last_id dec s")
  have "StreamID m q < generateStreamID dec now s" if "StreamID m q \<noteq> MaxStreamID"
  proof -
    have "q = - 1 \<Longrightarrow> m \<noteq> - 1" using that by (simp add: MaxStreamID_def)
    then show ?thesis
      by (auto simp: generateStreamID_def l Let_def less_StreamID_def word_Suc_greater)
  qed
  moreover have "q < q + 1 \<or> q = - 1" using word_Suc_greater by blast
  ultimately show ?thesis by (auto simp: l generateStreamIDWithMs_def Let_def less_StreamID_def)
qed

theorem generated_ids_above_witness:
  "last_id GetRaw (Some one_entry_stream) < generateStreamID GetRaw 0 (Some one_entry_stream)"
proof -
  have ok: "stream_ok (Some one_entry_stream)"
    by (simp add: stream_ok_def one_entry_stream_def empty_stream_def elem_id_def insert_data_def)
  have "last_id GetRaw (Some one_entry_stream) = StreamID 5 1"
    unfolding last_id_max [OF ok] entries_ok [OF ok] by (simp add: one_entry_stream_def empty_stream_def removes_def max_removed_def
        streamLastID_def entry_of_def elem_id_def insert_data_def max_def MinStreamID_def less_eq_StreamID_def)
  then have "last_id GetRaw (Some one_entry_stream) \<noteq> MaxStreamID" by (simp add: MaxStreamID_def)
  then show ?thesis using generated_ids_above by blast
qed

section \<open>Delivery\<close>

lemma each_emit_ok:
  "reads_ok c \<Longrightarrow> (\<And>x c. reads_ok c \<Longrightarrow> f x c = (Inr (), adding [g x] c)) \<Longrightarrow> each_cmd f xs c = (Inr (), adding (map g xs) c)"
  using each_cmd_ok [of xs f "\<lambda>x. [g x]" c] by simp

definition keyed_effect :: "bytes \<Rightarrow> bytes \<Rightarrow> bytes \<Rightarrow> Effect \<times> tip list" where
  "keyed_effect key i v = (data_effect key (insert_data KEYED i (Raw v)), [])"

lemma keyed_insert_ok: "reads_ok c \<Longrightarrow> keyed_insert key i v c = (Inr (), adding [keyed_effect key i v] c)"
  by (simp add: keyed_insert_def keyed_effect_def emit_cmd_ok)

text \<open>The effects of delivering entries: the new position of the group, the consumer, and the pending entries.\<close>

definition delivery_effects ::
  "bytes \<Rightarrow> bytes \<Rightarrow> bytes \<Rightarrow> u64 \<Rightarrow> bool \<Rightarrow> i64 \<Rightarrow> i64 \<Rightarrow> StreamEntry list \<Rightarrow> (Effect \<times> tip list) list" where
  "delivery_effects key g consumer now noAck entriesRead createdAt es =
     [keyed_effect (groupKey key g) (bstr ''__group__'')
        (encodeGroupMeta (se_ID (last es)) ((if 0 \<le> sint entriesRead then entriesRead else 0) + of_nat (length es)) createdAt),
      keyed_effect (groupKey key g) (consumer_element consumer) (encodeConsumerMeta now now)] @
     (if noAck then [] else
        map (\<lambda>e. keyed_effect (pelKey key g) (encodeStreamElementID (se_ID e)) (encodePELEntry consumer now 1)) es)"

lemma deliver_new_ok:
  assumes "reads_ok c"
  shows "deliver_new key g consumer now noAck (er, ca) es (emitConsumerInsert key g consumer (encodeConsumerMeta now now)) c =
    (Inr (), adding (delivery_effects key g consumer now noAck er ca es) c)"
proof -
  have pel: "each_cmd (\<lambda>e. emitPELInsert key g (se_ID e) (encodePELEntry consumer now 1)) es c' =
      (Inr (), adding (map (\<lambda>e. keyed_effect (pelKey key g) (encodeStreamElementID (se_ID e)) (encodePELEntry consumer now 1)) es) c')"
    if "reads_ok c'" for c'
    using that by (intro each_emit_ok) (simp_all add: emitPELInsert_def keyed_insert_ok)
  show ?thesis using assms
    by (simp add: deliver_new_def delivery_effects_def emitGroupInsert_def emitConsumerInsert_def keyed_insert_ok seq_cmd_def
        bind_cmd_def when_cmd_def ok_def pel Let_def)
qed

text \<open>The entries of a stream after a position, up to a count.\<close>

definition undelivered :: "(DataEffect \<Rightarrow> bytes) \<Rightarrow> ReducedEffect \<Rightarrow> StreamID \<Rightarrow> int \<Rightarrow> StreamEntry list" where
  "undelivered dec r pos count = limited count (filter (\<lambda>e. pos < se_ID e) (snapshotToEntries dec (Some r)))"

text \<open>
  Claim C12. \<^verbatim>\<open>XREADGROUP ... >\<close> on a stream in order delivers exactly the entries after the group's position, in order and up
  to the count. It moves the position to the last of them, so no entry is delivered to the group twice, adds them to the number
  read, and unless \<^verbatim>\<open>NOACK\<close> is given records each of them as pending for the consumer with one delivery; without
  new entries it changes nothing.
\<close>

theorem xreadgroup_delivers:
  assumes "reads_ok c" "GetSnapshot key c = Inr (Some r, tips)" "stream_ok (Some r)"
    and "GetSnapshot (groupKey key g) c = Inr (gSnap, gtips)" "map_of (net_adds gSnap) (bstr ''__group__'') \<noteq> None"
    and "getGroupMeta dec gSnap = (pos, entriesRead, createdAt)" "news = undelivered dec r pos count"
  shows "doXReadGroup dec now [(key, NewOnly)] g consumer count noAck c =
    (if news = [] then (Inr [], c)
     else (Inr [(key, news)], adding (delivery_effects key g consumer now noAck entriesRead createdAt news) c)) \<and>
    (\<forall>e \<in> set news. pos < se_ID e \<and> se_ID e \<le> se_ID (last news))"
proof -
  have srt: "sorted_wrt (<) (map se_ID (snapshotToEntries dec (Some r)))" using entries_sorted [OF assms(3)] .
  have filtered: "rangeEntries (snapshotToEntries dec (Some r)) pos MaxStreamID True False count = news"
    using rangeEntries_eq [of "snapshotToEntries dec (Some r)"] srt
    by (simp add: strict_sorted_imp_sorted assms(7) undelivered_def in_range_def [abs_def] MaxStreamID_greatest)
  have prep: "rg_prepare key g c = (Inr (Some r, gSnap), c)"
    using getStreamSnapshot_eq [OF assms(2)] assms(3,4,5)
    by (simp add: rg_prepare_def rg_err_def bind_cmd_def seq_cmd_def guard_cmd_def getGroupSnapshot_def snapshot_cmd_def ok_def
        classify_def stream_ok_def)
  have "doXReadGroup dec now [(key, NewOnly)] g consumer count noAck c =
    (if news = [] then (Inr [], c)
     else (Inr [(key, news)], adding (delivery_effects key g consumer now noAck entriesRead createdAt news) c))"
    using deliver_new_ok [OF assms(1)]
    by (simp add: doXReadGroup_def restore_on_stop_def read_group_stream_def bind_cmd_def prep assms(6) filtered rg_err_def
        seq_cmd_def ok_def)
  moreover have "pos < se_ID e \<and> se_ID e \<le> se_ID (last news)" if e: "e \<in> set news" for e
  proof -
    have "sorted_wrt (<) (map se_ID news)"
      using srt unfolding assms(7) undelivered_def limited_def by (simp add: sorted_wrt_map sorted_wrt_filter sorted_wrt_take)
    then have "se_ID e \<le> se_ID (last news)"
      using e by (cases news rule: rev_cases) (auto simp: sorted_wrt_append)
    then show ?thesis using e unfolding assms(7) undelivered_def limited_def by (auto split: if_splits dest: in_set_takeD)
  qed
  ultimately show ?thesis by blast
qed

text \<open>A stream with one entry and a group that has read nothing.\<close>

definition group_snap :: ReducedEffect where
  "group_snap = empty_stream\<lparr>r_Collection := KEYED, r_NetAdds := [(bstr ''__group__'',
     \<lparr>el_Data = insert_data KEYED (bstr ''__group__'') (Raw (encodeGroupMeta MinStreamID 0 0)), el_ExpiresAt = None\<rparr>)]\<rparr>"

definition group_context :: Context where
  "group_context = empty_context\<lparr>c_snapshot := (\<lambda>_ k.
     if k = [107] then Inr (Some one_entry_stream, [])
     else if k = groupKey [107] [103] then Inr (Some group_snap, []) else Inr (None, []))\<rparr>"

lemma one_entry_ok: "stream_ok (Some one_entry_stream)"
  by (simp add: stream_ok_def one_entry_stream_def empty_stream_def elem_id_def insert_data_def)

lemma one_entry_undelivered:
  "undelivered GetRaw one_entry_stream MinStreamID 10 = [\<lparr>se_ID = StreamID 5 1, se_Fields = []\<rparr>]"
  unfolding undelivered_def entries_ok [OF one_entry_ok]
  by (simp add: one_entry_stream_def empty_stream_def entry_of_def elem_id_def insert_data_def limited_def GetRaw_def
      decodeStreamFields_def MinStreamID_def less_StreamID_def)

theorem xreadgroup_delivers_witness:
  "doXReadGroup GetRaw 7 [([107], NewOnly)] [103] [99] 10 True group_context =
   (Inr [([107], [\<lparr>se_ID = StreamID 5 1, se_Fields = []\<rparr>])],
    adding (delivery_effects [107] [103] [99] 7 True 0 0 [\<lparr>se_ID = StreamID 5 1, se_Fields = []\<rparr>]) group_context)"
proof -
  have "reads_ok group_context" by (simp add: reads_ok_def group_context_def empty_context_def)
  moreover have "GetSnapshot [107] group_context = Inr (Some one_entry_stream, [])"
    "GetSnapshot (groupKey [107] [103]) group_context = Inr (Some group_snap, [])"
    by (simp_all add: GetSnapshot_def group_context_def)
  moreover have "map_of (net_adds (Some group_snap)) (bstr ''__group__'') \<noteq> None"
    "getGroupMeta GetRaw (Some group_snap) = (MinStreamID, 0, 0)"
    by (simp_all add: net_adds_def group_snap_def getGroupMeta_def insert_data_def GetRaw_def decodeGroupMeta_def encodeGroupMeta_def)
  ultimately show ?thesis
    using xreadgroup_delivers [OF _ _ one_entry_ok _ _ _ one_entry_undelivered [symmetric], of group_context "[107]" "[]" "[103]"
        "Some group_snap" "[]" 0 0 7 "[99]" True] by simp
qed

section \<open>Short consumer names\<close>

lemma load_pending_empty:
  assumes "\<forall>(k, el) \<in> set (net_adds pelSnap). length (dec (el_Data el)) < 24"
  shows "load_pending dec pelSnap = Map.empty"
proof -
  have "foldl (\<lambda>m (elemID, el).
        let raw = dec (el_Data el); sid = decodeStreamElementID elemID in
        if length elemID = 16 \<and> 24 \<le> length raw
        then m(sid \<mapsto> \<lparr>pe_ID = sid, pe_Consumer = drop 24 raw, pe_DeliveryTime = 0, pe_DeliveryCount = 0\<rparr>)
        else m) m xs = m" if "\<forall>(k, el) \<in> set xs. length (dec (el_Data el)) < 24" for m xs
    using that by (induction xs arbitrary: m) (auto simp: Let_def)
  then show ?thesis using assms by (simp add: load_pending_def)
qed

text \<open>
  Claim C39. \<^verbatim>\<open>XTRIM ... ACKED\<close> trims entries that are pending: the records of pending entries are read in another layout than
  they are written in, and with consumer names of up to three bytes they are too short to be seen. Whatever is pending in the
  group, every entry up to its position may go.
\<close>

theorem xtrim_acked_trims_pending:
  assumes "GetSnapshot (groupKey key g) c = Inr (gSnap, t1)" "GetSnapshot (pelKey key g) c = Inr (pelSnap, t2)"
    and "\<forall>(k, el) \<in> set (net_adds pelSnap). \<exists>consumer t n. length consumer \<le> 3 \<and> dec (el_Data el) = encodePELEntry consumer t n"
    and "sid \<le> fst (getGroupMeta dec gSnap)" "pending_in sid pelSnap"
  shows "\<exists>grp. load_group dec key g c = (Inr grp, c) \<and> canTrim opts [(g, grp)] sid"
proof -
  obtain pos er ca where meta: "getGroupMeta dec gSnap = (pos, er, ca)" by (cases "getGroupMeta dec gSnap") auto
  have "\<forall>(k, el) \<in> set (net_adds pelSnap). length (dec (el_Data el)) < 24"
    using assms(3) by (fastforce simp: encodePELEntry_def)
  then have "load_pending dec pelSnap = Map.empty" by (rule load_pending_empty)
  then show ?thesis
    using assms(1,2,4) meta
    by (auto simp: load_group_def getGroupSnapshot_def getPELSnapshot_def bind_cmd_def snapshot_cmd_def ok_def canTrim_def)
qed

text \<open>One pending entry of the consumer \<^verbatim>\<open>bob\<close>, with the group's position at that entry.\<close>

definition pel_snap :: ReducedEffect where
  "pel_snap = empty_stream\<lparr>r_Collection := KEYED, r_NetAdds := [(encodeStreamElementID MinStreamID,
     \<lparr>el_Data = insert_data KEYED (encodeStreamElementID MinStreamID) (Raw (encodePELEntry (bstr ''bob'') 7 1)), el_ExpiresAt = None\<rparr>)]\<rparr>"

theorem xtrim_acked_trims_pending_witness:
  "\<exists>grp. load_group GetRaw [107] [103] (empty_context\<lparr>c_snapshot := (\<lambda>_ _. Inr (Some pel_snap, []))\<rparr>) =
     (Inr grp, empty_context\<lparr>c_snapshot := (\<lambda>_ _. Inr (Some pel_snap, []))\<rparr>) \<and>
   canTrim (no_trim\<lparr>t_RefMode := RefModeAcked\<rparr>) [([103], grp)] MinStreamID"
proof (rule xtrim_acked_trims_pending)
  show "\<forall>(k, el) \<in> set (net_adds (Some pel_snap)). \<exists>consumer t n. length consumer \<le> 3 \<and> GetRaw (el_Data el) = encodePELEntry consumer t n"
    by (auto simp: net_adds_def pel_snap_def insert_data_def GetRaw_def intro!: exI [of _ "bstr ''bob''"])
qed (simp_all add: GetSnapshot_def MinStreamID_least pending_in_def net_adds_def pel_snap_def)

section \<open>Reads in scripts\<close>

text \<open>
  \<^verbatim>\<open>XREAD\<close> and \<^verbatim>\<open>XREADGROUP\<close> with valid arguments write no reply when they are called from a script: the
  non-blocking variant only prepares the command, and what it prepares is never run.
\<close>

theorem reads_in_scripts_silent:
  "(h_valid (handleXReadNonBlocking dec parse_float args w) \<longrightarrow> handleXRead dec parse_float True args wakes c w = Some w) \<and>
   (h_valid (handleXReadGroupNonBlocking dec now gargs w) \<longrightarrow> handleXReadGroup dec True now gargs gwakes (c, w) = (Some w, c))"
  by (auto simp: handleXRead_def handleXReadNonBlocking_def handleXReadGroup_def handleXReadGroupNonBlocking_def accept_def reject_def
      split: if_splits sum.splits prod.splits)

theorem reads_in_scripts_silent_witness:
  "handleXRead GetRaw (\<lambda>_. None) True [bstr ''STREAMS'', [107], [48]] [] empty_context (NewWriter []) = Some (NewWriter [])"
proof -
  have "h_valid (handleXReadNonBlocking GetRaw (\<lambda>_. None) [bstr ''STREAMS'', [107], [48]] (NewWriter []))"
    by (simp add: handleXReadNonBlocking_def ToUpper_eq bytes_simps parse_xread_streams_def parse_read_from_def ParseStreamID_def
        split_dash_def parse_uint64_def is_digit_def dec_val_def dec_step_def accept_def Let_def)
  then show ?thesis using reads_in_scripts_silent by blast
qed

end
