(* ===== verification/Stream_Trim_Refine.thy ===== *)
theory Stream_Trim_Refine
  imports Stream_Refine Stream_Trim_Facts
begin

text \<open>\<^verbatim>\<open>XTRIM\<close> by length as an operation on the list of entries, through the stream value that it builds and trims.\<close>

section \<open>The stream value of a list of entries\<close>

lemma insort_insert_last: "\<forall>x \<in> set xs. x < k \<Longrightarrow> insort_insert k xs = xs @ [k :: bytes]"
proof -
  assume less: "\<forall>x \<in> set xs. x < k"
  then have "insort k xs = xs @ [k]" by (induction xs) (auto simp: not_le)
  then show ?thesis using less by (auto simp: insort_insert_key_def)
qed

lemma stream_value_loop:
  assumes "sorted_wrt (<) (map se_ID es)" "sv_Index sv = []"
  defines "sv' \<equiv> foldl (\<lambda>sv e. sv\<lparr>sv_Entries := (sv_Entries sv)(Key (se_ID e) \<mapsto> e),
      sv_Index := insort_insert (Key (se_ID e)) (sv_Index sv)\<rparr>) sv es"
  shows "sv_Index sv' = map (\<lambda>e. Key (se_ID e)) es \<and> (\<forall>e \<in> set es. sv_Entries sv' (Key (se_ID e)) = Some e)"
  using assms(1) unfolding sv'_def
proof (induction es rule: rev_induct)
  case Nil
  then show ?case using assms(2) by simp
next
  case (snoc e es)
  have less: "\<forall>x \<in> set es. se_ID x < se_ID e" using snoc.prems by (simp add: sorted_wrt_append)
  then have "\<forall>k \<in> set (map (\<lambda>e. Key (se_ID e)) es). k < Key (se_ID e)" by (simp add: sid_key.less_iff)
  from insort_insert_last [OF this] snoc.IH snoc.prems less
  show ?case by (auto simp: sorted_wrt_append Key_eq_iff)
qed

lemma entriesToStreamValue_spec:
  assumes "sorted_wrt (<) (map se_ID es)"
  shows "sv_Index (entriesToStreamValue dec es snap) = map (\<lambda>e. Key (se_ID e)) es"
    "\<forall>e \<in> set es. sv_Entries (entriesToStreamValue dec es snap) (Key (se_ID e)) = Some e"
    "sv_wf (entriesToStreamValue dec es snap)" "ForEach (entriesToStreamValue dec es snap) = es"
proof -
  let ?sv = "entriesToStreamValue dec es snap"
  obtain l a m b where meta: "streamMetadata dec snap = (l, a, m, b)" by (cases "streamMetadata dec snap") auto
  define sv0 where "sv0 = NewStreamValue\<lparr>sv_LastID := l, sv_EntriesAdded := a, sv_MaxDeletedID := m\<rparr>"
  have sv0: "sv_Index sv0 = []" by (simp add: sv0_def NewStreamValue_def)
  note loop = stream_value_loop [OF assms sv0]
  show i: "sv_Index ?sv = map (\<lambda>e. Key (se_ID e)) es" and e: "\<forall>e \<in> set es. sv_Entries ?sv (Key (se_ID e)) = Some e"
    using loop sv0 by (simp_all add: entriesToStreamValue_def meta sv0_def [symmetric] Let_def)
  have "sorted_wrt (<) (map (\<lambda>e. Key (se_ID e)) es)" using assms by (simp add: sorted_wrt_map sid_key.less_iff)
  then show "sv_wf ?sv" using i e by (simp add: sv_wf_def list_all_iff)
  have "List.map_filter E (map (\<lambda>e. Key (se_ID e)) xs) = xs" if "\<forall>e \<in> set xs. E (Key (se_ID e)) = Some e" for E xs
    using that by (induction xs) (simp_all add: List.map_filter_simps)
  from this [OF e] show "ForEach ?sv = es" by (simp add: ForEach_def i)
qed

section \<open>XTRIM\<close>

lemma filter_drop_keys: "distinct (map f xs) \<Longrightarrow> filter (\<lambda>x. f x \<notin> f ` set (drop k xs)) xs = take k xs"
proof -
  assume d: "distinct (map f xs)"
  then have inj: "inj_on f (set xs)" and dx: "distinct xs" by (simp_all add: distinct_map)
  have "set (take k xs) \<inter> set (drop k xs) = {}" using dx by (metis append_take_drop_id distinct_append)
  then have "\<forall>x \<in> set (take k xs). f x \<notin> f ` set (drop k xs)"
    using inj_on_image_mem_iff [OF inj _ set_drop_subset] set_take_subset [of k xs] by blast
  then have "filter (\<lambda>x. f x \<notin> f ` set (drop k xs)) (take k xs @ drop k xs) = take k xs @ []"
    unfolding filter_append by (intro arg_cong2 [where f = append]) (auto simp: filter_empty_conv)
  then show ?thesis by simp
qed

lemma Trim_maxlen_entries:
  assumes "sorted_wrt (<) (map se_ID es)" "int (length es) \<le> MaxInt64" "0 \<le> sint n"
    and opts_def: "opts = no_trim\<lparr>t_MaxLen := n, t_HasMaxLen := True, t_NodeSize := node\<rparr>" and k_def: "k = length es - nat (sint n)"
  shows "fst (Trim opts (entriesToStreamValue dec es snap)) = of_nat k"
    "ForEach (snd (Trim opts (entriesToStreamValue dec es snap))) = drop k es"
proof -
  let ?sv = "entriesToStreamValue dec es snap"
  note sv = entriesToStreamValue_spec [OF assms(1), of dec snap]
  have ks: "minid_keys opts ?sv @ maxlen_keys opts ?sv = take k (sv_Index ?sv)"
    using exact_maxlen_keys [OF sv(3), of opts] assms(2,3) by (simp add: opts_def no_trim_def sv(1) k_def)
  show "fst (Trim opts ?sv) = of_nat k"
    unfolding Trim_keys [THEN conjunct2, THEN conjunct1] ks by (simp add: sv(1) k_def)
  have "ForEach (snd (Trim opts ?sv)) = List.map_filter (sv_Entries ?sv) (drop k (sv_Index ?sv))"
    unfolding ForEach_Trim ks by (simp add: filter_not_take [OF sv_wf_distinct [OF sv(3)]])
  also have "\<dots> = drop k (ForEach ?sv)"
    unfolding ForEach_def by (rule map_filter_index) (use sv_wf_entry [OF sv(3)] in blast)
  finally show "ForEach (snd (Trim opts ?sv)) = drop k es" by (simp add: sv(4))
qed

lemma xtrim_run:
  assumes "reads_ok c" "GetSnapshot key c = Inr (Some r, tips)" "stream_ok (Some r)" "es = snapshotToEntries dec (Some r)"
    and "int (length es) \<le> MaxInt64" "0 \<le> sint n" "k = length es - nat (sint n)"
  shows "xtrim_command dec node key (no_trim\<lparr>t_MaxLen := n, t_HasMaxLen := True\<rparr>) c =
    (Inr (WriteInteger (of_nat k)),
     adding ((noop_effect key, tips) # map (\<lambda>e. (stream_remove key (se_ID e), [])) (take k es)) c)"
proof -
  let ?opts = "no_trim\<lparr>t_MaxLen := n, t_HasMaxLen := True, t_NodeSize := node\<rparr>"
  have srt: "sorted_wrt (<) (map se_ID es)" unfolding assms(4) by (rule entries_sorted [OF assms(3)])
  have dist: "distinct (map (\<lambda>e. Key (se_ID e)) es)"
    using srt by (simp add: strict_sorted_iff distinct_map inj_on_def Key_eq_iff)
  obtain sv' where trim: "Trim ?opts (entriesToStreamValue dec es (Some r)) = (of_nat k, sv')" "ForEach sv' = drop k es"
    using Trim_maxlen_entries [OF srt assms(5,6) refl assms(7), of node dec "Some r"] by (metis prod.collapse)
  have gone: "filter (\<lambda>e. Key (se_ID e) \<notin> set (map (\<lambda>e. Key (se_ID e)) (ForEach sv'))) es = take k es"
    using filter_drop_keys [OF dist, of k] by (simp add: trim(2))
  have "sint (of_nat k :: i64) = int k" by (rule sint64_of_nat) (use assms(5,7) in linarith)
  then have pos: "0 < sint (of_nat k :: i64) \<longleftrightarrow> k \<noteq> 0" by simp
  have effects: "xtrim_effects key RefModeKeepRef es (map (\<lambda>e. Key (se_ID e)) (ForEach sv')) c' =
      (Inr (), adding (map (\<lambda>e. (stream_remove key (se_ID e), [])) (take k es)) c')" if "reads_ok c'" for c'
    unfolding xtrim_effects_def gone Let_def
    using each_cmd_ok [of "take k es" "\<lambda>e. emitStreamRemove key (se_ID e)" "\<lambda>e. [(stream_remove key (se_ID e), [])]" c'] that
    by (simp add: emitStreamRemove_def emit_cmd_ok seq_cmd_def bind_cmd_def when_cmd_def ok_def map_concat comp_def)
  have snap: "getStreamSnapshot key c = (Inr (Some r, tips, True, False), c)"
    using getStreamSnapshot_eq [OF assms(2)] assms(3) by (simp add: classify_def stream_ok_def)
  have noop: "emitNoop key tips c = (Inr (), adding [(noop_effect key, tips)] c)"
    using assms(1) by (simp add: emitNoop_def noop_effect_def emit_cmd_ok)
  have keep: "t_RefMode (no_trim\<lparr>t_MaxLen := n, t_HasMaxLen := True, t_NodeSize := node\<rparr>) = RefModeKeepRef" by (simp add: no_trim_def)
  show ?thesis
    unfolding xtrim_command_def with_stream_def
    using assms(1) by (simp add: bind_cmd_def seq_cmd_def or_reply_def snap guard_cmd_def ok_def noop assms(4) [symmetric] Let_def keep trim(1)
        when_cmd_def pos effects)
qed

lemma parse_xtrim_maxlen:
  assumes "int n \<le> MaxInt64"
  shows "parse_xtrim [bstr ''MAXLEN'', fmt_int (int n)] = Inr (no_trim\<lparr>t_MaxLen := of_nat n, t_HasMaxLen := True\<rparr>)"
proof -
  have a: "atoi (fmt_int (int n)) = Some (int n)" using assms by (simp add: atoi_fmt_int)
  have "atoi (bstr ''='') = None" "atoi (bstr ''~'') = None" by (simp_all add: atoi_def bytes_simps is_digit_def)
  then have "fmt_int (int n) \<noteq> bstr ''=''" "fmt_int (int n) \<noteq> bstr ''~''" using a by auto
  then show ?thesis
    using a by (simp add: parse_xtrim_def parse_maxlen_def parse_threshold_def parse_nonneg_def approx_set_def parse_xtrim_limit_def
        ToUpper_eq bytes_simps)
qed

text \<open>
  Claim C32. \<^verbatim>\<open>XTRIM key MAXLEN n\<close> on an engine with ordered collections keeps exactly the \<open>n\<close> newest entries, replies with the number of
  entries that went, and keeps the last ID of a stream without deleted IDs, except for \<open>n = 0\<close>: a stream that is trimmed to nothing
  has 0-0 as its last ID again, since each entry is removed once, which leaves no trace of it, so that the next entry may
  reuse an ID that was already delivered. \<^verbatim>\<open>XDEL\<close> removes every entry twice for this reason.
\<close>

theorem xtrim_refines:
  assumes "ordered_engine reduce dec" "reads_ok c" "GetSnapshot key c = Inr (Some r, tips)" "stream_ok (Some r)" "r_NetRemoves r = []"
    and "es = snapshotToEntries dec (Some r)" "int (length es) \<le> MaxInt64" "int n \<le> MaxInt64"
  shows "\<exists>f eff r'. h_runner (handleXTrim dec node [key, bstr ''MAXLEN'', fmt_int (int n)] w0) = Some f \<and>
    f (c, w) = Some (adding eff c, WriteInteger (of_nat (length es - n)) w) \<and> foldl reduce (Some r) (map fst eff) = Some r' \<and>
    snapshotToEntries dec (Some r') = drop (length es - n) es \<and>
    last_id dec (Some r') = (if n = 0 then MinStreamID else last_id dec (Some r))"
proof -
  let ?k = "length es - n" and ?opts = "no_trim\<lparr>t_MaxLen := of_nat n, t_HasMaxLen := True\<rparr>"
  have n: "sint (of_nat n :: i64) = int n" using assms(8) by (rule sint64_of_nat)
  define f where "f = run_with_savepoint (xtrim_command dec node key ?opts)"
  define eff where "eff = (noop_effect key, tips) # map (\<lambda>e. (stream_remove key (se_ID e), [])) (take ?k es)"
  have h: "h_runner (handleXTrim dec node [key, bstr ''MAXLEN'', fmt_int (int n)] w0) = Some f"
    by (simp add: handleXTrim_def parse_xtrim_maxlen [OF assms(8)] accept_def f_def)
  have run: "f (c, w) = Some (adding eff c, WriteInteger (of_nat ?k) w)"
    using xtrim_run [OF assms(2-4,6,7), of "of_nat n" ?k node] by (simp add: n f_def eff_def run_with_savepoint_def)
  obtain r' where r': "foldl reduce (Some r) (map (\<lambda>e. stream_remove key (se_ID e)) (take ?k es)) = Some r'" "stream_ok (Some r')"
    "snapshotToEntries dec (Some r') = drop ?k es" "r_NetRemoves r' = r_NetRemoves r"
    using remove_oldest [OF assms(1,4), of key ?k] unfolding assms(6) by blast
  have noop: "reduce (Some r) (noop_effect key) = Some r" using assms(1) by (simp add: ordered_engine_def noop_effect_def)
  have "streamLastID (drop ?k es) = (if n = 0 then MinStreamID else streamLastID es)"
  proof (cases "es = [] \<or> n = 0")
    case False
    then have k: "?k < length es" by (cases es) auto
    then have "drop ?k es \<noteq> []" by simp
    with False show ?thesis by (simp only: streamLastID_def last_drop [OF k]) simp
  qed (auto simp: streamLastID_def)
  then have "last_id dec (Some r') = (if n = 0 then MinStreamID else last_id dec (Some r))"
    using r'(3,4) assms(5) by (simp add: last_id_max [OF r'(2)] last_id_max [OF assms(4)] assms(6) [symmetric] removes_def max_removed_def)
  moreover have "foldl reduce (Some r) (map fst eff) = Some r'" using r'(1) by (simp add: eff_def noop comp_def)
  ultimately show ?thesis using h run r'(3) by blast
qed

theorem xtrim_refines_witness:
  "\<exists>f eff r'. h_runner (handleXTrim GetRaw 100 [[107], bstr ''MAXLEN'', fmt_int (int 0)] (NewWriter [])) = Some f \<and>
    f (empty_context\<lparr>c_snapshot := (\<lambda>_ _. Inr (Some one_entry_stream, []))\<rparr>, NewWriter []) =
      Some (adding eff (empty_context\<lparr>c_snapshot := (\<lambda>_ _. Inr (Some one_entry_stream, []))\<rparr>), WriteInteger 1 (NewWriter [])) \<and>
    foldl list_reduce (Some one_entry_stream) (map fst eff) = Some r' \<and> snapshotToEntries GetRaw (Some r') = [] \<and>
    last_id GetRaw (Some r') = MinStreamID"
proof -
  let ?c = "empty_context\<lparr>c_snapshot := (\<lambda>_ _. Inr (Some one_entry_stream, []))\<rparr>"
  have ok: "stream_ok (Some one_entry_stream)" "r_NetRemoves one_entry_stream = []"
    by (simp_all add: stream_ok_def one_entry_stream_def empty_stream_def elem_id_def insert_data_def)
  have len: "length (snapshotToEntries GetRaw (Some one_entry_stream)) = 1"
    unfolding entries_ok [OF ok(1)] by (simp add: one_entry_stream_def)
  have "reads_ok ?c" "GetSnapshot [107] ?c = Inr (Some one_entry_stream, [])"
    by (simp_all add: reads_ok_def empty_context_def GetSnapshot_def)
  from xtrim_refines [OF list_engine this ok refl, of 0 100 "NewWriter []" "NewWriter []"] show ?thesis by (simp add: len)
qed

end
