(* ===== verification/Set_Commands.thy ===== *)
theory Set_Commands
  imports Collections
begin

text \<open>
  \<^verbatim>\<open>redis/set/core.go\<close> and \<^verbatim>\<open>redis/set/query.go\<close>: sets are keyed collections whose elements are named by the members.
  \<open>IntN k n\<close> is the \<open>k\<close>-th number a command draws from \<^verbatim>\<open>rand.IntN(n)\<close>.
\<close>

section \<open>Snapshots and effects\<close>

definition set_typed :: "ReducedEffect \<Rightarrow> bool" where
  "set_typed r \<longleftrightarrow> r_Collection r = KEYED \<or> r_Collection r = SCALAR \<and> r_TypeTag r = TYPE_SET"

definition getSetSnapshot :: reader where
  "getSetSnapshot key =
     bind_cmd (snapshot_cmd key) (\<lambda>(snap, tips).
       ok (case snap of
             None \<Rightarrow> (None, tips, False, False)
           | Some r \<Rightarrow>
               if r_Op r = REMOVE_OP then (None, tips, False, False)
               else if r_Collection r = KEYED then (Some r, tips, True, False)
               else if r_Collection r = SCALAR \<and> r_TypeTag r = TYPE_SET then (Some r, tips, True, False)
               else (None, tips, True, True)))"

lemma getSetSnapshot_typed:
  "getSetSnapshot key = bind_cmd (snapshot_cmd key) (\<lambda>(snap, tips). ok (typed set_typed snap tips))"
  unfolding getSetSnapshot_def by (rule arg_cong [where f = "bind_cmd _"]) (auto simp: fun_eq_iff typed_def set_typed_def split: option.splits)

interpretation set_reader: typed_reader getSetSnapshot set_typed
  by unfold_locales (rule getSetSnapshot_typed)

definition set_insert :: "bytes \<Rightarrow> bytes \<Rightarrow> Effect" where
  "set_insert key m = data_effect key (insert_data KEYED m (Raw m))"

definition set_remove :: "bytes \<Rightarrow> bytes \<Rightarrow> Effect" where
  "set_remove key m = data_effect key (remove_data KEYED m)"

definition delete_effect :: "bytes \<Rightarrow> Effect" where
  "delete_effect key = data_effect key (remove_data SCALAR [])"

definition emitSetInsert :: "bytes \<Rightarrow> bytes \<Rightarrow> (bytes, unit) cmd" where
  "emitSetInsert key m = emit_cmd (set_insert key m) []"

definition emitSetRemove :: "bytes \<Rightarrow> bytes \<Rightarrow> (bytes, unit) cmd" where
  "emitSetRemove key m = emit_cmd (set_remove key m) []"

definition emitSetTypeTag :: "bytes \<Rightarrow> (bytes, unit) cmd" where
  "emitSetTypeTag key = emit_cmd (meta_effect key TYPE_SET) []"

definition emitDeleteKey :: "bytes \<Rightarrow> tip list \<Rightarrow> (bytes, unit) cmd" where
  "emitDeleteKey key tips = emit_cmd (delete_effect key) tips"

section \<open>Adding, removing, popping, moving\<close>

definition sadd_loop :: "bytes \<Rightarrow> ReducedEffect option \<Rightarrow> bytes list \<Rightarrow> (bytes, i64) cmd" where
  "sadd_loop key snap members =
     fold_cmd (\<lambda>m added.
       if has_elem snap m then ok added else seq_cmd (emitSetInsert key m) (ok (added + 1))) members 0"

definition sadd_command :: "bytes \<Rightarrow> bytes list \<Rightarrow> (answer, answer) cmd" where
  "sadd_command key members =
     typed_key getSetSnapshot key (\<lambda>snap tips exists.
       bind_cmd (or_reply (sadd_loop key snap members)) (\<lambda>added.
         seq_cmd (or_reply (when_cmd (\<not> exists) (emitSetTypeTag key))) (ok (WriteInteger added))))"

definition handleSAdd :: "bytes list \<Rightarrow> Writer \<Rightarrow> handler_result" where
  "handleSAdd args w =
     (case args of
        key # m # ms \<Rightarrow> accept [key] w (run_cmd (sadd_command key (m # ms)))
      | _ \<Rightarrow> reject [] (WriteWrongNumArguments (bstr ''sadd'') w))"

definition srem_loop :: "bytes \<Rightarrow> ReducedEffect option \<Rightarrow> bytes list \<Rightarrow> (bytes, i64) cmd" where
  "srem_loop key snap members =
     fold_cmd (\<lambda>m removed.
       if has_elem snap m then seq_cmd (emitSetRemove key m) (ok (removed + 1)) else ok removed) members 0"

definition srem_command :: "bytes \<Rightarrow> bytes list \<Rightarrow> (answer, answer) cmd" where
  "srem_command key members =
     with_key getSetSnapshot key (WriteInteger 0) (\<lambda>snap tips.
       bind_cmd (or_reply (srem_loop key snap members)) (\<lambda>removed. ok (WriteInteger removed)))"

definition handleSRem :: "bytes list \<Rightarrow> Writer \<Rightarrow> handler_result" where
  "handleSRem args w =
     (case args of
        key # m # ms \<Rightarrow> accept [key] w (run_cmd (srem_command key (m # ms)))
      | _ \<Rightarrow> reject [] (WriteWrongNumArguments (bstr ''srem'') w))"

definition spop_reply :: "bool \<Rightarrow> bytes list \<Rightarrow> answer" where
  "spop_reply returnArray popped =
     (if returnArray then write_array WriteBulkString popped
      else case popped of [] \<Rightarrow> WriteNullBulkString | m # _ \<Rightarrow> WriteBulkString m)"

text \<open>A slice of byte strings takes 24 bytes for each.\<close>

definition spop_command :: "bytes \<Rightarrow> int \<Rightarrow> bool \<Rightarrow> (answer, answer option) cmd" where
  "spop_command key count returnArray =
     with_key getSetSnapshot key (if returnArray then WriteArray 0 else WriteNullBulkString) (\<lambda>snap tips.
       seq_cmd (or_reply (emitNoop key tips))
         (if make_panics 24 count then ok None
          else
            let popped = take (nat count) (map fst (net_adds snap))
            in seq_cmd (or_reply (each_cmd (emitSetRemove key) popped)) (ok (Some (spop_reply returnArray popped)))))"

definition handleSPop :: "bytes list \<Rightarrow> Writer \<Rightarrow> handler_result" where
  "handleSPop args w =
     (case args of
        [key] \<Rightarrow> accept [key] w (run_may_panic (spop_command key 1 False))
      | [key, n] \<Rightarrow>
          (case ParseInt64 n of
             None \<Rightarrow> reject [key] (err_int w)
           | Some c \<Rightarrow>
               if sint c < 0 then reject [key] (err_int w)
               else accept [key] w (run_may_panic (spop_command key (sint c) True)))
      | _ \<Rightarrow> reject [] (WriteWrongNumArguments (bstr ''spop'') w))"

definition smove_write :: "bytes \<Rightarrow> bytes \<Rightarrow> bytes \<Rightarrow> tip list \<Rightarrow> bool \<Rightarrow> (bytes, unit) cmd" where
  "smove_write srcKey dstKey m srcTips dstExists =
     seq_cmd (emitNoop srcKey srcTips)
       (seq_cmd (emitSetRemove srcKey m)
         (seq_cmd (emitSetInsert dstKey m) (when_cmd (\<not> dstExists) (emitSetTypeTag dstKey))))"

definition smove_command :: "bytes \<Rightarrow> bytes \<Rightarrow> bytes \<Rightarrow> (answer, answer) cmd" where
  "smove_command srcKey dstKey m =
     typed_key getSetSnapshot srcKey (\<lambda>srcSnap srcTips srcExists.
       typed_key getSetSnapshot dstKey (\<lambda>_ _ dstExists.
         if \<not> srcExists then ok (WriteInteger 0)
         else if \<not> has_elem srcSnap m then ok (WriteInteger 0)
         else seq_cmd (or_reply (smove_write srcKey dstKey m srcTips dstExists)) (ok (WriteInteger 1))))"

definition handleSMove :: "bytes list \<Rightarrow> Writer \<Rightarrow> handler_result" where
  "handleSMove args w =
     (case args of
        [srcKey, dstKey, m] \<Rightarrow> accept [srcKey, dstKey] w (run_cmd (smove_command srcKey dstKey m))
      | _ \<Rightarrow> reject [] (WriteWrongNumArguments (bstr ''smove'') w))"

section \<open>Queries\<close>

definition handleSCard :: "bytes list \<Rightarrow> Writer \<Rightarrow> handler_result" where
  "handleSCard args w =
     (case args of
        [key] \<Rightarrow> accept [key] w (run_cmd (with_key getSetSnapshot key (WriteInteger 0) (\<lambda>snap tips.
          ok (WriteInteger (of_nat (length (net_adds snap)))))))
      | _ \<Rightarrow> reject [] (WriteWrongNumArguments (bstr ''scard'') w))"

definition member_bit :: "ReducedEffect option \<Rightarrow> bytes \<Rightarrow> i64" where
  "member_bit snap m = (if has_elem snap m then 1 else 0)"

definition handleSIsMember :: "bytes list \<Rightarrow> Writer \<Rightarrow> handler_result" where
  "handleSIsMember args w =
     (case args of
        [key, m] \<Rightarrow> accept [key] w (run_cmd (with_key getSetSnapshot key (WriteInteger 0) (\<lambda>snap tips.
          ok (WriteInteger (member_bit snap m)))))
      | _ \<Rightarrow> reject [] (WriteWrongNumArguments (bstr ''sismember'') w))"

definition handleSMIsMember :: "bytes list \<Rightarrow> Writer \<Rightarrow> handler_result" where
  "handleSMIsMember args w =
     (case args of
        key # m # ms \<Rightarrow> accept [key] w (run_cmd
          (with_key getSetSnapshot key (write_array (\<lambda>_. WriteInteger 0) (m # ms)) (\<lambda>snap tips.
             ok (write_array (\<lambda>x. WriteInteger (member_bit snap x)) (m # ms)))))
      | _ \<Rightarrow> reject [] (WriteWrongNumArguments (bstr ''smismember'') w))"

definition handleSMembers :: "bytes list \<Rightarrow> Writer \<Rightarrow> handler_result" where
  "handleSMembers args w =
     (case args of
        [key] \<Rightarrow> accept [key] w (run_cmd (with_key getSetSnapshot key (WriteArray 0) (\<lambda>snap tips.
          ok (write_array WriteBulkString (map fst (net_adds snap))))))
      | _ \<Rightarrow> reject [] (WriteWrongNumArguments (bstr ''smembers'') w))"

text \<open>The shuffle swaps position \<open>i\<close> with a random earlier or equal one, from the last position down to 1.\<close>

definition swap_at :: "nat \<Rightarrow> nat \<Rightarrow> 'a list \<Rightarrow> 'a list" where
  "swap_at i j xs = xs[i := xs ! j, j := xs ! i]"

fun shuffle_down :: "(nat \<Rightarrow> nat \<Rightarrow> nat) \<Rightarrow> nat \<Rightarrow> nat \<Rightarrow> 'a list \<Rightarrow> 'a list" where
  "shuffle_down IntN k 0 xs = xs"
| "shuffle_down IntN k (Suc i) xs = shuffle_down IntN (Suc k) i (swap_at (Suc i) (IntN k (Suc (Suc i))) xs)"

definition srandmember_many :: "(nat \<Rightarrow> nat \<Rightarrow> nat) \<Rightarrow> int \<Rightarrow> bytes list \<Rightarrow> bytes list" where
  "srandmember_many IntN count members =
     (if count > 0 then take (nat count) (shuffle_down IntN 0 (length members - 1) members)
      else map (\<lambda>k. members ! IntN k (length members)) [0..<nat (- count)])"

definition srandmember_command :: "(nat \<Rightarrow> nat \<Rightarrow> nat) \<Rightarrow> bytes \<Rightarrow> int \<Rightarrow> bool \<Rightarrow> (answer, answer) cmd" where
  "srandmember_command IntN key count returnArray =
     (let nothing = (if returnArray then WriteArray 0 else WriteNullBulkString)
      in with_key getSetSnapshot key nothing (\<lambda>snap tips.
           let members = map fst (net_adds snap)
           in ok (if members = [] then nothing
                  else if returnArray then write_array WriteBulkString (srandmember_many IntN count members)
                  else WriteBulkString (members ! IntN 0 (length members)))))"

definition handleSRandMember :: "(nat \<Rightarrow> nat \<Rightarrow> nat) \<Rightarrow> bytes list \<Rightarrow> Writer \<Rightarrow> handler_result" where
  "handleSRandMember IntN args w =
     (case args of
        [key] \<Rightarrow> accept [key] w (run_cmd (srandmember_command IntN key 1 False))
      | [key, n] \<Rightarrow>
          (case ParseInt64 n of
             None \<Rightarrow> reject [key] (err_int w)
           | Some c \<Rightarrow>
               if sint c = MinInt64 then reject [key] (WriteError (bstr ''ERR value is out of range'') w)
               else accept [key] w (run_cmd (srandmember_command IntN key (sint c) True)))
      | _ \<Rightarrow> reject [] (WriteWrongNumArguments (bstr ''srandmember'') w))"

end
