(* ===== verification/Set_Operations.thy ===== *)
theory Set_Operations
  imports Set_Commands
begin

text \<open>
  \<^verbatim>\<open>redis/set/setops.go\<close>: intersection, union and difference of sets, and the commands that store the result. A key that
  does not exist is \<open>None\<close> in the list of the sets read; a map that Go builds is the list of its keys without repetition.
\<close>

section \<open>Reading several sets\<close>

definition getSetMembers :: "ReducedEffect option \<Rightarrow> bytes list" where
  "getSetMembers snap = map fst (net_adds snap)"

definition read_sets :: "bytes list \<Rightarrow> (answer, bytes list option list) cmd" where
  "read_sets keys =
     fold_cmd (\<lambda>key sets. typed_key getSetSnapshot key (\<lambda>snap tips exists.
       ok (sets @ [if exists then Some (getSetMembers snap) else None]))) keys []"

definition members_of :: "bytes list option \<Rightarrow> bytes list" where
  "members_of s = (case s of None \<Rightarrow> [] | Some ms \<Rightarrow> ms)"

section \<open>Intersection\<close>

definition in_all :: "bytes \<Rightarrow> bytes list option list \<Rightarrow> bool" where
  "in_all m others = list_all (\<lambda>other. case other of None \<Rightarrow> False | Some ms \<Rightarrow> m \<in> set ms) others"

definition intersection :: "bytes list option list \<Rightarrow> bytes list" where
  "intersection sets = filter (\<lambda>m. in_all m (tl sets)) (members_of (hd sets))"

definition sinter_command :: "bytes list \<Rightarrow> (answer, answer) cmd" where
  "sinter_command keys =
     bind_cmd (read_sets keys) (\<lambda>sets.
       ok (if None \<in> set sets then WriteArray 0 else write_array WriteBulkString (intersection sets)))"

definition handleSInter :: "bytes list \<Rightarrow> Writer \<Rightarrow> handler_result" where
  "handleSInter args w =
     (if args = [] then reject [] (WriteWrongNumArguments (bstr ''sinter'') w)
      else accept args w (run_cmd (sinter_command args)))"

definition writeStoreResult :: "bytes \<Rightarrow> bytes list \<Rightarrow> (answer, answer) cmd" where
  "writeStoreResult destKey result =
     bind_cmd (or_reply (getSetSnapshot destKey)) (\<lambda>(_, destTips, _, _).
       seq_cmd (or_reply (emitDeleteKey destKey destTips))
         (seq_cmd (or_reply (each_cmd (emitSetInsert destKey) result))
           (seq_cmd (or_reply (when_cmd (result \<noteq> []) (emitSetTypeTag destKey)))
             (ok (WriteInteger (of_nat (length result)))))))"

definition handleSInterStore :: "bytes list \<Rightarrow> Writer \<Rightarrow> handler_result" where
  "handleSInterStore args w =
     (case args of
        destKey # k # ks \<Rightarrow>
          accept args w (run_cmd (bind_cmd (read_sets (k # ks)) (\<lambda>srcSets. writeStoreResult destKey (intersection srcSets))))
      | _ \<Rightarrow> reject [] (WriteWrongNumArguments (bstr ''sinterstore'') w))"

section \<open>The size of an intersection\<close>

fun parse_card_limit :: "int \<Rightarrow> bytes list \<Rightarrow> answer + int" where
  "parse_card_limit limit [] = Inr limit"
| "parse_card_limit limit (a # r) =
     (if ToUpper a = bstr ''LIMIT'' then
        (case r of
           [] \<Rightarrow> Inl WriteSyntaxError
         | v # r' \<Rightarrow>
             (case ParseInt64 v of
                None \<Rightarrow> Inl (WriteError (bstr ''ERR LIMIT can't be negative''))
              | Some l \<Rightarrow>
                  if sint l < 0 then Inl (WriteError (bstr ''ERR LIMIT can't be negative''))
                  else parse_card_limit (sint l) r'))
      else Inl WriteSyntaxError)"

fun card_loop :: "int \<Rightarrow> bytes list option list \<Rightarrow> bytes list \<Rightarrow> int \<Rightarrow> int" where
  "card_loop limit others [] count = count"
| "card_loop limit others (m # ms) count =
     (if in_all m others then
        (if limit > 0 \<and> count + 1 \<ge> limit then count + 1 else card_loop limit others ms (count + 1))
      else card_loop limit others ms count)"

definition sintercard_command :: "int \<Rightarrow> bytes list \<Rightarrow> (answer, answer) cmd" where
  "sintercard_command limit keys =
     bind_cmd (read_sets keys) (\<lambda>sets.
       ok (if None \<in> set sets then WriteInteger 0
           else WriteInteger (word_of_int (card_loop limit (tl sets) (members_of (hd sets)) 0))))"

definition handleSInterCard :: "bytes list \<Rightarrow> Writer \<Rightarrow> handler_result" where
  "handleSInterCard args w =
     (case args of
        n # a # r \<Rightarrow>
          (case ParseInt64 n of
             None \<Rightarrow> reject [] (WriteError (bstr ''ERR numkeys should be greater than 0'') w)
           | Some numKeys \<Rightarrow>
               if sint numKeys < 1 then reject [] (WriteError (bstr ''ERR numkeys should be greater than 0'') w)
               else if sint numKeys > int (length args) - 1
               then reject [] (WriteError (bstr ''ERR Number of keys can't be greater than number of args'') w)
               else
                 let keys = take (nat (sint numKeys)) (a # r)
                 in (case parse_card_limit 0 (drop (nat (sint numKeys)) (a # r)) of
                       Inl err \<Rightarrow> reject [] (err w)
                     | Inr limit \<Rightarrow> accept keys w (run_cmd (sintercard_command limit keys))))
      | _ \<Rightarrow> reject [] (WriteWrongNumArguments (bstr ''sintercard'') w))"

section \<open>Union\<close>

text \<open>The keys of a map after adding more keys to it.\<close>

definition add_keys :: "bytes list \<Rightarrow> bytes list \<Rightarrow> bytes list" where
  "add_keys result ms = result @ filter (\<lambda>m. m \<notin> set result) (remdups ms)"

definition read_union :: "bytes list \<Rightarrow> (answer, bytes list) cmd" where
  "read_union keys =
     fold_cmd (\<lambda>key result. typed_key getSetSnapshot key (\<lambda>snap tips exists.
       ok (if exists then add_keys result (map fst (net_adds snap)) else result))) keys []"

definition handleSUnion :: "bytes list \<Rightarrow> Writer \<Rightarrow> handler_result" where
  "handleSUnion args w =
     (if args = [] then reject [] (WriteWrongNumArguments (bstr ''sunion'') w)
      else accept args w (run_cmd (bind_cmd (read_union args) (\<lambda>result. ok (write_array WriteBulkString result)))))"

definition handleSUnionStore :: "bytes list \<Rightarrow> Writer \<Rightarrow> handler_result" where
  "handleSUnionStore args w =
     (case args of
        destKey # k # ks \<Rightarrow> accept args w (run_cmd (bind_cmd (read_union (k # ks)) (writeStoreResult destKey)))
      | _ \<Rightarrow> reject [] (WriteWrongNumArguments (bstr ''sunionstore'') w))"

section \<open>Difference\<close>

definition in_other :: "bytes \<Rightarrow> bytes list option list \<Rightarrow> bool" where
  "in_other m others = list_ex (\<lambda>other. case other of None \<Rightarrow> False | Some ms \<Rightarrow> m \<in> set ms) others"

definition difference :: "bytes list option list \<Rightarrow> bytes list" where
  "difference sets = filter (\<lambda>m. \<not> in_other m (tl sets)) (members_of (hd sets))"

definition handleSDiff :: "bytes list \<Rightarrow> Writer \<Rightarrow> handler_result" where
  "handleSDiff args w =
     (if args = [] then reject [] (WriteWrongNumArguments (bstr ''sdiff'') w)
      else accept args w (run_cmd (bind_cmd (read_sets args) (\<lambda>sets. ok (write_array WriteBulkString (difference sets))))))"

definition handleSDiffStore :: "bytes list \<Rightarrow> Writer \<Rightarrow> handler_result" where
  "handleSDiffStore args w =
     (case args of
        destKey # k # ks \<Rightarrow>
          accept args w (run_cmd (bind_cmd (read_sets (k # ks)) (\<lambda>srcSets. writeStoreResult destKey (difference srcSets))))
      | _ \<Rightarrow> reject [] (WriteWrongNumArguments (bstr ''sdiffstore'') w))"

end
