(* ===== verification/Keyed_Engine.thy ===== *)
theory Keyed_Engine
  imports Collections
begin

text \<open>
  The laws of the engine on keyed collections that sets and hashes rely on: an insertion sets the value of its element, a
  removal removes it, removing the scalar of a key deletes the key, a type tag keeps the elements and a noop keeps everything.
  They are the predicate \<open>keyed_engine\<close>; the reduction \<open>assoc_reduce\<close> on association lists satisfies them.
\<close>

section \<open>Laws\<close>

definition keyed_wf :: "ReducedEffect option \<Rightarrow> bool" where
  "keyed_wf s \<longleftrightarrow> (\<forall>r. s = Some r \<and> r_Op r = INSERT_OP \<longrightarrow> r_Collection r = KEYED \<and> distinct (map fst (r_NetAdds r)))"

text \<open>The elements of a key and their values.\<close>

definition kmap :: "ReducedEffect option \<Rightarrow> bytes \<Rightarrow> Payload option" where
  "kmap s i = (if live s then map_option (\<lambda>el. d_Value (el_Data el)) (map_of (net_adds s) i) else None)"

definition keyed_engine :: "engine \<Rightarrow> bool" where
  "keyed_engine reduce \<longleftrightarrow>
     (\<forall>s key i v. keyed_wf s \<longrightarrow>
        keyed_wf (reduce s (data_effect key (insert_data KEYED i v))) \<and>
        live (reduce s (data_effect key (insert_data KEYED i v))) \<and>
        kmap (reduce s (data_effect key (insert_data KEYED i v))) = (kmap s)(i \<mapsto> v)) \<and>
     (\<forall>s key i. keyed_wf s \<longrightarrow>
        keyed_wf (reduce s (data_effect key (remove_data KEYED i))) \<and>
        kmap (reduce s (data_effect key (remove_data KEYED i))) = (kmap s)(i := None)) \<and>
     (\<forall>s key. \<not> live (reduce s (data_effect key (remove_data SCALAR [])))) \<and>
     (\<forall>s key t. keyed_wf s \<and> live s \<longrightarrow>
        keyed_wf (reduce s (meta_effect key t)) \<and> live (reduce s (meta_effect key t)) \<and>
        kmap (reduce s (meta_effect key t)) = kmap s) \<and>
     (\<forall>s key. reduce s (noop_effect key) = s)"

lemma not_live_wf: "\<not> live s \<Longrightarrow> keyed_wf s"
  by (auto simp: keyed_wf_def)

lemma not_live_kmap: "\<not> live s \<Longrightarrow> kmap s = Map.empty"
  by (simp add: kmap_def fun_eq_iff)

lemma keyed_insert_law:
  assumes "keyed_engine reduce" "keyed_wf s"
  shows "keyed_wf (reduce s (data_effect key (insert_data KEYED i v)))" "live (reduce s (data_effect key (insert_data KEYED i v)))"
    "kmap (reduce s (data_effect key (insert_data KEYED i v))) = (kmap s)(i \<mapsto> v)"
  using assms unfolding keyed_engine_def by blast+

lemma keyed_remove_law:
  assumes "keyed_engine reduce" "keyed_wf s"
  shows "keyed_wf (reduce s (data_effect key (remove_data KEYED i)))"
    "kmap (reduce s (data_effect key (remove_data KEYED i))) = (kmap s)(i := None)"
  using assms unfolding keyed_engine_def by blast+

lemma keyed_delete_law:
  assumes "keyed_engine reduce"
  shows "\<not> live (reduce s (data_effect key (remove_data SCALAR [])))"
  using assms unfolding keyed_engine_def by blast

lemma keyed_meta_law:
  assumes "keyed_engine reduce" "keyed_wf s" "live s"
  shows "keyed_wf (reduce s (meta_effect key t))" "live (reduce s (meta_effect key t))" "kmap (reduce s (meta_effect key t)) = kmap s"
  using assms unfolding keyed_engine_def by blast+

lemma keyed_noop_law: "keyed_engine reduce \<Longrightarrow> reduce s (noop_effect key) = s"
  unfolding keyed_engine_def by blast

lemmas keyed_laws = keyed_insert_law keyed_remove_law keyed_delete_law keyed_meta_law keyed_noop_law

section \<open>Sequences of effects\<close>

lemma keyed_inserts:
  assumes "keyed_engine reduce" "keyed_wf s"
  shows "keyed_wf (foldl reduce s (map (\<lambda>(i, v). data_effect key (insert_data KEYED i v)) ivs)) \<and>
    (ivs \<noteq> [] \<longrightarrow> live (foldl reduce s (map (\<lambda>(i, v). data_effect key (insert_data KEYED i v)) ivs))) \<and>
    kmap (foldl reduce s (map (\<lambda>(i, v). data_effect key (insert_data KEYED i v)) ivs)) = (kmap s)(map fst ivs [\<mapsto>] map snd ivs)"
  using assms(2)
proof (induction ivs arbitrary: s)
  case (Cons iv ivs)
  obtain i v where [simp]: "iv = (i, v)" by force
  let ?s = "reduce s (data_effect key (insert_data KEYED i v))"
  have "keyed_wf ?s" "live ?s" "kmap ?s = (kmap s)(i \<mapsto> v)" using keyed_insert_law [OF assms(1) Cons.prems] by blast+
  with Cons.IH [of ?s] show ?case by (cases ivs) (simp_all del: fun_upd_apply)
qed simp

lemma keyed_removes:
  assumes "keyed_engine reduce" "keyed_wf s"
  shows "keyed_wf (foldl reduce s (map (\<lambda>i. data_effect key (remove_data KEYED i)) ms)) \<and>
    kmap (foldl reduce s (map (\<lambda>i. data_effect key (remove_data KEYED i)) ms)) = kmap s |` (- set ms)"
  using assms(2)
proof (induction ms arbitrary: s)
  case Nil
  then show ?case by (simp add: restrict_map_def fun_eq_iff)
next
  case (Cons m ms)
  let ?s = "reduce s (data_effect key (remove_data KEYED m))"
  have "keyed_wf ?s" "kmap ?s = (kmap s)(m := None)" using keyed_remove_law [OF assms(1) Cons.prems] by blast+
  with Cons.IH [of ?s] show ?case by (auto simp: restrict_map_def fun_eq_iff)
qed

lemma kmap_dom: "live s \<Longrightarrow> dom (kmap s) = fst ` set (net_adds s)"
  by (auto simp: kmap_def dom_def map_of_eq_None_iff)

lemma has_elem_kmap: "live s \<Longrightarrow> has_elem s m \<longleftrightarrow> m \<in> dom (kmap s)"
  by (auto simp: has_elem_def kmap_def)

lemma net_adds_distinct: "keyed_wf s \<Longrightarrow> live s \<Longrightarrow> distinct (map fst (net_adds s))"
  by (cases s) (auto simp: keyed_wf_def net_adds_def)

section \<open>An engine on association lists\<close>

definition empty_keyed :: ReducedEffect where
  "empty_keyed = \<lparr>r_Op = INSERT_OP, r_Collection = KEYED, r_Scalar = None, r_NetAdds = [], r_NetRemoves = [],
     r_Ordered = [], r_TypeTag = TYPE_UNSPECIFIED\<rparr>"

definition assoc_reduce :: engine where
  "assoc_reduce s e =
     (let r = (case s of None \<Rightarrow> empty_keyed | Some r \<Rightarrow> if r_Op r = INSERT_OP then r else empty_keyed)
      in case e_Kind e of
           Meta t \<Rightarrow> Some (r\<lparr>r_TypeTag := t\<rparr>)
         | Noop \<Rightarrow> s
         | Data d \<Rightarrow>
             if d_Collection d \<noteq> KEYED then None
             else if d_Op d = INSERT_OP
             then Some (r\<lparr>r_NetAdds := (d_Id d, \<lparr>el_Data = d, el_ExpiresAt = None\<rparr>) # filter (\<lambda>(i, _). i \<noteq> d_Id d) (r_NetAdds r)\<rparr>)
             else Some (r\<lparr>r_NetAdds := filter (\<lambda>(i, _). i \<noteq> d_Id d) (r_NetAdds r)\<rparr>))"

lemma map_of_filter_ne: "map_of (filter (\<lambda>(i, _). i \<noteq> k) xs) j = (if j = k then None else map_of xs j)"
  by (induction xs) auto

lemma distinct_filter_ne: "distinct (map fst xs) \<Longrightarrow> distinct (map fst (filter (\<lambda>(i, _). i \<noteq> k) xs))"
  by (induction xs) auto

lemma filter_ne_fst: "k \<notin> fst ` set (filter (\<lambda>(i, _). i \<noteq> k) xs)"
  by auto

lemma assoc_engine: "keyed_engine assoc_reduce"
proof -
  note defs = assoc_reduce_def data_effect_def insert_data_def remove_data_def meta_effect_def noop_effect_def empty_keyed_def
    kmap_def net_adds_def keyed_wf_def map_of_filter_ne distinct_filter_ne fun_eq_iff
  have 1: "keyed_wf (assoc_reduce s (data_effect key (insert_data KEYED i v))) \<and>
      live (assoc_reduce s (data_effect key (insert_data KEYED i v))) \<and>
      kmap (assoc_reduce s (data_effect key (insert_data KEYED i v))) = (kmap s)(i \<mapsto> v)" if "keyed_wf s" for s key i v
    using that by (cases s) (auto simp: defs)
  have 2: "keyed_wf (assoc_reduce s (data_effect key (remove_data KEYED i))) \<and>
      kmap (assoc_reduce s (data_effect key (remove_data KEYED i))) = (kmap s)(i := None)" if "keyed_wf s" for s key i
    using that by (cases s) (auto simp: defs)
  have 3: "\<not> live (assoc_reduce s (data_effect key (remove_data SCALAR [])))" for s key by (simp add: defs)
  have 4: "keyed_wf (assoc_reduce s (meta_effect key t)) \<and> live (assoc_reduce s (meta_effect key t)) \<and>
      kmap (assoc_reduce s (meta_effect key t)) = kmap s" if "keyed_wf s" "live s" for s key t
    using that by (cases s) (auto simp: defs)
  have 5: "assoc_reduce s (noop_effect key) = s" for s key by (simp add: defs)
  show ?thesis unfolding keyed_engine_def using 1 2 3 4 5 by blast
qed

end
