(* ===== verification/Set_Facts.thy ===== *)
theory Set_Facts
  imports Set_Operations Keyed_Engine
begin

text \<open>
  Sets as sets: every sequence of the commands that write sets does to a database of sets what the operations on
  mathematical sets do, and replies accordingly, given the laws of the engine on keyed collections.
\<close>

section \<open>The loops\<close>

lemma fold_count: "fold (\<lambda>x n. if P x then n + 1 else n) xs a = a + (of_nat (length (filter P xs)) :: i64)"
  by (induction xs arbitrary: a) (simp_all add: algebra_simps)

lemma concat_if: "concat (map (\<lambda>x. if P x then [f x] else []) xs) = map f (filter P xs)"
  by (induction xs) simp_all

lemma sadd_loop_ok:
  assumes "reads_ok c"
  shows "sadd_loop key snap ms c =
    (Inr (of_nat (length (filter (\<lambda>m. \<not> has_elem snap m) ms))),
     adding (map (\<lambda>m. (set_insert key m, [])) (filter (\<lambda>m. \<not> has_elem snap m) ms)) c)"
proof -
  have "sadd_loop key snap ms c =
      (Inr (fold (\<lambda>m n. if \<not> has_elem snap m then n + 1 else n) ms 0),
       adding (concat (map (\<lambda>m. if \<not> has_elem snap m then [(set_insert key m, [])] else []) ms)) c)"
    unfolding sadd_loop_def by (rule fold_cmd_ok) (use assms in \<open>simp_all add: emitSetInsert_def seq_cmd_def bind_cmd_def emit_cmd_ok ok_def\<close>)
  then show ?thesis by (simp only: fold_count concat_if add_0)
qed

lemma srem_loop_ok:
  assumes "reads_ok c"
  shows "srem_loop key snap ms c =
    (Inr (of_nat (length (filter (has_elem snap) ms))),
     adding (map (\<lambda>m. (set_remove key m, [])) (filter (has_elem snap) ms)) c)"
proof -
  have "srem_loop key snap ms c =
      (Inr (fold (\<lambda>m n. if has_elem snap m then n + 1 else n) ms 0),
       adding (concat (map (\<lambda>m. if has_elem snap m then [(set_remove key m, [])] else []) ms)) c)"
    unfolding srem_loop_def by (rule fold_cmd_ok) (use assms in \<open>simp_all add: emitSetRemove_def seq_cmd_def bind_cmd_def emit_cmd_ok ok_def\<close>)
  then show ?thesis by (simp only: fold_count concat_if add_0)
qed

lemma inserts_ok: "reads_ok c \<Longrightarrow> each_cmd (emitSetInsert key) ms c = (Inr (), adding (map (\<lambda>m. (set_insert key m, [])) ms) c)"
  using each_cmd_ok [of ms "emitSetInsert key" "\<lambda>m. [(set_insert key m, [])]" c]
  by (simp add: emitSetInsert_def emit_cmd_ok concat_map_singleton)

lemma set_removes_ok: "reads_ok c \<Longrightarrow> each_cmd (emitSetRemove key) ms c = (Inr (), adding (map (\<lambda>m. (set_remove key m, [])) ms) c)"
  using each_cmd_ok [of ms "emitSetRemove key" "\<lambda>m. [(set_remove key m, [])]" c]
  by (simp add: emitSetRemove_def emit_cmd_ok concat_map_singleton)

section \<open>The database of sets\<close>

definition members :: "ReducedEffect option \<Rightarrow> bytes set" where
  "members s = dom (kmap s)"

definition set_db :: "engine \<Rightarrow> (bytes \<Rightarrow> ReducedEffect option) \<Rightarrow> Context \<Rightarrow> bytes \<Rightarrow> bytes set" where
  "set_db reduce st c k = members (db reduce st c k)"

text \<open>A context in which every key holds a keyed collection or nothing.\<close>

definition set_ctx :: "engine \<Rightarrow> (bytes \<Rightarrow> ReducedEffect option) \<Rightarrow> Context \<Rightarrow> bool" where
  "set_ctx reduce st c \<longleftrightarrow> keyed_engine reduce \<and> backed reduce st c \<and> (\<forall>k. keyed_wf (db reduce st c k))"

lemma keyed_fit: "keyed_wf s \<Longrightarrow> fit set_typed s"
  by (auto simp: keyed_wf_def fit_def set_typed_def)

lemma members_dead: "\<not> live s \<Longrightarrow> members s = {}"
  by (simp add: members_def not_live_kmap)

lemma has_elem_members: "keyed_wf s \<Longrightarrow> has_elem (held s) m \<longleftrightarrow> m \<in> members s"
  by (cases "live s") (simp_all add: held_def has_elem_kmap members_def not_live_kmap, simp add: has_elem_def net_adds_def)

lemma e_Key_set [simp]: "e_Key (set_insert key m) = key" "e_Key (set_remove key m) = key" "e_Key (delete_effect key) = key"
  by (simp_all add: set_insert_def set_remove_def delete_effect_def)

lemma on_key_writes [simp]:
  "on_key k (map (\<lambda>m. (set_insert key m, [])) ms) = (if k = key then map (set_insert key) ms else [])"
  "on_key k (map (\<lambda>m. (set_remove key m, [])) ms) = (if k = key then map (set_remove key) ms else [])"
  by (simp_all add: on_key_map)

lemma inserts_members:
  assumes "keyed_engine reduce" "keyed_wf s"
  shows "keyed_wf (foldl reduce s (map (set_insert key) ms))" "ms \<noteq> [] \<Longrightarrow> live (foldl reduce s (map (set_insert key) ms))"
    "members (foldl reduce s (map (set_insert key) ms)) = members s \<union> set ms"
proof -
  have eq: "map (set_insert key) ms = map (\<lambda>(i, v). data_effect key (insert_data KEYED i v)) (map (\<lambda>m. (m, Raw m)) ms)"
    by (simp add: set_insert_def)
  show "keyed_wf (foldl reduce s (map (set_insert key) ms))" "ms \<noteq> [] \<Longrightarrow> live (foldl reduce s (map (set_insert key) ms))"
    "members (foldl reduce s (map (set_insert key) ms)) = members s \<union> set ms"
    using keyed_inserts [OF assms, of key "map (\<lambda>m. (m, Raw m)) ms"]
    unfolding eq members_def by (auto simp: comp_def)
qed

lemma removes_members:
  assumes "keyed_engine reduce" "keyed_wf s"
  shows "keyed_wf (foldl reduce s (map (set_remove key) ms))"
    "members (foldl reduce s (map (set_remove key) ms)) = members s - set ms"
proof -
  have eq: "map (set_remove key) ms = map (\<lambda>i. data_effect key (remove_data KEYED i)) ms" by (simp add: set_remove_def)
  show "keyed_wf (foldl reduce s (map (set_remove key) ms))" "members (foldl reduce s (map (set_remove key) ms)) = members s - set ms"
    using keyed_removes [OF assms, of key ms] unfolding eq members_def by auto
qed

lemma tag_members:
  assumes "keyed_engine reduce" "keyed_wf s" "live s"
  shows "keyed_wf (reduce s (meta_effect key t))" "members (reduce s (meta_effect key t)) = members s"
  using keyed_meta_law [OF assms] by (simp_all add: members_def)

text \<open>Reading in such a context.\<close>

lemma set_ctx_reads: "set_ctx reduce st c \<Longrightarrow> reads_ok c"
  unfolding set_ctx_def using backed_reads_ok by blast

lemma set_read:
  assumes "set_ctx reduce st c"
  obtains tips where "GetSnapshot k c = Inr (db reduce st c k, tips)" "fit set_typed (db reduce st c k)"
  using assms backed_snapshot keyed_fit unfolding set_ctx_def by blast

section \<open>Each command\<close>

text \<open>What a command with effects \<open>es\<close> does to the sets.\<close>

lemma set_ctx_adding:
  assumes "set_ctx reduce st c" "\<And>k. keyed_wf (foldl reduce (db reduce st c k) (on_key k es))"
  shows "set_ctx reduce st (adding es c)"
  using assms by (simp add: set_ctx_def)

definition set_does ::
  "engine \<Rightarrow> (bytes \<Rightarrow> ReducedEffect option) \<Rightarrow> (answer, answer) cmd \<Rightarrow> Context \<Rightarrow> nat \<Rightarrow> (bytes \<Rightarrow> bytes set) \<Rightarrow> bool" where
  "set_does reduce st m c n S \<longleftrightarrow>
     (\<exists>es r. m c = (r, adding es c) \<and> (r = Inl (WriteInteger (of_nat n)) \<or> r = Inr (WriteInteger (of_nat n))) \<and>
        set_ctx reduce st (adding es c) \<and> set_db reduce st (adding es c) = S)"

lemma set_doesI:
  assumes "m c = (r, adding es c)" "r = Inl (WriteInteger (of_nat n)) \<or> r = Inr (WriteInteger (of_nat n))"
    "set_ctx reduce st c" "\<And>k. keyed_wf (foldl reduce (db reduce st c k) (on_key k es))"
    "\<And>k. members (foldl reduce (db reduce st c k) (on_key k es)) = S k"
  shows "set_does reduce st m c n S"
  unfolding set_does_def
  by (intro exI [of _ es] exI [of _ r]) (use assms set_ctx_adding [OF assms(3,4)] in \<open>auto simp: set_db_def fun_eq_iff\<close>)

lemma sadd_does:
  assumes "set_ctx reduce st c" "ms \<noteq> []"
  shows "set_does reduce st (sadd_command key ms) c (length (filter (\<lambda>m. m \<notin> set_db reduce st c key) ms))
    ((set_db reduce st c)(key := set_db reduce st c key \<union> set ms))"
proof -
  let ?s = "db reduce st c key" and ?new = "filter (\<lambda>m. m \<notin> set_db reduce st c key) ms"
  define tag where "tag = (if live ?s then [] else [(meta_effect key TYPE_SET, [] :: tip list)])"
  have wf: "keyed_engine reduce" "\<And>k. keyed_wf (db reduce st c k)" using assms(1) by (simp_all add: set_ctx_def)
  have new: "(\<lambda>m. \<not> has_elem (held ?s) m) = (\<lambda>m. m \<notin> set_db reduce st c key)"
    using has_elem_members [OF wf(2)] by (simp add: set_db_def)
  obtain tips where snap: "GetSnapshot key c = Inr (?s, tips)" "fit set_typed ?s" using set_read [OF assms(1)] .
  note read = set_reader.typed_key_fit [OF snap]
  have run: "sadd_command key ms c =
      (Inr (WriteInteger (of_nat (length ?new))), adding (map (\<lambda>m. (set_insert key m, [])) ?new @ tag) c)"
    unfolding sadd_command_def read or_reply_def bind_cmd_def sadd_loop_ok [OF set_ctx_reads [OF assms(1)]] new
    using set_ctx_reads [OF assms(1)] by (simp add: seq_cmd_def bind_cmd_def when_cmd_def ok_def emitSetTypeTag_def emit_cmd_ok tag_def)
  have ins: "keyed_wf (foldl reduce ?s (map (set_insert key) ?new))" "?new \<noteq> [] \<Longrightarrow> live (foldl reduce ?s (map (set_insert key) ?new))"
    "members (foldl reduce ?s (map (set_insert key) ?new)) = set_db reduce st c key \<union> set ms"
    using inserts_members [OF wf(1,2)] by (auto simp: set_db_def)
  have "?new \<noteq> []" if "\<not> live ?s" using that assms(2) by (simp add: set_db_def members_dead filter_empty_conv)
  then have lv: "live (foldl reduce ?s (map (set_insert key) ?new))" if "\<not> live ?s" using that ins(2) by blast
  show ?thesis
    by (rule set_doesI, rule run)
      (use assms(1) wf ins tag_members [OF wf(1) ins(1) lv] in \<open>auto simp: tag_def set_db_def\<close>)
qed

lemma srem_does:
  assumes "set_ctx reduce st c"
  shows "set_does reduce st (srem_command key ms) c (length (filter (\<lambda>m. m \<in> set_db reduce st c key) ms))
    ((set_db reduce st c)(key := set_db reduce st c key - set ms))"
proof -
  let ?s = "db reduce st c key" and ?old = "filter (\<lambda>m. m \<in> set_db reduce st c key) ms"
  have wf: "keyed_engine reduce" "\<And>k. keyed_wf (db reduce st c k)" using assms(1) by (simp_all add: set_ctx_def)
  obtain tips where snap: "GetSnapshot key c = Inr (?s, tips)" "fit set_typed ?s" using set_read [OF assms(1)] .
  note read = set_reader.with_key_fit [OF snap]
  define es where "es = (if live ?s then map (\<lambda>m. (set_remove key m, [] :: tip list)) ?old else [])"
  have run: "srem_command key ms c =
      (if live ?s then Inr (WriteInteger (of_nat (length ?old))) else Inl (WriteInteger (of_nat (length ?old))), adding es c)"
  proof (cases "live ?s")
    case True
    have "has_elem ?s = (\<lambda>m. m \<in> set_db reduce st c key)"
      using has_elem_kmap [OF True] by (simp add: fun_eq_iff set_db_def members_def)
    then show ?thesis
      unfolding srem_command_def read or_reply_def bind_cmd_def srem_loop_ok [OF set_ctx_reads [OF assms(1)]]
      by (simp add: True ok_def es_def)
  next
    case False
    then show ?thesis by (simp add: srem_command_def read es_def set_db_def members_dead)
  qed
  have rem: "keyed_wf (foldl reduce ?s (map (set_remove key) ?old))"
    "members (foldl reduce ?s (map (set_remove key) ?old)) = set_db reduce st c key - set ms"
    using removes_members [OF wf(1,2)] by (auto simp: set_db_def)
  show ?thesis
    by (rule set_doesI, rule run) (use assms(1) wf rem in \<open>auto simp: es_def set_db_def members_dead\<close>)
qed

end
