(* ===== verification/Set_Refine.thy ===== *)
theory Set_Refine
  imports Set_Facts
begin

text \<open>
  The commands that move a member and that store an intersection, a union or a difference, and the simulation of any
  sequence of set commands by operations on mathematical sets.
\<close>

section \<open>Moving\<close>

lemma smove_does:
  assumes ctx: "set_ctx reduce st c"
  defines "S \<equiv> set_db reduce st c"
  shows "set_does reduce st (smove_command src dst m) c (if m \<in> S src then 1 else 0)
    (if m \<in> S src then (S(src := S src - {m}))(dst := insert m ((S(src := S src - {m})) dst)) else S)"
proof -
  let ?s = "db reduce st c src" and ?d = "db reduce st c dst"
  have wf: "keyed_engine reduce" "\<And>k. keyed_wf (db reduce st c k)" using ctx by (simp_all add: set_ctx_def)
  obtain t1 where src: "GetSnapshot src c = Inr (?s, t1)" "fit set_typed ?s" using set_read [OF ctx] .
  obtain t2 where dst: "GetSnapshot dst c = Inr (?d, t2)" "fit set_typed ?d" using set_read [OF ctx] .
  note read = set_reader.typed_key_fit [OF src] set_reader.typed_key_fit [OF dst]
  note ok = set_ctx_reads [OF ctx]
  have mem: "live ?s \<and> has_elem (held ?s) m \<longleftrightarrow> m \<in> S src"
    using has_elem_members [OF wf(2)] members_dead by (auto simp: S_def set_db_def)
  define es where "es = (if m \<in> S src then [(noop_effect src, t1), (set_remove src m, []), (set_insert dst m, [])] @
      (if live ?d then [] else [(meta_effect dst TYPE_SET, [])]) else [])"
  have run: "smove_command src dst m c = (Inr (WriteInteger (of_nat (if m \<in> S src then 1 else 0))), adding es c)"
    unfolding smove_command_def read using mem ok
    by (auto simp: smove_write_def seq_cmd_def bind_cmd_def or_reply_def when_cmd_def ok_def emitNoop_def emitSetRemove_def
        emitSetInsert_def emitSetTypeTag_def emit_cmd_ok es_def noop_effect_def)
  note laws = keyed_noop_law [OF wf(1)]
  have rem: "keyed_wf (reduce s (set_remove k m))" "members (reduce s (set_remove k m)) = members s - {m}" if "keyed_wf s" for s k
    using removes_members [OF wf(1) that, where key = k and ms = "[m]"] by simp_all
  have ins: "keyed_wf (reduce s (set_insert k m))" "live (reduce s (set_insert k m))"
    "members (reduce s (set_insert k m)) = insert m (members s)" if "keyed_wf s" for s k
    using inserts_members [OF wf(1) that, where key = k and ms = "[m]"] by simp_all
  note tag = tag_members [OF wf(1) ins(1,2)]
  show ?thesis
    by (rule set_doesI, rule run) (use ctx wf(2) in \<open>auto simp: es_def S_def set_db_def laws rem ins tag\<close>)
qed

section \<open>Reading and storing\<close>

lemma fold_cmd_pure:
  "(\<And>x s. x \<in> set xs \<Longrightarrow> f x s c = (Inr (g x s), c)) \<Longrightarrow> fold_cmd f xs s c = (Inr (fold g xs s), c)"
  by (induction xs arbitrary: s) (simp_all add: ok_def bind_cmd_def)

lemma fold_snoc: "fold (\<lambda>k xs. xs @ [h k]) ks a = a @ map h ks"
  by (induction ks arbitrary: a) simp_all

text \<open>The sets under some keys, as the handlers read them.\<close>

definition sets_read :: "engine \<Rightarrow> (bytes \<Rightarrow> ReducedEffect option) \<Rightarrow> Context \<Rightarrow> bytes list \<Rightarrow> bytes list option list" where
  "sets_read reduce st c ks =
     map (\<lambda>k. if live (db reduce st c k) then Some (map fst (net_adds (db reduce st c k))) else None) ks"

lemma read_sets_ok:
  assumes "set_ctx reduce st c"
  shows "read_sets ks c = (Inr (sets_read reduce st c ks), c)"
proof -
  have "typed_key getSetSnapshot k (\<lambda>snap tips exists. ok (sets @ [if exists then Some (getSetMembers snap) else None])) c =
      (Inr (sets @ [if live (db reduce st c k) then Some (map fst (net_adds (db reduce st c k))) else None]), c)" for k sets
  proof -
    obtain tips where "GetSnapshot k c = Inr (db reduce st c k, tips)" "fit set_typed (db reduce st c k)" using set_read [OF assms] .
    then show ?thesis by (simp add: set_reader.typed_key_fit ok_def held_def getSetMembers_def)
  qed
  then show ?thesis unfolding read_sets_def sets_read_def by (subst fold_cmd_pure) (auto simp: fold_snoc)
qed

lemma set_db_live: "set_db reduce st c k = (if live (db reduce st c k) then fst ` set (net_adds (db reduce st c k)) else {})"
  by (simp add: set_db_def members_def kmap_dom not_live_kmap)

lemma hd_read: "sets_read reduce st c (k # ks) =
    (if live (db reduce st c k) then Some (map fst (net_adds (db reduce st c k))) else None) # sets_read reduce st c ks"
  by (simp add: sets_read_def)

lemma members_of_read:
  "set (members_of (if live (db reduce st c k) then Some (map fst (net_adds (db reduce st c k))) else None)) = set_db reduce st c k"
  by (simp add: members_of_def set_db_live)

lemma in_read:
  "in_all m (sets_read reduce st c ks) \<longleftrightarrow> (\<forall>k \<in> set ks. m \<in> set_db reduce st c k)"
  "in_other m (sets_read reduce st c ks) \<longleftrightarrow> (\<exists>k \<in> set ks. m \<in> set_db reduce st c k)"
  by (induction ks) (simp_all add: in_all_def in_other_def hd_read set_db_live, simp_all add: sets_read_def)

lemma distinct_read:
  assumes "set_ctx reduce st c"
  shows "distinct (members_of (if live (db reduce st c k) then Some (map fst (net_adds (db reduce st c k))) else None))"
  using assms net_adds_distinct by (auto simp: members_of_def set_ctx_def)

lemma intersection_read:
  assumes "set_ctx reduce st c"
  shows "distinct (intersection (sets_read reduce st c (k # ks)))"
    "set (intersection (sets_read reduce st c (k # ks))) = {m \<in> set_db reduce st c k. \<forall>k' \<in> set ks. m \<in> set_db reduce st c k'}"
  unfolding intersection_def hd_read list.sel
  using distinct_read [OF assms, of k] by (simp_all only: distinct_filter set_filter members_of_read in_read)

lemma difference_read:
  assumes "set_ctx reduce st c"
  shows "distinct (difference (sets_read reduce st c (k # ks)))"
    "set (difference (sets_read reduce st c (k # ks))) = {m \<in> set_db reduce st c k. \<forall>k' \<in> set ks. m \<notin> set_db reduce st c k'}"
  unfolding difference_def hd_read list.sel
  using distinct_read [OF assms, of k] by (simp_all only: distinct_filter set_filter members_of_read in_read bex_simps simp_thms ball_simps)

lemma add_keys_set: "set (add_keys xs ys) = set xs \<union> set ys" "distinct xs \<Longrightarrow> distinct (add_keys xs ys)"
  by (auto simp: add_keys_def)

lemma read_union_ok:
  assumes "set_ctx reduce st c"
  obtains result where "read_union ks c = (Inr result, c)" "distinct result" "set result = (\<Union>k \<in> set ks. set_db reduce st c k)"
proof -
  let ?g = "\<lambda>k result. if live (db reduce st c k) then add_keys result (map fst (net_adds (db reduce st c k))) else result"
  have "typed_key getSetSnapshot k (\<lambda>snap tips exists. ok (if exists then add_keys result (map fst (net_adds snap)) else result)) c =
      (Inr (?g k result), c)" for k result
  proof -
    obtain tips where "GetSnapshot k c = Inr (db reduce st c k, tips)" "fit set_typed (db reduce st c k)" using set_read [OF assms] .
    then show ?thesis by (simp add: set_reader.typed_key_fit ok_def held_def)
  qed
  then have "read_union ks c = (Inr (fold ?g ks []), c)" unfolding read_union_def by (subst fold_cmd_pure) auto
  moreover have "set (fold ?g ks a) = set a \<union> (\<Union>k \<in> set ks. set_db reduce st c k)" for a
    by (induction ks arbitrary: a) (auto simp: add_keys_set set_db_live)
  moreover have "distinct a \<Longrightarrow> distinct (fold ?g ks a)" for a by (induction ks arbitrary: a) (simp_all add: add_keys_set)
  ultimately show thesis using that [of "fold ?g ks []"] by simp
qed

lemma store_does:
  assumes ctx: "set_ctx reduce st c" and "distinct result"
  shows "set_does reduce st (writeStoreResult dest result) c (card (set result)) ((set_db reduce st c)(dest := set result))"
proof -
  let ?d = "db reduce st c dest"
  have wf: "keyed_engine reduce" "\<And>k. keyed_wf (db reduce st c k)" using ctx by (simp_all add: set_ctx_def)
  obtain tips where "GetSnapshot dest c = Inr (?d, tips)" using set_read [OF ctx] .
  then have get: "getSetSnapshot dest c = (Inr (typed set_typed ?d tips), c)" by (rule set_reader.get_snapshot)
  have tips: "fst (snd (typed set_typed ?d tips)) = tips" by (simp add: typed_def split: option.splits)
  define es where "es = [(delete_effect dest, tips)] @ map (\<lambda>m. (set_insert dest m, [])) result @
      (if result \<noteq> [] then [(meta_effect dest TYPE_SET, [])] else [])"
  have run: "writeStoreResult dest result c = (Inr (WriteInteger (of_nat (card (set result)))), adding es c)"
    unfolding writeStoreResult_def using tips set_ctx_reads [OF ctx]
    by (simp add: get seq_cmd_def bind_cmd_def or_reply_def split_def emitDeleteKey_def emit_cmd_ok inserts_ok when_cmd_def
        ok_def emitSetTypeTag_def es_def distinct_card [OF assms(2)])
  have del: "\<not> live (reduce s (delete_effect dest))" for s unfolding delete_effect_def by (rule keyed_delete_law [OF wf(1)])
  note ins = inserts_members [OF wf(1) not_live_wf [OF del]]
  have ins': "members (foldl reduce (reduce ?d (delete_effect dest)) (map (set_insert dest) result)) = set result"
    using ins(3) members_dead [OF del] by simp
  note tag = tag_members [OF wf(1) ins(1,2)]
  show ?thesis
    by (rule set_doesI, rule run)
      (use ctx wf(2) ins(1) ins' tag members_dead [OF del] not_live_wf [OF del] in \<open>auto simp: es_def set_db_def\<close>)
qed

section \<open>The simulation\<close>

datatype set_op =
    SAdd bytes "bytes list"
  | SRem bytes "bytes list"
  | SMove bytes bytes bytes
  | SInterStore bytes bytes "bytes list"
  | SUnionStore bytes bytes "bytes list"
  | SDiffStore bytes bytes "bytes list"

fun set_handler :: "set_op \<Rightarrow> Writer \<Rightarrow> handler_result" where
  "set_handler (SAdd key ms) = handleSAdd (key # ms)"
| "set_handler (SRem key ms) = handleSRem (key # ms)"
| "set_handler (SMove src dst m) = handleSMove [src, dst, m]"
| "set_handler (SInterStore dest k ks) = handleSInterStore (dest # k # ks)"
| "set_handler (SUnionStore dest k ks) = handleSUnionStore (dest # k # ks)"
| "set_handler (SDiffStore dest k ks) = handleSDiffStore (dest # k # ks)"

text \<open>The specification: the new sets and the number of members added, removed, moved or stored.\<close>

fun set_spec :: "set_op \<Rightarrow> (bytes \<Rightarrow> bytes set) \<Rightarrow> (bytes \<Rightarrow> bytes set) \<times> nat" where
  "set_spec (SAdd key ms) S = (S(key := S key \<union> set ms), card (set ms - S key))"
| "set_spec (SRem key ms) S = (S(key := S key - set ms), card (set ms \<inter> S key))"
| "set_spec (SMove src dst m) S =
     (if m \<in> S src then let S' = S(src := S src - {m}) in (S'(dst := insert m (S' dst)), 1) else (S, 0))"
| "set_spec (SInterStore dest k ks) S =
     (let R = {m \<in> S k. \<forall>k' \<in> set ks. m \<in> S k'} in (S(dest := R), card R))"
| "set_spec (SUnionStore dest k ks) S = (let R = (\<Union>k' \<in> set (k # ks). S k') in (S(dest := R), card R))"
| "set_spec (SDiffStore dest k ks) S = (let R = {m \<in> S k. \<forall>k' \<in> set ks. m \<notin> S k'} in (S(dest := R), card R))"

text \<open>
  The number that the commands count: every argument is looked up in the sets before the command, so an argument
  given twice counts twice.
\<close>

fun set_count :: "set_op \<Rightarrow> (bytes \<Rightarrow> bytes set) \<Rightarrow> nat" where
  "set_count (SAdd key ms) S = length (filter (\<lambda>m. m \<notin> S key) ms)"
| "set_count (SRem key ms) S = length (filter (\<lambda>m. m \<in> S key) ms)"
| "set_count op S = snd (set_spec op S)"

fun no_repeats :: "set_op \<Rightarrow> bool" where
  "no_repeats (SAdd key ms) = distinct ms"
| "no_repeats (SRem key ms) = distinct ms"
| "no_repeats _ = True"

lemma set_count_spec: "snd (set_spec op S) \<le> set_count op S" "no_repeats op \<Longrightarrow> set_count op S = snd (set_spec op S)"
proof -
  have eq: "set ms - S key = set (filter (\<lambda>m. m \<notin> S key) ms)" "set ms \<inter> S key = set (filter (\<lambda>m. m \<in> S key) ms)" for ms key
    by auto
  show "snd (set_spec op S) \<le> set_count op S" by (cases op) (simp_all add: eq card_length del: set_filter)
  show "set_count op S = snd (set_spec op S)" if "no_repeats op"
    using that by (cases op) (simp_all add: eq distinct_card del: set_filter)
qed

fun set_op_ok :: "set_op \<Rightarrow> bool" where
  "set_op_ok (SAdd key ms) = (ms \<noteq> [])"
| "set_op_ok (SRem key ms) = (ms \<noteq> [])"
| "set_op_ok _ = True"

fun run_set_ops :: "set_op list \<Rightarrow> Context \<times> Writer \<Rightarrow> (Context \<times> Writer) option" where
  "run_set_ops [] cw = Some cw"
| "run_set_ops (op # ops) cw =
     (case run_handler (set_handler op (snd cw)) (fst cw) of None \<Rightarrow> None | Some cw' \<Rightarrow> run_set_ops ops cw')"

fun spec_set_ops :: "set_op list \<Rightarrow> (bytes \<Rightarrow> bytes set) \<Rightarrow> (bytes \<Rightarrow> bytes set) \<times> nat list" where
  "spec_set_ops [] S = (S, [])"
| "spec_set_ops (op # ops) S =
     (let (S', n) = set_spec op S; (S'', ns) = spec_set_ops ops S' in (S'', n # ns))"

lemma run_cmd_does:
  assumes "set_does reduce st m c n S"
  shows "\<exists>c'. run_cmd m (c, w) = Some (c', WriteInteger (of_nat n) w) \<and> set_ctx reduce st c' \<and> set_db reduce st c' = S"
  using assms unfolding set_does_def run_cmd_def by (auto split: sum.splits)

lemma bind_read_does:
  "m c = (Inr x, c) \<Longrightarrow> set_does reduce st (f x) c n S \<Longrightarrow> set_does reduce st (bind_cmd m f) c n S"
  by (simp add: set_does_def bind_cmd_def)

lemma set_op_refines:
  assumes ctx: "set_ctx reduce st c" and "set_op_ok op"
  shows "\<exists>c'. run_handler (set_handler op w) c = Some (c', WriteInteger (of_nat (set_count op (set_db reduce st c))) w) \<and>
    set_ctx reduce st c' \<and> set_db reduce st c' = fst (set_spec op (set_db reduce st c))"
proof (cases op)
  case (SAdd key ms)
  then show ?thesis using assms(2) run_cmd_does [OF sadd_does [OF ctx, of ms key], of w]
    by (cases ms) (simp_all add: handleSAdd_def)
next
  case (SRem key ms)
  then show ?thesis using assms(2) run_cmd_does [OF srem_does [OF ctx, of key ms], of w]
    by (cases ms) (simp_all add: handleSRem_def)
next
  case (SMove src dst m)
  then show ?thesis using run_cmd_does [OF smove_does [OF ctx, of src dst m], of w] by (auto simp: handleSMove_def Let_def split: if_splits)
next
  case (SInterStore dest k ks)
  have "set_does reduce st (bind_cmd (read_sets (k # ks)) (\<lambda>srcSets. writeStoreResult dest (intersection srcSets))) c
      (snd (set_spec op (set_db reduce st c))) (fst (set_spec op (set_db reduce st c)))"
    by (rule bind_read_does, rule read_sets_ok [OF ctx])
      (use store_does [OF ctx intersection_read(1) [OF ctx, of k ks], of dest, unfolded intersection_read(2) [OF ctx, of k ks]] in \<open>simp add: SInterStore Let_def\<close>)
  from run_cmd_does [OF this, of w] show ?thesis by (simp add: SInterStore handleSInterStore_def)
next
  case (SUnionStore dest k ks)
  obtain result where r: "read_union (k # ks) c = (Inr result, c)" "distinct result" "set result = (\<Union>k' \<in> set (k # ks). set_db reduce st c k')"
    using read_union_ok [OF ctx] .
  have "set_does reduce st (bind_cmd (read_union (k # ks)) (writeStoreResult dest)) c
      (snd (set_spec op (set_db reduce st c))) (fst (set_spec op (set_db reduce st c)))"
    by (rule bind_read_does, rule r(1)) (use store_does [OF ctx r(2), of dest] r(3) in \<open>simp add: SUnionStore Let_def\<close>)
  from run_cmd_does [OF this, of w] show ?thesis by (simp add: SUnionStore handleSUnionStore_def)
next
  case (SDiffStore dest k ks)
  have "set_does reduce st (bind_cmd (read_sets (k # ks)) (\<lambda>srcSets. writeStoreResult dest (difference srcSets))) c
      (snd (set_spec op (set_db reduce st c))) (fst (set_spec op (set_db reduce st c)))"
    by (rule bind_read_does, rule read_sets_ok [OF ctx])
      (use store_does [OF ctx difference_read(1) [OF ctx, of k ks], of dest, unfolded difference_read(2) [OF ctx, of k ks]] in \<open>simp add: SDiffStore Let_def\<close>)
  from run_cmd_does [OF this, of w] show ?thesis by (simp add: SDiffStore handleSDiffStore_def)
qed

text \<open>
  Claim C4. Sets are sets: any sequence of \<^verbatim>\<open>SADD\<close>, \<^verbatim>\<open>SREM\<close>, \<^verbatim>\<open>SMOVE\<close>, \<^verbatim>\<open>SINTERSTORE\<close>, \<^verbatim>\<open>SUNIONSTORE\<close> and
  \<^verbatim>\<open>SDIFFSTORE\<close>, also with the destination among the sources, leaves under every key exactly the set that the operations on
  mathematical sets leave there, whatever the arguments. Every command replies with an integer: the number of members really added,
  removed, moved or stored, unless \<^verbatim>\<open>SADD\<close> or \<^verbatim>\<open>SREM\<close> has an argument twice, when the reply is at least that number. It
  holds on any engine that satisfies the laws of keyed collections, for keys that are missing or hold sets and commands with at
  least one member.
\<close>

theorem sets_refine:
  assumes "keyed_engine reduce" "backed reduce st c" "\<forall>k. keyed_wf (db reduce st c k)" "list_all set_op_ok ops"
  shows "\<exists>c' ns. run_set_ops ops (c, w) = Some (c', write_all (\<lambda>n. WriteInteger (of_nat n)) ns w) \<and>
    set_db reduce st c' = fst (spec_set_ops ops (set_db reduce st c)) \<and>
    length ns = length ops \<and>
    (\<forall>i < length ops. snd (spec_set_ops ops (set_db reduce st c)) ! i \<le> ns ! i \<and>
      (no_repeats (ops ! i) \<longrightarrow> ns ! i = snd (spec_set_ops ops (set_db reduce st c)) ! i))"
proof -
  have "set_ctx reduce st c \<Longrightarrow> list_all set_op_ok ops \<Longrightarrow> ?thesis"
  proof (induction ops arbitrary: c w)
    case (Cons op ops)
    let ?S = "set_db reduce st c"
    obtain c1 where c1: "run_handler (set_handler op w) c = Some (c1, WriteInteger (of_nat (set_count op ?S)) w)"
      "set_ctx reduce st c1" "set_db reduce st c1 = fst (set_spec op ?S)"
      using set_op_refines [OF Cons.prems(1), of op w] Cons.prems(2) by auto
    obtain c' ns where 2: "run_set_ops ops (c1, WriteInteger (of_nat (set_count op ?S)) w) =
        Some (c', write_all (\<lambda>n. WriteInteger (of_nat n)) ns (WriteInteger (of_nat (set_count op ?S)) w))"
      "set_db reduce st c' = fst (spec_set_ops ops (fst (set_spec op ?S)))" "length ns = length ops"
      "\<forall>i < length ops. snd (spec_set_ops ops (fst (set_spec op ?S))) ! i \<le> ns ! i \<and>
        (no_repeats (ops ! i) \<longrightarrow> ns ! i = snd (spec_set_ops ops (fst (set_spec op ?S))) ! i)"
      using Cons.IH [OF c1(2), of "WriteInteger (of_nat (set_count op ?S)) w"] Cons.prems(2) unfolding c1(3) by auto
    show ?case
      by (intro exI [of _ c'] exI [of _ "set_count op ?S # ns"])
        (use c1(1) 2 set_count_spec [of op ?S] in \<open>auto simp: write_all_def split_def Let_def nth_Cons' less_Suc_eq_0_disj\<close>)
  qed (simp add: write_all_def)
  then show ?thesis using assms by (simp add: set_ctx_def)
qed

theorem sets_refine_witness:
  "\<exists>c' ns. run_set_ops [SAdd [97] [[1], [2]], SAdd [98] [[2], [3], [3]], SInterStore [97] [97] [[98]]]
      (engine_context assoc_reduce (\<lambda>_. None), NewWriter []) =
      Some (c', write_all (\<lambda>n. WriteInteger (of_nat n)) ns (NewWriter [])) \<and>
    set_db assoc_reduce (\<lambda>_. None) c' [97] = {[2]} \<and> ns ! 0 = 2 \<and> 2 \<le> ns ! 1 \<and> ns ! 2 = 1"
proof -
  let ?c = "engine_context assoc_reduce (\<lambda>_. None)"
  let ?ops = "[SAdd [97] [[1], [2]], SAdd [98] [[2], [3], [3]], SInterStore [97] [97] [[98]]]"
  have "db assoc_reduce (\<lambda>_. None) ?c k = None" for k by (simp add: db_def engine_context_def)
  then have wf: "\<forall>k. keyed_wf (db assoc_reduce (\<lambda>_. None) ?c k)" and S: "set_db assoc_reduce (\<lambda>_. None) ?c = (\<lambda>_. {})"
    by (simp_all add: keyed_wf_def set_db_def members_dead fun_eq_iff)
  have R: "{m \<in> {[1], [2]}. m \<in> {[2], [3 :: byte]}} = {[2]}" by auto
  have spec: "snd (spec_set_ops ?ops (\<lambda>_. {})) = [2, 2, 1]" "fst (spec_set_ops ?ops (\<lambda>_. {})) [97] = {[2]}"
    using R by (simp_all add: Let_def)
  have "list_all set_op_ok ?ops" by simp
  then obtain c' ns where 1: "run_set_ops ?ops (?c, NewWriter []) = Some (c', write_all (\<lambda>n. WriteInteger (of_nat n)) ns (NewWriter []))"
    "set_db assoc_reduce (\<lambda>_. None) c' = fst (spec_set_ops ?ops (\<lambda>_. {}))"
    "\<forall>i < length ?ops. [2, 2, 1] ! i \<le> ns ! i \<and> (no_repeats (?ops ! i) \<longrightarrow> ns ! i = [2, 2, 1] ! i)"
    using sets_refine [OF assoc_engine backed_engine_context wf, of ?ops "NewWriter []"] unfolding S spec(1) by blast
  have "ns ! 0 = 2" "2 \<le> ns ! 1" "ns ! 2 = 1"
    using 1(3) [rule_format, of 0] 1(3) [rule_format, of 1] 1(3) [rule_format, of 2] by simp_all
  then show ?thesis using 1(1,2) spec(2) by metis
qed

end
