(* ===== verification/Set_Theorems.thy ===== *)
theory Set_Theorems
  imports Set_Refine "HOL-Library.Multiset"
begin

text \<open>Popping and drawing members, the size of an intersection, and how the commands behave on unusual arguments.\<close>

section \<open>Popping\<close>

lemma spop_run:
  assumes ctx: "set_ctx reduce st c" and "live (db reduce st c key)" and "\<not> make_panics 24 cnt"
  obtains es popped where "spop_command key cnt arr c = (Inr (Some (spop_reply arr popped)), adding es c)"
    "popped = take (nat cnt) (map fst (net_adds (db reduce st c key)))"
    "\<And>k. on_key k es = (if k = key then noop_effect key # map (set_remove key) popped else [])"
proof -
  let ?s = "db reduce st c key"
  obtain tips where snap: "GetSnapshot key c = Inr (?s, tips)" "fit set_typed ?s" using set_read [OF ctx] .
  define popped where "popped = take (nat cnt) (map fst (net_adds ?s))"
  have "spop_command key cnt arr c =
      (Inr (Some (spop_reply arr popped)), adding ((noop_effect key, tips) # map (\<lambda>m. (set_remove key m, [])) popped) c)"
    unfolding spop_command_def set_reader.with_key_fit [OF snap] using assms(2,3) set_ctx_reads [OF ctx]
    by (simp add: seq_cmd_def bind_cmd_def or_reply_def emitNoop_def emit_cmd_ok set_removes_ok ok_def popped_def Let_def noop_effect_def)
  then show thesis by (rule that) (simp_all add: popped_def)
qed

text \<open>
  Claim C34. \<^verbatim>\<open>SPOP key count\<close> on an existing set removes exactly the members it returns: they are distinct members of the set, as
  many as asked for or all of them, the set keeps the others, and no other key changes.
\<close>

theorem spop_removes_what_it_returns:
  assumes "keyed_engine reduce" "backed reduce st c" "\<forall>k. keyed_wf (db reduce st c k)" "live (db reduce st c key)"
    and "ParseInt64 arg = Some n" "0 \<le> sint n" "\<not> make_panics 24 (sint n)"
  shows "\<exists>c' popped. run_handler (handleSPop [key, arg] w) c = Some (c', write_array WriteBulkString popped w) \<and>
    distinct popped \<and> set popped \<subseteq> set_db reduce st c key \<and> length popped = min (nat (sint n)) (card (set_db reduce st c key)) \<and>
    set_db reduce st c' = (set_db reduce st c)(key := set_db reduce st c key - set popped)"
proof -
  let ?s = "db reduce st c key"
  have ctx: "set_ctx reduce st c" using assms(1-3) by (simp add: set_ctx_def)
  obtain es popped where run: "spop_command key (sint n) True c = (Inr (Some (spop_reply True popped)), adding es c)"
    and popped: "popped = take (nat (sint n)) (map fst (net_adds ?s))"
    and es: "\<And>k. on_key k es = (if k = key then noop_effect key # map (set_remove key) popped else [])"
    using spop_run [OF ctx assms(4,7), of True] by blast
  have d: "distinct (map fst (net_adds ?s))" using net_adds_distinct assms(3,4) by blast
  have S: "set_db reduce st c key = set (map fst (net_adds ?s))" using assms(4) by (simp add: set_db_live)
  have "set_db reduce st (adding es c) k = ((set_db reduce st c)(key := set_db reduce st c key - set popped)) k" for k
    using removes_members(2) [OF assms(1), of ?s key popped] assms(3) keyed_noop_law [OF assms(1)]
    by (simp add: set_db_def es)
  moreover have "run_handler (handleSPop [key, arg] w) c = Some (adding es c, write_array WriteBulkString popped w)"
    using assms(5,6) run by (simp add: handleSPop_def run_may_panic_def spop_reply_def)
  moreover have "length popped = min (nat (sint n)) (card (set_db reduce st c key))"
    unfolding S popped using distinct_card [OF d] by (simp add: min.commute)
  moreover have "distinct popped" "set popped \<subseteq> set_db reduce st c key" unfolding S popped using d by (simp_all only: distinct_take set_take_subset)
  ultimately show ?thesis by blast
qed

text \<open>A database with one set of two members.\<close>

definition two_members :: "bytes \<Rightarrow> ReducedEffect option" where
  "two_members k = (if k = [115] then foldl assoc_reduce None [set_insert [115] [1], set_insert [115] [2]] else None)"

lemma two_members_ctx:
  "backed assoc_reduce two_members (engine_context assoc_reduce two_members)"
  "\<forall>k. keyed_wf (db assoc_reduce two_members (engine_context assoc_reduce two_members) k)"
  "live (db assoc_reduce two_members (engine_context assoc_reduce two_members) [115])"
  "set_db assoc_reduce two_members (engine_context assoc_reduce two_members) [115] = {[1], [2]}"
proof -
  have db: "db assoc_reduce two_members (engine_context assoc_reduce two_members) = two_members"
    by (simp add: fun_eq_iff db_def engine_context_def)
  have "keyed_wf None" by (simp add: keyed_wf_def)
  note ins = inserts_members [OF assoc_engine this, where key = "[115]" and ms = "[[1], [2]]"]
  show "backed assoc_reduce two_members (engine_context assoc_reduce two_members)" by (rule backed_engine_context)
  show "\<forall>k. keyed_wf (db assoc_reduce two_members (engine_context assoc_reduce two_members) k)"
    using ins(1) by (simp add: db two_members_def keyed_wf_def)
  show "live (db assoc_reduce two_members (engine_context assoc_reduce two_members) [115])"
    using ins(2) by (simp add: db two_members_def)
  show "set_db assoc_reduce two_members (engine_context assoc_reduce two_members) [115] = {[1], [2]}"
    using ins(3) by (simp add: set_db_def db two_members_def members_dead)
qed

lemma ParseInt64_one: "ParseInt64 [49] = Some 1"
  by (simp add: ParseInt64_def bytes_simps Let_def)

theorem spop_removes_what_it_returns_witness:
  "\<exists>c' popped. run_handler (handleSPop [[115], [49]] (NewWriter [])) (engine_context assoc_reduce two_members) =
      Some (c', write_array WriteBulkString popped (NewWriter [])) \<and> length popped = 1"
proof -
  have "\<not> make_panics 24 (sint (1 :: i64))" "0 \<le> sint (1 :: i64)" by (simp_all add: make_panics_def)
  from spop_removes_what_it_returns [OF assoc_engine two_members_ctx(1-3) ParseInt64_one this(2,1), of "NewWriter []"]
  show ?thesis by (auto simp: two_members_ctx(4))
qed

text \<open>
  \<^verbatim>\<open>SPOP key count\<close> with a count beyond the address space panics on every existing set, because the reply is
  allocated for the requested number of members and not for the number there are.
\<close>

theorem spop_huge_count_panics:
  assumes "keyed_engine reduce" "backed reduce st c" "\<forall>k. keyed_wf (db reduce st c k)" "live (db reduce st c key)"
    and "ParseInt64 arg = Some n" "2 ^ 44 \<le> sint n"
  shows "run_handler (handleSPop [key, arg] w) c = None"
proof -
  let ?s = "db reduce st c key"
  have ctx: "set_ctx reduce st c" using assms(1-3) by (simp add: set_ctx_def)
  obtain tips where snap: "GetSnapshot key c = Inr (?s, tips)" "fit set_typed ?s" using set_read [OF ctx] .
  have "make_panics 24 (sint n)" using assms(6) by (simp add: make_panics_def)
  then have "\<exists>c'. spop_command key (sint n) True c = (Inr None, c')"
    unfolding spop_command_def set_reader.with_key_fit [OF snap] using assms(4) set_ctx_reads [OF ctx]
    by (simp add: seq_cmd_def bind_cmd_def or_reply_def emitNoop_def emit_cmd_ok ok_def)
  then show ?thesis using assms(5,6) by (auto simp: handleSPop_def run_may_panic_def)
qed

lemma ParseInt64_big: "ParseInt64 (bstr ''17592186044416'') = Some (2 ^ 44)"
  by (simp add: ParseInt64_def bytes_simps Let_def)

theorem spop_huge_count_panics_witness:
  "run_handler (handleSPop [[115], bstr ''17592186044416''] (NewWriter [])) (engine_context assoc_reduce two_members) = None"
proof -
  have "2 ^ 44 \<le> sint (2 ^ 44 :: i64)" by simp
  from spop_huge_count_panics [OF assoc_engine two_members_ctx(1-3) ParseInt64_big this] show ?thesis .
qed

section \<open>Repeated arguments\<close>

text \<open>
  \<^verbatim>\<open>SADD\<close> with repeated members replies with more than the number of members it added: it looks every argument up in
  the snapshot taken before the first insertion.
\<close>

lemma sadd_counts_repetitions:
  "set_spec (SAdd key [m, m]) (\<lambda>_. {}) = ((\<lambda>_. {})(key := {m}), 1)" "set_count (SAdd key [m, m]) (\<lambda>_. {}) = 2"
  "set_spec (SRem key [m, m]) (\<lambda>_. {m}) = ((\<lambda>_. {m})(key := {}), 1)" "set_count (SRem key [m, m]) (\<lambda>_. {m}) = 2"
  by simp_all

section \<open>Random members\<close>

lemma swap_at_mset: "i < length xs \<Longrightarrow> j < length xs \<Longrightarrow> mset (swap_at i j xs) = mset xs"
  by (simp add: swap_at_def mset_swap)

lemma shuffle_mset:
  assumes "\<And>k n. 0 < n \<Longrightarrow> IntN k n < n"
  shows "i < length xs \<or> i = 0 \<Longrightarrow> mset (shuffle_down IntN k i xs) = mset xs"
proof (induction i arbitrary: k xs)
  case (Suc i)
  have "mset (swap_at (Suc i) (IntN k (Suc (Suc i))) xs) = mset xs"
    using Suc.prems assms [of "Suc (Suc i)" k] by (intro swap_at_mset) auto
  moreover have "length (swap_at (Suc i) (IntN k (Suc (Suc i))) xs) = length xs" by (simp add: swap_at_def)
  ultimately show ?case using Suc by simp
qed simp

text \<open>
  Claim C35. \<^verbatim>\<open>SRANDMEMBER key count\<close> on an existing set changes nothing and draws members of the set only: with a positive count
  distinct ones, as many as asked for or all of them, with a negative count exactly that many with repetitions allowed,
  whatever numbers the random source yields.
\<close>

theorem srandmember_draws_members:
  assumes "keyed_engine reduce" "backed reduce st c" "\<forall>k. keyed_wf (db reduce st c k)" "set_db reduce st c key \<noteq> {}"
    and "\<forall>k n. 0 < n \<longrightarrow> IntN k n < n" "ParseInt64 arg = Some n" "sint n \<noteq> MinInt64"
  shows "\<exists>drawn. run_handler (handleSRandMember IntN [key, arg] w) c = Some (c, write_array WriteBulkString drawn w) \<and>
    set drawn \<subseteq> set_db reduce st c key \<and>
    (if 0 < sint n then distinct drawn \<and> length drawn = min (nat (sint n)) (card (set_db reduce st c key))
     else length drawn = nat (- sint n))"
proof -
  let ?s = "db reduce st c key"
  let ?ms = "map fst (net_adds ?s)"
  define drawn where "drawn = srandmember_many IntN (sint n) ?ms"
  have ctx: "set_ctx reduce st c" using assms(1-3) by (simp add: set_ctx_def)
  have live: "live ?s" using assms(4) by (auto simp: set_db_live split: if_splits)
  have S: "set_db reduce st c key = set ?ms" using live by (simp add: set_db_live)
  have ne: "?ms \<noteq> []" using assms(4) S by auto
  have d: "distinct ?ms" using net_adds_distinct assms(3) live by blast
  obtain tips where snap: "GetSnapshot key c = Inr (?s, tips)" "fit set_typed ?s" using set_read [OF ctx] .
  have run: "run_handler (handleSRandMember IntN [key, arg] w) c = Some (c, write_array WriteBulkString drawn w)"
    using assms(6,7) ne live
    by (simp add: handleSRandMember_def run_cmd_def srandmember_command_def set_reader.with_key_fit [OF snap] Let_def ok_def drawn_def)
  have perm: "mset (shuffle_down IntN 0 (length ?ms - 1) ?ms) = mset ?ms" using assms(5) by (intro shuffle_mset) auto
  show ?thesis
  proof (cases "0 < sint n")
    case True
    then have "drawn = take (nat (sint n)) (shuffle_down IntN 0 (length ?ms - 1) ?ms)" by (simp add: drawn_def srandmember_many_def)
    moreover have "distinct (shuffle_down IntN 0 (length ?ms - 1) ?ms)" using mset_eq_imp_distinct_iff [OF perm] d by blast
    ultimately show ?thesis
      using run True S mset_eq_setD [OF perm] mset_eq_length [OF perm] distinct_card [OF d]
      by (intro exI [of _ drawn]) (auto simp: min.commute dest!: in_set_takeD)
  next
    case False
    then have "drawn = map (\<lambda>k. ?ms ! IntN k (length ?ms)) [0..<nat (- sint n)]" by (simp add: drawn_def srandmember_many_def)
    moreover have "?ms ! IntN k (length ?ms) \<in> set ?ms" for k using ne assms(5) by (intro nth_mem) simp
    ultimately show ?thesis using run False S by (intro exI [of _ drawn]) (auto simp only: set_map image_subset_iff length_map length_upt if_False)
  qed
qed

theorem srandmember_draws_members_witness:
  "\<exists>drawn. run_handler (handleSRandMember (\<lambda>k n. n - 1) [[115], [49]] (NewWriter [])) (engine_context assoc_reduce two_members) =
      Some (engine_context assoc_reduce two_members, write_array WriteBulkString drawn (NewWriter [])) \<and>
    set drawn \<subseteq> {[1], [2]} \<and> length drawn = 1"
proof -
  have "set_db assoc_reduce two_members (engine_context assoc_reduce two_members) [115] \<noteq> {}" by (simp add: two_members_ctx(4))
  moreover have "\<forall>k n. 0 < n \<longrightarrow> (\<lambda>k n. n - 1) k n < (n :: nat)" for k :: nat by simp
  moreover have "sint (1 :: i64) \<noteq> MinInt64" by simp
  ultimately show ?thesis
    using srandmember_draws_members [OF assoc_engine two_members_ctx(1,2) _ _ ParseInt64_one, of "[115]" "\<lambda>k n. n - 1" "NewWriter []"]
    by (auto simp: two_members_ctx(4))
qed

section \<open>Queries on several sets\<close>

lemma card_loop_count:
  "0 \<le> limit \<Longrightarrow> (0 < limit \<longrightarrow> cnt < limit) \<Longrightarrow> 0 \<le> cnt \<Longrightarrow>
   card_loop limit others ms cnt =
     (let n = cnt + int (length (filter (\<lambda>m. in_all m others) ms)) in if 0 < limit then min limit n else n)"
proof (induction ms arbitrary: cnt)
  case (Cons m ms)
  show ?case
  proof (cases "in_all m others \<and> (limit = 0 \<or> cnt + 1 < limit)")
    case True
    then have "card_loop limit others ms (cnt + 1) =
        (let n = cnt + 1 + int (length (filter (\<lambda>m. in_all m others) ms)) in if 0 < limit then min limit n else n)"
      using Cons.prems by (intro Cons.IH) auto
    then show ?thesis using True Cons.prems by (auto simp: Let_def algebra_simps)
  next
    case False
    then show ?thesis using Cons by (auto simp: Let_def min_def)
  qed
qed (auto simp: Let_def min_def)

lemma none_read: "None \<in> set (sets_read reduce st c ks) \<Longrightarrow> \<exists>k \<in> set ks. set_db reduce st c k = {}"
  by (auto simp: sets_read_def set_db_live split: if_splits)

lemma sinter_ok:
  assumes ctx: "set_ctx reduce st c"
  shows "\<exists>r. run_handler (handleSInter (k # ks) w) c = Some (c, write_array WriteBulkString r w) \<and> distinct r \<and>
    set r = {m \<in> set_db reduce st c k. \<forall>k' \<in> set ks. m \<in> set_db reduce st c k'}"
proof (cases "None \<in> set (sets_read reduce st c (k # ks))")
  case True
  then show ?thesis using none_read [OF True]
    by (intro exI [of _ "[]"])
      (auto simp: handleSInter_def run_cmd_def sinter_command_def read_sets_ok [OF ctx] bind_cmd_def ok_def write_array_def write_all_def)
next
  case False
  then show ?thesis
    by (intro exI [of _ "intersection (sets_read reduce st c (k # ks))"])
      (simp add: handleSInter_def run_cmd_def sinter_command_def read_sets_ok [OF ctx] bind_cmd_def ok_def intersection_read [OF ctx])
qed

lemma sunion_ok:
  assumes ctx: "set_ctx reduce st c"
  shows "\<exists>r. run_handler (handleSUnion (k # ks) w) c = Some (c, write_array WriteBulkString r w) \<and> distinct r \<and>
    set r = (\<Union>k' \<in> set (k # ks). set_db reduce st c k')"
proof -
  obtain r where "read_union (k # ks) c = (Inr r, c)" "distinct r" "set r = (\<Union>k' \<in> set (k # ks). set_db reduce st c k')"
    using read_union_ok [OF ctx] .
  then show ?thesis by (intro exI [of _ r]) (simp add: handleSUnion_def run_cmd_def bind_cmd_def ok_def)
qed

lemma sdiff_ok:
  assumes ctx: "set_ctx reduce st c"
  shows "\<exists>r. run_handler (handleSDiff (k # ks) w) c = Some (c, write_array WriteBulkString r w) \<and> distinct r \<and>
    set r = {m \<in> set_db reduce st c k. \<forall>k' \<in> set ks. m \<notin> set_db reduce st c k'}"
  by (intro exI [of _ "difference (sets_read reduce st c (k # ks))"])
    (simp add: handleSDiff_def run_cmd_def read_sets_ok [OF ctx] bind_cmd_def ok_def difference_read [OF ctx])

lemma sintercard_ok:
  fixes k ks
  assumes ctx: "set_ctx reduce st c" and "0 \<le> limit"
  defines "n \<equiv> card {m \<in> set_db reduce st c k. \<forall>k' \<in> set ks. m \<in> set_db reduce st c k'}"
  shows "run_cmd (sintercard_command limit (k # ks)) (c, w) =
    Some (c, WriteInteger (word_of_int (if 0 < limit then min limit (int n) else int n)) w)"
proof (cases "None \<in> set (sets_read reduce st c (k # ks))")
  case True
  then have "n = 0" using none_read [OF True] unfolding n_def by (auto intro!: card_eq_0_iff [THEN iffD2])
  then show ?thesis using True by (simp add: run_cmd_def sintercard_command_def read_sets_ok [OF ctx] bind_cmd_def ok_def)
next
  case False
  have "n = length (intersection (sets_read reduce st c (k # ks)))"
    using distinct_card [OF intersection_read(1) [OF ctx, of k ks]] by (simp add: n_def intersection_read(2) [OF ctx])
  then have "n = length (filter (\<lambda>m. in_all m (tl (sets_read reduce st c (k # ks)))) (members_of (hd (sets_read reduce st c (k # ks)))))"
    by (simp add: intersection_def)
  then show ?thesis using False card_loop_count [OF assms(2), of 0] by (simp add: run_cmd_def sintercard_command_def read_sets_ok [OF ctx] bind_cmd_def ok_def Let_def)
qed

text \<open>
  Claim C33. \<^verbatim>\<open>SINTER\<close>, \<^verbatim>\<open>SUNION\<close> and \<^verbatim>\<open>SDIFF\<close> reply with the members of the intersection, union and difference of the sets
  under their keys, each once, a missing key being the empty set, and \<^verbatim>\<open>SINTERCARD\<close> with a limit replies with the size of the
  intersection cut off at the limit, zero meaning none; none of them changes anything.
\<close>

theorem set_queries_exact:
  assumes "keyed_engine reduce" "backed reduce st c" "\<forall>k. keyed_wf (db reduce st c k)"
    and "ParseInt64 num = Some v" "sint v = int (Suc (length ks))" "ParseInt64 lim = Some l" "0 \<le> sint l"
  defines "S \<equiv> set_db reduce st c"
  shows "\<exists>ri ru rd. run_handler (handleSInter (k # ks) w) c = Some (c, write_array WriteBulkString ri w) \<and> distinct ri \<and>
      set ri = S k \<inter> (\<Inter>k' \<in> set ks. S k') \<and>
    run_handler (handleSUnion (k # ks) w) c = Some (c, write_array WriteBulkString ru w) \<and> distinct ru \<and>
      set ru = S k \<union> (\<Union>k' \<in> set ks. S k') \<and>
    run_handler (handleSDiff (k # ks) w) c = Some (c, write_array WriteBulkString rd w) \<and> distinct rd \<and>
      set rd = S k - (\<Union>k' \<in> set ks. S k') \<and>
    run_handler (handleSInterCard (num # k # ks @ [bstr ''LIMIT'', lim]) w) c =
      Some (c, WriteInteger (word_of_int (if sint l = 0 then int (length ri) else min (sint l) (int (length ri)))) w)"
proof -
  have ctx: "set_ctx reduce st c" using assms(1-3) by (simp add: set_ctx_def)
  obtain ri where ri: "run_handler (handleSInter (k # ks) w) c = Some (c, write_array WriteBulkString ri w)" "distinct ri"
    "set ri = {m \<in> S k. \<forall>k' \<in> set ks. m \<in> S k'}" using sinter_ok [OF ctx, of k ks w, folded S_def] by (elim exE conjE) (rule that)
  obtain ru where ru: "run_handler (handleSUnion (k # ks) w) c = Some (c, write_array WriteBulkString ru w)" "distinct ru"
    "set ru = (\<Union>k' \<in> set (k # ks). S k')" using sunion_ok [OF ctx, of k ks w, folded S_def] by (elim exE conjE) (rule that)
  obtain rd where rd: "run_handler (handleSDiff (k # ks) w) c = Some (c, write_array WriteBulkString rd w)" "distinct rd"
    "set rd = {m \<in> S k. \<forall>k' \<in> set ks. m \<notin> S k'}" using sdiff_ok [OF ctx, of k ks w, folded S_def] by (elim exE conjE) (rule that)
  have len: "card {m \<in> S k. \<forall>k' \<in> set ks. m \<in> S k'} = length ri" using distinct_card [OF ri(2)] ri(3) by simp
  have lim: "parse_card_limit 0 [bstr ''LIMIT'', lim] = Inr (sint l)" using assms(6,7) by (simp add: ToUpper_eq bytes_simps)
  have "run_handler (handleSInterCard (num # k # ks @ [bstr ''LIMIT'', lim]) w) c = run_cmd (sintercard_command (sint l) (k # ks)) (c, w)"
  proof -
    have n: "nat (sint v) = Suc (length ks)" using assms(5) by simp
    have "take (nat (sint v)) (k # ks @ [bstr ''LIMIT'', lim]) = k # ks" "drop (nat (sint v)) (k # ks @ [bstr ''LIMIT'', lim]) = [bstr ''LIMIT'', lim]"
      unfolding n by simp_all
    moreover have "\<not> sint v < 1" "\<not> sint v > int (length (num # k # ks @ [bstr ''LIMIT'', lim])) - 1" using assms(5) by simp_all
    ultimately show ?thesis unfolding handleSInterCard_def list.case assms(4) option.case Let_def by (simp only: lim if_False sum.case run_accept)
  qed
  also have "\<dots> = Some (c, WriteInteger (word_of_int (if sint l = 0 then int (length ri) else min (sint l) (int (length ri)))) w)"
    using sintercard_ok [OF ctx assms(7), of k ks w] len assms(7) by (simp add: S_def)
  finally show ?thesis using ri ru rd by (intro exI [of _ ri] exI [of _ ru] exI [of _ rd]) auto
qed

theorem set_queries_exact_witness:
  "\<exists>ri. run_handler (handleSInter [[115]] (NewWriter [])) (engine_context assoc_reduce two_members) =
      Some (engine_context assoc_reduce two_members, write_array WriteBulkString ri (NewWriter [])) \<and> distinct ri \<and> set ri = {[1], [2]}"
proof -
  have "sint (1 :: i64) = int (Suc (length ([] :: bytes list)))" "0 \<le> sint (1 :: i64)" by simp_all
  from set_queries_exact [OF assoc_engine two_members_ctx(1,2) ParseInt64_one this(1) ParseInt64_one this(2), of "[115]" "NewWriter []"]
  show ?thesis by (auto simp: two_members_ctx(4))
qed

end
