(* ===== verification/List_Commands.thy ===== *)
theory List_Commands
  imports Collections Stream_Codec
begin

text \<open>
  \<^verbatim>\<open>redis/list/core.go\<close>: lists are ordered collections. \<open>dec\<close> is the engine's \<^verbatim>\<open>Decompress\<close>. A new element is named by
  the time and the node: \<open>eid n\<close> is the name made after \<open>n\<close> effects of the context.
\<close>

section \<open>Element names\<close>

definition EncodeElementID :: "u64 \<Rightarrow> u64 \<Rightarrow> bytes" where
  "EncodeElementID hlc node = le64 hlc @ le64 node"

type_synonym ids = "nat \<Rightarrow> bytes"

definition next_id :: "ids \<Rightarrow> ('e, bytes) cmd" where
  "next_id eid c = (Inr (eid (length (c_emitted c))), c)"

section \<open>Snapshots and effects\<close>

definition list_typed :: "ReducedEffect \<Rightarrow> bool" where
  "list_typed r \<longleftrightarrow>
     r_Collection r = ORDERED \<and> (r_TypeTag r = TYPE_LIST \<or> r_TypeTag r = TYPE_UNSPECIFIED) \<or>
     r_Collection r = SCALAR \<and> r_TypeTag r = TYPE_LIST"

definition getListSnapshot :: reader where
  "getListSnapshot key =
     bind_cmd (snapshot_cmd key) (\<lambda>(snap, tips).
       ok (case snap of
             None \<Rightarrow> (None, tips, False, False)
           | Some r \<Rightarrow>
               if r_Op r = REMOVE_OP then (None, tips, False, False)
               else if r_Collection r = ORDERED then
                 (if r_TypeTag r \<noteq> TYPE_LIST \<and> r_TypeTag r \<noteq> TYPE_UNSPECIFIED then (None, tips, True, True)
                  else (Some r, tips, True, False))
               else if r_Collection r = SCALAR \<and> r_TypeTag r = TYPE_LIST then (Some r, tips, True, False)
               else (None, tips, True, True)))"

lemma getListSnapshot_typed:
  "getListSnapshot key = bind_cmd (snapshot_cmd key) (\<lambda>(snap, tips). ok (typed list_typed snap tips))"
  unfolding getListSnapshot_def by (rule arg_cong [where f = "bind_cmd _"]) (auto simp: fun_eq_iff typed_def list_typed_def split: option.splits)

interpretation list_reader: typed_reader getListSnapshot list_typed
  by unfold_locales (rule getListSnapshot_typed)

definition ordered :: "ReducedEffect option \<Rightarrow> ReducedElement list" where
  "ordered snap = (case snap of None \<Rightarrow> [] | Some r \<Rightarrow> r_Ordered r)"

definition place_insert :: "bytes \<Rightarrow> Placement \<Rightarrow> bytes \<Rightarrow> bytes \<Rightarrow> bytes \<Rightarrow> Effect" where
  "place_insert key placement reference i v =
     data_effect key ((insert_data ORDERED i (Raw v))\<lparr>d_Placement := placement, d_Reference := reference\<rparr>)"

definition emitListInsert :: "ids \<Rightarrow> bytes \<Rightarrow> Placement \<Rightarrow> bytes \<Rightarrow> (bytes, unit) cmd" where
  "emitListInsert eid key placement v = bind_cmd (next_id eid) (\<lambda>i. emit_cmd (place_insert key placement [] i v) [])"

definition emitListInsertAt :: "ids \<Rightarrow> bytes \<Rightarrow> Placement \<Rightarrow> bytes \<Rightarrow> bytes \<Rightarrow> (bytes, unit) cmd" where
  "emitListInsertAt eid key placement v referenceID =
     bind_cmd (next_id eid) (\<lambda>i. emit_cmd (place_insert key placement referenceID i v) [])"

definition emitListUpdate :: "bytes \<Rightarrow> bytes \<Rightarrow> bytes \<Rightarrow> (bytes, unit) cmd" where
  "emitListUpdate key elementID v = emit_cmd (place_insert key PLACE_SELF [] elementID v) []"

definition list_remove :: "bytes \<Rightarrow> bytes \<Rightarrow> Effect" where
  "list_remove key elementID = data_effect key (remove_data ORDERED elementID)"

definition emitListRemove :: "bytes \<Rightarrow> bytes \<Rightarrow> (bytes, unit) cmd" where
  "emitListRemove key elementID = emit_cmd (list_remove key elementID) []"

definition emitListTypeTag :: "bytes \<Rightarrow> (bytes, unit) cmd" where
  "emitListTypeTag key = emit_cmd (meta_effect key TYPE_LIST) []"

section \<open>Pushing\<close>

definition push_command :: "ids \<Rightarrow> Placement \<Rightarrow> bytes \<Rightarrow> bytes list \<Rightarrow> (answer, answer) cmd" where
  "push_command eid placement key elements =
     typed_key getListSnapshot key (\<lambda>snap tips exists.
       seq_cmd (or_reply (each_cmd (emitListInsert eid key placement) elements))
         (seq_cmd (or_reply (when_cmd (\<not> exists) (emitListTypeTag key)))
           (ok (WriteInteger (of_nat (length (ordered snap) + length elements))))))"

definition pushx_command :: "ids \<Rightarrow> Placement \<Rightarrow> bytes \<Rightarrow> bytes list \<Rightarrow> (answer, answer) cmd" where
  "pushx_command eid placement key elements =
     with_key getListSnapshot key WriteZero (\<lambda>snap tips.
       seq_cmd (or_reply (each_cmd (emitListInsert eid key placement) elements))
         (ok (WriteInteger (of_nat (length (ordered snap) + length elements)))))"

definition handleLPush :: "ids \<Rightarrow> bytes list \<Rightarrow> Writer \<Rightarrow> handler_result" where
  "handleLPush eid args w =
     (case args of
        key # x # xs \<Rightarrow> accept [key] w (run_cmd (push_command eid PLACE_HEAD key (x # xs)))
      | _ \<Rightarrow> reject [] (WriteWrongNumArguments (bstr ''lpush'') w))"

definition handleLPushX :: "ids \<Rightarrow> bytes list \<Rightarrow> Writer \<Rightarrow> handler_result" where
  "handleLPushX eid args w =
     (case args of
        key # x # xs \<Rightarrow> accept [key] w (run_cmd (pushx_command eid PLACE_HEAD key (x # xs)))
      | _ \<Rightarrow> reject [] (WriteWrongNumArguments (bstr ''lpushx'') w))"

definition handleRPush :: "ids \<Rightarrow> bytes list \<Rightarrow> Writer \<Rightarrow> handler_result" where
  "handleRPush eid args w =
     (case args of
        key # x # xs \<Rightarrow> accept [key] w (run_cmd (push_command eid PLACE_TAIL key (x # xs)))
      | _ \<Rightarrow> reject [] (WriteWrongNumArguments (bstr ''rpush'') w))"

definition handleRPushX :: "ids \<Rightarrow> bytes list \<Rightarrow> Writer \<Rightarrow> handler_result" where
  "handleRPushX eid args w =
     (case args of
        key # x # xs \<Rightarrow> accept [key] w (run_cmd (pushx_command eid PLACE_TAIL key (x # xs)))
      | _ \<Rightarrow> reject [] (WriteWrongNumArguments (bstr ''rpushx'') w))"

section \<open>Popping\<close>

text \<open>The elements in the order in which they are popped from either end.\<close>

definition pop_order :: "bool \<Rightarrow> ReducedElement list \<Rightarrow> ReducedElement list" where
  "pop_order left elements = (if left then elements else rev elements)"

definition remove_elements :: "bytes \<Rightarrow> ReducedElement list \<Rightarrow> (bytes, unit) cmd" where
  "remove_elements key = each_cmd (\<lambda>el. emitListRemove key (d_Id (el_Data el)))"

definition pop_command :: "(DataEffect \<Rightarrow> bytes) \<Rightarrow> bool \<Rightarrow> bytes \<Rightarrow> int \<Rightarrow> bool \<Rightarrow> (answer, answer) cmd" where
  "pop_command dec left key count hasCountArg =
     typed_key getListSnapshot key (\<lambda>snap tips exists.
       if \<not> exists \<or> ordered snap = [] then ok (if hasCountArg then WriteNullArray else WriteNullBulkString)
       else
         let popped = take (nat count) (pop_order left (ordered snap))
         in seq_cmd (or_reply (emitNoop key tips))
              (seq_cmd (or_reply (remove_elements key popped))
                (ok (if count = 1 \<and> \<not> hasCountArg then WriteBulkString (dec (el_Data (hd (pop_order left (ordered snap)))))
                     else write_array (\<lambda>el. WriteBulkString (dec (el_Data el))) popped))))"

definition pop_handler :: "(DataEffect \<Rightarrow> bytes) \<Rightarrow> bool \<Rightarrow> bytes \<Rightarrow> bytes list \<Rightarrow> Writer \<Rightarrow> handler_result" where
  "pop_handler dec left name args w =
     (case args of
        [key] \<Rightarrow> accept [key] w (run_cmd (pop_command dec left key 1 False))
      | [key, n] \<Rightarrow>
          (case ParseInt64 n of
             None \<Rightarrow> reject [] (WriteNotInteger w)
           | Some c \<Rightarrow>
               if sint c < 0 then reject [] (WriteNotInteger w)
               else accept [key] w (run_cmd (pop_command dec left key (sint c) True)))
      | _ \<Rightarrow> reject [] (WriteWrongNumArguments name w))"

definition handleLPop :: "(DataEffect \<Rightarrow> bytes) \<Rightarrow> bytes list \<Rightarrow> Writer \<Rightarrow> handler_result" where
  "handleLPop dec = pop_handler dec True (bstr ''lpop'')"

definition handleRPop :: "(DataEffect \<Rightarrow> bytes) \<Rightarrow> bytes list \<Rightarrow> Writer \<Rightarrow> handler_result" where
  "handleRPop dec = pop_handler dec False (bstr ''rpop'')"

section \<open>Reading\<close>

definition handleLLen :: "bytes list \<Rightarrow> Writer \<Rightarrow> handler_result" where
  "handleLLen args w =
     (case args of
        [key] \<Rightarrow> accept [key] w (run_cmd (with_key getListSnapshot key WriteZero (\<lambda>snap tips.
          ok (WriteInteger (of_nat (length (ordered snap)))))))
      | _ \<Rightarrow> reject [] (WriteWrongNumArguments (bstr ''llen'') w))"

definition from_end :: "int \<Rightarrow> int \<Rightarrow> int" where
  "from_end listLen i = (if i < 0 then listLen + i else i)"

text \<open>The bounds of a range after counting negative ones from the end and cutting them off.\<close>

definition list_bounds :: "int \<Rightarrow> int \<Rightarrow> int \<Rightarrow> int \<times> int" where
  "list_bounds listLen start fin =
     (let s = from_end listLen start; e = from_end listLen fin
      in (if s < 0 then 0 else s, if e \<ge> listLen then listLen - 1 else e))"

definition lrange_elements :: "int \<Rightarrow> int \<Rightarrow> 'a list \<Rightarrow> 'a list" where
  "lrange_elements start fin elements =
     (let (s, e) = list_bounds (int (length elements)) start fin
      in if elements = [] \<or> s > e then [] else take (nat (e + 1 - s)) (drop (nat s) elements))"

definition handleLRange :: "(DataEffect \<Rightarrow> bytes) \<Rightarrow> bytes list \<Rightarrow> Writer \<Rightarrow> handler_result" where
  "handleLRange dec args w =
     (case args of
        [key, a, b] \<Rightarrow>
          (case (ParseInt64 a, ParseInt64 b) of
             (Some start, Some fin) \<Rightarrow> accept [key] w (run_cmd (with_key getListSnapshot key (WriteArray 0) (\<lambda>snap tips.
               ok (write_array (\<lambda>el. WriteBulkString (dec (el_Data el))) (lrange_elements (sint start) (sint fin) (ordered snap))))))
           | _ \<Rightarrow> reject [] (WriteNotInteger w))
      | _ \<Rightarrow> reject [] (WriteWrongNumArguments (bstr ''lrange'') w))"

definition list_index :: "int \<Rightarrow> 'a list \<Rightarrow> nat option" where
  "list_index i elements =
     (let idx = from_end (int (length elements)) i
      in if idx < 0 \<or> idx \<ge> int (length elements) then None else Some (nat idx))"

definition handleLIndex :: "(DataEffect \<Rightarrow> bytes) \<Rightarrow> bytes list \<Rightarrow> Writer \<Rightarrow> handler_result" where
  "handleLIndex dec args w =
     (case args of
        [key, a] \<Rightarrow>
          (case ParseInt64 a of
             None \<Rightarrow> reject [] (WriteNotInteger w)
           | Some index \<Rightarrow> accept [key] w (run_cmd (with_key getListSnapshot key WriteNullBulkString (\<lambda>snap tips.
               ok (case list_index (sint index) (ordered snap) of
                     None \<Rightarrow> WriteNullBulkString
                   | Some i \<Rightarrow> WriteBulkString (dec (el_Data (ordered snap ! i))))))))
      | _ \<Rightarrow> reject [] (WriteWrongNumArguments (bstr ''lindex'') w))"

section \<open>Changing elements\<close>

definition lset_command :: "bytes \<Rightarrow> int \<Rightarrow> bytes \<Rightarrow> (answer, answer) cmd" where
  "lset_command key index v =
     with_key getListSnapshot key (WriteError (bstr ''ERR no such key'')) (\<lambda>snap tips.
       case list_index index (ordered snap) of
         None \<Rightarrow> ok WriteOutOfRange
       | Some i \<Rightarrow>
           seq_cmd (or_reply (emitNoop key tips))
             (seq_cmd (or_reply (emitListUpdate key (d_Id (el_Data (ordered snap ! i))) v)) (ok WriteOK)))"

definition handleLSet :: "bytes list \<Rightarrow> Writer \<Rightarrow> handler_result" where
  "handleLSet args w =
     (case args of
        [key, a, v] \<Rightarrow>
          (case ParseInt64 a of
             None \<Rightarrow> reject [] (WriteNotInteger w)
           | Some index \<Rightarrow> accept [key] w (run_cmd (lset_command key (sint index) v)))
      | _ \<Rightarrow> reject [] (WriteWrongNumArguments (bstr ''lset'') w))"

text \<open>
  The matching elements up to a bound: the loop stops once it has collected at least \<open>bound\<close> of them, which is compared
  after each match.
\<close>

fun collect_matches :: "('a \<Rightarrow> bool) \<Rightarrow> i64 \<Rightarrow> 'a list \<Rightarrow> 'a list \<Rightarrow> 'a list" where
  "collect_matches P bound [] acc = acc"
| "collect_matches P bound (x # xs) acc =
     (if P x then
        (if int (length (acc @ [x])) \<ge> sint bound then acc @ [x] else collect_matches P bound xs (acc @ [x]))
      else collect_matches P bound xs acc)"

definition lrem_elements :: "('a \<Rightarrow> bool) \<Rightarrow> i64 \<Rightarrow> 'a list \<Rightarrow> 'a list" where
  "lrem_elements P count elements =
     (if sint count > 0 then collect_matches P count elements []
      else if sint count < 0 then collect_matches P (- count) (rev elements) []
      else filter P elements)"

definition remove_some :: "bytes \<Rightarrow> tip list \<Rightarrow> ReducedElement list \<Rightarrow> answer \<Rightarrow> answer \<Rightarrow> (answer, answer) cmd" where
  "remove_some key tips toRemove nothing done =
     (if toRemove = [] then ok nothing
      else seq_cmd (or_reply (emitNoop key tips)) (seq_cmd (or_reply (remove_elements key toRemove)) (ok done)))"

definition lrem_command :: "(DataEffect \<Rightarrow> bytes) \<Rightarrow> bytes \<Rightarrow> i64 \<Rightarrow> bytes \<Rightarrow> (answer, answer) cmd" where
  "lrem_command dec key count element =
     with_key getListSnapshot key WriteZero (\<lambda>snap tips.
       let toRemove = lrem_elements (\<lambda>el. dec (el_Data el) = element) count (ordered snap)
       in remove_some key tips toRemove WriteZero (WriteInteger (of_nat (length toRemove))))"

definition handleLRem :: "(DataEffect \<Rightarrow> bytes) \<Rightarrow> bytes list \<Rightarrow> Writer \<Rightarrow> handler_result" where
  "handleLRem dec args w =
     (case args of
        [key, a, element] \<Rightarrow>
          (case ParseInt64 a of
             None \<Rightarrow> reject [] (WriteNotInteger w)
           | Some count \<Rightarrow> accept [key] w (run_cmd (lrem_command dec key count element)))
      | _ \<Rightarrow> reject [] (WriteWrongNumArguments (bstr ''lrem'') w))"

definition ltrim_elements :: "int \<Rightarrow> int \<Rightarrow> 'a list \<Rightarrow> 'a list" where
  "ltrim_elements start fin elements =
     (let (s, e) = list_bounds (int (length elements)) start fin
      in map snd (filter (\<lambda>(i, _). int i < s \<or> int i > e) (enumerate 0 elements)))"

definition ltrim_command :: "bytes \<Rightarrow> int \<Rightarrow> int \<Rightarrow> (answer, answer) cmd" where
  "ltrim_command key start fin =
     with_key getListSnapshot key WriteOK (\<lambda>snap tips. remove_some key tips (ltrim_elements start fin (ordered snap)) WriteOK WriteOK)"

definition handleLTrim :: "bytes list \<Rightarrow> Writer \<Rightarrow> handler_result" where
  "handleLTrim args w =
     (case args of
        [key, a, b] \<Rightarrow>
          (case (ParseInt64 a, ParseInt64 b) of
             (Some start, Some fin) \<Rightarrow> accept [key] w (run_cmd (ltrim_command key (sint start) (sint fin)))
           | _ \<Rightarrow> reject [] (WriteNotInteger w))
      | _ \<Rightarrow> reject [] (WriteWrongNumArguments (bstr ''ltrim'') w))"

definition linsert_command :: "ids \<Rightarrow> (DataEffect \<Rightarrow> bytes) \<Rightarrow> bytes \<Rightarrow> bool \<Rightarrow> bytes \<Rightarrow> bytes \<Rightarrow> (answer, answer) cmd" where
  "linsert_command eid dec key before pivot element =
     with_key getListSnapshot key WriteZero (\<lambda>snap tips.
       case find (\<lambda>el. dec (el_Data el) = pivot) (ordered snap) of
         None \<Rightarrow> ok (WriteInteger (- 1))
       | Some el \<Rightarrow>
           if d_Id (el_Data el) = [] then ok (WriteInteger (- 1))
           else seq_cmd (or_reply (emitNoop key tips))
             (seq_cmd (or_reply (emitListInsertAt eid key (if before then PLACE_BEFORE else PLACE_AFTER) element (d_Id (el_Data el))))
               (ok (WriteInteger (of_nat (length (ordered snap) + 1))))))"

definition handleLInsert :: "ids \<Rightarrow> (DataEffect \<Rightarrow> bytes) \<Rightarrow> bytes list \<Rightarrow> Writer \<Rightarrow> handler_result" where
  "handleLInsert eid dec args w =
     (case args of
        [key, position, pivot, element] \<Rightarrow>
          (if ToUpper position = bstr ''BEFORE'' then accept [key] w (run_cmd (linsert_command eid dec key True pivot element))
           else if ToUpper position = bstr ''AFTER'' then accept [key] w (run_cmd (linsert_command eid dec key False pivot element))
           else reject [] (WriteSyntaxError w))
      | _ \<Rightarrow> reject [] (WriteWrongNumArguments (bstr ''linsert'') w))"

end
