(* ===== verification/List_Moves.thy ===== *)
theory List_Moves
  imports List_Commands
begin

text \<open>The rest of \<^verbatim>\<open>redis/list/core.go\<close>: searching a list, popping from the first non-empty of several lists, and moving.\<close>

section \<open>LPOS\<close>

record LPosOpts =
  lp_rank :: int
  lp_count :: int
  lp_maxlen :: int

definition no_lpos_opts :: LPosOpts where
  "no_lpos_opts = \<lparr>lp_rank = 1, lp_count = - 1, lp_maxlen = 0\<rparr>"

definition lpos_rank :: "bytes \<Rightarrow> answer + int" where
  "lpos_rank v =
     (case ParseInt64 v of
        None \<Rightarrow> Inl err_int
      | Some r \<Rightarrow>
          if sint r = 0 then
            Inl (WriteError (bstr ''ERR RANK can't be zero: use 1 to start from the first match, 2 from the second ... or use negative to start from the end of the list''))
          else if sint r = MinInt64 then Inl (WriteError (bstr ''ERR value is out of range''))
          else Inr (sint r))"

definition lpos_nonneg :: "bytes \<Rightarrow> bytes \<Rightarrow> answer + int" where
  "lpos_nonneg msg v = (case ParseInt64 v of None \<Rightarrow> Inl (WriteError msg) | Some c \<Rightarrow> if sint c < 0 then Inl (WriteError msg) else Inr (sint c))"

fun parse_lpos :: "LPosOpts \<Rightarrow> bytes list \<Rightarrow> answer + LPosOpts" where
  "parse_lpos opts [] = Inr opts"
| "parse_lpos opts [a] = Inl WriteSyntaxError"
| "parse_lpos opts (a # v # r) =
     (let opt = ToUpper a in
      if opt = bstr ''RANK'' then
        (case lpos_rank v of Inl e \<Rightarrow> Inl e | Inr n \<Rightarrow> parse_lpos (opts\<lparr>lp_rank := n\<rparr>) r)
      else if opt = bstr ''COUNT'' then
        (case lpos_nonneg (bstr ''ERR COUNT can't be negative'') v of Inl e \<Rightarrow> Inl e | Inr n \<Rightarrow> parse_lpos (opts\<lparr>lp_count := n\<rparr>) r)
      else if opt = bstr ''MAXLEN'' then
        (case lpos_nonneg (bstr ''ERR MAXLEN can't be negative'') v of Inl e \<Rightarrow> Inl e | Inr n \<Rightarrow> parse_lpos (opts\<lparr>lp_maxlen := n\<rparr>) r)
      else Inl WriteSyntaxError)"

text \<open>The search over the positions in the order of the search, with the number of comparisons and of matches still to skip.\<close>

fun lpos_loop :: "('a \<Rightarrow> bool) \<Rightarrow> int \<Rightarrow> int \<Rightarrow> int \<Rightarrow> int \<Rightarrow> (nat \<times> 'a) list \<Rightarrow> nat list \<Rightarrow> nat list" where
  "lpos_loop P maxlen needed comparisons skip [] matches = matches"
| "lpos_loop P maxlen needed comparisons skip ((idx, x) # r) matches =
     (if maxlen > 0 \<and> comparisons \<ge> maxlen then matches
      else if P x then
        (if skip > 0 then lpos_loop P maxlen needed (comparisons + 1) (skip - 1) r matches
         else if int (length (matches @ [idx])) \<ge> needed then matches @ [idx]
         else lpos_loop P maxlen needed (comparisons + 1) skip r (matches @ [idx]))
      else lpos_loop P maxlen needed (comparisons + 1) skip r matches)"

definition lpos_matches :: "('a \<Rightarrow> bool) \<Rightarrow> LPosOpts \<Rightarrow> 'a list \<Rightarrow> nat list" where
  "lpos_matches P opts elements =
     (let needed = (if lp_count opts < 0 then 1 else if lp_count opts = 0 then int (length elements) else lp_count opts);
          skip = (if lp_rank opts > 0 then lp_rank opts - 1 else - lp_rank opts - 1)
      in lpos_loop P (lp_maxlen opts) needed 0 skip
           (if lp_rank opts > 0 then enumerate 0 elements else rev (enumerate 0 elements)) [])"

definition lpos_reply :: "LPosOpts \<Rightarrow> nat list \<Rightarrow> answer" where
  "lpos_reply opts matches =
     (if lp_count opts \<ge> 0 then write_array (\<lambda>i. WriteInteger (of_nat i)) matches
      else case matches of [] \<Rightarrow> WriteNullBulkString | i # _ \<Rightarrow> WriteInteger (of_nat i))"

definition lpos_command :: "(DataEffect \<Rightarrow> bytes) \<Rightarrow> bytes \<Rightarrow> bytes \<Rightarrow> LPosOpts \<Rightarrow> (answer, answer) cmd" where
  "lpos_command dec key element opts =
     with_key getListSnapshot key (lpos_reply opts []) (\<lambda>snap tips.
       ok (lpos_reply opts (lpos_matches (\<lambda>el. dec (el_Data el) = element) opts (ordered snap))))"

definition handleLPos :: "(DataEffect \<Rightarrow> bytes) \<Rightarrow> bytes list \<Rightarrow> Writer \<Rightarrow> handler_result" where
  "handleLPos dec args w =
     (case args of
        key # element # r \<Rightarrow>
          (case parse_lpos no_lpos_opts r of
             Inl a \<Rightarrow> reject [] (a w)
           | Inr opts \<Rightarrow> accept [key] w (run_cmd (lpos_command dec key element opts)))
      | _ \<Rightarrow> reject [] (WriteWrongNumArguments (bstr ''lpos'') w))"

section \<open>LMPOP\<close>

definition parse_direction :: "bytes \<Rightarrow> bool option" where
  "parse_direction d =
     (if ToUpper d = bstr ''LEFT'' then Some True else if ToUpper d = bstr ''RIGHT'' then Some False else None)"

definition parse_mpop_count :: "bytes list \<Rightarrow> answer + int" where
  "parse_mpop_count r =
     (case r of
        [] \<Rightarrow> Inr 1
      | [a, v] \<Rightarrow>
          if ToUpper a \<noteq> bstr ''COUNT'' then Inl err_syntax
          else
            (case ParseInt64 v of
               None \<Rightarrow> Inl (WriteError (bstr ''ERR count should be greater than 0''))
             | Some c \<Rightarrow>
                 if sint c < 1 then Inl (WriteError (bstr ''ERR count should be greater than 0'')) else Inr (sint c))
      | _ \<Rightarrow> Inl err_syntax)"

text \<open>
  The arguments from the number of keys on, after \<open>before\<close> others: an error, with the keys read so far, or the keys, the
  direction and the count. The sum in the length check wraps around; \<open>None\<close> is the panic of the allocation of the keys.
  A string header takes 16 bytes.
\<close>

definition parse_mpop :: "nat \<Rightarrow> bytes list \<Rightarrow> (answer \<times> bytes list + bytes list \<times> bool \<times> int) option" where
  "parse_mpop before args =
     (case ParseInt64 (args ! before) of
        None \<Rightarrow> Some (Inl (WriteError (bstr ''ERR numkeys should be greater than 0''), []))
      | Some numKeys \<Rightarrow>
          if sint numKeys < 1 then Some (Inl (WriteError (bstr ''ERR numkeys should be greater than 0''), []))
          else if int (length args) < sint (numKeys + of_nat before + 2) then Some (Inl (err_syntax, []))
          else if make_panics 16 (sint numKeys) then None
          else
            let n = nat (sint numKeys); keys = take n (drop (before + 1) args) in
            case drop (before + 1 + n) args of
              [] \<Rightarrow> Some (Inl (err_syntax, keys))
            | d # r \<Rightarrow>
                Some (case parse_direction d of
                        None \<Rightarrow> Inl (err_syntax, keys)
                      | Some left \<Rightarrow>
                          (case parse_mpop_count r of Inl a \<Rightarrow> Inl (a, keys) | Inr count \<Rightarrow> Inr (keys, left, count))))"

definition check_types :: "bytes list \<Rightarrow> (answer, unit) cmd" where
  "check_types = each_cmd (\<lambda>key. typed_key getListSnapshot key (\<lambda>_ _ _. ok ()))"

definition mpop_reply :: "(DataEffect \<Rightarrow> bytes) \<Rightarrow> bytes \<Rightarrow> ReducedElement list \<Rightarrow> answer" where
  "mpop_reply dec key popped w =
     write_array (\<lambda>el. WriteBulkString (dec (el_Data el))) popped (WriteBulkStringStr key (WriteArray 2 w))"

fun mpop_keys :: "(DataEffect \<Rightarrow> bytes) \<Rightarrow> bool \<Rightarrow> int \<Rightarrow> bytes list \<Rightarrow> (answer, answer) cmd" where
  "mpop_keys dec left count [] = ok WriteNullArray"
| "mpop_keys dec left count (key # ks) =
     bind_cmd (or_reply (getListSnapshot key)) (\<lambda>(snap, tips, exists, _).
       if \<not> exists \<or> ordered snap = [] then mpop_keys dec left count ks
       else
         let popped = take (nat count) (pop_order left (ordered snap))
         in seq_cmd (or_reply (emitNoop key tips))
              (seq_cmd (or_reply (remove_elements key popped)) (ok (mpop_reply dec key popped))))"

definition mpop_command :: "(DataEffect \<Rightarrow> bytes) \<Rightarrow> bool \<Rightarrow> int \<Rightarrow> bytes list \<Rightarrow> (answer, answer) cmd" where
  "mpop_command dec left count keys = seq_cmd (check_types keys) (mpop_keys dec left count keys)"

definition handleLMPop :: "(DataEffect \<Rightarrow> bytes) \<Rightarrow> bytes list \<Rightarrow> Writer \<Rightarrow> handler_result option" where
  "handleLMPop dec args w =
     (if length args < 3 then Some (reject [] (WriteWrongNumArguments (bstr ''lmpop'') w))
      else
        case parse_mpop 0 args of
          None \<Rightarrow> None
        | Some (Inl (a, _)) \<Rightarrow> Some (reject [] (a w))
        | Some (Inr (keys, left, count)) \<Rightarrow> Some (accept keys w (run_cmd (mpop_command dec left count keys))))"

section \<open>LMOVE and RPOPLPUSH\<close>

text \<open>The element, the error message, empty for none, and whether an element was moved.\<close>

definition wrong_type_message :: bytes where
  "wrong_type_message = bstr ''WRONGTYPE Operation against a key holding the wrong kind of value''"

definition doLMove :: "ids \<Rightarrow> (DataEffect \<Rightarrow> bytes) \<Rightarrow> bytes \<Rightarrow> bytes \<Rightarrow> bool \<Rightarrow> bool \<Rightarrow> (bytes, bytes \<times> bytes \<times> bool) cmd" where
  "doLMove eid dec source destination popLeft pushLeft =
     bind_cmd (getListSnapshot source) (\<lambda>(srcSnap, srcTips, srcExists, srcWrongType).
       if \<not> srcExists then ok ([], [], False)
       else if srcWrongType then ok ([], wrong_type_message, False)
       else if ordered srcSnap = [] then ok ([], [], False)
       else
         bind_cmd (if source \<noteq> destination
                   then bind_cmd (getListSnapshot destination) (\<lambda>(_, dt, _, dstWrongType). ok (dt, dstWrongType))
                   else ok ([], False)) (\<lambda>(dstTips, dstWrongType).
           if dstWrongType then ok ([], wrong_type_message, False)
           else
             let elem = hd (pop_order popLeft (ordered srcSnap)); v = dec (el_Data elem)
             in seq_cmd (emitNoop source srcTips)
                  (seq_cmd (when_cmd (source \<noteq> destination \<and> dstTips \<noteq> []) (emitNoop destination dstTips))
                    (seq_cmd (emitListRemove source (d_Id (el_Data elem)))
                      (seq_cmd (emitListInsert eid destination (if pushLeft then PLACE_HEAD else PLACE_TAIL) v)
                        (ok (v, [], True)))))))"

definition lmove_command :: "ids \<Rightarrow> (DataEffect \<Rightarrow> bytes) \<Rightarrow> bytes \<Rightarrow> bytes \<Rightarrow> bool \<Rightarrow> bool \<Rightarrow> (answer, answer) cmd" where
  "lmove_command eid dec source destination popLeft pushLeft =
     bind_cmd (or_reply (doLMove eid dec source destination popLeft pushLeft)) (\<lambda>(elem, errMsg, moved).
       ok (if \<not> moved then (if errMsg \<noteq> [] then WriteError errMsg else WriteNullBulkString) else WriteBulkString elem))"

definition handleLMove :: "ids \<Rightarrow> (DataEffect \<Rightarrow> bytes) \<Rightarrow> bytes list \<Rightarrow> Writer \<Rightarrow> handler_result" where
  "handleLMove eid dec args w =
     (case args of
        [source, destination, whereFrom, whereTo] \<Rightarrow>
          (case (parse_direction whereFrom, parse_direction whereTo) of
             (Some popLeft, Some pushLeft) \<Rightarrow>
               accept [source, destination] w (run_cmd (lmove_command eid dec source destination popLeft pushLeft))
           | _ \<Rightarrow> reject [] (err_syntax w))
      | _ \<Rightarrow> reject [] (WriteWrongNumArguments (bstr ''lmove'') w))"

definition handleRPopLPush :: "ids \<Rightarrow> (DataEffect \<Rightarrow> bytes) \<Rightarrow> bytes list \<Rightarrow> Writer \<Rightarrow> handler_result" where
  "handleRPopLPush eid dec args w =
     (case args of
        [source, destination] \<Rightarrow> accept [source, destination] w (run_cmd (lmove_command eid dec source destination False True))
      | _ \<Rightarrow> reject [] (WriteWrongNumArguments (bstr ''rpoplpush'') w))"

end
