(* ===== verification/List_Blocking.thy ===== *)
theory List_Blocking
  imports List_Moves
begin

text \<open>
  \<^verbatim>\<open>redis/list/blocking.go\<close> and \<^verbatim>\<open>shared/timeout.go\<close>. What a blocked command sees over time is a list of wake-ups;
  \<open>oldest n key\<close> tells whether it is the oldest waiter for the key at its \<open>n\<close>-th attempt, and \<open>reg\<close> is the error
  of the subscription, if any. The reply is \<open>None\<close> while the command is still waiting.
\<close>

section \<open>Timeouts\<close>

text \<open>What the code uses of \<^verbatim>\<open>strconv\<close> and of floating-point conversions.\<close>

record numbers =
  n_ParseFloat :: "bytes \<Rightarrow> f64 option"
  n_ParseInt0 :: "bytes \<Rightarrow> i64 option"
  n_ParseUint0 :: "bytes \<Rightarrow> u64 option"
  n_of_int64 :: "i64 \<Rightarrow> f64"
  n_of_uint64 :: "u64 \<Rightarrow> f64"

text \<open>The bound is the bit pattern of \<open>2^62 / 10^9\<close>.\<close>

definition max_timeout :: f64 where
  "max_timeout = 4751629710526961301"

definition ParseBlockingTimeout :: "numbers \<Rightarrow> bytes \<Rightarrow> bytes + f64" where
  "ParseBlockingTimeout N s =
     (case (case n_ParseFloat N s of
              Some t \<Rightarrow> Some t
            | None \<Rightarrow>
                (case n_ParseInt0 N s of
                   Some i \<Rightarrow> Some (n_of_int64 N i)
                 | None \<Rightarrow> map_option (n_of_uint64 N) (n_ParseUint0 N s))) of
        None \<Rightarrow> Inl (bstr ''ERR timeout is not a float or out of range'')
      | Some t \<Rightarrow>
          if f64_is_nan t \<or> f64_is_inf t then Inl (bstr ''ERR timeout is not a float or out of range'')
          else if f64_lt t 0 then Inl (bstr ''ERR timeout is negative'')
          else if f64_lt max_timeout t then Inl (bstr ''ERR timeout is out of range'')
          else Inr t)"

section \<open>Waiting for an attempt to succeed\<close>

fun wait_loop :: "(nat \<Rightarrow> (bytes, answer option) cmd) \<Rightarrow> answer \<Rightarrow> nat \<Rightarrow> wake list \<Rightarrow> Context \<Rightarrow> answer option \<times> Context" where
  "wait_loop attempt timed_out n wakes c =
     (case attempt n c of
        (Inl err, c') \<Rightarrow> (Some (WriteError err), c')
      | (Inr (Some a), c') \<Rightarrow> (Some a, c')
      | (Inr None, c') \<Rightarrow>
          (case wakes of
             [] \<Rightarrow> (None, c')
           | Woken f # ws \<Rightarrow> wait_loop attempt timed_out (Suc n) ws (c'\<lparr>c_snapshot := f\<rparr>)
           | WaitFailed unblocked # _ \<Rightarrow> (Some (if unblocked then err_unblocked else timed_out), c')))"

declare wait_loop.simps [simp del]

definition say :: "Writer \<Rightarrow> answer option \<times> Context \<Rightarrow> (Writer \<times> Context) option" where
  "say w r = (case r of (None, _) \<Rightarrow> None | (Some a, c) \<Rightarrow> Some (a w, c))"

section \<open>BLPOP and BRPOP\<close>

definition tryMultiPop :: "(DataEffect \<Rightarrow> bytes) \<Rightarrow> bytes \<Rightarrow> bool \<Rightarrow> int \<Rightarrow> bool \<Rightarrow> (bytes, ReducedElement list) cmd" where
  "tryMultiPop dec key left count oldest =
     (if \<not> oldest then ok []
      else
        bind_cmd (getListSnapshot key) (\<lambda>(snap, tips, exists, wrongType).
          if \<not> exists \<or> wrongType \<or> ordered snap = [] then ok []
          else
            let popped = take (nat count) (pop_order left (ordered snap))
            in seq_cmd (emitNoop key tips) (seq_cmd (remove_elements key popped) (ok popped))))"

definition tryPop :: "(DataEffect \<Rightarrow> bytes) \<Rightarrow> bytes \<Rightarrow> bool \<Rightarrow> bool \<Rightarrow> (bytes, bytes option) cmd" where
  "tryPop dec key left oldest =
     (if \<not> oldest then ok None
      else
        bind_cmd (getListSnapshot key) (\<lambda>(snap, tips, exists, wrongType).
          if \<not> exists \<or> wrongType \<or> ordered snap = [] then ok None
          else
            let elem = hd (pop_order left (ordered snap))
            in seq_cmd (emitNoop key tips)
                 (seq_cmd (emitListRemove key (d_Id (el_Data elem))) (ok (Some (dec (el_Data elem)))))))"

definition pop_reply :: "bytes \<Rightarrow> bytes \<Rightarrow> answer" where
  "pop_reply key elem w = WriteBulkString elem (WriteBulkString key (WriteArray 2 w))"

fun pop_attempt :: "(DataEffect \<Rightarrow> bytes) \<Rightarrow> bool \<Rightarrow> (nat \<Rightarrow> bytes \<Rightarrow> bool) \<Rightarrow> bytes list \<Rightarrow> nat \<Rightarrow> (bytes, answer option) cmd" where
  "pop_attempt dec left oldest [] n = ok None"
| "pop_attempt dec left oldest (key # ks) n =
     bind_cmd (tryPop dec key left (oldest n key)) (\<lambda>found.
       case found of Some elem \<Rightarrow> ok (Some (pop_reply key elem)) | None \<Rightarrow> pop_attempt dec left oldest ks n)"

fun pop_once :: "(DataEffect \<Rightarrow> bytes) \<Rightarrow> bool \<Rightarrow> bytes list \<Rightarrow> (answer, answer) cmd" where
  "pop_once dec left [] = ok WriteNullArray"
| "pop_once dec left (key # ks) =
     typed_key getListSnapshot key (\<lambda>snap tips exists.
       if \<not> exists \<or> ordered snap = [] then pop_once dec left ks
       else
         let elem = hd (pop_order left (ordered snap))
         in seq_cmd (or_reply (emitNoop key tips))
              (seq_cmd (or_reply (emitListRemove key (d_Id (el_Data elem)))) (ok (\<lambda>w. WriteBulkString (dec (el_Data elem)) (WriteBulkStringStr key (WriteArray 2 w))))))"

definition pop_name :: "bool \<Rightarrow> bytes" where
  "pop_name left = (if left then bstr ''blpop'' else bstr ''brpop'')"

definition handleLPopNonBlocking :: "(DataEffect \<Rightarrow> bytes) \<Rightarrow> bool \<Rightarrow> bytes list \<Rightarrow> Writer \<Rightarrow> handler_result" where
  "handleLPopNonBlocking dec left args w =
     (if length args < 2 then reject [] (WriteWrongNumArguments (pop_name left) w)
      else accept (butlast args) w (run_cmd (pop_once dec left (butlast args))))"

text \<open>In a script the blocking handlers call the non-blocking one, whose runner they do not run.\<close>

definition handleBlockingPop ::
  "(DataEffect \<Rightarrow> bytes) \<Rightarrow> numbers \<Rightarrow> (nat \<Rightarrow> bytes \<Rightarrow> bool) \<Rightarrow> bytes option \<Rightarrow> bool \<Rightarrow> bool \<Rightarrow> bytes list \<Rightarrow> wake list \<Rightarrow>
   Context \<Rightarrow> Writer \<Rightarrow> (Writer \<times> Context) option" where
  "handleBlockingPop dec N oldest reg inScript left args wakes c w =
     (if length args < 2 then Some (WriteWrongNumArguments (pop_name left) w, c)
      else
        case ParseBlockingTimeout N (last args) of
          Inl errMsg \<Rightarrow> Some (WriteError errMsg w, c)
        | Inr _ \<Rightarrow>
            (case check_types (butlast args) c of
               (Inl a, c') \<Rightarrow> Some (a w, c')
             | (Inr _, c') \<Rightarrow>
                 if inScript then Some (h_writer (handleLPopNonBlocking dec left args w), c')
                 else
                   case reg of
                     Some err \<Rightarrow> Some (WriteError (bstr ''ERR '' @ err) w, c')
                   | None \<Rightarrow> say w (wait_loop (pop_attempt dec left oldest (butlast args)) WriteNullArray 0 wakes c')))"

definition handleBLPop where "handleBLPop dec N oldest reg inScript = handleBlockingPop dec N oldest reg inScript True"
definition handleBRPop where "handleBRPop dec N oldest reg inScript = handleBlockingPop dec N oldest reg inScript False"

section \<open>BLMPOP\<close>

fun mpop_attempt :: "(DataEffect \<Rightarrow> bytes) \<Rightarrow> bool \<Rightarrow> int \<Rightarrow> (nat \<Rightarrow> bytes \<Rightarrow> bool) \<Rightarrow> bytes list \<Rightarrow> nat \<Rightarrow> (bytes, answer option) cmd" where
  "mpop_attempt dec left count oldest [] n = ok None"
| "mpop_attempt dec left count oldest (key # ks) n =
     bind_cmd (tryMultiPop dec key left count (oldest n key)) (\<lambda>popped.
       if popped \<noteq> [] then ok (Some (mpop_reply dec key popped)) else mpop_attempt dec left count oldest ks n)"

definition handleBLMPopNonBlocking :: "(DataEffect \<Rightarrow> bytes) \<Rightarrow> bytes list \<Rightarrow> Writer \<Rightarrow> handler_result option" where
  "handleBLMPopNonBlocking dec args w =
     (if length args < 4 then Some (reject [] (WriteWrongNumArguments (bstr ''blmpop'') w))
      else
        case parse_mpop 1 args of
          None \<Rightarrow> None
        | Some (Inl (a, keys)) \<Rightarrow> Some (reject keys (a w))
        | Some (Inr (keys, left, count)) \<Rightarrow> Some (accept keys w (run_cmd (mpop_command dec left count keys))))"

text \<open>The outcome of the blocking variant; \<open>Panicked\<close> is the panic of the allocation.\<close>

datatype outcome = Panicked | Waiting | Replied Writer Context

definition outcome_of :: "(Writer \<times> Context) option \<Rightarrow> outcome" where
  "outcome_of r = (case r of None \<Rightarrow> Waiting | Some (w, c) \<Rightarrow> Replied w c)"

definition handleBLMPop ::
  "(DataEffect \<Rightarrow> bytes) \<Rightarrow> numbers \<Rightarrow> (nat \<Rightarrow> bytes \<Rightarrow> bool) \<Rightarrow> bytes option \<Rightarrow> bool \<Rightarrow> bytes list \<Rightarrow> wake list \<Rightarrow>
   Context \<Rightarrow> Writer \<Rightarrow> outcome" where
  "handleBLMPop dec N oldest reg inScript args wakes c w =
     (if inScript then
        (case handleBLMPopNonBlocking dec args w of None \<Rightarrow> Panicked | Some h \<Rightarrow> Replied (h_writer h) c)
      else if length args < 4 then Replied (WriteWrongNumArguments (bstr ''blmpop'') w) c
      else
        case ParseBlockingTimeout N (args ! 0) of
          Inl errMsg \<Rightarrow> Replied (WriteError errMsg w) c
        | Inr _ \<Rightarrow>
            (case parse_mpop 1 args of
               None \<Rightarrow> Panicked
             | Some (Inl (a, _)) \<Rightarrow> Replied (a w) c
             | Some (Inr (keys, left, count)) \<Rightarrow>
                 (case check_types keys c of
                    (Inl a, c') \<Rightarrow> Replied (a w) c'
                  | (Inr _, c') \<Rightarrow>
                      (case reg of
                         Some err \<Rightarrow> Replied (WriteError (bstr ''ERR '' @ err) w) c'
                       | None \<Rightarrow> outcome_of (say w (wait_loop (mpop_attempt dec left count oldest keys) WriteNullArray 0 wakes c'))))))"

section \<open>BLMOVE and BRPOPLPUSH\<close>

definition move_attempt :: "ids \<Rightarrow> (DataEffect \<Rightarrow> bytes) \<Rightarrow> bytes \<Rightarrow> bytes \<Rightarrow> bool \<Rightarrow> bool \<Rightarrow> nat \<Rightarrow> (bytes, answer option) cmd" where
  "move_attempt eid dec source destination popLeft pushLeft n =
     bind_cmd (doLMove eid dec source destination popLeft pushLeft) (\<lambda>(elem, errMsg, moved).
       ok (if moved then Some (WriteBulkString elem) else if errMsg \<noteq> [] then Some (WriteError errMsg) else None))"

definition blocking_move ::
  "ids \<Rightarrow> (DataEffect \<Rightarrow> bytes) \<Rightarrow> bytes option \<Rightarrow> bytes \<Rightarrow> bytes \<Rightarrow> bool \<Rightarrow> bool \<Rightarrow> wake list \<Rightarrow> Context \<Rightarrow> Writer \<Rightarrow>
   (Writer \<times> Context) option" where
  "blocking_move eid dec reg source destination popLeft pushLeft wakes c w =
     (case reg of
        Some err \<Rightarrow> Some (WriteError (bstr ''ERR '' @ err) w, c)
      | None \<Rightarrow> say w (wait_loop (move_attempt eid dec source destination popLeft pushLeft) WriteNullBulkString 0 wakes c))"

definition handleBLMoveNonBlocking :: "ids \<Rightarrow> (DataEffect \<Rightarrow> bytes) \<Rightarrow> bytes list \<Rightarrow> Writer \<Rightarrow> handler_result" where
  "handleBLMoveNonBlocking eid dec args w =
     (case args of
        [source, destination, whereFrom, whereTo, _] \<Rightarrow>
          (case (parse_direction whereFrom, parse_direction whereTo) of
             (Some popLeft, Some pushLeft) \<Rightarrow>
               accept [source, destination] w (run_cmd (lmove_command eid dec source destination popLeft pushLeft))
           | _ \<Rightarrow> reject [source, destination] (err_syntax w))
      | _ \<Rightarrow> reject [] (WriteWrongNumArguments (bstr ''blmove'') w))"

definition handleBRPopLPushNonBlocking :: "ids \<Rightarrow> (DataEffect \<Rightarrow> bytes) \<Rightarrow> bytes list \<Rightarrow> Writer \<Rightarrow> handler_result" where
  "handleBRPopLPushNonBlocking eid dec args w =
     (case args of
        [source, destination, _] \<Rightarrow> accept [source, destination] w (run_cmd (lmove_command eid dec source destination False True))
      | _ \<Rightarrow> reject [] (WriteWrongNumArguments (bstr ''brpoplpush'') w))"

definition handleBLMove ::
  "ids \<Rightarrow> (DataEffect \<Rightarrow> bytes) \<Rightarrow> numbers \<Rightarrow> bytes option \<Rightarrow> bool \<Rightarrow> bytes list \<Rightarrow> wake list \<Rightarrow> Context \<Rightarrow> Writer \<Rightarrow>
   (Writer \<times> Context) option" where
  "handleBLMove eid dec N reg inScript args wakes c w =
     (if inScript then Some (h_writer (handleBLMoveNonBlocking eid dec args w), c)
      else
        case args of
          [source, destination, whereFrom, whereTo, timeout] \<Rightarrow>
            (case ParseBlockingTimeout N timeout of
               Inl errMsg \<Rightarrow> Some (WriteError errMsg w, c)
             | Inr _ \<Rightarrow>
                 (case (parse_direction whereFrom, parse_direction whereTo) of
                    (Some popLeft, Some pushLeft) \<Rightarrow> blocking_move eid dec reg source destination popLeft pushLeft wakes c w
                  | _ \<Rightarrow> Some (err_syntax w, c)))
        | _ \<Rightarrow> Some (WriteWrongNumArguments (bstr ''blmove'') w, c))"

definition handleBRPopLPush ::
  "ids \<Rightarrow> (DataEffect \<Rightarrow> bytes) \<Rightarrow> numbers \<Rightarrow> bytes option \<Rightarrow> bool \<Rightarrow> bytes list \<Rightarrow> wake list \<Rightarrow> Context \<Rightarrow> Writer \<Rightarrow>
   (Writer \<times> Context) option" where
  "handleBRPopLPush eid dec N reg inScript args wakes c w =
     (if inScript then Some (h_writer (handleBRPopLPushNonBlocking eid dec args w), c)
      else
        case args of
          [source, destination, timeout] \<Rightarrow>
            (case ParseBlockingTimeout N timeout of
               Inl errMsg \<Rightarrow> Some (WriteError errMsg w, c)
             | Inr _ \<Rightarrow> blocking_move eid dec reg source destination False True wakes c w)
        | _ \<Rightarrow> Some (WriteWrongNumArguments (bstr ''brpoplpush'') w, c))"

end
