(* ===== verification/List_Engine.thy ===== *)
theory List_Engine
  imports List_Moves
begin

text \<open>
  The laws of the engine on ordered collections that lists rely on: an insertion with a new name puts an element at the head, at
  the tail, before or after the element it refers to, or replaces the element with its own name; a removal takes the named
  element out. The reduction \<open>place_reduce\<close> satisfies them.
\<close>

definition el_id :: "ReducedElement \<Rightarrow> bytes" where
  "el_id el = d_Id (el_Data el)"

text \<open>
  A value is a list when it is an ordered collection that is not tagged with another type, or when only its tag says so; a key is
  foreign when it exists and holds something else. A key is well formed when it holds nothing or a list whose elements have
  pairwise different names that are not empty; a list that has only its tag has no elements.
\<close>

definition holds_list :: "ReducedEffect \<Rightarrow> bool" where
  "holds_list r =
     (case r_Collection r of
        ORDERED \<Rightarrow> r_TypeTag r \<in> {TYPE_LIST, TYPE_UNSPECIFIED}
      | SCALAR \<Rightarrow> r_TypeTag r = TYPE_LIST
      | KEYED \<Rightarrow> False)"

definition foreign :: "ReducedEffect option \<Rightarrow> bool" where
  "foreign s \<longleftrightarrow> (\<exists>r. s = Some r \<and> r_Op r = INSERT_OP \<and> \<not> holds_list r)"

definition list_wf :: "ReducedEffect option \<Rightarrow> bool" where
  "list_wf s \<longleftrightarrow>
     (\<forall>r. s = Some r \<and> r_Op r = INSERT_OP \<longrightarrow>
        holds_list r \<and> (r_Collection r = SCALAR \<longrightarrow> r_Ordered r = []) \<and>
        distinct (map el_id (r_Ordered r)) \<and> [] \<notin> el_id ` set (r_Ordered r))"

lemma holds_list_typed: "holds_list = list_typed"
  by (auto simp: fun_eq_iff holds_list_def list_typed_def split: CollectionKind.splits)

lemma list_wf_not_foreign: "list_wf s \<Longrightarrow> \<not> foreign s"
  by (auto simp: list_wf_def foreign_def)

text \<open>The names and values of a list.\<close>

definition pair :: "(DataEffect \<Rightarrow> bytes) \<Rightarrow> ReducedElement \<Rightarrow> bytes \<times> bytes" where
  "pair dec el = (el_id el, dec (el_Data el))"

definition pairs :: "(DataEffect \<Rightarrow> bytes) \<Rightarrow> ReducedEffect option \<Rightarrow> (bytes \<times> bytes) list" where
  "pairs dec s = (if live s then map (pair dec) (ordered s) else [])"

definition names :: "(bytes \<times> bytes) list \<Rightarrow> bytes set" where
  "names ps = fst ` set ps"

lemma names_simps [simp]:
  "names [] = {}" "names (p # ps) = insert (fst p) (names ps)" "names (ps @ qs) = names ps \<union> names qs" "names (rev ps) = names ps"
  by (auto simp: names_def)

definition becomes :: "(DataEffect \<Rightarrow> bytes) \<Rightarrow> ReducedEffect option \<Rightarrow> (bytes \<times> bytes) list \<Rightarrow> bool" where
  "becomes dec s ps \<longleftrightarrow> list_wf s \<and> live s \<and> pairs dec s = ps"

definition list_engine :: "engine \<Rightarrow> (DataEffect \<Rightarrow> bytes) \<Rightarrow> bool" where
  "list_engine reduce dec \<longleftrightarrow>
     (\<forall>s key i v. list_wf s \<and> i \<noteq> [] \<and> i \<notin> names (pairs dec s) \<longrightarrow>
        becomes dec (reduce s (place_insert key PLACE_HEAD [] i v)) ((i, v) # pairs dec s) \<and>
        becomes dec (reduce s (place_insert key PLACE_TAIL [] i v)) (pairs dec s @ [(i, v)])) \<and>
     (\<forall>s key i v j u xs ys. list_wf s \<and> i \<noteq> [] \<and> i \<notin> names (pairs dec s) \<and> pairs dec s = xs @ (j, u) # ys \<longrightarrow>
        becomes dec (reduce s (place_insert key PLACE_BEFORE j i v)) (xs @ (i, v) # (j, u) # ys) \<and>
        becomes dec (reduce s (place_insert key PLACE_AFTER j i v)) (xs @ (j, u) # (i, v) # ys)) \<and>
     (\<forall>s key j u v xs ys. list_wf s \<and> pairs dec s = xs @ (j, u) # ys \<longrightarrow>
        becomes dec (reduce s (place_insert key PLACE_SELF [] j v)) (xs @ (j, v) # ys)) \<and>
     (\<forall>s key i. list_wf s \<longrightarrow>
        list_wf (reduce s (list_remove key i)) \<and>
        pairs dec (reduce s (list_remove key i)) = filter (\<lambda>p. fst p \<noteq> i) (pairs dec s)) \<and>
     (\<forall>s key. list_wf s \<and> live s \<longrightarrow> becomes dec (reduce s (meta_effect key TYPE_LIST)) (pairs dec s)) \<and>
     (\<forall>s key. reduce s (noop_effect key) = s)"

lemma head_law:
  "list_engine reduce dec \<Longrightarrow> list_wf s \<Longrightarrow> i \<noteq> [] \<Longrightarrow> i \<notin> names (pairs dec s) \<Longrightarrow>
   becomes dec (reduce s (place_insert key PLACE_HEAD [] i v)) ((i, v) # pairs dec s)"
  unfolding list_engine_def by (drule conjunct1) blast

lemma tail_law:
  "list_engine reduce dec \<Longrightarrow> list_wf s \<Longrightarrow> i \<noteq> [] \<Longrightarrow> i \<notin> names (pairs dec s) \<Longrightarrow>
   becomes dec (reduce s (place_insert key PLACE_TAIL [] i v)) (pairs dec s @ [(i, v)])"
  unfolding list_engine_def by (drule conjunct1) blast

lemma at_law:
  assumes "list_engine reduce dec" "list_wf s" "i \<noteq> []" "i \<notin> names (pairs dec s)" "pairs dec s = xs @ (j, u) # ys"
  shows "becomes dec (reduce s (place_insert key PLACE_BEFORE j i v)) (xs @ (i, v) # (j, u) # ys)"
    "becomes dec (reduce s (place_insert key PLACE_AFTER j i v)) (xs @ (j, u) # (i, v) # ys)"
proof -
  note law = assms(1) [unfolded list_engine_def, THEN conjunct2, THEN conjunct1, rule_format, of s i xs j u ys key v]
  show "becomes dec (reduce s (place_insert key PLACE_BEFORE j i v)) (xs @ (i, v) # (j, u) # ys)"
    "becomes dec (reduce s (place_insert key PLACE_AFTER j i v)) (xs @ (j, u) # (i, v) # ys)"
    using law assms(2-5) by blast+
qed

lemma self_law:
  assumes "list_engine reduce dec" "list_wf s" "pairs dec s = xs @ (j, u) # ys"
  shows "becomes dec (reduce s (place_insert key PLACE_SELF [] j v)) (xs @ (j, v) # ys)"
  using assms(1) [unfolded list_engine_def, THEN conjunct2, THEN conjunct2, THEN conjunct1, rule_format, of s xs j u ys key v] assms(2,3)
  by blast

lemma remove_law:
  assumes "list_engine reduce dec" "list_wf s"
  shows "list_wf (reduce s (list_remove key i))" "pairs dec (reduce s (list_remove key i)) = filter (\<lambda>p. fst p \<noteq> i) (pairs dec s)"
  using assms unfolding list_engine_def by blast+

lemma tag_law:
  "list_engine reduce dec \<Longrightarrow> list_wf s \<Longrightarrow> live s \<Longrightarrow> becomes dec (reduce s (meta_effect key TYPE_LIST)) (pairs dec s)"
  unfolding list_engine_def by blast

lemma noop_law: "list_engine reduce dec \<Longrightarrow> reduce s (noop_effect key) = s"
  unfolding list_engine_def by blast

lemma pairs_distinct: "list_wf s \<Longrightarrow> distinct (map fst (pairs dec s))"
  by (cases s) (auto simp: list_wf_def pairs_def ordered_def pair_def comp_def)

lemma list_wf_fit: "list_wf s \<Longrightarrow> fit list_typed s"
  by (simp add: list_wf_def fit_def holds_list_typed)

section \<open>An engine on lists of elements\<close>

definition empty_ordered :: ReducedEffect where
  "empty_ordered = \<lparr>r_Op = INSERT_OP, r_Collection = ORDERED, r_Scalar = None, r_NetAdds = [], r_NetRemoves = [],
     r_Ordered = [], r_TypeTag = TYPE_UNSPECIFIED\<rparr>"

definition place :: "DataEffect \<Rightarrow> ReducedElement list \<Rightarrow> ReducedElement list" where
  "place d xs =
     (let el = \<lparr>el_Data = d, el_ExpiresAt = None\<rparr>
      in case d_Placement d of
           PLACE_HEAD \<Rightarrow> el # xs
         | PLACE_TAIL \<Rightarrow> xs @ [el]
         | PLACE_SELF \<Rightarrow> map (\<lambda>x. if el_id x = d_Id d then el else x) xs
         | PLACE_BEFORE \<Rightarrow> concat (map (\<lambda>x. if el_id x = d_Reference d then [el, x] else [x]) xs)
         | PLACE_AFTER \<Rightarrow> concat (map (\<lambda>x. if el_id x = d_Reference d then [x, el] else [x]) xs))"

definition base :: "ReducedEffect option \<Rightarrow> ReducedEffect" where
  "base s = (case s of None \<Rightarrow> empty_ordered | Some r \<Rightarrow> if r_Op r = INSERT_OP then r\<lparr>r_Collection := ORDERED\<rparr> else empty_ordered)"

definition place_reduce :: engine where
  "place_reduce s e =
     (let r = base s
      in case e_Kind e of
           Meta t \<Rightarrow> Some (r\<lparr>r_TypeTag := t\<rparr>)
         | Noop \<Rightarrow> s
         | Data d \<Rightarrow>
             if d_Collection d \<noteq> ORDERED then None
             else if d_Op d = INSERT_OP then Some (r\<lparr>r_Ordered := place d (r_Ordered r)\<rparr>)
             else Some (r\<lparr>r_Ordered := filter (\<lambda>x. el_id x \<noteq> d_Id d) (r_Ordered r)\<rparr>))"

lemma base_wf:
  assumes "list_wf s"
  shows "r_Op (base s) = INSERT_OP" "r_Collection (base s) = ORDERED" "r_TypeTag (base s) = TYPE_LIST \<or> r_TypeTag (base s) = TYPE_UNSPECIFIED"
    "distinct (map el_id (r_Ordered (base s)))" "[] \<notin> el_id ` set (r_Ordered (base s))" "pairs GetRaw s = map (pair GetRaw) (r_Ordered (base s))"
  using assms by (auto simp: base_def empty_ordered_def list_wf_def holds_list_typed list_typed_def pairs_def ordered_def split: option.splits)

lemma becomes_base:
  assumes "list_wf s" "distinct (map el_id xs)" "[] \<notin> el_id ` set xs"
  shows "becomes GetRaw (Some ((base s)\<lparr>r_Ordered := xs\<rparr>)) (map (pair GetRaw) xs)"
  using assms base_wf(1-3) [OF assms(1)] by (auto simp: becomes_def list_wf_def holds_list_def pairs_def ordered_def)

definition new_el :: "Placement \<Rightarrow> bytes \<Rightarrow> bytes \<Rightarrow> bytes \<Rightarrow> ReducedElement" where
  "new_el p j i v = \<lparr>el_Data = (insert_data ORDERED i (Raw v))\<lparr>d_Placement := p, d_Reference := j\<rparr>, el_ExpiresAt = None\<rparr>"

lemma new_el_simps [simp]: "el_id (new_el p j i v) = i" "pair GetRaw (new_el p j i v) = (i, v)"
  by (simp_all add: new_el_def el_id_def pair_def insert_data_def GetRaw_def)

lemma becomes_new:
  assumes "list_wf s" "i \<notin> names (pairs GetRaw s)" "i \<noteq> []" "r_Ordered (base s) = as @ bs"
  shows "becomes GetRaw (Some ((base s)\<lparr>r_Ordered := as @ new_el p j i v # bs\<rparr>)) (map (pair GetRaw) as @ (i, v) # map (pair GetRaw) bs)"
proof -
  have "names (pairs GetRaw s) = el_id ` set (r_Ordered (base s))"
    by (simp add: base_wf(6) [OF assms(1)] names_def image_image pair_def)
  then show ?thesis
    using becomes_base [OF assms(1), of "as @ new_el p j i v # bs"] base_wf(4,5) [OF assms(1)] assms(2-4) by auto
qed

lemma place_reduce_insert:
  "place_reduce s (place_insert key PLACE_HEAD j i v) = Some ((base s)\<lparr>r_Ordered := new_el PLACE_HEAD j i v # r_Ordered (base s)\<rparr>)"
  "place_reduce s (place_insert key PLACE_TAIL j i v) = Some ((base s)\<lparr>r_Ordered := r_Ordered (base s) @ [new_el PLACE_TAIL j i v]\<rparr>)"
  "place_reduce s (place_insert key PLACE_SELF j i v) =
     Some ((base s)\<lparr>r_Ordered := map (\<lambda>x. if el_id x = i then new_el PLACE_SELF j i v else x) (r_Ordered (base s))\<rparr>)"
  "place_reduce s (place_insert key PLACE_BEFORE j i v) =
     Some ((base s)\<lparr>r_Ordered := concat (map (\<lambda>x. if el_id x = j then [new_el PLACE_BEFORE j i v, x] else [x]) (r_Ordered (base s)))\<rparr>)"
  "place_reduce s (place_insert key PLACE_AFTER j i v) =
     Some ((base s)\<lparr>r_Ordered := concat (map (\<lambda>x. if el_id x = j then [x, new_el PLACE_AFTER j i v] else [x]) (r_Ordered (base s)))\<rparr>)"
  by (simp_all add: place_reduce_def place_insert_def data_effect_def insert_data_def new_el_def place_def Let_def cong: if_cong)

lemma pairs_split:
  assumes "map (pair GetRaw) els = xs @ (j, u) # ys" "distinct (map el_id els)"
  obtains as x bs where "els = as @ x # bs" "map (pair GetRaw) as = xs" "map (pair GetRaw) bs = ys" "el_id x = j" "pair GetRaw x = (j, u)"
    "\<forall>a \<in> set as \<union> set bs. el_id a \<noteq> j"
proof -
  from assms(1) obtain as x bs where 1: "els = as @ x # bs" "map (pair GetRaw) as = xs" "pair GetRaw x = (j, u)" "map (pair GetRaw) bs = ys"
    by (auto simp: map_eq_append_conv map_eq_Cons_conv)
  then have "el_id x = j" by (simp add: pair_def)
  moreover then have "\<forall>a \<in> set as \<union> set bs. el_id a \<noteq> j" using assms(2) 1(1) by (auto simp: image_iff)
  ultimately show thesis using that 1 by blast
qed

lemma not_replaced:
  "\<forall>a \<in> set as. el_id a \<noteq> j \<Longrightarrow> map (\<lambda>x. if el_id x = j then f x else x) as = as"
  "\<forall>a \<in> set as. el_id a \<noteq> j \<Longrightarrow> concat (map (\<lambda>x. if el_id x = j then g x else [x]) as) = as"
  by (induction as) auto

lemma place_head_tail:
  assumes "list_wf s" "i \<noteq> []" "i \<notin> names (pairs GetRaw s)"
  shows "becomes GetRaw (place_reduce s (place_insert key PLACE_HEAD [] i v)) ((i, v) # pairs GetRaw s)"
    "becomes GetRaw (place_reduce s (place_insert key PLACE_TAIL [] i v)) (pairs GetRaw s @ [(i, v)])"
  using becomes_new [OF assms(1,3,2), of "[]"] becomes_new [OF assms(1,3,2), of _ "[]"]
  by (simp_all add: place_reduce_insert base_wf(6) [OF assms(1)])

lemma place_at:
  assumes "list_wf s" "pairs GetRaw s = xs @ (j, u) # ys"
  shows "i \<noteq> [] \<Longrightarrow> i \<notin> names (pairs GetRaw s) \<Longrightarrow>
      becomes GetRaw (place_reduce s (place_insert key PLACE_BEFORE j i v)) (xs @ (i, v) # (j, u) # ys)"
    "i \<noteq> [] \<Longrightarrow> i \<notin> names (pairs GetRaw s) \<Longrightarrow>
      becomes GetRaw (place_reduce s (place_insert key PLACE_AFTER j i v)) (xs @ (j, u) # (i, v) # ys)"
    "becomes GetRaw (place_reduce s (place_insert key PLACE_SELF [] j v)) (xs @ (j, v) # ys)"
proof -
  note b = base_wf(4-6) [OF assms(1)]
  obtain as x bs where e: "r_Ordered (base s) = as @ x # bs" "map (pair GetRaw) as = xs" "map (pair GetRaw) bs = ys" "el_id x = j"
    "pair GetRaw x = (j, u)" "\<forall>a \<in> set as \<union> set bs. el_id a \<noteq> j" using pairs_split [OF assms(2) [unfolded b(3)] b(1)] .
  have n: "\<forall>a \<in> set as. el_id a \<noteq> j" "\<forall>a \<in> set bs. el_id a \<noteq> j" using e(6) by auto
  note rest = e(1,4) n [THEN not_replaced(1)] n [THEN not_replaced(2)]
  show "becomes GetRaw (place_reduce s (place_insert key PLACE_BEFORE j i v)) (xs @ (i, v) # (j, u) # ys)"
    if "i \<noteq> []" "i \<notin> names (pairs GetRaw s)"
    using becomes_new [OF assms(1) that(2,1), of as "x # bs" PLACE_BEFORE j v] e(2-5) by (simp add: place_reduce_insert rest)
  show "becomes GetRaw (place_reduce s (place_insert key PLACE_AFTER j i v)) (xs @ (j, u) # (i, v) # ys)"
    if "i \<noteq> []" "i \<notin> names (pairs GetRaw s)"
    using becomes_new [OF assms(1) that(2,1), of "as @ [x]" bs PLACE_AFTER j v] e(2-5) by (simp add: place_reduce_insert rest)
  show "becomes GetRaw (place_reduce s (place_insert key PLACE_SELF [] j v)) (xs @ (j, v) # ys)"
    using becomes_base [OF assms(1), of "as @ new_el PLACE_SELF [] j v # bs"] b(1,2) e by (simp add: place_reduce_insert rest)
qed

lemma place_engine: "list_engine place_reduce GetRaw"
proof -
  have rem: "place_reduce s (list_remove key i) = Some ((base s)\<lparr>r_Ordered := filter (\<lambda>x. el_id x \<noteq> i) (r_Ordered (base s))\<rparr>)" for s key i
    by (simp add: place_reduce_def list_remove_def data_effect_def remove_data_def Let_def)
  have 4: "list_wf (place_reduce s (list_remove key i)) \<and>
      pairs GetRaw (place_reduce s (list_remove key i)) = filter (\<lambda>p. fst p \<noteq> i) (pairs GetRaw s)" if wf: "list_wf s" for s key i
  proof -
    have "becomes GetRaw (place_reduce s (list_remove key i)) (map (pair GetRaw) (filter (\<lambda>x. el_id x \<noteq> i) (r_Ordered (base s))))"
      unfolding rem using base_wf(4,5) [OF wf] by (intro becomes_base [OF wf]) (auto simp: distinct_map_filter)
    then show ?thesis by (simp add: becomes_def base_wf(6) [OF wf] filter_map comp_def pair_def)
  qed
  have 5: "becomes GetRaw (place_reduce s (meta_effect key TYPE_LIST)) (pairs GetRaw s)" if "list_wf s" "live s" for s key
    using that base_wf [OF that(1)]
    by (cases s) (auto simp: place_reduce_def meta_effect_def becomes_def list_wf_def holds_list_def pairs_def ordered_def base_def)
  have 6: "place_reduce s (noop_effect key) = s" for s key by (simp add: place_reduce_def noop_effect_def)
  show ?thesis unfolding list_engine_def
    by (intro conjI allI impI; (elim conjE)?;
        (rule place_head_tail place_at 4 [THEN conjunct1] 4 [THEN conjunct2] 5 6; assumption))
qed

end
