(* ===== verification/List_Facts.thy ===== *)
theory List_Facts
  imports List_Engine
begin

text \<open>Facts on lists that the refinement of the list commands uses.\<close>

section \<open>Lists without repetitions\<close>

lemma filter_append_apart: "set xs \<inter> set ys = {} \<Longrightarrow> filter (\<lambda>x. x \<notin> set xs) (xs @ ys) = ys"
  by (auto simp: filter_empty_conv intro!: filter_True)

lemma filter_take: "distinct xs \<Longrightarrow> filter (\<lambda>x. x \<notin> set (take n xs)) xs = drop n xs"
  using filter_append_apart [of "take n xs" "drop n xs"] by (metis append_take_drop_id distinct_append)

lemma filter_take_rev: "distinct xs \<Longrightarrow> filter (\<lambda>x. x \<notin> set (take n (rev xs))) xs = rev (drop n (rev xs))"
  using filter_take [of "rev xs" n] by (metis distinct_rev rev_filter rev_rev_ident)

text \<open>Dropping the first \<open>n\<close> elements with a property.\<close>

fun drop_matches :: "nat \<Rightarrow> ('a \<Rightarrow> bool) \<Rightarrow> 'a list \<Rightarrow> 'a list" where
  "drop_matches n P [] = []"
| "drop_matches n P (x # xs) =
     (if P x then (case n of 0 \<Rightarrow> x # xs | Suc m \<Rightarrow> drop_matches m P xs) else x # drop_matches n P xs)"

lemma filter_take_filter: "distinct xs \<Longrightarrow> filter (\<lambda>x. x \<notin> set (take n (filter P xs))) xs = drop_matches n P xs"
proof (induction xs arbitrary: n)
  case (Cons x xs)
  show ?case
  proof (cases "P x")
    case True
    show ?thesis
    proof (cases n)
      case (Suc m)
      have "filter (\<lambda>y. y \<notin> set (take n (filter P (x # xs)))) (x # xs) = filter (\<lambda>y. y \<notin> set (take m (filter P xs))) xs"
        using True Suc Cons.prems by (auto intro!: filter_cong)
      then show ?thesis using Cons True Suc by simp
    qed (simp add: True)
  next
    case False
    have "x \<notin> set (take n (filter P xs))" using False by (auto dest: in_set_takeD)
    then show ?thesis using Cons False by simp
  qed
qed simp

lemma drop_matches_map: "map f (drop_matches n (\<lambda>x. Q (f x)) xs) = drop_matches n Q (map f xs)"
  by (induction xs arbitrary: n) (auto split: nat.splits)

lemma collect_matches_take:
  "sint bound > int (length acc) \<Longrightarrow>
   collect_matches P bound xs acc = acc @ take (nat (sint bound) - length acc) (filter P xs)"
proof (induction xs arbitrary: acc)
  case (Cons x xs)
  show ?case
  proof (cases "P x \<and> int (length (acc @ [x])) < sint bound")
    case True
    then have "collect_matches P bound xs (acc @ [x]) = (acc @ [x]) @ take (nat (sint bound) - length (acc @ [x])) (filter P xs)"
      by (intro Cons.IH) simp
    moreover have "nat (sint bound) - length acc = Suc (nat (sint bound) - length (acc @ [x]))" using True by auto
    ultimately show ?thesis using True by simp
  next
    case False
    then show ?thesis using Cons by (cases "P x") (auto simp: take_Cons')
  qed
qed simp

section \<open>Trimming keeps a range\<close>

lemma enumerate_kept:
  assumes "distinct xs"
  shows "filter (\<lambda>x. x \<notin> set (map snd (filter (\<lambda>(i, _). \<not> Q i) (enumerate 0 xs)))) xs = map snd (filter (\<lambda>(i, _). Q i) (enumerate 0 xs))"
proof -
  have inj: "i = j" if "(i, x) \<in> set (enumerate 0 xs)" "(j, x) \<in> set (enumerate 0 xs)" for i j x
    using that assms by (auto simp: in_set_enumerate_eq nth_eq_iff_index_eq)
  have "filter (\<lambda>x. x \<notin> set (map snd (filter (\<lambda>(i, _). \<not> Q i) (enumerate 0 xs)))) (map snd (enumerate 0 xs)) =
      map snd (filter (\<lambda>p. snd p \<notin> snd ` {p \<in> set (enumerate 0 xs). \<not> Q (fst p)}) (enumerate 0 xs))"
    by (simp only: filter_map comp_def split_def set_map set_filter)
  also have "filter (\<lambda>p. snd p \<notin> snd ` {p \<in> set (enumerate 0 xs). \<not> Q (fst p)}) (enumerate 0 xs) =
      filter (\<lambda>(i, _). Q i) (enumerate 0 xs)"
    by (rule filter_cong) (auto dest: inj)
  finally show ?thesis by simp
qed

lemma filter_enumerate_range:
  "map snd (filter (\<lambda>(i, _). a \<le> i \<and> i < b) (enumerate n xs)) = take (b - max a n) (drop (a - n) xs)"
proof (induction xs arbitrary: n)
  case (Cons x xs)
  show ?case
  proof (cases "a \<le> n \<and> n < b")
    case True
    then have "b - max a n = Suc (b - max a (Suc n))" "a - n = 0" by auto
    then show ?thesis using True Cons by simp
  next
    case False
    then consider "n < a" | "a \<le> n" "b \<le> n" by linarith
    then show ?thesis
    proof cases
      case 1
      then have "max a n = max a (Suc n)" "a - n = Suc (a - Suc n)" by auto
      then show ?thesis using 1 Cons by simp
    qed (use Cons in simp)
  qed
qed simp

lemma ltrim_keeps:
  assumes "distinct xs"
  shows "filter (\<lambda>x. x \<notin> set (ltrim_elements start fin xs)) xs = lrange_elements start fin xs"
proof -
  obtain s e where b: "list_bounds (int (length xs)) start fin = (s, e)" by force
  have s: "0 \<le> s" using b by (auto simp: list_bounds_def Let_def split: if_splits)
  have "ltrim_elements start fin xs = map snd (filter (\<lambda>(i, _). \<not> (nat s \<le> i \<and> i < nat (e + 1))) (enumerate 0 xs))"
    unfolding ltrim_elements_def b prod.case Let_def
    by (intro arg_cong [where f = "map snd"] filter_cong refl) (use s in \<open>auto simp: split_def nat_le_iff zless_nat_eq_int_zless\<close>)
  then have "filter (\<lambda>x. x \<notin> set (ltrim_elements start fin xs)) xs =
      map snd (filter (\<lambda>(i, _). nat s \<le> i \<and> i < nat (e + 1)) (enumerate 0 xs))"
    using enumerate_kept [OF assms, of "\<lambda>i. nat s \<le> i \<and> i < nat (e + 1)"] by simp
  also have "\<dots> = take (nat (e + 1) - nat s) (drop (nat s) xs)" by (simp only: filter_enumerate_range max_nat.right_neutral diff_zero)
  also have "nat (e + 1) - nat s = nat (e + 1 - s)" using s by (simp add: nat_diff_distrib')
  finally show ?thesis unfolding lrange_elements_def b by (auto simp: Let_def)
qed

end
