(* ===== verification/List_Context.thy ===== *)
theory List_Context
  imports List_Facts
begin

text \<open>A database of lists behind a context, and the effects of pushing and removing on it.\<close>

section \<open>Contexts\<close>

definition list_db :: "engine \<Rightarrow> (DataEffect \<Rightarrow> bytes) \<Rightarrow> (bytes \<Rightarrow> ReducedEffect option) \<Rightarrow> Context \<Rightarrow> bytes \<Rightarrow> bytes list" where
  "list_db reduce dec st c k = map snd (pairs dec (db reduce st c k))"

text \<open>Names of new elements are distinct and unused up to the bound \<open>B\<close> on the number of effects.\<close>

definition fresh_names :: "engine \<Rightarrow> (DataEffect \<Rightarrow> bytes) \<Rightarrow> (bytes \<Rightarrow> ReducedEffect option) \<Rightarrow> ids \<Rightarrow> nat \<Rightarrow> Context \<Rightarrow> bool" where
  "fresh_names reduce dec st eid B c \<longleftrightarrow>
     inj_on eid {..<B} \<and>
     (\<forall>n. length (c_emitted c) \<le> n \<and> n < B \<longrightarrow> eid n \<noteq> [] \<and> (\<forall>k. eid n \<notin> names (pairs dec (db reduce st c k))))"

definition list_ctx :: "engine \<Rightarrow> (DataEffect \<Rightarrow> bytes) \<Rightarrow> (bytes \<Rightarrow> ReducedEffect option) \<Rightarrow> ids \<Rightarrow> nat \<Rightarrow> Context \<Rightarrow> bool" where
  "list_ctx reduce dec st eid B c \<longleftrightarrow>
     list_engine reduce dec \<and> backed reduce st c \<and> (\<forall>k. foreign (db reduce st c k) \<or> list_wf (db reduce st c k)) \<and>
     fresh_names reduce dec st eid B c"

lemma list_ctxD:
  assumes "list_ctx reduce dec st eid B c"
  shows "list_engine reduce dec" "backed reduce st c" "\<not> foreign (db reduce st c k) \<Longrightarrow> list_wf (db reduce st c k)" "reads_ok c" "inj_on eid {..<B}"
    "length (c_emitted c) \<le> n \<Longrightarrow> n < B \<Longrightarrow> eid n \<noteq> []"
    "length (c_emitted c) \<le> n \<Longrightarrow> n < B \<Longrightarrow> eid n \<notin> names (pairs dec (db reduce st c k))"
  using assms backed_reads_ok unfolding list_ctx_def fresh_names_def by blast+

lemma list_read:
  assumes "list_ctx reduce dec st eid B c" "\<not> foreign (db reduce st c k)"
  obtains tips where "GetSnapshot k c = Inr (db reduce st c k, tips)" "fit list_typed (db reduce st c k)"
  using assms backed_snapshot list_wf_fit unfolding list_ctx_def by blast

lemma held_values: "map (\<lambda>el. dec (el_Data el)) (ordered (held (db reduce st c k))) = list_db reduce dec st c k"
  by (simp add: list_db_def held_def pairs_def pair_def comp_def ordered_def)

lemma live_values: "live (db reduce st c k) \<Longrightarrow> map (\<lambda>el. dec (el_Data el)) (ordered (db reduce st c k)) = list_db reduce dec st c k"
  using held_values [of dec reduce st c k] by (simp add: held_def)

lemma values_live: "list_db reduce dec st c k \<noteq> [] \<Longrightarrow> live (db reduce st c k)"
  by (auto simp: list_db_def pairs_def split: if_splits)

lemma length_values: "length (list_db reduce dec st c k) = length (ordered (held (db reduce st c k)))"
  by (simp flip: held_values)

lemma empty_values: "ordered (held (db reduce st c k)) = [] \<longleftrightarrow> list_db reduce dec st c k = []"
  by (simp flip: held_values)

lemma ordered_distinct: "list_wf s \<Longrightarrow> distinct (map el_id (ordered (held s)))" "list_wf s \<Longrightarrow> distinct (ordered (held s))"
proof -
  show 1: "distinct (map el_id (ordered (held s)))" if "list_wf s"
    using that by (cases s) (auto simp: list_wf_def held_def ordered_def)
  then show "distinct (ordered (held s))" if "list_wf s" using that by (auto simp: distinct_map)
qed

lemma pairs_held: "pairs dec s = map (pair dec) (ordered (held s))"
  by (simp add: pairs_def held_def ordered_def)

section \<open>What a key shows\<close>

text \<open>A key is missing, holds a list or holds a value of another type.\<close>

datatype slot = Missing | Other | Values "bytes list"

type_synonym slots = "bytes \<Rightarrow> slot"

definition slot_of :: "(DataEffect \<Rightarrow> bytes) \<Rightarrow> ReducedEffect option \<Rightarrow> slot" where
  "slot_of dec s = (if \<not> live s then Missing else if foreign s then Other else Values (map snd (pairs dec s)))"

definition list_view :: "engine \<Rightarrow> (DataEffect \<Rightarrow> bytes) \<Rightarrow> (bytes \<Rightarrow> ReducedEffect option) \<Rightarrow> Context \<Rightarrow> slots" where
  "list_view reduce dec st c k = slot_of dec (db reduce st c k)"

text \<open>Whether a list without elements still exists is up to the engine.\<close>

definition shown :: "slots \<Rightarrow> slots \<Rightarrow> bool" where
  "shown V S \<longleftrightarrow> (\<forall>k. V k = S k \<or> S k = Values [] \<and> V k = Missing)"

lemma shown_refl [simp]: "shown V V"
  by (simp add: shown_def)

lemma list_view_cases:
  "list_view reduce dec st c k = Other \<longleftrightarrow> foreign (db reduce st c k)"
  "list_view reduce dec st c k = Missing \<Longrightarrow> \<not> live (db reduce st c k)" "list_view reduce dec st c k = Missing \<Longrightarrow> list_db reduce dec st c k = []"
  "list_view reduce dec st c k = Values vs \<Longrightarrow> live (db reduce st c k)" "list_view reduce dec st c k = Values vs \<Longrightarrow> list_db reduce dec st c k = vs"
  by (auto simp: list_view_def slot_of_def foreign_def list_db_def pairs_def split: if_splits)

lemma slot_of_wf: "list_wf s \<Longrightarrow> slot_of dec s = (if live s then Values (map snd (pairs dec s)) else Missing)"
  by (simp add: slot_of_def list_wf_not_foreign)

section \<open>Commands on such contexts\<close>

text \<open>
  A command replies \<open>a\<close>, emits at most \<open>n\<close> effects, none of them on a key that holds another type, and leaves what \<open>S\<close> says.
\<close>

definition list_does ::
  "engine \<Rightarrow> (DataEffect \<Rightarrow> bytes) \<Rightarrow> (bytes \<Rightarrow> ReducedEffect option) \<Rightarrow> ids \<Rightarrow> nat \<Rightarrow> (answer, answer) cmd \<Rightarrow> Context \<Rightarrow> nat \<Rightarrow>
   answer \<Rightarrow> slots \<Rightarrow> bool" where
  "list_does reduce dec st eid B m c n a S \<longleftrightarrow>
     (\<exists>es r. m c = (r, adding es c) \<and> (r = Inl a \<or> r = Inr a) \<and> length es \<le> n \<and>
        list_ctx reduce dec st eid B (adding es c) \<and> (\<forall>k. foreign (db reduce st c k) \<longrightarrow> on_key k es = []) \<and>
        shown (list_view reduce dec st (adding es c)) S)"

lemma list_doesI:
  assumes "m c = (r, adding es c)" "r = Inl a \<or> r = Inr a" "length es \<le> n" "list_ctx reduce dec st eid B c"
    and "\<And>k. on_key k es = [] \<and> S k = list_view reduce dec st c k \<or>
      \<not> foreign (db reduce st c k) \<and> list_wf (foldl reduce (db reduce st c k) (on_key k es)) \<and>
      S k = Values (map snd (pairs dec (foldl reduce (db reduce st c k) (on_key k es))))"
    and "\<And>k. names (pairs dec (foldl reduce (db reduce st c k) (on_key k es))) \<subseteq>
      names (pairs dec (db reduce st c k)) \<union> eid ` {length (c_emitted c)..<length (c_emitted c) + length es}"
  shows "list_does reduce dec st eid B m c n a S"
proof -
  note ctx = list_ctxD [OF assms(4)]
  have "eid j \<notin> names (pairs dec (foldl reduce (db reduce st c k) (on_key k es)))"
    if "length (c_emitted c) + length es \<le> j" "j < B" for j k
  proof
    assume "eid j \<in> names (pairs dec (foldl reduce (db reduce st c k) (on_key k es)))"
    then have "eid j \<in> eid ` {length (c_emitted c)..<length (c_emitted c) + length es}"
      using assms(6) [of k] ctx(7) [of j k] that by auto
    then obtain i where i: "eid j = eid i" "i < length (c_emitted c) + length es" by auto
    then have "j = i" using ctx(5) that by (auto dest: inj_onD)
    then show False using i that by simp
  qed
  then have "fresh_names reduce dec st eid B (adding es c)"
    using ctx(5,6) by (simp add: fresh_names_def) (simp add: adding_def)
  moreover have "foreign (db reduce st (adding es c) k) \<or> list_wf (db reduce st (adding es c) k)" for k
    using assms(5) [of k] ctx(3) [of k] by (cases "on_key k es = []") auto
  ultimately have "list_ctx reduce dec st eid B (adding es c)" using assms(4) unfolding list_ctx_def by simp
  moreover have "foreign (db reduce st c k) \<longrightarrow> on_key k es = []" for k using assms(5) [of k] by blast
  moreover have "shown (list_view reduce dec st (adding es c)) S"
    unfolding shown_def
  proof
    fix k
    show "list_view reduce dec st (adding es c) k = S k \<or> S k = Values [] \<and> list_view reduce dec st (adding es c) k = Missing"
      using assms(5) [of k] slot_of_wf [of "foldl reduce (db reduce st c k) (on_key k es)" dec] by (auto simp: list_view_def pairs_def)
  qed
  ultimately show ?thesis unfolding list_does_def using assms(1-3) by blast
qed

text \<open>A command on one key.\<close>

lemma list_does_key:
  assumes "m c = (r, adding es c)" "r = Inl a \<or> r = Inr a" "length es \<le> n" "list_ctx reduce dec st eid B c"
    and "\<not> foreign (db reduce st c key)" "\<And>k. k \<noteq> key \<Longrightarrow> on_key k es = []"
    and "list_wf (foldl reduce (db reduce st c key) (on_key key es))"
    and "names (pairs dec (foldl reduce (db reduce st c key) (on_key key es))) \<subseteq>
      names (pairs dec (db reduce st c key)) \<union> eid ` {length (c_emitted c)..<length (c_emitted c) + length es}"
    and "map snd (pairs dec (foldl reduce (db reduce st c key) (on_key key es))) = vs"
  shows "list_does reduce dec st eid B m c n a ((list_view reduce dec st c)(key := Values vs))"
proof (rule list_doesI [where m = m, OF assms(1-4)])
  show "on_key k es = [] \<and> ((list_view reduce dec st c)(key := Values vs)) k = list_view reduce dec st c k \<or>
      \<not> foreign (db reduce st c k) \<and> list_wf (foldl reduce (db reduce st c k) (on_key k es)) \<and>
      ((list_view reduce dec st c)(key := Values vs)) k = Values (map snd (pairs dec (foldl reduce (db reduce st c k) (on_key k es))))" for k
    using assms(5-7,9) by (cases "k = key") auto
  show "names (pairs dec (foldl reduce (db reduce st c k) (on_key k es))) \<subseteq>
      names (pairs dec (db reduce st c k)) \<union> eid ` {length (c_emitted c)..<length (c_emitted c) + length es}" for k
    using assms(6,8) by (cases "k = key") auto
qed

text \<open>A command that only replies.\<close>

lemma list_does_nothing:
  assumes "m c = (r, c)" "r = Inl a \<or> r = Inr a" "list_ctx reduce dec st eid B c"
  shows "list_does reduce dec st eid B m c n a (list_view reduce dec st c)"
  unfolding list_does_def using assms by (intro exI [of _ "[]"] exI [of _ r]) simp

section \<open>Pushing\<close>

definition push_effects :: "ids \<Rightarrow> nat \<Rightarrow> bytes \<Rightarrow> Placement \<Rightarrow> bytes list \<Rightarrow> Effect list" where
  "push_effects eid n key p xs = map (\<lambda>(j, x). place_insert key p [] (eid j) x) (enumerate n xs)"

lemma push_effects_Cons: "push_effects eid n key p (x # xs) = place_insert key p [] (eid n) x # push_effects eid (Suc n) key p xs"
  by (simp add: push_effects_def)

lemma length_push_effects [simp]: "length (push_effects eid n key p xs) = length xs"
  by (simp add: push_effects_def)

lemma e_Key_list [simp]: "e_Key (place_insert key p j i v) = key" "e_Key (list_remove key i) = key"
  by (simp_all add: place_insert_def list_remove_def)

lemma emitted_adding [simp]: "length (c_emitted (adding es c)) = length (c_emitted c) + length es"
  by (simp add: adding_def)

lemma emitListInsert_ok:
  "reads_ok c \<Longrightarrow> emitListInsert eid key p v c = (Inr (), adding [(place_insert key p [] (eid (length (c_emitted c))) v, [])] c)"
  "reads_ok c \<Longrightarrow> emitListInsertAt eid key p v j c = (Inr (), adding [(place_insert key p j (eid (length (c_emitted c))) v, [])] c)"
  by (simp_all add: emitListInsert_def emitListInsertAt_def next_id_def bind_cmd_def emit_cmd_ok)

lemma pushes_ok:
  "reads_ok c \<Longrightarrow> each_cmd (emitListInsert eid key p) xs c =
     (Inr (), adding (map (\<lambda>e. (e, [])) (push_effects eid (length (c_emitted c)) key p xs)) c)"
proof (induction xs arbitrary: c)
  case (Cons x xs)
  then show ?case by (simp add: seq_cmd_def bind_cmd_def emitListInsert_ok push_effects_Cons)
qed (simp add: ok_def push_effects_def)

lemma on_key_plain: "\<forall>e \<in> set es. e_Key e = key \<Longrightarrow> on_key k (map (\<lambda>e. (e, t)) es) = (if k = key then es else [])"
  by (induction es) auto

lemma on_key_push [simp]: "on_key k (map (\<lambda>e. (e, t)) (push_effects eid n key p xs)) = (if k = key then push_effects eid n key p xs else [])"
  by (rule on_key_plain) (auto simp: push_effects_def)

definition pushed :: "Placement \<Rightarrow> 'a list \<Rightarrow> 'a list \<Rightarrow> 'a list" where
  "pushed p xs vs = (if p = PLACE_HEAD then rev xs @ vs else vs @ xs)"

lemma push_reduces:
  assumes eng: "list_engine reduce dec" and p: "p = PLACE_HEAD \<or> p = PLACE_TAIL"
  shows "list_wf s \<Longrightarrow> inj_on eid {n..<n + length xs} \<Longrightarrow> (\<forall>j \<in> {n..<n + length xs}. eid j \<noteq> [] \<and> eid j \<notin> names (pairs dec s)) \<Longrightarrow>
    list_wf (foldl reduce s (push_effects eid n key p xs)) \<and>
    (xs \<noteq> [] \<longrightarrow> live (foldl reduce s (push_effects eid n key p xs))) \<and>
    names (pairs dec (foldl reduce s (push_effects eid n key p xs))) = names (pairs dec s) \<union> eid ` {n..<n + length xs} \<and>
    map snd (pairs dec (foldl reduce s (push_effects eid n key p xs))) = pushed p xs (map snd (pairs dec s))"
proof (induction xs arbitrary: s n)
  case Nil
  then show ?case by (simp add: push_effects_def pushed_def)
next
  case (Cons x xs)
  let ?s = "reduce s (place_insert key p [] (eid n) x)"
  have "becomes dec ?s (if p = PLACE_HEAD then (eid n, x) # pairs dec s else pairs dec s @ [(eid n, x)])"
    using p head_law [OF eng Cons.prems(1)] tail_law [OF eng Cons.prems(1)] Cons.prems(3) by auto
  then have s: "list_wf ?s" "live ?s" "names (pairs dec ?s) = insert (eid n) (names (pairs dec s))"
    "map snd (pairs dec ?s) = pushed p [x] (map snd (pairs dec s))"
    by (auto simp: becomes_def pushed_def)
  have inj: "inj_on eid {Suc n..<Suc n + length xs}" using Cons.prems(2) by (rule inj_on_subset) auto
  have "eid j \<noteq> eid n" if "j \<in> {Suc n..<Suc n + length xs}" for j
    using Cons.prems(2) that by (auto dest: inj_onD)
  then have "\<forall>j \<in> {Suc n..<Suc n + length xs}. eid j \<noteq> [] \<and> eid j \<notin> names (pairs dec ?s)"
    using Cons.prems(3) s(3) by auto
  note IH = Cons.IH [OF s(1) inj this]
  have "{n..<n + length (x # xs)} = insert n {Suc n..<Suc n + length xs}" by auto
  then show ?case using IH s by (cases xs) (auto simp: push_effects_Cons pushed_def, simp_all add: push_effects_def)
qed

section \<open>Removing\<close>

lemma remove_elements_ok:
  "reads_ok c \<Longrightarrow> remove_elements key els c = (Inr (), adding (map (\<lambda>el. (list_remove key (el_id el), [])) els) c)"
  unfolding remove_elements_def
  using each_cmd_ok [of els "\<lambda>el. emitListRemove key (d_Id (el_Data el))" "\<lambda>el. [(list_remove key (el_id el), [])]" c]
  by (simp add: emitListRemove_def emit_cmd_ok el_id_def concat_map_singleton)

lemma on_key_remove [simp]:
  "on_key k (map (\<lambda>el. (list_remove key (el_id el), [])) els) = (if k = key then map (\<lambda>el. list_remove key (el_id el)) els else [])"
  by (simp add: on_key_map)

lemma removes_reduce:
  assumes "list_engine reduce dec"
  shows "list_wf s \<Longrightarrow> list_wf (foldl reduce s (map (\<lambda>el. list_remove key (el_id el)) els)) \<and>
    pairs dec (foldl reduce s (map (\<lambda>el. list_remove key (el_id el)) els)) = filter (\<lambda>p. fst p \<notin> el_id ` set els) (pairs dec s)"
proof (induction els arbitrary: s)
  case (Cons el els)
  note r = remove_law [OF assms Cons.prems, of key "el_id el"]
  show ?case using Cons.IH [OF r(1)] r(2) by (simp add: conj_commute)
qed simp

lemma removes_values:
  assumes "list_engine reduce dec" "list_wf s" "set els \<subseteq> set (ordered (held s))"
  shows "list_wf (foldl reduce s (map (\<lambda>el. list_remove key (el_id el)) els))"
    "names (pairs dec (foldl reduce s (map (\<lambda>el. list_remove key (el_id el)) els))) \<subseteq> names (pairs dec s)"
    "map snd (pairs dec (foldl reduce s (map (\<lambda>el. list_remove key (el_id el)) els))) =
      map (\<lambda>el. dec (el_Data el)) (filter (\<lambda>el. el \<notin> set els) (ordered (held s)))"
proof -
  note r = removes_reduce [OF assms(1,2), of key els]
  show "list_wf (foldl reduce s (map (\<lambda>el. list_remove key (el_id el)) els))" using r by blast
  show "names (pairs dec (foldl reduce s (map (\<lambda>el. list_remove key (el_id el)) els))) \<subseteq> names (pairs dec s)"
    using r by (auto simp: names_def)
  have "inj_on el_id (set (ordered (held s)))" using ordered_distinct(1) [OF assms(2)] by (simp add: distinct_map)
  then have "filter (\<lambda>el. el_id el \<notin> el_id ` set els) (ordered (held s)) = filter (\<lambda>el. el \<notin> set els) (ordered (held s))"
    using assms(3) by (intro filter_cong) (auto simp: inj_on_def)
  then show "map snd (pairs dec (foldl reduce s (map (\<lambda>el. list_remove key (el_id el)) els))) =
      map (\<lambda>el. dec (el_Data el)) (filter (\<lambda>el. el \<notin> set els) (ordered (held s)))"
    using r by (simp add: pairs_held filter_map comp_def pair_def)
qed

text \<open>Recording the read of a key and removing some of its elements.\<close>

lemma remove_does:
  assumes ctx: "list_ctx reduce dec st eid B c" and nf: "\<not> foreign (db reduce st c key)"
    and sub: "set els \<subseteq> set (ordered (held (db reduce st c key)))" and d: "distinct els"
    and run: "m c = (Inr a, adding ((noop_effect key, tips) # map (\<lambda>el. (list_remove key (el_id el), [])) els) c)"
    and S: "map (\<lambda>el. dec (el_Data el)) (filter (\<lambda>el. el \<notin> set els) (ordered (held (db reduce st c key)))) = vs"
  shows "list_does reduce dec st eid B m c (1 + length (list_db reduce dec st c key)) a ((list_view reduce dec st c)(key := Values vs))"
proof -
  note wf = list_ctxD [OF ctx] and lw = list_ctxD(3) [OF ctx nf]
  note r = removes_values [OF wf(1) lw sub, of key]
  have "length els = card (set els)" using distinct_card [OF d] by simp
  also have "\<dots> \<le> card (set (ordered (held (db reduce st c key))))" using sub by (intro card_mono) auto
  also have "\<dots> \<le> length (list_db reduce dec st c key)" by (simp add: length_values card_length)
  finally have len: "length els \<le> length (list_db reduce dec st c key)" .
  show ?thesis
    by (rule list_does_key, rule run) (use ctx nf r S len noop_law [OF wf(1)] in auto)
qed

end
