(* ===== verification/List_Refine.thy ===== *)
theory List_Refine
  imports List_Context
begin

text \<open>Each command that changes lists, and the simulation of any sequence of them by operations on lists.\<close>

section \<open>Pushing\<close>

lemma push_db:
  fixes key
  assumes ctx: "list_ctx reduce dec st eid B c" and nf: "\<not> foreign (db reduce st c key)" and p: "p = PLACE_HEAD \<or> p = PLACE_TAIL"
    and B: "length (c_emitted c) + length xs \<le> B"
  defines "s \<equiv> foldl reduce (db reduce st c key) (push_effects eid (length (c_emitted c)) key p xs)"
  shows "list_wf s" "xs \<noteq> [] \<Longrightarrow> live s"
    "names (pairs dec s) = names (pairs dec (db reduce st c key)) \<union> eid ` {length (c_emitted c)..<length (c_emitted c) + length xs}"
    "map snd (pairs dec s) = pushed p xs (list_db reduce dec st c key)"
proof -
  note wf = list_ctxD [OF ctx]
  let ?n = "length (c_emitted c)"
  have "inj_on eid {?n..<?n + length xs}" using wf(5) by (rule inj_on_subset) (use B in auto)
  moreover have "\<forall>j \<in> {?n..<?n + length xs}. eid j \<noteq> [] \<and> eid j \<notin> names (pairs dec (db reduce st c key))" using wf(6,7) B by auto
  ultimately show "list_wf s" "xs \<noteq> [] \<Longrightarrow> live s"
    "names (pairs dec s) = names (pairs dec (db reduce st c key)) \<union> eid ` {?n..<?n + length xs}"
    "map snd (pairs dec s) = pushed p xs (list_db reduce dec st c key)"
    using push_reduces [OF wf(1) p wf(3) [OF nf]] unfolding s_def list_db_def by blast+
qed

lemma push_does:
  assumes ctx: "list_ctx reduce dec st eid B c" and nf: "\<not> foreign (db reduce st c key)" and p: "p = PLACE_HEAD \<or> p = PLACE_TAIL" and "xs \<noteq> []"
    and B: "length (c_emitted c) + length xs \<le> B"
  defines "L \<equiv> list_db reduce dec st c"
  shows "list_does reduce dec st eid B (push_command eid p key xs) c (length xs + 1)
    (WriteInteger (of_nat (length (L key) + length xs))) ((list_view reduce dec st c)(key := Values (pushed p xs (L key))))"
proof -
  let ?s = "db reduce st c key"
  note wf = list_ctxD [OF ctx] and push = push_db [OF ctx nf p B]
  obtain tips where snap: "GetSnapshot key c = Inr (?s, tips)" "fit list_typed ?s" using list_read [OF ctx nf] .
  define tag where "tag = (if live ?s then [] else [(meta_effect key TYPE_LIST, [] :: tip list)])"
  have run: "push_command eid p key xs c = (Inr (WriteInteger (of_nat (length (L key) + length xs))),
      adding (map (\<lambda>e. (e, [])) (push_effects eid (length (c_emitted c)) key p xs) @ tag) c)"
    unfolding push_command_def list_reader.typed_key_fit [OF snap] using wf(4)
    by (simp add: seq_cmd_def bind_cmd_def or_reply_def pushes_ok when_cmd_def ok_def emitListTypeTag_def emit_cmd_ok tag_def L_def length_values)
  note tagged = tag_law [OF wf(1) push(1,2), unfolded becomes_def]
  show ?thesis
    by (rule list_does_key, rule run)
      (use ctx nf push tagged assms(4) in \<open>auto simp: tag_def L_def list_db_def\<close>)
qed

lemma pushx_does:
  assumes ctx: "list_ctx reduce dec st eid B c" and nf: "\<not> foreign (db reduce st c key)" and p: "p = PLACE_HEAD \<or> p = PLACE_TAIL"
    and live: "live (db reduce st c key)"
    and B: "length (c_emitted c) + length xs \<le> B"
  defines "L \<equiv> list_db reduce dec st c"
  shows "list_does reduce dec st eid B (pushx_command eid p key xs) c (length xs)
    (WriteInteger (of_nat (length (L key) + length xs))) ((list_view reduce dec st c)(key := Values (pushed p xs (L key))))"
proof -
  let ?s = "db reduce st c key"
  note wf = list_ctxD [OF ctx] and push = push_db [OF ctx nf p B]
  obtain tips where snap: "GetSnapshot key c = Inr (?s, tips)" "fit list_typed ?s" using list_read [OF ctx nf] .
  have len: "length (ordered ?s) = length (L key)" using length_values [of reduce dec st c key] live by (simp add: held_def L_def)
  have run: "pushx_command eid p key xs c = (Inr (WriteInteger (of_nat (length (L key) + length xs))),
      adding (map (\<lambda>e. (e, [])) (push_effects eid (length (c_emitted c)) key p xs)) c)"
    unfolding pushx_command_def list_reader.with_key_fit [OF snap] using wf(4) live
    by (simp add: seq_cmd_def bind_cmd_def or_reply_def pushes_ok ok_def len)
  show ?thesis
    by (rule list_does_key, rule run) (use ctx nf push in \<open>auto simp: L_def list_db_def\<close>)
qed

section \<open>Popping and removing\<close>

definition pop_list :: "bool \<Rightarrow> nat \<Rightarrow> 'a list \<Rightarrow> 'a list \<times> 'a list" where
  "pop_list left n vs = (if left then (take n vs, drop n vs) else (take n (rev vs), rev (drop n (rev vs))))"

definition pop_answer :: "bool \<Rightarrow> nat option \<Rightarrow> bytes list \<Rightarrow> answer" where
  "pop_answer left n vs =
     (case n of
        None \<Rightarrow> if vs = [] then WriteNullBulkString else WriteBulkString (if left then hd vs else last vs)
      | Some k \<Rightarrow> if vs = [] then WriteNullArray else write_array WriteBulkString (fst (pop_list left k vs)))"

lemma write_array_map: "write_array (\<lambda>x. f (g x)) xs = write_array f (map g xs)"
  by (simp add: fun_eq_iff write_array_def write_all_def foldl_map)

lemma popped_elements:
  assumes "distinct xs"
  shows "filter (\<lambda>x. x \<notin> set (take n (pop_order left xs))) xs = snd (pop_list left n xs)" "take n (pop_order left xs) = fst (pop_list left n xs)"
    "set (take n (pop_order left xs)) \<subseteq> set xs" "distinct (take n (pop_order left xs))"
  using assms filter_take [OF assms, of n] filter_take_rev [OF assms, of n]
  by (auto simp: pop_order_def pop_list_def distinct_take dest: in_set_takeD)

lemma pop_list_map: "pop_list left n (map f xs) = map_prod (map f) (map f) (pop_list left n xs)"
  by (simp add: pop_list_def take_map drop_map rev_map)

lemma pop_does:
  assumes ctx: "list_ctx reduce dec st eid B c" and nf: "\<not> foreign (db reduce st c key)"
  defines "L \<equiv> list_db reduce dec st c"
  shows "list_does reduce dec st eid B (pop_command dec left key (case n of None \<Rightarrow> 1 | Some k \<Rightarrow> int k) (n \<noteq> None)) c (1 + length (L key))
    (pop_answer left n (L key))
    (if L key = [] then list_view reduce dec st c
     else (list_view reduce dec st c)(key := Values (snd (pop_list left (case n of None \<Rightarrow> 1 | Some k \<Rightarrow> k) (L key)))))"
proof -
  let ?s = "db reduce st c key" and ?k = "case n of None \<Rightarrow> 1 | Some k \<Rightarrow> k"
  let ?els = "ordered (held ?s)"
  note wf = list_ctxD [OF ctx]
  obtain tips where snap: "GetSnapshot key c = Inr (?s, tips)" "fit list_typed ?s" using list_read [OF ctx nf] .
  have vals: "map (\<lambda>el. dec (el_Data el)) ?els = L key" unfolding L_def by (rule held_values)
  note pop = popped_elements [OF ordered_distinct(2) [OF wf(3) [OF nf]]]
  show ?thesis
  proof (cases "L key = []")
    case True
    then have "?els = []" using vals by simp
    then have "pop_command dec left key (case n of None \<Rightarrow> 1 | Some k \<Rightarrow> int k) (n \<noteq> None) c = (Inr (pop_answer left n (L key)), c)"
      unfolding pop_command_def list_reader.typed_key_fit [OF snap] by (auto simp: ok_def pop_answer_def True split: option.splits)
    then have "list_does reduce dec st eid B (pop_command dec left key (case n of None \<Rightarrow> 1 | Some k \<Rightarrow> int k) (n \<noteq> None)) c (1 + length (L key))
      (pop_answer left n (L key)) (list_view reduce dec st c)" by (rule list_does_nothing) (simp_all add: ctx)
    then show ?thesis using True by simp
  next
    case False
    then have live: "live ?s" "?els \<noteq> []" using values_live vals unfolding L_def by auto
    have nat: "nat (case n of None \<Rightarrow> 1 | Some k \<Rightarrow> int k) = ?k" by (simp split: option.splits)
    have ans: "(if (case n of None \<Rightarrow> 1 | Some k \<Rightarrow> int k) = 1 \<and> \<not> n \<noteq> None then WriteBulkString (dec (el_Data (hd (pop_order left ?els))))
        else write_array (\<lambda>el. WriteBulkString (dec (el_Data el))) (take ?k (pop_order left ?els))) = pop_answer left n (L key)"
      using False live(2)
      by (auto simp: pop_answer_def pop(2) simp flip: vals split: option.splits)
        (auto simp: pop_order_def hd_map last_map hd_rev pop_list_def take_map rev_map write_array_map [symmetric])
    have "pop_command dec left key (case n of None \<Rightarrow> 1 | Some k \<Rightarrow> int k) (n \<noteq> None) c = (Inr (pop_answer left n (L key)),
        adding ((noop_effect key, tips) # map (\<lambda>el. (list_remove key (el_id el), [])) (take ?k (pop_order left ?els))) c)"
      unfolding pop_command_def list_reader.typed_key_fit [OF snap] nat using live wf(4) ans
      by (simp add: Let_def seq_cmd_def bind_cmd_def or_reply_def emitNoop_def emit_cmd_ok remove_elements_ok ok_def noop_effect_def)
    then have "list_does reduce dec st eid B (pop_command dec left key (case n of None \<Rightarrow> 1 | Some k \<Rightarrow> int k) (n \<noteq> None)) c (1 + length (L key))
      (pop_answer left n (L key)) ((list_view reduce dec st c)(key := Values (snd (pop_list left ?k (L key)))))" unfolding L_def
      by (rule remove_does [OF ctx nf pop(3,4)]) (simp add: pop(1) pop_list_map [symmetric] flip: vals [unfolded L_def], simp add: pop_list_map)
    then show ?thesis using False by simp
  qed
qed

lemma remove_some_does:
  assumes ctx: "list_ctx reduce dec st eid B c" and nf: "\<not> foreign (db reduce st c key)"
    and sub: "set els \<subseteq> set (ordered (held (db reduce st c key)))" and d: "distinct els"
    and run: "m c = (if live (db reduce st c key) then remove_some key tips els nothing finished c else (Inl nothing, c))"
    and vs: "map (\<lambda>el. dec (el_Data el)) (filter (\<lambda>el. el \<notin> set els) (ordered (held (db reduce st c key)))) = vs"
  defines "L \<equiv> list_db reduce dec st c"
  shows "list_does reduce dec st eid B m c (1 + length (L key)) (if els = [] then nothing else finished)
    (if live (db reduce st c key) then (list_view reduce dec st c)(key := Values vs) else list_view reduce dec st c)"
proof (cases "els = []")
  case True
  have V: "(if live (db reduce st c key) then (list_view reduce dec st c)(key := Values vs) else list_view reduce dec st c) = list_view reduce dec st c"
    using vs nf by (auto simp: True held_values list_db_def list_view_def slot_of_def)
  have "m c = (if live (db reduce st c key) then Inr nothing else Inl nothing, c)" using run by (simp add: True remove_some_def ok_def)
  then show ?thesis using True unfolding V by (intro list_does_nothing) (auto simp: ctx)
next
  case False
  then have live: "live (db reduce st c key)" using sub by (cases "live (db reduce st c key)") (auto simp: held_def ordered_def)
  have "m c = (Inr finished, adding ((noop_effect key, tips) # map (\<lambda>el. (list_remove key (el_id el), [])) els) c)"
    using run live False list_ctxD(4) [OF ctx]
    by (simp add: remove_some_def seq_cmd_def bind_cmd_def or_reply_def emitNoop_def emit_cmd_ok remove_elements_ok ok_def noop_effect_def)
  from remove_does [where m = m, OF ctx nf sub d this vs] show ?thesis using False live by (simp add: L_def)
qed

lemma length_removed:
  assumes "distinct xs" "distinct els" "set els \<subseteq> set xs"
  shows "length els = length xs - length (filter (\<lambda>x. x \<notin> set els) xs)"
proof -
  have "length (filter (\<lambda>x. x \<in> set els) xs) = length els"
  proof -
    have "set (filter (\<lambda>x. x \<in> set els) xs) = set els" using assms(3) by auto
    then show ?thesis using assms(1,2) by (metis distinct_card distinct_filter)
  qed
  then show ?thesis using sum_length_filter_compl [of "\<lambda>x. x \<in> set els" xs] by simp
qed

definition lrem_list :: "int \<Rightarrow> 'a \<Rightarrow> 'a list \<Rightarrow> 'a list" where
  "lrem_list n x vs =
     (if n > 0 then drop_matches (nat n) (\<lambda>v. v = x) vs
      else if n < 0 then rev (drop_matches (nat (- n)) (\<lambda>v. v = x) (rev vs))
      else filter (\<lambda>v. v \<noteq> x) vs)"

lemma lrem_elements_kept:
  assumes "distinct xs" "MinInt64 < n" "n \<le> MaxInt64"
  shows "distinct (lrem_elements P (word_of_int n) xs)" "set (lrem_elements P (word_of_int n) xs) \<subseteq> set xs"
    "filter (\<lambda>x. x \<notin> set (lrem_elements P (word_of_int n) xs)) xs =
      (if n > 0 then drop_matches (nat n) P xs else if n < 0 then rev (drop_matches (nat (- n)) P (rev xs)) else filter (\<lambda>x. \<not> P x) xs)"
proof -
  have n: "sint (word_of_int n :: i64) = n" using assms by (intro sint64_of_int) auto
  have m: "sint (- (word_of_int n :: i64)) = - n"
    using assms sint64_of_int [of "- n"] by simp
  have els: "lrem_elements P (word_of_int n) xs =
      (if n > 0 then take (nat n) (filter P xs) else if n < 0 then take (nat (- n)) (filter P (rev xs)) else filter P xs)"
    unfolding lrem_elements_def n
    using collect_matches_take [of "[]" "word_of_int n" P xs] collect_matches_take [of "[]" "- word_of_int n" P "rev xs"] by (simp add: n m)
  show "distinct (lrem_elements P (word_of_int n) xs)" "set (lrem_elements P (word_of_int n) xs) \<subseteq> set xs"
    using assms(1) by (auto simp: els dest: in_set_takeD)
  have "filter (\<lambda>x. x \<notin> set (take k (filter P (rev xs)))) xs = rev (drop_matches k P (rev xs))" for k
    using filter_take_filter [of "rev xs" k P] assms(1) by (metis distinct_rev rev_filter rev_rev_ident)
  then show "filter (\<lambda>x. x \<notin> set (lrem_elements P (word_of_int n) xs)) xs =
      (if n > 0 then drop_matches (nat n) P xs else if n < 0 then rev (drop_matches (nat (- n)) P (rev xs)) else filter (\<lambda>x. \<not> P x) xs)"
    using filter_take_filter [OF assms(1)] by (auto simp: els intro!: filter_cong)
qed

lemma lrem_does:
  assumes ctx: "list_ctx reduce dec st eid B c" and nf: "\<not> foreign (db reduce st c key)" and n: "MinInt64 < n" "n \<le> MaxInt64"
  defines "L \<equiv> list_db reduce dec st c"
  shows "list_does reduce dec st eid B (lrem_command dec key (word_of_int n) x) c (1 + length (L key))
    (let k = length (L key) - length (lrem_list n x (L key)) in if k = 0 then WriteZero else WriteInteger (of_nat k))
    (if live (db reduce st c key) then (list_view reduce dec st c)(key := Values (lrem_list n x (L key))) else list_view reduce dec st c)"
proof -
  let ?s = "db reduce st c key"
  define els where "els = lrem_elements (\<lambda>el. dec (el_Data el) = x) (word_of_int n) (ordered (held ?s))"
  note wf = list_ctxD [OF ctx]
  note d = ordered_distinct(2) [OF wf(3) [OF nf]]
  note kept = lrem_elements_kept [OF d n, of "\<lambda>el. dec (el_Data el) = x", folded els_def]
  obtain tips where snap: "GetSnapshot key c = Inr (?s, tips)" "fit list_typed ?s" using list_read [OF ctx nf] .
  have run: "lrem_command dec key (word_of_int n) x c = (if live ?s then remove_some key tips els WriteZero (WriteInteger (of_nat (length els))) c else (Inl WriteZero, c))"
    unfolding lrem_command_def list_reader.with_key_fit [OF snap] by (simp add: Let_def els_def held_def)
  have vals: "map (\<lambda>el. dec (el_Data el)) (ordered (held ?s)) = L key" unfolding L_def by (rule held_values)
  have vs: "map (\<lambda>el. dec (el_Data el)) (filter (\<lambda>el. el \<notin> set els) (ordered (held ?s))) = lrem_list n x (L key)"
    unfolding kept(3) lrem_list_def vals [symmetric]
    by (simp add: drop_matches_map [of "\<lambda>el. dec (el_Data el)" _ "\<lambda>v. v = x"] filter_map comp_def rev_map [symmetric])
  have len: "length els = length (L key) - length (lrem_list n x (L key))"
    using length_removed [OF d kept(1,2)] vs vals by (metis length_map)
  have "(if els = [] then WriteZero else WriteInteger (of_nat (length els))) =
      (let k = length (L key) - length (lrem_list n x (L key)) in if k = 0 then WriteZero else WriteInteger (of_nat k))"
    unfolding len [symmetric] by (simp add: Let_def)
  with remove_some_does [where m = "lrem_command dec key (word_of_int n) x", OF ctx nf kept(2,1) run vs] show ?thesis unfolding L_def by simp
qed

lemma lrange_map: "lrange_elements a b (map f xs) = map f (lrange_elements a b xs)"
  by (simp add: lrange_elements_def take_map drop_map split_def Let_def)

lemma ltrim_does:
  assumes ctx: "list_ctx reduce dec st eid B c" and nf: "\<not> foreign (db reduce st c key)"
  defines "L \<equiv> list_db reduce dec st c"
  shows "list_does reduce dec st eid B (ltrim_command key a b) c (1 + length (L key)) WriteOK
    (if live (db reduce st c key) then (list_view reduce dec st c)(key := Values (lrange_elements a b (L key))) else list_view reduce dec st c)"
proof -
  let ?s = "db reduce st c key"
  define els where "els = ltrim_elements a b (ordered (held ?s))"
  note wf = list_ctxD [OF ctx]
  note d = ordered_distinct(2) [OF wf(3) [OF nf]]
  have sub: "set els \<subseteq> set (ordered (held ?s))"
    by (auto simp: els_def ltrim_elements_def split_def Let_def in_set_enumerate_eq)
  have "distinct els" using d by (auto simp: els_def ltrim_elements_def Let_def split_def intro!: distinct_map_filter)
  obtain tips where snap: "GetSnapshot key c = Inr (?s, tips)" "fit list_typed ?s" using list_read [OF ctx nf] .
  have run: "ltrim_command key a b c = (if live ?s then remove_some key tips els WriteOK WriteOK c else (Inl WriteOK, c))"
    unfolding ltrim_command_def list_reader.with_key_fit [OF snap] by (simp add: els_def held_def)
  have vs: "map (\<lambda>el. dec (el_Data el)) (filter (\<lambda>el. el \<notin> set els) (ordered (held ?s))) = lrange_elements a b (L key)"
    unfolding els_def ltrim_keeps [OF d] L_def held_values [symmetric] by (simp add: lrange_map)
  show ?thesis using remove_some_does [where m = "ltrim_command key a b", OF ctx nf sub \<open>distinct els\<close> run vs] by (simp add: L_def)
qed

end
