(* ===== verification/List_Simulation.thy ===== *)
theory List_Simulation
  imports List_Refine
begin

text \<open>Changing, inserting and moving elements, and the simulation of sequences of list commands.\<close>

section \<open>Setting an element\<close>

lemma list_index_map: "list_index i (map f xs) = list_index i xs"
  by (simp add: list_index_def)

lemma lset_does:
  assumes ctx: "list_ctx reduce dec st eid B c" and nf: "\<not> foreign (db reduce st c key)" and live: "live (db reduce st c key)"
  defines "L \<equiv> list_db reduce dec st c"
  shows "list_does reduce dec st eid B (lset_command key i v) c 2
    (case list_index i (L key) of None \<Rightarrow> WriteOutOfRange | Some _ \<Rightarrow> WriteOK)
    (case list_index i (L key) of None \<Rightarrow> list_view reduce dec st c | Some j \<Rightarrow> (list_view reduce dec st c)(key := Values ((L key)[j := v])))"
proof -
  let ?s = "db reduce st c key"
  note wf = list_ctxD [OF ctx] and lw = list_ctxD(3) [OF ctx nf]
  obtain tips where snap: "GetSnapshot key c = Inr (?s, tips)" "fit list_typed ?s" using list_read [OF ctx nf] .
  have vals: "L key = map (\<lambda>el. dec (el_Data el)) (ordered ?s)" unfolding L_def using live_values [OF live, of dec] by simp
  show ?thesis
  proof (cases "list_index i (ordered ?s)")
    case None
    have "lset_command key i v c = (Inr WriteOutOfRange, c)"
      unfolding lset_command_def list_reader.with_key_fit [OF snap] using live None by (simp add: ok_def)
    then have "list_does reduce dec st eid B (lset_command key i v) c 2 WriteOutOfRange (list_view reduce dec st c)"
      by (rule list_does_nothing) (simp_all add: ctx)
    moreover have "list_index i (L key) = None" using None by (simp add: vals list_index_map)
    ultimately show ?thesis by simp
  next
    case (Some j)
    then have j: "j < length (ordered ?s)" by (auto simp: list_index_def Let_def split: if_splits)
    let ?el = "ordered ?s ! j"
    have run: "lset_command key i v c = (Inr WriteOK, adding [(noop_effect key, tips), (place_insert key PLACE_SELF [] (el_id ?el) v, [])] c)"
      unfolding lset_command_def list_reader.with_key_fit [OF snap] using live Some wf(4)
      by (simp add: seq_cmd_def bind_cmd_def or_reply_def emitNoop_def emitListUpdate_def emit_cmd_ok ok_def noop_effect_def el_id_def)
    have "pairs dec ?s = map (pair dec) (take j (ordered ?s)) @ pair dec ?el # map (pair dec) (drop (Suc j) (ordered ?s))"
      using live j by (simp add: pairs_def id_take_nth_drop [OF j, symmetric] flip: list.map map_append)
    then have split: "pairs dec ?s = map (pair dec) (take j (ordered ?s)) @ (el_id ?el, dec (el_Data ?el)) # map (pair dec) (drop (Suc j) (ordered ?s))"
      by (simp add: pair_def)
    note self = self_law [OF wf(1) lw split, of key v, unfolded becomes_def]
    have v: "map snd (pairs dec (reduce ?s (place_insert key PLACE_SELF [] (el_id ?el) v))) = (L key)[j := v]"
      using self j by (simp add: vals pair_def comp_def upd_conv_take_nth_drop take_map drop_map)
    have nm: "names (pairs dec (reduce ?s (place_insert key PLACE_SELF [] (el_id ?el) v))) = names (pairs dec ?s)"
      using self split by simp
    have idx: "list_index i (L key) = Some j" using Some by (simp add: vals list_index_map)
    show ?thesis unfolding idx option.case
      by (rule list_does_key, rule run) (use ctx nf self v nm noop_law [OF wf(1)] in \<open>auto simp: L_def list_db_def\<close>)
  qed
qed

section \<open>Inserting next to a pivot\<close>

definition insert_list :: "bool \<Rightarrow> 'a \<Rightarrow> 'a \<Rightarrow> 'a list \<Rightarrow> 'a list" where
  "insert_list before pivot x vs =
     (let pre = takeWhile (\<lambda>v. v \<noteq> pivot) vs; rest = dropWhile (\<lambda>v. v \<noteq> pivot) vs
      in case rest of [] \<Rightarrow> vs | p # post \<Rightarrow> if before then pre @ x # p # post else pre @ p # x # post)"

lemma find_split:
  "find P xs = Some y \<Longrightarrow> \<exists>as bs. xs = as @ y # bs \<and> P y \<and> (\<forall>a \<in> set as. \<not> P a)"
  by (induction xs) (auto split: if_splits intro: exI [of _ "[]"], metis append_Cons insert_iff list.simps(15))

lemma insert_list_split:
  "\<forall>a \<in> set as. a \<noteq> pivot \<Longrightarrow>
   insert_list before pivot x (as @ pivot # bs) = (if before then as @ x # pivot # bs else as @ pivot # x # bs)"
  by (simp add: insert_list_def Let_def)

lemma linsert_does:
  assumes ctx: "list_ctx reduce dec st eid B c" and nf: "\<not> foreign (db reduce st c key)" and live: "live (db reduce st c key)" and B: "Suc (length (c_emitted c)) < B"
  defines "L \<equiv> list_db reduce dec st c"
  shows "list_does reduce dec st eid B (linsert_command eid dec key before pivot x) c 2
    (if pivot \<in> set (L key) then WriteInteger (of_nat (length (L key) + 1)) else WriteInteger (- 1))
    (if pivot \<in> set (L key) then (list_view reduce dec st c)(key := Values (insert_list before pivot x (L key))) else list_view reduce dec st c)"
proof -
  let ?s = "db reduce st c key"
  note wf = list_ctxD [OF ctx] and lw = list_ctxD(3) [OF ctx nf]
  obtain tips where snap: "GetSnapshot key c = Inr (?s, tips)" "fit list_typed ?s" using list_read [OF ctx nf] .
  have vals: "L key = map (\<lambda>el. dec (el_Data el)) (ordered ?s)" unfolding L_def using live_values [OF live, of dec] by simp
  show ?thesis
  proof (cases "find (\<lambda>el. dec (el_Data el) = pivot) (ordered ?s)")
    case None
    then have no: "pivot \<notin> set (L key)" by (auto simp: vals find_None_iff)
    have "linsert_command eid dec key before pivot x c = (Inr (WriteInteger (- 1)), c)"
      unfolding linsert_command_def list_reader.with_key_fit [OF snap] using live None by (simp add: ok_def)
    then have "list_does reduce dec st eid B (linsert_command eid dec key before pivot x) c 2 (WriteInteger (- 1)) (list_view reduce dec st c)"
      by (rule list_does_nothing) (simp_all add: ctx)
    then show ?thesis using no by simp
  next
    case (Some el)
    obtain as bs where e: "ordered ?s = as @ el # bs" "dec (el_Data el) = pivot" "\<forall>a \<in> set as. dec (el_Data a) \<noteq> pivot"
      using find_split [OF Some] by blast
    let ?p = "if before then PLACE_BEFORE else PLACE_AFTER" and ?i = "eid (Suc (length (c_emitted c)))"
    define ins where "ins = place_insert key ?p (el_id el) ?i x"
    have "el_id el \<noteq> []" using lw live e(1) by (cases ?s) (auto simp: list_wf_def ordered_def)
    then have run: "linsert_command eid dec key before pivot x c =
        (Inr (WriteInteger (of_nat (length (L key) + 1))), adding [(noop_effect key, tips), (ins, [])] c)"
      unfolding linsert_command_def list_reader.with_key_fit [OF snap] using live Some wf(4)
      by (simp add: seq_cmd_def bind_cmd_def or_reply_def emitNoop_def emitListInsert_ok emit_cmd_ok ok_def noop_effect_def ins_def el_id_def vals)
    have split: "pairs dec ?s = map (pair dec) as @ (el_id el, pivot) # map (pair dec) bs" using live e by (simp add: pairs_def pair_def)
    note fresh = wf(6) [of "Suc (length (c_emitted c))"] wf(7) [of "Suc (length (c_emitted c))" key]
    note at = at_law [OF wf(1) lw fresh(1,2) split, of key x, unfolded becomes_def]
    have ins: "list_wf (reduce ?s ins)" "names (pairs dec (reduce ?s ins)) = insert ?i (names (pairs dec ?s))"
      "map snd (pairs dec (reduce ?s ins)) = insert_list before pivot x (L key)"
      using at B split e insert_list_split [of "map (\<lambda>el. dec (el_Data el)) as" pivot before x "map (\<lambda>el. dec (el_Data el)) bs"]
      by (auto simp: ins_def vals pair_def comp_def)
    have mem: "pivot \<in> set (L key)" using e by (auto simp: vals)
    have "e_Key ins = key" by (simp add: ins_def)
    then have "list_does reduce dec st eid B (linsert_command eid dec key before pivot x) c 2 (WriteInteger (of_nat (length (L key) + 1)))
      ((list_view reduce dec st c)(key := Values (insert_list before pivot x (L key))))"
      by - (rule list_does_key, rule run, use ctx nf ins noop_law [OF wf(1)] in \<open>auto simp: L_def list_db_def\<close>)
    then show ?thesis using mem by simp
  qed
qed

section \<open>Moving\<close>

lemma insert_one:
  assumes "list_engine reduce dec" "list_wf s" "i \<noteq> []" "i \<notin> names (pairs dec s)" "p = PLACE_HEAD \<or> p = PLACE_TAIL"
  shows "list_wf (reduce s (place_insert key p [] i v))" "names (pairs dec (reduce s (place_insert key p [] i v))) = insert i (names (pairs dec s))"
    "map snd (pairs dec (reduce s (place_insert key p [] i v))) = pushed p [v] (map snd (pairs dec s))"
  using head_law [OF assms(1-4)] tail_law [OF assms(1-4)] assms(5) by (auto simp: becomes_def pushed_def)

lemma lmove_run:
  fixes popLeft
  assumes ctx: "list_ctx reduce dec st eid B c" and nf: "\<not> foreign (db reduce st c src)" "\<not> foreign (db reduce st c dst)"
    and L: "list_db reduce dec st c src \<noteq> []"
  defines "el \<equiv> hd (pop_order popLeft (ordered (db reduce st c src)))"
  obtains pre n where "lmove_command eid dec src dst popLeft pushLeft c = (Inr (WriteBulkString (dec (el_Data el))),
      adding (pre @ [(list_remove src (el_id el), []),
        (place_insert dst (if pushLeft then PLACE_HEAD else PLACE_TAIL) [] (eid n) (dec (el_Data el)), [])]) c)"
    "n = length (c_emitted c) + length pre + 1" "length pre \<le> 2" "\<And>k s. foldl reduce s (on_key k pre) = s"
    "\<And>k. k \<noteq> src \<Longrightarrow> k \<noteq> dst \<Longrightarrow> on_key k pre = []"
proof -
  note wf = list_ctxD [OF ctx] and live = values_live [OF L]
  obtain t1 where src: "GetSnapshot src c = Inr (db reduce st c src, t1)" "fit list_typed (db reduce st c src)" using list_read [OF ctx nf(1)] .
  obtain t2 where dst: "GetSnapshot dst c = Inr (db reduce st c dst, t2)" "fit list_typed (db reduce st c dst)" using list_read [OF ctx nf(2)] .
  define pre where "pre = (noop_effect src, t1) # (if src \<noteq> dst \<and> t2 \<noteq> [] then [(noop_effect dst, t2)] else [])"
  have g1: "getListSnapshot src c = (Inr (db reduce st c src, t1, True, False), c)"
    using list_reader.get_snapshot [OF src(1)] src(2) live by (cases "db reduce st c src") (auto simp: typed_def fit_def)
  have g2: "\<exists>s e. getListSnapshot dst c = (Inr (s, t2, e, False), c)"
    using list_reader.get_snapshot [OF dst(1)] dst(2) by (cases "db reduce st c dst") (auto simp: typed_def fit_def)
  have ne: "ordered (db reduce st c src) \<noteq> []" using L live_values [OF live, of dec] by auto
  have "lmove_command eid dec src dst popLeft pushLeft c = (Inr (WriteBulkString (dec (el_Data el))),
      adding (pre @ [(list_remove src (el_id el), []), (place_insert dst (if pushLeft then PLACE_HEAD else PLACE_TAIL) []
        (eid (length (c_emitted c) + length pre + 1)) (dec (el_Data el)), [])]) c)"
    using g1 g2 ne wf(4)
    by (auto simp: lmove_command_def doLMove_def bind_cmd_def seq_cmd_def or_reply_def ok_def when_cmd_def emitNoop_def emit_cmd_ok
        emitListRemove_def emitListInsert_ok Let_def pre_def noop_effect_def el_def el_id_def)
  then show thesis by (rule that) (auto simp: pre_def noop_law [OF wf(1)])
qed

lemma lmove_nothing:
  assumes ctx: "list_ctx reduce dec st eid B c" and nf: "\<not> foreign (db reduce st c src)" and "list_db reduce dec st c src = []"
  shows "list_does reduce dec st eid B (lmove_command eid dec src dst popLeft pushLeft) c 4 WriteNullBulkString (list_view reduce dec st c)"
proof -
  obtain t1 where src: "GetSnapshot src c = Inr (db reduce st c src, t1)" "fit list_typed (db reduce st c src)" using list_read [OF ctx nf] .
  have e: "live (db reduce st c src) \<Longrightarrow> ordered (db reduce st c src) = []" using assms(3) live_values [of reduce st c src dec] by simp
  have "lmove_command eid dec src dst popLeft pushLeft c = (Inr WriteNullBulkString, c)"
    using list_reader.get_snapshot [OF src(1)] src(2) e
    by (cases "db reduce st c src") (auto simp: lmove_command_def doLMove_def bind_cmd_def or_reply_def ok_def typed_def fit_def)
  then show ?thesis by (rule list_does_nothing) (simp_all add: ctx)
qed

lemma lmove_wrong:
  assumes ctx: "list_ctx reduce dec st eid B c"
    and "foreign (db reduce st c src) \<or> \<not> foreign (db reduce st c src) \<and> list_db reduce dec st c src \<noteq> [] \<and> foreign (db reduce st c dst)"
  shows "list_does reduce dec st eid B (lmove_command eid dec src dst popLeft pushLeft) c 4 (WriteError wrong_type_message) (list_view reduce dec st c)"
proof -
  obtain t1 t2 where snap: "GetSnapshot src c = Inr (db reduce st c src, t1)" "GetSnapshot dst c = Inr (db reduce st c dst, t2)"
    using backed_snapshot [OF list_ctxD(2) [OF ctx]] by blast
  note get = snap [THEN list_reader.get_snapshot]
  have msg: "wrong_type_message \<noteq> []" by (simp add: wrong_type_message_def bytes_simps)
  have bad: "\<exists>r. db reduce st c k = Some r \<and> r_Op r = INSERT_OP \<and> \<not> list_typed r" if "foreign (db reduce st c k)" for k
    using that by (simp add: foreign_def holds_list_typed)
  have "lmove_command eid dec src dst popLeft pushLeft c = (Inr (WriteError wrong_type_message), c)"
  proof (cases "foreign (db reduce st c src)")
    case True
    then show ?thesis using bad [OF True] get(1) msg
      by (auto simp: lmove_command_def doLMove_def bind_cmd_def or_reply_def ok_def typed_def)
  next
    case False
    then have L: "list_db reduce dec st c src \<noteq> []" and dst: "foreign (db reduce st c dst)" using assms(2) by auto
    note live = values_live [OF L]
    have ne: "src \<noteq> dst" "ordered (db reduce st c src) \<noteq> []" using False dst L live_values [OF live, of dec] by auto
    obtain r where r: "db reduce st c src = Some r" "r_Op r = INSERT_OP" "list_typed r"
      using live False by (cases "db reduce st c src") (auto simp: foreign_def holds_list_typed)
    show ?thesis using bad [OF dst] get r ne msg
      by (auto simp: lmove_command_def doLMove_def bind_cmd_def or_reply_def ok_def typed_def)
  qed
  then show ?thesis by (rule list_does_nothing) (simp_all add: ctx)
qed

lemma lmove_element:
  fixes popLeft
  assumes ctx: "list_ctx reduce dec st eid B c" and nf: "\<not> foreign (db reduce st c src)" and "list_db reduce dec st c src \<noteq> []"
  defines "el \<equiv> hd (pop_order popLeft (ordered (db reduce st c src)))" and "L \<equiv> list_db reduce dec st c"
  shows "fst (pop_list popLeft 1 (L src)) = [dec (el_Data el)]"
    "list_wf (reduce (db reduce st c src) (list_remove src (el_id el)))"
    "names (pairs dec (reduce (db reduce st c src) (list_remove src (el_id el)))) \<subseteq> names (pairs dec (db reduce st c src))"
    "map snd (pairs dec (reduce (db reduce st c src) (list_remove src (el_id el)))) = snd (pop_list popLeft 1 (L src))"
proof -
  let ?s = "db reduce st c src"
  note wf = list_ctxD [OF ctx] and lw = list_ctxD(3) [OF ctx nf] and live = values_live [OF assms(3)]
  have held: "held ?s = ?s" using live by (simp add: held_def)
  have ne: "ordered ?s \<noteq> []" using assms(3) live_values [OF live, of dec] by auto
  then have one: "take 1 (pop_order popLeft (ordered ?s)) = [el]"
    by (auto simp: el_def pop_order_def neq_Nil_conv take_Suc hd_rev split: list.splits)
  note pop = popped_elements [OF ordered_distinct(2) [OF lw], where n = 1 and left = popLeft, unfolded held one]
  have vals: "L src = map (\<lambda>el. dec (el_Data el)) (ordered ?s)" unfolding L_def using live_values [OF live, of dec] by simp
  have popped: "pop_list popLeft 1 (L src) = ([dec (el_Data el)], map (\<lambda>el. dec (el_Data el)) (snd (pop_list popLeft 1 (ordered ?s))))"
    unfolding vals pop_list_map using pop(2) [symmetric] by (simp add: prod_eq_iff)
  have sub: "set [el] \<subseteq> set (ordered (held ?s))" using pop(3) by (simp add: held)
  show "fst (pop_list popLeft 1 (L src)) = [dec (el_Data el)]" using popped by simp
  show "list_wf (reduce ?s (list_remove src (el_id el)))" "names (pairs dec (reduce ?s (list_remove src (el_id el)))) \<subseteq> names (pairs dec ?s)"
    "map snd (pairs dec (reduce ?s (list_remove src (el_id el)))) = snd (pop_list popLeft 1 (L src))"
    using removes_values [OF wf(1) lw sub, of src] pop(1) popped by (simp_all add: held)
qed

lemma lmove_does:
  fixes popLeft
  assumes ctx: "list_ctx reduce dec st eid B c" and nf: "\<not> foreign (db reduce st c src)" "\<not> foreign (db reduce st c dst)"
    and ne: "list_db reduce dec st c src \<noteq> []" and B: "length (c_emitted c) + 4 \<le> B"
  defines "L \<equiv> list_db reduce dec st c"
  defines "L' \<equiv> L(src := snd (pop_list popLeft 1 (L src)))"
  shows "list_does reduce dec st eid B (lmove_command eid dec src dst popLeft pushLeft) c 4
    (WriteBulkString (hd (fst (pop_list popLeft 1 (L src)))))
    ((list_view reduce dec st c)(src := Values (L' src),
      dst := Values (pushed (if pushLeft then PLACE_HEAD else PLACE_TAIL) (fst (pop_list popLeft 1 (L src))) (L' dst))))"
proof -
  let ?s = "db reduce st c src" and ?p = "if pushLeft then PLACE_HEAD else PLACE_TAIL"
  note wf = list_ctxD [OF ctx] and live = values_live [OF ne]
  define el where "el = hd (pop_order popLeft (ordered ?s))"
  obtain pre n where run: "lmove_command eid dec src dst popLeft pushLeft c = (Inr (WriteBulkString (dec (el_Data el))),
      adding (pre @ [(list_remove src (el_id el), []), (place_insert dst ?p [] (eid n) (dec (el_Data el)), [])]) c)"
    and n: "n = length (c_emitted c) + length pre + 1" "length pre \<le> 2" and pre: "\<And>k s. foldl reduce s (on_key k pre) = s"
      "\<And>k. k \<noteq> src \<Longrightarrow> k \<noteq> dst \<Longrightarrow> on_key k pre = []"
    using lmove_run [OF ctx nf ne, where popLeft = popLeft and pushLeft = pushLeft] unfolding el_def by blast
  note rem = lmove_element [OF ctx nf(1) ne, of popLeft, folded el_def L_def]
  define s1 where "s1 k = (if k = src then reduce ?s (list_remove src (el_id el)) else db reduce st c k)" for k
  have s1: "\<not> foreign (db reduce st c k) \<Longrightarrow> list_wf (s1 k)" "names (pairs dec (s1 k)) \<subseteq> names (pairs dec (db reduce st c k))"
    "map snd (pairs dec (s1 k)) = L' k" for k
    using rem(2-4) wf(3) by (auto simp: s1_def L'_def L_def list_db_def)
  have n': "length (c_emitted c) \<le> n" "n < B" using n B by auto
  have fresh: "eid n \<notin> names (pairs dec (s1 dst))" using wf(7) [OF n', of dst] s1(2) [of dst] by blast
  have "?p = PLACE_HEAD \<or> ?p = PLACE_TAIL" by simp
  note ins = insert_one [OF wf(1) s1(1) [OF nf(2)] wf(6) [OF n'] fresh this, of dst "dec (el_Data el)"]
  let ?es = "pre @ [(list_remove src (el_id el), []), (place_insert dst ?p [] (eid n) (dec (el_Data el)), [])]"
  have after: "foldl reduce (db reduce st c k) (on_key k ?es) =
      (if k = dst then reduce (s1 dst) (place_insert dst ?p [] (eid n) (dec (el_Data el))) else s1 k)" for k
    by (simp add: pre(1) s1_def)
  show ?thesis unfolding rem(1) list.sel
  proof (rule list_doesI, rule run)
    show "length ?es \<le> 4" using n by simp
    show "names (pairs dec (foldl reduce (db reduce st c k) (on_key k ?es))) \<subseteq>
        names (pairs dec (db reduce st c k)) \<union> eid ` {length (c_emitted c)..<length (c_emitted c) + length ?es}" for k
    proof -
      have "n \<in> {length (c_emitted c)..<length (c_emitted c) + length ?es}" using n by simp
      then show ?thesis unfolding after using s1(2) [of k] s1(2) [of dst] ins(2) by auto
    qed
    show "on_key k ?es = [] \<and> ((list_view reduce dec st c)(src := Values (L' src), dst := Values (pushed ?p [dec (el_Data el)] (L' dst)))) k = list_view reduce dec st c k \<or>
        \<not> foreign (db reduce st c k) \<and> list_wf (foldl reduce (db reduce st c k) (on_key k ?es)) \<and>
        ((list_view reduce dec st c)(src := Values (L' src), dst := Values (pushed ?p [dec (el_Data el)] (L' dst)))) k =
          Values (map snd (pairs dec (foldl reduce (db reduce st c k) (on_key k ?es))))" for k
    proof (cases "k = src \<or> k = dst")
      case True
      then show ?thesis unfolding after using nf s1(1) [OF nf(1)] s1(3) [of k] s1(3) [of dst] ins(1,3) by auto
    qed (use pre(2) [of k] in auto)
  qed (simp_all add: ctx)
qed

end
