(* ===== verification/List_Theorems.thy ===== *)
theory List_Theorems
  imports List_Simulation
begin

text \<open>The properties of the list commands.\<close>

section \<open>Commands\<close>

text \<open>The commands that change lists; integers are given in decimal.\<close>

datatype list_op =
    LPush bytes "bytes list" | RPush bytes "bytes list"
  | LPushX bytes "bytes list" | RPushX bytes "bytes list"
  | LPop bytes | RPop bytes | LPopN bytes i64 | RPopN bytes i64
  | LSet bytes i64 bytes | LRem bytes i64 bytes | LTrim bytes i64 i64
  | LInsert bytes bool bytes bytes
  | LMove bytes bytes bool bool | RPopLPush bytes bytes

definition side :: "bool \<Rightarrow> bytes" where
  "side left = (if left then bstr ''LEFT'' else bstr ''RIGHT'')"

definition decimal :: "i64 \<Rightarrow> bytes" where
  "decimal n = fmt_int (sint n)"

fun list_handler :: "ids \<Rightarrow> (DataEffect \<Rightarrow> bytes) \<Rightarrow> list_op \<Rightarrow> Writer \<Rightarrow> handler_result" where
  "list_handler eid dec (LPush key xs) = handleLPush eid (key # xs)"
| "list_handler eid dec (RPush key xs) = handleRPush eid (key # xs)"
| "list_handler eid dec (LPushX key xs) = handleLPushX eid (key # xs)"
| "list_handler eid dec (RPushX key xs) = handleRPushX eid (key # xs)"
| "list_handler eid dec (LPop key) = handleLPop dec [key]"
| "list_handler eid dec (RPop key) = handleRPop dec [key]"
| "list_handler eid dec (LPopN key n) = handleLPop dec [key, decimal n]"
| "list_handler eid dec (RPopN key n) = handleRPop dec [key, decimal n]"
| "list_handler eid dec (LSet key i v) = handleLSet [key, decimal i, v]"
| "list_handler eid dec (LRem key n x) = handleLRem dec [key, decimal n, x]"
| "list_handler eid dec (LTrim key a b) = handleLTrim [key, decimal a, decimal b]"
| "list_handler eid dec (LInsert key before pivot x) =
     handleLInsert eid dec [key, if before then bstr ''BEFORE'' else bstr ''AFTER'', pivot, x]"
| "list_handler eid dec (LMove src dst popLeft pushLeft) = handleLMove eid dec [src, dst, side popLeft, side pushLeft]"
| "list_handler eid dec (RPopLPush src dst) = handleRPopLPush eid dec [src, dst]"

fun run_list_ops :: "ids \<Rightarrow> (DataEffect \<Rightarrow> bytes) \<Rightarrow> list_op list \<Rightarrow> Context \<times> Writer \<Rightarrow> (Context \<times> Writer) option" where
  "run_list_ops eid dec [] cw = Some cw"
| "run_list_ops eid dec (op # ops) cw =
     (case run_handler (list_handler eid dec op (snd cw)) (fst cw) of None \<Rightarrow> None | Some cw' \<Rightarrow> run_list_ops eid dec ops cw')"

section \<open>The specification\<close>

text \<open>What each command leaves under the keys and its reply, for keys that are missing, hold a list or hold another type.\<close>

definition vals :: "slot \<Rightarrow> bytes list" where
  "vals s = (case s of Values vs \<Rightarrow> vs | _ \<Rightarrow> [])"

lemma vals_simps [simp]: "vals Missing = []" "vals Other = []" "vals (Values vs) = vs"
  by (simp_all add: vals_def)

definition push_spec :: "Placement \<Rightarrow> bytes \<Rightarrow> bytes list \<Rightarrow> slots \<Rightarrow> slots \<times> answer" where
  "push_spec p key xs V =
     (if V key = Other then (V, WriteWrongType)
      else (V(key := Values (pushed p xs (vals (V key)))), WriteInteger (of_nat (length (vals (V key)) + length xs))))"

definition pushx_spec :: "Placement \<Rightarrow> bytes \<Rightarrow> bytes list \<Rightarrow> slots \<Rightarrow> slots \<times> answer" where
  "pushx_spec p key xs V = (if V key = Missing then (V, WriteZero) else push_spec p key xs V)"

text \<open>The replies and new lists of the commands on one key, given the reply for a missing key.\<close>

definition on_list :: "bytes \<Rightarrow> answer \<Rightarrow> (bytes list \<Rightarrow> bytes list \<times> answer) \<Rightarrow> slots \<Rightarrow> slots \<times> answer" where
  "on_list key missing f V =
     (case V key of
        Missing \<Rightarrow> (V, missing)
      | Other \<Rightarrow> (V, WriteWrongType)
      | Values vs \<Rightarrow> (let (vs', a) = f vs in (V(key := Values vs'), a)))"

definition pop_spec :: "bool \<Rightarrow> nat option \<Rightarrow> bytes list \<Rightarrow> bytes list \<times> answer" where
  "pop_spec left n vs = (snd (pop_list left (case n of None \<Rightarrow> 1 | Some k \<Rightarrow> k) vs), pop_answer left n vs)"

text \<open>Negative positions count from the end of the list.\<close>

definition position :: "int \<Rightarrow> 'a list \<Rightarrow> int" where
  "position i vs = (if i < 0 then int (length vs) + i else i)"

definition at_position :: "int \<Rightarrow> 'a list \<Rightarrow> nat option" where
  "at_position i vs = (if 0 \<le> position i vs \<and> position i vs < int (length vs) then Some (nat (position i vs)) else None)"

definition between :: "int \<Rightarrow> int \<Rightarrow> 'a list \<Rightarrow> 'a list" where
  "between a b vs = nths vs {j. position a vs \<le> int j \<and> int j \<le> position b vs}"

definition lset_spec :: "int \<Rightarrow> bytes \<Rightarrow> bytes list \<Rightarrow> bytes list \<times> answer" where
  "lset_spec i v vs = (case at_position i vs of None \<Rightarrow> (vs, WriteOutOfRange) | Some j \<Rightarrow> (vs[j := v], WriteOK))"

definition lrem_spec :: "int \<Rightarrow> bytes \<Rightarrow> bytes list \<Rightarrow> bytes list \<times> answer" where
  "lrem_spec n x vs =
     (let vs' = lrem_list n x vs; k = length vs - length vs' in (vs', if k = 0 then WriteZero else WriteInteger (of_nat k)))"

definition linsert_spec :: "bool \<Rightarrow> bytes \<Rightarrow> bytes \<Rightarrow> bytes list \<Rightarrow> bytes list \<times> answer" where
  "linsert_spec before pivot x vs =
     (if pivot \<in> set vs then (insert_list before pivot x vs, WriteInteger (of_nat (length vs + 1))) else (vs, WriteInteger (- 1)))"

definition move_spec :: "bytes \<Rightarrow> bytes \<Rightarrow> bool \<Rightarrow> bool \<Rightarrow> slots \<Rightarrow> slots \<times> answer" where
  "move_spec src dst popLeft pushLeft V =
     (if V src = Other then (V, WriteError wrong_type_message)
      else if vals (V src) = [] then (V, WriteNullBulkString)
      else if V dst = Other then (V, WriteError wrong_type_message)
      else
        let (popped, rest) = pop_list popLeft 1 (vals (V src)); V' = V(src := Values rest)
        in (V'(dst := Values (pushed (if pushLeft then PLACE_HEAD else PLACE_TAIL) popped (vals (V' dst)))), WriteBulkString (hd popped)))"

fun list_spec :: "list_op \<Rightarrow> slots \<Rightarrow> slots \<times> answer" where
  "list_spec (LPush key xs) V = (if xs = [] then (V, WriteWrongNumArguments (bstr ''lpush'')) else push_spec PLACE_HEAD key xs V)"
| "list_spec (RPush key xs) V = (if xs = [] then (V, WriteWrongNumArguments (bstr ''rpush'')) else push_spec PLACE_TAIL key xs V)"
| "list_spec (LPushX key xs) V = (if xs = [] then (V, WriteWrongNumArguments (bstr ''lpushx'')) else pushx_spec PLACE_HEAD key xs V)"
| "list_spec (RPushX key xs) V = (if xs = [] then (V, WriteWrongNumArguments (bstr ''rpushx'')) else pushx_spec PLACE_TAIL key xs V)"
| "list_spec (LPop key) V = on_list key WriteNullBulkString (pop_spec True None) V"
| "list_spec (RPop key) V = on_list key WriteNullBulkString (pop_spec False None) V"
| "list_spec (LPopN key n) V =
     (if sint n < 0 then (V, WriteNotInteger) else on_list key WriteNullArray (pop_spec True (Some (nat (sint n)))) V)"
| "list_spec (RPopN key n) V =
     (if sint n < 0 then (V, WriteNotInteger) else on_list key WriteNullArray (pop_spec False (Some (nat (sint n)))) V)"
| "list_spec (LSet key i v) V = on_list key (WriteError (bstr ''ERR no such key'')) (lset_spec (sint i) v) V"
| "list_spec (LRem key n x) V = on_list key WriteZero (lrem_spec (sint n) x) V"
| "list_spec (LTrim key a b) V = on_list key WriteOK (\<lambda>vs. (between (sint a) (sint b) vs, WriteOK)) V"
| "list_spec (LInsert key before pivot x) V = on_list key WriteZero (linsert_spec before pivot x) V"
| "list_spec (LMove src dst popLeft pushLeft) V = move_spec src dst popLeft pushLeft V"
| "list_spec (RPopLPush src dst) V = move_spec src dst False True V"

text \<open>
  A run of the specification: after each command the keys show what it leaves, except that a list left without elements may be
  missing.
\<close>

inductive list_run :: "list_op list \<Rightarrow> slots \<Rightarrow> answer list \<Rightarrow> slots \<Rightarrow> bool" where
  list_run_Nil: "list_run [] V [] V"
| list_run_Cons: "shown V' (fst (list_spec op V)) \<Longrightarrow> list_run ops V' as W \<Longrightarrow> list_run (op # ops) V (snd (list_spec op V) # as) W"

inductive_simps list_run_simps: "list_run [] V as W" "list_run (op # ops) V as W"

text \<open>The only count that is excluded is the least integer for \<^verbatim>\<open>LREM\<close>, which has no negation.\<close>

definition count_ok :: "list_op \<Rightarrow> bool" where
  "count_ok op \<longleftrightarrow> (case op of LRem key n x \<Rightarrow> sint n \<noteq> MinInt64 | _ \<Rightarrow> True)"

text \<open>How many elements a command may add to a list, and a bound on the effects of a sequence when lists have at most \<open>T\<close> elements.\<close>

definition list_grow :: "list_op \<Rightarrow> nat" where
  "list_grow op =
     (case op of
        LPush key xs \<Rightarrow> length xs | RPush key xs \<Rightarrow> length xs | LPushX key xs \<Rightarrow> length xs | RPushX key xs \<Rightarrow> length xs
      | LInsert key before pivot x \<Rightarrow> 1 | LMove src dst l r \<Rightarrow> 1 | RPopLPush src dst \<Rightarrow> 1 | _ \<Rightarrow> 0)"

fun list_costs :: "list_op list \<Rightarrow> nat \<Rightarrow> nat" where
  "list_costs [] T = 0"
| "list_costs (op # ops) T = 4 + T + list_grow op + list_costs ops (T + list_grow op)"

section \<open>Each command\<close>

lemma ParseInt64_printed: "ParseInt64 (decimal n) = Some n"
proof -
  have "sint n < 2 ^ 63" "- (2 ^ 63) \<le> sint n" using sint_range_size [of n] by (simp_all add: word_size)
  then show ?thesis by (simp add: decimal_def ParseInt64_eq_atoi atoi_fmt_int)
qed

lemma directions [simp]: "parse_direction (side left) = Some left"
  by (simp add: parse_direction_def side_def ToUpper_eq bytes_simps)

lemma before_after:
  "ToUpper (bstr ''BEFORE'') = bstr ''BEFORE''" "ToUpper (bstr ''AFTER'') = bstr ''AFTER''" "bstr ''AFTER'' \<noteq> bstr ''BEFORE''"
  by (simp_all add: ToUpper_eq bytes_simps)

lemma at_position_index: "at_position i vs = list_index i vs"
  by (simp add: at_position_def position_def list_index_def from_end_def Let_def)

lemma take_drop_nths: "take m (drop s xs) = nths xs {s..<s + m}"
proof -
  have "take m (drop s xs) = nths xs ((+) s ` {..<m})" by (simp add: nths_upt_eq_take [symmetric] nths_drop lessThan_def)
  also have "(+) s ` {..<m} = {s..<s + m}" by (simp add: lessThan_atLeast0 add.commute)
  finally show ?thesis .
qed

lemma nths_same: "(\<And>j. j < length xs \<Longrightarrow> j \<in> A \<longleftrightarrow> j \<in> B) \<Longrightarrow> nths xs A = nths xs B"
  unfolding nths_def by (rule arg_cong [where f = "map fst"], rule filter_cong) (auto simp: set_zip)

lemma between_range: "between a b vs = lrange_elements a b vs"
proof -
  define lo hi where "lo = max 0 (position a vs)" and "hi = min (int (length vs) - 1) (position b vs)"
  have "list_bounds (int (length vs)) a b = (lo, hi)"
    by (simp add: list_bounds_def from_end_def position_def lo_def hi_def Let_def)
  then have "lrange_elements a b vs = (if vs = [] \<or> lo > hi then [] else nths vs {nat lo..<nat lo + nat (hi + 1 - lo)})"
    by (simp add: lrange_elements_def take_drop_nths)
  moreover have "nths vs {j. position a vs \<le> int j \<and> int j \<le> position b vs} = nths vs {j. lo \<le> int j \<and> int j \<le> hi}"
    by (rule nths_same) (auto simp: lo_def hi_def)
  moreover have "{j. lo \<le> int j \<and> int j \<le> hi} = (if lo > hi then {} else {nat lo..<nat lo + nat (hi + 1 - lo)})"
    by (auto simp: lo_def)
  ultimately show ?thesis by (auto simp: between_def)
qed

lemma wrong_does:
  assumes "list_ctx reduce dec st eid B c" "list_view reduce dec st c key = Other"
  shows "list_does reduce dec st eid B (typed_key getListSnapshot key f) c n WriteWrongType (list_view reduce dec st c)"
    "list_does reduce dec st eid B (with_key getListSnapshot key missing g) c n WriteWrongType (list_view reduce dec st c)"
proof -
  obtain r tips where r: "GetSnapshot key c = Inr (Some r, tips)" "r_Op r = INSERT_OP" "\<not> list_typed r"
    using assms backed_snapshot [OF list_ctxD(2) [OF assms(1)], of key] by (auto simp: list_view_cases(1) foreign_def holds_list_typed)
  show "list_does reduce dec st eid B (typed_key getListSnapshot key f) c n WriteWrongType (list_view reduce dec st c)"
    by (rule list_does_nothing, rule list_reader.typed_key_wrong [OF r]) (simp_all add: assms(1))
  show "list_does reduce dec st eid B (with_key getListSnapshot key missing g) c n WriteWrongType (list_view reduce dec st c)"
    by (rule list_does_nothing, rule list_reader.with_key_wrong [OF r]) (simp_all add: assms(1))
qed

lemma missing_does:
  assumes "list_ctx reduce dec st eid B c" "list_view reduce dec st c key = Missing"
  shows "list_does reduce dec st eid B (with_key getListSnapshot key missing g) c n missing (list_view reduce dec st c)"
proof -
  obtain tips where "GetSnapshot key c = Inr (db reduce st c key, tips)" using backed_snapshot [OF list_ctxD(2) [OF assms(1)]] by blast
  from list_reader.with_key_missing [OF this list_view_cases(2) [OF assms(2)]] show ?thesis
    by (rule list_does_nothing) (simp_all add: assms(1))
qed

lemma view_list:
  "list_view reduce dec st c key \<noteq> Other \<Longrightarrow> vals (list_view reduce dec st c key) = list_db reduce dec st c key"
  by (cases "list_view reduce dec st c key") (auto dest: list_view_cases(3,5))

lemma list_does_more: "list_does reduce dec st eid B m c n a S \<Longrightarrow> n \<le> n' \<Longrightarrow> list_does reduce dec st eid B m c n' a S"
  unfolding list_does_def by (blast intro: le_trans)

lemma push_refines:
  assumes "list_ctx reduce dec st eid B c" "p = PLACE_HEAD \<or> p = PLACE_TAIL" "xs \<noteq> []" "length (c_emitted c) + length xs \<le> B"
  defines "V \<equiv> list_view reduce dec st c"
  shows "list_does reduce dec st eid B (push_command eid p key xs) c (length xs + 1) (snd (push_spec p key xs V)) (fst (push_spec p key xs V))"
proof (cases "V key = Other")
  case True
  then show ?thesis using wrong_does(1) [OF assms(1)] by (simp add: push_spec_def push_command_def V_def)
next
  case False
  then show ?thesis using push_does [OF assms(1) _ assms(2-4)] view_list [of reduce dec st c key]
    by (simp add: push_spec_def V_def list_view_cases(1))
qed

lemma pushx_refines:
  assumes "list_ctx reduce dec st eid B c" "p = PLACE_HEAD \<or> p = PLACE_TAIL" "length (c_emitted c) + length xs \<le> B"
  defines "V \<equiv> list_view reduce dec st c"
  shows "list_does reduce dec st eid B (pushx_command eid p key xs) c (length xs) (snd (pushx_spec p key xs V)) (fst (pushx_spec p key xs V))"
proof (cases "V key")
  case Missing
  then show ?thesis using missing_does [OF assms(1)] by (simp add: pushx_spec_def pushx_command_def V_def)
next
  case Other
  then show ?thesis using wrong_does(2) [OF assms(1)] by (simp add: pushx_spec_def push_spec_def pushx_command_def V_def)
next
  case (Values vs)
  then have 1: "\<not> foreign (db reduce st c key)" "live (db reduce st c key)" "list_db reduce dec st c key = vs"
    using list_view_cases [of reduce dec st c key] by (simp_all add: V_def)
  from Values show ?thesis using pushx_does [OF assms(1) 1(1) assms(2) 1(2) assms(3)] by (simp add: pushx_spec_def push_spec_def V_def 1(3))
qed

lemma on_list_refines:
  assumes "list_view reduce dec st c key = Other \<Longrightarrow> list_does reduce dec st eid B m c n WriteWrongType (list_view reduce dec st c)"
    and "list_view reduce dec st c key = Missing \<Longrightarrow> list_does reduce dec st eid B m c n missing (list_view reduce dec st c)"
    and "\<And>vs. list_view reduce dec st c key = Values vs \<Longrightarrow> \<not> foreign (db reduce st c key) \<Longrightarrow> live (db reduce st c key) \<Longrightarrow>
      list_db reduce dec st c key = vs \<Longrightarrow> list_does reduce dec st eid B m c n (snd (f vs)) ((list_view reduce dec st c)(key := Values (fst (f vs))))"
  shows "list_does reduce dec st eid B m c n (snd (on_list key missing f (list_view reduce dec st c))) (fst (on_list key missing f (list_view reduce dec st c)))"
proof (cases "list_view reduce dec st c key")
  case (Values vs)
  then show ?thesis using assms(3) list_view_cases [of reduce dec st c key] by (simp add: on_list_def split_def Let_def)
qed (use assms(1,2) in \<open>simp_all add: on_list_def\<close>)

lemma view_same: "list_view reduce dec st c key = Values vs \<Longrightarrow> (list_view reduce dec st c)(key := Values vs) = list_view reduce dec st c"
  by auto

lemma pop_refines:
  assumes ctx: "list_ctx reduce dec st eid B c" and T: "length (vals (list_view reduce dec st c key)) \<le> T"
  defines "V \<equiv> list_view reduce dec st c"
  shows "list_does reduce dec st eid B (pop_command dec left key (case n of None \<Rightarrow> 1 | Some k \<Rightarrow> int k) (n \<noteq> None)) c (1 + T)
    (snd (on_list key (pop_answer left n []) (pop_spec left n) V)) (fst (on_list key (pop_answer left n []) (pop_spec left n) V))"
  unfolding V_def
proof (rule on_list_refines)
  assume "list_view reduce dec st c key = Missing"
  then show "list_does reduce dec st eid B (pop_command dec left key (case n of None \<Rightarrow> 1 | Some k \<Rightarrow> int k) (n \<noteq> None)) c (1 + T)
      (pop_answer left n []) (list_view reduce dec st c)"
    using pop_does [OF ctx, of key left n] list_view_cases [of reduce dec st c key] by (auto intro: list_does_more)
next
  fix vs
  assume v: "list_view reduce dec st c key = Values vs" "\<not> foreign (db reduce st c key)" "list_db reduce dec st c key = vs"
  have e: "vs = [] \<Longrightarrow> snd (pop_list left k vs) = []" for k by (simp add: pop_list_def)
  show "list_does reduce dec st eid B (pop_command dec left key (case n of None \<Rightarrow> 1 | Some k \<Rightarrow> int k) (n \<noteq> None)) c (1 + T)
      (snd (pop_spec left n vs)) ((list_view reduce dec st c)(key := Values (fst (pop_spec left n vs))))"
    by (rule list_does_more [where n = "1 + length (list_db reduce dec st c key)"])
      (use pop_does [OF ctx v(2), of left n] v(1,3) T view_same [OF v(1)] e in \<open>auto simp: pop_spec_def split: if_splits\<close>)
qed (simp add: pop_command_def wrong_does(1) [OF ctx])

lemma lset_refines:
  assumes ctx: "list_ctx reduce dec st eid B c"
  defines "V \<equiv> list_view reduce dec st c"
  shows "list_does reduce dec st eid B (lset_command key i v) c 2
    (snd (on_list key (WriteError (bstr ''ERR no such key'')) (lset_spec i v) V)) (fst (on_list key (WriteError (bstr ''ERR no such key'')) (lset_spec i v) V))"
  unfolding V_def
proof (rule on_list_refines)
  fix vs
  assume v: "list_view reduce dec st c key = Values vs" "\<not> foreign (db reduce st c key)" "live (db reduce st c key)" "list_db reduce dec st c key = vs"
  show "list_does reduce dec st eid B (lset_command key i v) c 2 (snd (lset_spec i v vs)) ((list_view reduce dec st c)(key := Values (fst (lset_spec i v vs))))"
    using lset_does [OF ctx v(2,3), of i v] v(4) view_same [OF v(1)] by (auto simp: lset_spec_def at_position_index split: option.splits)
qed (simp_all add: lset_command_def wrong_does(2) [OF ctx] missing_does [OF ctx])

lemma lrem_refines:
  assumes ctx: "list_ctx reduce dec st eid B c" and T: "length (vals (list_view reduce dec st c key)) \<le> T" and n: "sint n \<noteq> MinInt64"
  defines "V \<equiv> list_view reduce dec st c"
  shows "list_does reduce dec st eid B (lrem_command dec key n x) c (1 + T)
    (snd (on_list key WriteZero (lrem_spec (sint n) x) V)) (fst (on_list key WriteZero (lrem_spec (sint n) x) V))"
  unfolding V_def
proof (rule on_list_refines)
  fix vs
  assume v: "list_view reduce dec st c key = Values vs" "\<not> foreign (db reduce st c key)" "live (db reduce st c key)" "list_db reduce dec st c key = vs"
  have "MinInt64 < sint n" "sint n \<le> MaxInt64" using n sint_range_size [of n] by (simp_all add: word_size)
  note does = lrem_does [OF ctx v(2) this, of x]
  show "list_does reduce dec st eid B (lrem_command dec key n x) c (1 + T) (snd (lrem_spec (sint n) x vs))
      ((list_view reduce dec st c)(key := Values (fst (lrem_spec (sint n) x vs))))"
    by (rule list_does_more [where n = "1 + length (list_db reduce dec st c key)"]) (use does v T in \<open>simp_all add: lrem_spec_def Let_def\<close>)
qed (simp_all add: lrem_command_def wrong_does(2) [OF ctx] missing_does [OF ctx])

lemma ltrim_refines:
  assumes ctx: "list_ctx reduce dec st eid B c" and T: "length (vals (list_view reduce dec st c key)) \<le> T"
  defines "V \<equiv> list_view reduce dec st c"
  shows "list_does reduce dec st eid B (ltrim_command key a b) c (1 + T)
    (snd (on_list key WriteOK (\<lambda>vs. (between a b vs, WriteOK)) V)) (fst (on_list key WriteOK (\<lambda>vs. (between a b vs, WriteOK)) V))"
  unfolding V_def
proof (rule on_list_refines)
  fix vs
  assume v: "list_view reduce dec st c key = Values vs" "\<not> foreign (db reduce st c key)" "live (db reduce st c key)" "list_db reduce dec st c key = vs"
  show "list_does reduce dec st eid B (ltrim_command key a b) c (1 + T) (snd (between a b vs, WriteOK))
      ((list_view reduce dec st c)(key := Values (fst (between a b vs, WriteOK))))"
    by (rule list_does_more [where n = "1 + length (list_db reduce dec st c key)"])
      (use ltrim_does [OF ctx v(2), of a b] v T in \<open>simp_all add: between_range\<close>)
qed (simp_all add: ltrim_command_def wrong_does(2) [OF ctx] missing_does [OF ctx])

lemma linsert_refines:
  assumes ctx: "list_ctx reduce dec st eid B c" and B: "Suc (length (c_emitted c)) < B"
  defines "V \<equiv> list_view reduce dec st c"
  shows "list_does reduce dec st eid B (linsert_command eid dec key before pivot x) c 2
    (snd (on_list key WriteZero (linsert_spec before pivot x) V)) (fst (on_list key WriteZero (linsert_spec before pivot x) V))"
  unfolding V_def
proof (rule on_list_refines)
  fix vs
  assume v: "list_view reduce dec st c key = Values vs" "\<not> foreign (db reduce st c key)" "live (db reduce st c key)" "list_db reduce dec st c key = vs"
  show "list_does reduce dec st eid B (linsert_command eid dec key before pivot x) c 2 (snd (linsert_spec before pivot x vs))
      ((list_view reduce dec st c)(key := Values (fst (linsert_spec before pivot x vs))))"
    using linsert_does [OF ctx v(2,3) B, of before pivot x] v(4) view_same [OF v(1)] by (simp add: linsert_spec_def split: if_splits)
qed (simp_all add: linsert_command_def wrong_does(2) [OF ctx] missing_does [OF ctx])

lemma lmove_refines:
  assumes ctx: "list_ctx reduce dec st eid B c" and B: "length (c_emitted c) + 4 \<le> B"
  defines "V \<equiv> list_view reduce dec st c"
  shows "list_does reduce dec st eid B (lmove_command eid dec src dst popLeft pushLeft) c 4
    (snd (move_spec src dst popLeft pushLeft V)) (fst (move_spec src dst popLeft pushLeft V))"
proof -
  have L: "V k \<noteq> Other \<Longrightarrow> vals (V k) = list_db reduce dec st c k" for k unfolding V_def by (rule view_list)
  note f = list_view_cases(1) [of reduce dec st c, folded V_def]
  consider "V src = Other" | "V src \<noteq> Other" "vals (V src) = []" | "V src \<noteq> Other" "vals (V src) \<noteq> []" "V dst = Other"
    | "V src \<noteq> Other" "vals (V src) \<noteq> []" "V dst \<noteq> Other" by blast
  then show ?thesis
  proof cases
    case 2
    then show ?thesis using lmove_nothing [OF ctx, of src] f L by (simp add: move_spec_def V_def)
  next
    case 4
    then show ?thesis using lmove_does [OF ctx, of src dst popLeft pushLeft] f L [of src] L [of dst] B
      by (cases "dst = src"; cases pushLeft) (simp_all add: move_spec_def split_def Let_def V_def)
  qed (use lmove_wrong [OF ctx, of src dst] f L in \<open>simp_all add: move_spec_def V_def\<close>)
qed

section \<open>Sequences\<close>

lemma length_drop_matches: "length (drop_matches n P xs) \<le> length xs"
  by (induction n P xs rule: drop_matches.induct) (auto split: nat.splits)

lemma spec_lengths:
  "length (pushed p xs ys) = length xs + length ys" "length (snd (pop_list left n ys)) \<le> length ys" "length (fst (pop_list left 1 ys)) \<le> 1"
  "length (fst (lset_spec i y vs)) = length vs" "length (lrem_list i y ys) \<le> length ys" "length (between a b ys) \<le> length ys"
  "length (insert_list before q y ys) \<le> length ys + 1"
proof -
  show "length (lrem_list i y ys) \<le> length ys"
    using length_drop_matches [of _ _ ys] length_drop_matches [of _ _ "rev ys"] by (simp add: lrem_list_def)
  show "length (insert_list before q y ys) \<le> length ys + 1"
  proof -
    have "length ys = length (takeWhile (\<lambda>v. v \<noteq> q) ys) + length (dropWhile (\<lambda>v. v \<noteq> q) ys)"
      by (metis length_append takeWhile_dropWhile_id)
    then show ?thesis by (auto simp: insert_list_def Let_def split: list.splits)
  qed
qed (auto simp: pushed_def pop_list_def lset_spec_def between_range lrange_elements_def split_def Let_def split: option.splits)

lemma on_list_length:
  assumes "\<forall>k. length (vals (V k)) \<le> T" "\<And>vs. length (fst (f vs)) \<le> length vs + g"
  shows "length (vals (fst (on_list key missing f V) k)) \<le> T + g"
  using assms(1) [rule_format, of k] assms(1) [rule_format, of key] assms(2) [of "vals (V key)"]
  by (auto simp: on_list_def split_def Let_def split: slot.splits)

lemma move_length:
  assumes T: "\<forall>k. length (vals (V k)) \<le> T"
  shows "length (vals (fst (move_spec src dst popLeft pushLeft V) k)) \<le> T + 1"
proof -
  have "length (snd (pop_list popLeft 1 (vals (V src)))) \<le> T" using spec_lengths(2) [of popLeft 1 "vals (V src)"] T le_trans by blast
  then show ?thesis using T [rule_format, of k] T [rule_format, of dst] spec_lengths(3) [of popLeft "vals (V src)"]
    by (auto simp: move_spec_def split_def Let_def spec_lengths(1))
qed

lemma list_spec_length:
  assumes T: "\<forall>k. length (vals (V k)) \<le> T"
  shows "length (vals (fst (list_spec op V) k)) \<le> T + list_grow op"
proof -
  have shrink: "length (vals (fst (on_list key missing f V) k)) \<le> T" if "\<And>vs. length (fst (f vs)) \<le> length vs" for key missing f
    using on_list_length [OF T, of f 0] that by simp
  have grow: "length (vals (fst (on_list key missing f V) k)) \<le> Suc T" if "\<And>vs. length (fst (f vs)) \<le> Suc (length vs)" for key missing f
    using on_list_length [OF T, of f 1] that by simp
  have "length (fst (linsert_spec before q x vs)) \<le> Suc (length vs)" for before q x vs
    using spec_lengths(7) [of before q x vs] by (simp add: linsert_spec_def)
  note insert = grow [OF this]
  have push: "length (vals (fst (push_spec p key xs V) k)) \<le> T + length xs" for p key xs
    using T [rule_format, of k] T [rule_format, of key] by (simp add: push_spec_def spec_lengths(1))
  have pop: "length (vals (fst (on_list key missing (pop_spec left n) V) k)) \<le> T" for key missing left n
    by (rule shrink) (simp add: pop_spec_def spec_lengths)
  show ?thesis using T [rule_format, of k]
    by (cases op) (simp_all add: list_grow_def push pop pushx_spec_def move_length [OF T, simplified] insert, simp_all add: shrink spec_lengths lrem_spec_def Let_def trans_le_add1)
qed

lemma list_run_does:
  assumes "list_does reduce dec st eid B m c n a S"
  shows "\<exists>c'. run_cmd m (c, w) = Some (c', a w) \<and> list_ctx reduce dec st eid B c' \<and> shown (list_view reduce dec st c') S \<and>
    length (c_emitted c') \<le> length (c_emitted c) + n \<and>
    (\<forall>k. foreign (db reduce st c k) \<longrightarrow> on_key k (c_emitted c') = on_key k (c_emitted c))"
proof -
  from assms obtain es r where 1: "m c = (r, adding es c)" "r = Inl a \<or> r = Inr a" "length es \<le> n" "list_ctx reduce dec st eid B (adding es c)"
    "\<forall>k. foreign (db reduce st c k) \<longrightarrow> on_key k es = []" "shown (list_view reduce dec st (adding es c)) S" unfolding list_does_def by blast
  then show ?thesis by (intro exI [of _ "adding es c"]) (auto simp: run_cmd_def adding_def)
qed

text \<open>What one command does: its reply, the lists it leaves, and nothing on keys of other types.\<close>

definition list_op_does ::
  "engine \<Rightarrow> (DataEffect \<Rightarrow> bytes) \<Rightarrow> (bytes \<Rightarrow> ReducedEffect option) \<Rightarrow> ids \<Rightarrow> nat \<Rightarrow> nat \<Rightarrow> list_op \<Rightarrow> Context \<Rightarrow> Writer \<Rightarrow> bool" where
  "list_op_does reduce dec st eid B n op c w \<longleftrightarrow>
     (\<exists>c'. run_handler (list_handler eid dec op w) c = Some (c', snd (list_spec op (list_view reduce dec st c)) w) \<and>
        list_ctx reduce dec st eid B c' \<and> shown (list_view reduce dec st c') (fst (list_spec op (list_view reduce dec st c))) \<and>
        length (c_emitted c') \<le> length (c_emitted c) + n \<and>
        (\<forall>k. foreign (db reduce st c k) \<longrightarrow> on_key k (c_emitted c') = on_key k (c_emitted c)))"

text \<open>A handler that rejects some arguments and runs a command on the others.\<close>

lemma list_op_doesI:
  assumes ctx: "list_ctx reduce dec st eid B c"
    and "list_handler eid dec op w = (if bad then reject ks (a w) else accept ks' w (run_cmd m))"
    and "list_spec op (list_view reduce dec st c) = (if bad then (list_view reduce dec st c, a) else S)"
    and "\<not> bad \<Longrightarrow> list_does reduce dec st eid B m c n' (snd S) (fst S)" "n' \<le> n"
  shows "list_op_does reduce dec st eid B n op c w"
proof (cases bad)
  case True
  then show ?thesis using assms(1-3) by (simp add: list_op_does_def)
next
  case False
  then show ?thesis using list_run_does [OF list_does_more [OF assms(4,5)], of w] assms(2,3) by (simp add: list_op_does_def)
qed

lemmas list_op_runs = list_op_doesI [where bad = False, simplified]

lemma push_op_refines:
  assumes ctx: "list_ctx reduce dec st eid B c" and B: "length (c_emitted c) + length xs \<le> B" and n: "length xs + 1 \<le> n"
  shows "list_op_does reduce dec st eid B n (LPush key xs) c w" "list_op_does reduce dec st eid B n (RPush key xs) c w"
    "list_op_does reduce dec st eid B n (LPushX key xs) c w" "list_op_does reduce dec st eid B n (RPushX key xs) c w"
proof -
  note push = push_refines [OF ctx _ _ B] and pushx = pushx_refines [OF ctx _ B, THEN list_does_more, of _ "length xs + 1"]
  note defs = handleLPush_def handleRPush_def handleLPushX_def handleRPushX_def
  show "list_op_does reduce dec st eid B n (LPush key xs) c w"
    by (rule list_op_doesI [OF ctx, where bad = "xs = []", OF _ _ push n]) (auto simp: defs split: list.splits)
  show "list_op_does reduce dec st eid B n (RPush key xs) c w"
    by (rule list_op_doesI [OF ctx, where bad = "xs = []", OF _ _ push n]) (auto simp: defs split: list.splits)
  show "list_op_does reduce dec st eid B n (LPushX key xs) c w"
    by (rule list_op_doesI [OF ctx, where bad = "xs = []", OF _ _ pushx n]) (auto simp: defs split: list.splits)
  show "list_op_does reduce dec st eid B n (RPushX key xs) c w"
    by (rule list_op_doesI [OF ctx, where bad = "xs = []", OF _ _ pushx n]) (auto simp: defs split: list.splits)
qed

lemma pop_op_refines:
  assumes ctx: "list_ctx reduce dec st eid B c" and T: "length (vals (list_view reduce dec st c key)) \<le> T" and n: "1 + T \<le> n"
  shows "list_op_does reduce dec st eid B n (LPop key) c w" "list_op_does reduce dec st eid B n (RPop key) c w"
    "list_op_does reduce dec st eid B n (LPopN key k) c w" "list_op_does reduce dec st eid B n (RPopN key k) c w"
proof -
  note pop = pop_refines [OF ctx T]
  note defs = handleLPop_def handleRPop_def pop_handler_def ParseInt64_printed pop_answer_def
  show "list_op_does reduce dec st eid B n (LPop key) c w"
    by (rule list_op_runs [OF ctx _ _ pop [of True None] n]) (simp_all add: defs)
  show "list_op_does reduce dec st eid B n (RPop key) c w"
    by (rule list_op_runs [OF ctx _ _ pop [of False None] n]) (simp_all add: defs)
  show "list_op_does reduce dec st eid B n (LPopN key k) c w"
    by (rule list_op_doesI [OF ctx _ _ pop [of True "Some (nat (sint k))"] n, where bad = "sint k < 0"]) (auto simp: defs)
  show "list_op_does reduce dec st eid B n (RPopN key k) c w"
    by (rule list_op_doesI [OF ctx _ _ pop [of False "Some (nat (sint k))"] n, where bad = "sint k < 0"]) (auto simp: defs)
qed

lemma list_op_refines:
  assumes ctx: "list_ctx reduce dec st eid B c" and okay: "count_ok op" and T: "\<forall>k. length (vals (list_view reduce dec st c k)) \<le> T"
    and B: "length (c_emitted c) + (4 + T + list_grow op) \<le> B"
  shows "list_op_does reduce dec st eid B (4 + T + list_grow op) op c w"
proof -
  note t = T [rule_format]
  show ?thesis
  proof (cases op)
    case (LSet key i v)
    then show ?thesis by (intro list_op_runs [OF ctx _ _ lset_refines [OF ctx]]) (simp_all add: handleLSet_def ParseInt64_printed)
  next
    case (LRem key n x)
    with okay have n: "sint n \<noteq> MinInt64" by (simp add: count_ok_def)
    with LRem show ?thesis
      by (intro list_op_runs [OF ctx _ _ lrem_refines [OF ctx t n]]) (simp_all add: handleLRem_def ParseInt64_printed)
  next
    case (LTrim key a b)
    then show ?thesis by (intro list_op_runs [OF ctx _ _ ltrim_refines [OF ctx t]]) (simp_all add: handleLTrim_def ParseInt64_printed)
  next
    case (LInsert key before pivot x)
    with B have "Suc (length (c_emitted c)) < B" by simp
    with LInsert show ?thesis
      by (cases before; intro list_op_runs [OF ctx _ _ linsert_refines [OF ctx], where ks' = "[key]"])
        (simp_all add: handleLInsert_def before_after)
  next
    case (LMove src dst popLeft pushLeft)
    with B show ?thesis by (intro list_op_runs [OF ctx _ _ lmove_refines [OF ctx]]) (simp_all add: handleLMove_def)
  next
    case (RPopLPush src dst)
    with B show ?thesis by (intro list_op_runs [OF ctx _ _ lmove_refines [OF ctx]]) (simp_all add: handleRPopLPush_def)
  qed (use B in \<open>auto simp: list_grow_def intro!: push_op_refines [OF ctx] pop_op_refines [OF ctx t]\<close>)
qed

lemma list_spec_Other: "fst (list_spec op V) k = Other \<longleftrightarrow> V k = Other"
  by (cases op) (auto simp: push_spec_def pushx_spec_def on_list_def move_spec_def split_def Let_def vals_def split: slot.splits)

lemma shownD: "shown V S \<Longrightarrow> V k = Other \<longleftrightarrow> S k = Other" "shown V S \<Longrightarrow> length (vals (V k)) \<le> length (vals (S k))"
  by (auto simp: shown_def dest: spec [of _ k])

lemma list_ops_refine:
  assumes "list_ctx reduce dec st eid B c" "list_all count_ok ops" "\<forall>k. length (vals (list_view reduce dec st c k)) \<le> T"
    and "length (c_emitted c) + list_costs ops T \<le> B"
  shows "\<exists>c' as. run_list_ops eid dec ops (c, w) = Some (c', write_all (\<lambda>a. a) as w) \<and>
    list_run ops (list_view reduce dec st c) as (list_view reduce dec st c') \<and> list_ctx reduce dec st eid B c' \<and>
    (\<forall>k. foreign (db reduce st c' k) \<longleftrightarrow> foreign (db reduce st c k)) \<and>
    (\<forall>k. foreign (db reduce st c k) \<longrightarrow> on_key k (c_emitted c') = on_key k (c_emitted c))"
  using assms
proof (induction ops arbitrary: c w T)
  case Nil
  then show ?case by (intro exI [of _ c] exI [of _ "[]"]) (simp add: write_all_def list_run_Nil)
next
  case (Cons op ops)
  let ?V = "list_view reduce dec st c"
  obtain c1 where c1: "run_handler (list_handler eid dec op w) c = Some (c1, snd (list_spec op ?V) w)"
    "list_ctx reduce dec st eid B c1" "shown (list_view reduce dec st c1) (fst (list_spec op ?V))"
    "length (c_emitted c1) \<le> length (c_emitted c) + (4 + T + list_grow op)"
    "\<forall>k. foreign (db reduce st c k) \<longrightarrow> on_key k (c_emitted c1) = on_key k (c_emitted c)"
    using list_op_refines [of reduce dec st eid B c op T w] Cons.prems unfolding list_op_does_def by auto
  have f: "foreign (db reduce st c1 k) \<longleftrightarrow> foreign (db reduce st c k)" for k
    using shownD(1) [OF c1(3), of k] by (simp add: list_spec_Other list_view_cases(1))
  have "\<forall>k. length (vals (list_view reduce dec st c1 k)) \<le> T + list_grow op"
    using shownD(2) [OF c1(3)] list_spec_length [OF Cons.prems(3)] le_trans by blast
  from Cons.IH [OF c1(2) _ this, of "snd (list_spec op ?V) w"] Cons.prems(2,4) c1(4)
  obtain c' as where 2: "run_list_ops eid dec ops (c1, snd (list_spec op ?V) w) = Some (c', write_all (\<lambda>a. a) as (snd (list_spec op ?V) w))"
    "list_run ops (list_view reduce dec st c1) as (list_view reduce dec st c')" "list_ctx reduce dec st eid B c'"
    "\<forall>k. foreign (db reduce st c' k) \<longleftrightarrow> foreign (db reduce st c1 k)"
    "\<forall>k. foreign (db reduce st c1 k) \<longrightarrow> on_key k (c_emitted c') = on_key k (c_emitted c1)" by auto
  show ?case
  proof (intro exI conjI)
    show "run_list_ops eid dec (op # ops) (c, w) = Some (c', write_all (\<lambda>a. a) (snd (list_spec op ?V) # as) w)"
      using c1(1) 2(1) by (simp add: write_all_def)
    show "list_run (op # ops) ?V (snd (list_spec op ?V) # as) (list_view reduce dec st c')" by (rule list_run_Cons [OF c1(3) 2(2)])
  qed (use 2 f c1(5) in auto)
qed

text \<open>
  Claim C3. Lists are lists: any sequence of \<^verbatim>\<open>LPUSH\<close>, \<^verbatim>\<open>RPUSH\<close>, \<^verbatim>\<open>LPUSHX\<close>, \<^verbatim>\<open>RPUSHX\<close>, \<^verbatim>\<open>LPOP\<close>, \<^verbatim>\<open>RPOP\<close>, \<^verbatim>\<open>LSET\<close>, \<^verbatim>\<open>LREM\<close>, \<^verbatim>\<open>LTRIM\<close>, \<^verbatim>\<open>LINSERT\<close>, \<^verbatim>\<open>LMOVE\<close> and \<^verbatim>\<open>RPOPLPUSH\<close>, on keys
  that are missing, hold lists or hold other types, does what the same operations on mathematical lists do. Each command gives the reply
  of the specification (a \<^verbatim>\<open>WRONGTYPE\<close> error for a key of another type, which stays as it is, the replies for a missing key, the length,
  the number of removed elements, the elements), and afterwards every key shows the list that the specification leaves, also when a list
  is moved to itself. The specification is a relation in one respect only: whether a list left without elements still exists
  is up to the engine, and the next commands may meet an empty list or a missing key. Integer arguments are any 64-bit integers except the least
  one as the count of \<^verbatim>\<open>LREM\<close>, whose negation overflows. The engine and the names of new elements are parameters: the engine obeys the
  laws of ordered collections, the elements of every list have different names, and the names of new elements do not repeat within
  the number of effects that the sequence can emit when no list starts with more than \<open>T\<close> elements.
\<close>

theorem lists_refine:
  assumes "list_engine reduce dec" "backed reduce st c" "\<forall>k. foreign (db reduce st c k) \<or> list_wf (db reduce st c k)"
    and "fresh_names reduce dec st eid B c" "list_all count_ok ops"
    and "\<forall>k. length (vals (list_view reduce dec st c k)) \<le> T" "length (c_emitted c) + list_costs ops T \<le> B"
  shows "\<exists>c' as. run_list_ops eid dec ops (c, w) = Some (c', write_all (\<lambda>a. a) as w) \<and>
    list_run ops (list_view reduce dec st c) as (list_view reduce dec st c')"
  using list_ops_refine [of reduce dec st eid B c ops T w] assms by (auto simp: list_ctx_def)

lemma EncodeElementID_inj: "EncodeElementID h n = EncodeElementID h' n' \<longleftrightarrow> h = h' \<and> n = n'"
proof
  assume eq: "EncodeElementID h n = EncodeElementID h' n'"
  then have "le64 h = le64 h'" "le64 n = le64 n'" by (simp_all add: EncodeElementID_def)
  then show "h = h' \<and> n = n'" by (metis le64_read_le64)
qed simp

definition clock_ids :: "u64 \<Rightarrow> ids" where
  "clock_ids node n = EncodeElementID (of_nat n) node"

lemma clock_ids_fresh: "inj_on (clock_ids node) {..<2 ^ 64}" "clock_ids node n \<noteq> []"
proof -
  show "inj_on (clock_ids node) {..<2 ^ 64}"
    by (rule inj_onI) (simp add: clock_ids_def EncodeElementID_inj of_nat_inverse word_of_nat_eq_iff take_bit_nat_eq_self)
  have "length (clock_ids node n) = 16" by (simp add: clock_ids_def EncodeElementID_def)
  then show "clock_ids node n \<noteq> []" by auto
qed

text \<open>A database with one string.\<close>

definition one_string :: "bytes \<Rightarrow> ReducedEffect option" where
  "one_string k = (if k = [115] then Some (empty_ordered\<lparr>r_Collection := SCALAR, r_TypeTag := TYPE_STRING\<rparr>) else None)"

lemma one_string_context:
  defines "c \<equiv> engine_context place_reduce one_string"
  shows "foreign (db place_reduce one_string c k) \<longleftrightarrow> k = [115]" "\<forall>k. foreign (db place_reduce one_string c k) \<or> list_wf (db place_reduce one_string c k)"
    "list_view place_reduce GetRaw one_string c = (\<lambda>_. Missing)([115] := Other)"
    "fresh_names place_reduce GetRaw one_string (clock_ids 7) (2 ^ 64) c" "c_emitted c = []"
proof -
  have d: "db place_reduce one_string c k = one_string k" for k by (simp add: db_def c_def engine_context_def)
  show f: "foreign (db place_reduce one_string c k) \<longleftrightarrow> k = [115]" for k
    by (auto simp: d one_string_def foreign_def holds_list_def empty_ordered_def)
  show "\<forall>k. foreign (db place_reduce one_string c k) \<or> list_wf (db place_reduce one_string c k)"
    unfolding f by (simp add: d one_string_def list_wf_def)
  show "list_view place_reduce GetRaw one_string c = (\<lambda>_. Missing)([115] := Other)"
  proof
    fix k
    show "list_view place_reduce GetRaw one_string c k = ((\<lambda>_. Missing)([115] := Other)) k"
      using f [of k] unfolding list_view_def slot_of_def d by (cases "k = [115]") (simp_all add: one_string_def empty_ordered_def)
  qed
  show "fresh_names place_reduce GetRaw one_string (clock_ids 7) (2 ^ 64) c"
  proof -
    have "pairs GetRaw (one_string k) = []" for k by (simp add: one_string_def pairs_def ordered_def empty_ordered_def)
    then show ?thesis using clock_ids_fresh unfolding fresh_names_def d by simp
  qed
  show "c_emitted c = []" by (simp add: c_def engine_context_def)
qed

lemma list_run_step:
  assumes "list_spec op V = (S, a)" "\<forall>k. S k \<noteq> Values []"
  shows "list_run (op # ops) V as W \<longleftrightarrow> (\<exists>as'. as = a # as' \<and> list_run ops S as' W)"
proof -
  have "shown V' S \<longleftrightarrow> V' = S" for V' using assms(2) by (auto simp: shown_def fun_eq_iff)
  then show ?thesis unfolding list_run_simps assms(1) by auto
qed

theorem lists_refine_witness:
  "\<exists>c'. run_list_ops (clock_ids 7) GetRaw
      [RPushX [97] [[9]], RPush [97] [[1], [2], [3]], LPush [115] [[1]], LMove [97] [98] True False, LTrim [97] (- 1) 5, LSet [99] 0 [7]]
      (engine_context place_reduce one_string, NewWriter []) =
      Some (c', write_all (\<lambda>a. a) [WriteZero, WriteInteger 3, WriteWrongType, WriteBulkString [1], WriteOK, WriteError (bstr ''ERR no such key'')]
        (NewWriter [])) \<and>
    list_view place_reduce GetRaw one_string c' = (\<lambda>_. Missing)([115] := Other, [97] := Values [[3]], [98] := Values [[1]])"
proof -
  let ?c = "engine_context place_reduce one_string"
  let ?ops = "[RPushX [97] [[9]], RPush [97] [[1], [2], [3]], LPush [115] [[1]], LMove [97] [98] True False, LTrim [97] (- 1) 5, LSet [99] 0 [7]]"
  define V0 V1 V2 V3 :: slots where "V0 = (\<lambda>_. Missing)([115] := Other)" and "V1 = V0([97] := Values [[1], [2], [3]])"
    and "V2 = V1([97] := Values [[2], [3]], [98] := Values [[1]])" and "V3 = V2([97] := Values [[3]])"
  note V = V0_def V1_def V2_def V3_def
  note ctx = one_string_context
  have k: "list_all count_ok ?ops" by (simp add: count_ok_def)
  have len: "\<forall>k. length (vals (list_view place_reduce GetRaw one_string ?c k)) \<le> 0" unfolding ctx(3) by simp
  have cost: "length (c_emitted ?c) + list_costs ?ops 0 \<le> 2 ^ 64" by (simp add: ctx(5) list_grow_def)
  obtain c' as where 1: "run_list_ops (clock_ids 7) GetRaw ?ops (?c, NewWriter []) = Some (c', write_all (\<lambda>a. a) as (NewWriter []))"
    "list_run ?ops V0 as (list_view place_reduce GetRaw one_string c')"
    using lists_refine [OF place_engine backed_engine_context ctx(2,4) k len cost] unfolding ctx(3) V0_def by blast
  have spec: "list_spec (RPushX [97] [[9]]) V0 = (V0, WriteZero)" "list_spec (RPush [97] [[1], [2], [3]]) V0 = (V1, WriteInteger 3)"
    "list_spec (LPush [115] [[1]]) V1 = (V1, WriteWrongType)" "list_spec (LMove [97] [98] True False) V1 = (V2, WriteBulkString [1])"
    "list_spec (LTrim [97] (- 1) 5) V2 = (V3, WriteOK)" "list_spec (LSet [99] 0 [7]) V3 = (V3, WriteError (bstr ''ERR no such key''))"
    by (simp_all add: V pushx_spec_def push_spec_def pushed_def move_spec_def pop_list_def on_list_def between_def position_def nths_Cons fun_upd_twist)
  have ne: "\<forall>k. V0 k \<noteq> Values []" "\<forall>k. V1 k \<noteq> Values []" "\<forall>k. V2 k \<noteq> Values []" "\<forall>k. V3 k \<noteq> Values []" by (simp_all add: V)
  have "as = [WriteZero, WriteInteger 3, WriteWrongType, WriteBulkString [1], WriteOK, WriteError (bstr ''ERR no such key'')] \<and>
      list_view place_reduce GetRaw one_string c' = V3"
    using 1(2) by (auto simp: spec [THEN list_run_step] ne list_run_simps(1))
  moreover have "V3 = (\<lambda>_. Missing)([115] := Other, [97] := Values [[3]], [98] := Values [[1]])" by (simp add: V fun_eq_iff)
  ultimately show ?thesis using 1(1) by blast
qed

text \<open>
  Claim C18. List commands are safe for types: no sequence of them emits a single effect on a key that holds a value of another type,
  so such a key keeps its value, and every key that was missing or held a list is afterwards missing or holds a list whose
  elements have pairwise different names that are not empty. The assumptions are those of the refinement of lists.
\<close>

theorem lists_stay_well_formed:
  assumes "list_engine reduce dec" "backed reduce st c" "\<forall>k. foreign (db reduce st c k) \<or> list_wf (db reduce st c k)"
    and "fresh_names reduce dec st eid B c" "list_all count_ok ops"
    and "\<forall>k. length (vals (list_view reduce dec st c k)) \<le> T" "length (c_emitted c) + list_costs ops T \<le> B"
  shows "\<exists>c' w'. run_list_ops eid dec ops (c, w) = Some (c', w') \<and>
    (\<forall>k. if foreign (db reduce st c k) then on_key k (c_emitted c') = on_key k (c_emitted c) \<and> db reduce st c' k = db reduce st c k
         else list_wf (db reduce st c' k))"
proof -
  have ctx: "list_ctx reduce dec st eid B c" using assms(1-4) by (simp add: list_ctx_def)
  obtain c' as where "run_list_ops eid dec ops (c, w) = Some (c', write_all (\<lambda>a. a) as w)" "list_ctx reduce dec st eid B c'"
    "\<forall>k. foreign (db reduce st c' k) \<longleftrightarrow> foreign (db reduce st c k)"
    "\<forall>k. foreign (db reduce st c k) \<longrightarrow> on_key k (c_emitted c') = on_key k (c_emitted c)"
    using list_ops_refine [OF ctx assms(5-7), of w] by blast
  then show ?thesis using list_ctxD(3) by (intro exI conjI) (auto simp: db_def)
qed

theorem lists_stay_well_formed_witness:
  "\<exists>c' w'. run_list_ops (clock_ids 7) GetRaw [LPush [97] [[1], [1]], RPush [115] [[2]], LMove [97] [115] True False, LMove [97] [97] True False]
      (engine_context place_reduce one_string, NewWriter []) = Some (c', w') \<and>
    db place_reduce one_string c' [115] = one_string [115] \<and> list_wf (db place_reduce one_string c' [97])"
proof -
  let ?c = "engine_context place_reduce one_string"
  let ?ops = "[LPush [97] [[1], [1]], RPush [115] [[2]], LMove [97] [115] True False, LMove [97] [97] True False]"
  note ctx = one_string_context
  have k: "list_all count_ok ?ops" by (simp add: count_ok_def)
  have len: "\<forall>k. length (vals (list_view place_reduce GetRaw one_string ?c k)) \<le> 0" unfolding ctx(3) by simp
  have cost: "length (c_emitted ?c) + list_costs ?ops 0 \<le> 2 ^ 64" by (simp add: ctx(5) list_grow_def)
  obtain c' w' where 1: "run_list_ops (clock_ids 7) GetRaw ?ops (?c, NewWriter []) = Some (c', w')"
    and 2: "\<forall>k. if foreign (db place_reduce one_string ?c k)
      then on_key k (c_emitted c') = on_key k (c_emitted ?c) \<and> db place_reduce one_string c' k = db place_reduce one_string ?c k
      else list_wf (db place_reduce one_string c' k)"
    using lists_stay_well_formed [OF place_engine backed_engine_context ctx(2,4) k len cost] by blast
  have "db place_reduce one_string ?c [115] = one_string [115]" by (simp add: db_def engine_context_def)
  then have "db place_reduce one_string c' [115] = one_string [115]" using 2 [rule_format, of "[115]"] ctx(1) [of "[115]"] by metis
  moreover have "list_wf (db place_reduce one_string c' [97])" using 2 [rule_format, of "[97]"] by (simp add: ctx(1))
  ultimately show ?thesis using 1 by blast
qed

end
