(* ===== verification/List_Waiting.thy ===== *)
theory List_Waiting
  imports List_Blocking List_Theorems
begin

text \<open>Properties of searching lists, of oversized arguments and of the blocking list commands.\<close>

section \<open>LPOS\<close>

text \<open>The positions in the order of the search, cut after the given number of comparisons.\<close>

definition search_order :: "LPosOpts \<Rightarrow> nat \<Rightarrow> nat list" where
  "search_order opts n =
     (let order = (if lp_rank opts > 0 then [0..<n] else rev [0..<n])
      in if lp_maxlen opts > 0 then take (nat (lp_maxlen opts)) order else order)"

lemma lpos_loop_eq:
  "int (length matches) < needed \<Longrightarrow>
   lpos_loop P maxlen needed comparisons skip ys matches =
     matches @ take (nat needed - length matches) (drop (nat skip) (map fst (filter (P \<circ> snd)
       (if maxlen > 0 then take (nat (maxlen - comparisons)) ys else ys))))"
proof (induction P maxlen needed comparisons skip ys matches rule: lpos_loop.induct)
  case (2 P maxlen needed comparisons skip idx x r matches)
  show ?case
  proof (cases "maxlen > 0 \<and> comparisons \<ge> maxlen")
    case False
    then have t: "maxlen > 0 \<Longrightarrow> nat (maxlen - comparisons) = Suc (nat (maxlen - (comparisons + 1)))" by simp
    have s: "skip > 0 \<Longrightarrow> nat skip = Suc (nat (skip - 1))" by simp
    have n: "\<not> needed \<le> 1 + int (length matches) \<Longrightarrow>
        nat needed - length matches = Suc (nat needed - Suc (length matches))" by arith
    have m: "needed \<le> 1 + int (length matches) \<Longrightarrow> nat needed - length matches = Suc 0" using "2.prems" by arith
    show ?thesis using 2 False by (auto simp: t s n m)
  qed simp
qed simp

text \<open>
  Claim C17. \<^verbatim>\<open>LPOS\<close> finds what its options ask for: the loop with its counters of comparisons, of skipped and of found matches gives,
  in the order of the search, the positions of the matches within the first \<^verbatim>\<open>MAXLEN\<close> comparisons, without the first \<open>|RANK| - 1\<close>
  of them, and of these the first, the first \<^verbatim>\<open>COUNT\<close>, or all for a count of 0.
\<close>

theorem lpos_matches_exact:
  "lpos_matches P opts xs =
     take (if lp_count opts < 0 then 1 else if lp_count opts = 0 then length xs else nat (lp_count opts))
       (drop (nat (\<bar>lp_rank opts\<bar> - 1)) (filter (\<lambda>i. P (xs ! i)) (search_order opts (length xs))))"
proof -
  define ys where "ys = (if lp_rank opts > 0 then enumerate 0 xs else rev (enumerate 0 xs))"
  have enum: "enumerate 0 xs = map (\<lambda>i. (i, xs ! i)) [0..<length xs]" by (rule nth_equalityI) (simp_all add: nth_enumerate_eq)
  have ys: "ys = map (\<lambda>i. (i, xs ! i)) (if lp_rank opts > 0 then [0..<length xs] else rev [0..<length xs])"
    by (simp add: ys_def enum rev_map)
  have window: "map fst (filter (P \<circ> snd) (if lp_maxlen opts > 0 then take (nat (lp_maxlen opts)) ys else ys)) =
      filter (\<lambda>i. P (xs ! i)) (search_order opts (length xs))"
    by (simp add: search_order_def ys Let_def take_map filter_map o_def)
  define needed where "needed = (if lp_count opts < 0 then 1 else if lp_count opts = 0 then int (length xs) else lp_count opts)"
  show ?thesis
  proof (cases "xs = []")
    case False
    then have "0 < needed" by (simp add: needed_def)
    then have "lpos_matches P opts xs = take (nat needed) (drop (nat (\<bar>lp_rank opts\<bar> - 1)) (filter (\<lambda>i. P (xs ! i)) (search_order opts (length xs))))"
      unfolding lpos_matches_def Let_def needed_def [symmetric] ys_def [symmetric]
      by (subst lpos_loop_eq) (simp_all add: window [symmetric] abs_if)
    then show ?thesis by (simp add: needed_def)
  qed (simp add: lpos_matches_def search_order_def)
qed

section \<open>Oversized arguments\<close>

text \<open>
  Claim C40. \<^verbatim>\<open>LMPOP\<close> with a number of keys next to the largest 64-bit integer panics: the sum in the length check wraps around,
  so that the check passes, and the slice for the keys cannot be allocated.
\<close>

theorem lmpop_huge_numkeys_panics:
  assumes "ParseInt64 numkeys = Some n" "MaxInt64 - 1 \<le> sint n"
  shows "handleLMPop dec (numkeys # a # b # r) w = None"
proof -
  have "sint n < 2 ^ 63" using sint_lt [of n] by simp
  then have "sint n = MaxInt64 - 1 \<or> sint n = MaxInt64" using assms(2) by auto
  then have "sint n = sint (9223372036854775806 :: i64) \<or> sint n = sint (9223372036854775807 :: i64)" by simp
  then have "n = 9223372036854775806 \<or> n = 9223372036854775807" by (metis signed_word_eqI)
  then have "sint (n + 2) < 0" "make_panics 16 (sint n)" "\<not> sint n < 1" by (auto simp: make_panics_def)
  then show ?thesis using assms(1) by (simp add: handleLMPop_def parse_mpop_def)
qed

theorem lmpop_huge_numkeys_panics_witness:
  "handleLMPop GetRaw [bstr ''9223372036854775807'', bstr ''k'', bstr ''LEFT''] (NewWriter []) = None"
proof -
  have "ParseInt64 (bstr ''9223372036854775807'') = Some (word_of_int MaxInt64)"
    by (simp add: ParseInt64_def bytes_simps Let_def)
  from lmpop_huge_numkeys_panics [OF this, of GetRaw] show ?thesis by simp
qed

lemma collect_nonpos: "sint count \<le> 0 \<Longrightarrow> collect_matches P count xs [] = take 1 (filter P xs)"
  by (induction xs) simp_all

text \<open>
  \<^verbatim>\<open>LREM\<close> with the smallest 64-bit integer as its count removes the last match only: the negation of the count is the count itself,
  which the first match already reaches.
\<close>

lemma lrem_min_count: "lrem_elements P (word_of_int MinInt64) xs = take 1 (filter P (rev xs))"
  by (simp add: lrem_elements_def collect_nonpos)

section \<open>Blocked commands end\<close>

lemma wait_loop_ends: "WaitFailed u \<in> set wakes \<Longrightarrow> \<exists>a c'. wait_loop attempt timed_out n wakes c = (Some a, c')"
proof (induction wakes arbitrary: n c)
  case (Cons x wakes)
  then show ?case by (subst wait_loop.simps) (auto split: prod.split sum.split option.split wake.split)
qed simp

lemma say_ends: "WaitFailed u \<in> set wakes \<Longrightarrow> \<exists>r. say w (wait_loop attempt timed_out n wakes c) = Some r"
  using wait_loop_ends [of u wakes attempt timed_out n c] by (auto simp: say_def)

text \<open>
  Claim C36. A blocked list command does not hang: whatever \<^verbatim>\<open>BLPOP\<close>, \<^verbatim>\<open>BRPOP\<close>, \<^verbatim>\<open>BLMOVE\<close>, \<^verbatim>\<open>BRPOPLPUSH\<close> and \<^verbatim>\<open>BLMPOP\<close> are given and see,
  their loops end once a wait fails, with a timeout, the end of the connection or \<^verbatim>\<open>CLIENT UNBLOCK\<close>, after any number of
  notifications.
\<close>

theorem blocked_list_commands_end:
  assumes "WaitFailed u \<in> set wakes"
  shows "handleBLPop dec N oldest reg inScript args wakes c w \<noteq> None \<and> handleBRPop dec N oldest reg inScript args wakes c w \<noteq> None \<and>
    handleBLMove eid dec N reg inScript args wakes c w \<noteq> None \<and> handleBRPopLPush eid dec N reg inScript args wakes c w \<noteq> None \<and>
    handleBLMPop dec N oldest reg inScript args wakes c w \<noteq> Waiting"
proof -
  note ends = say_ends [OF assms]
  have pop: "handleBlockingPop dec N oldest reg inScript left args wakes c w \<noteq> None" for left
    using ends unfolding handleBlockingPop_def by (auto split: sum.split prod.split option.split)
  have move: "blocking_move eid dec reg source destination popLeft pushLeft wakes c w \<noteq> None" for source destination popLeft pushLeft
    using ends unfolding blocking_move_def by (auto split: option.split)
  have outcome: "outcome_of (say w (wait_loop attempt WriteNullArray 0 wakes c')) \<noteq> Waiting" for attempt c'
    using ends [of w attempt WriteNullArray 0 c'] by (auto simp: outcome_of_def)
  have "handleBLMove eid dec N reg inScript args wakes c w \<noteq> None"
    using move unfolding handleBLMove_def by (auto split: list.split sum.split prod.split option.split)
  moreover have "handleBRPopLPush eid dec N reg inScript args wakes c w \<noteq> None"
    using move unfolding handleBRPopLPush_def by (auto split: list.split sum.split)
  moreover have "handleBLMPop dec N oldest reg inScript args wakes c w \<noteq> Waiting"
    unfolding handleBLMPop_def by (auto simp: outcome split: sum.split prod.split option.split)
  ultimately show ?thesis using pop by (simp add: handleBLPop_def handleBRPop_def)
qed

definition some_numbers :: numbers where
  "some_numbers = \<lparr>n_ParseFloat = (\<lambda>s. if s = bstr ''0'' then Some 0 else None), n_ParseInt0 = (\<lambda>_. None), n_ParseUint0 = (\<lambda>_. None),
     n_of_int64 = (\<lambda>_. 0), n_of_uint64 = (\<lambda>_. 0)\<rparr>"

theorem blocked_list_commands_end_witness:
  "handleBLPop GetRaw some_numbers (\<lambda>_ _. True) None False [bstr ''k'', bstr ''0''] [Woken (\<lambda>_ _. Inr (None, [])), WaitFailed False]
    empty_context (NewWriter []) \<noteq> None"
  using blocked_list_commands_end [of False "[Woken (\<lambda>_ _. Inr (None, [])), WaitFailed False]"] by simp

section \<open>Blocked commands are served\<close>

text \<open>The keys hold nothing in the snapshots \<open>f\<close> after the effects \<open>es\<close>.\<close>

definition misses :: "((Effect \<times> tip list) list \<Rightarrow> bytes \<Rightarrow> bytes + ReducedEffect option \<times> tip list) \<Rightarrow> (Effect \<times> tip list) list \<Rightarrow> bytes list \<Rightarrow> bool" where
  "misses f es keys \<longleftrightarrow> (\<forall>k\<in>set keys. \<exists>s tips. f es k = Inr (s, tips) \<and> \<not> live s)"

lemma missing_list: "GetSnapshot key c = Inr (s, tips) \<Longrightarrow> \<not> live s \<Longrightarrow> getListSnapshot key c = (Inr (None, tips, False, False), c)"
  by (auto simp: list_reader.get_snapshot typed_def split: option.splits)

lemma pop_attempt_misses: "misses (c_snapshot c) (c_emitted c) keys \<Longrightarrow> pop_attempt dec left oldest keys n c = (Inr None, c)"
proof (induction keys)
  case (Cons key keys)
  obtain s tips where "GetSnapshot key c = Inr (s, tips)" "\<not> live s" using Cons.prems by (auto simp: misses_def GetSnapshot_def)
  then have "tryPop dec key left (oldest n key) c = (Inr None, c)" by (simp add: tryPop_def missing_list bind_cmd_def ok_def)
  then show ?case using Cons by (simp add: misses_def bind_cmd_def)
qed (simp add: ok_def)

lemma check_types_misses: "misses (c_snapshot c) (c_emitted c) keys \<Longrightarrow> check_types keys c = (Inr (), c)"
proof (induction keys)
  case (Cons key keys)
  obtain s tips where "GetSnapshot key c = Inr (s, tips)" "\<not> live s" using Cons.prems by (auto simp: misses_def GetSnapshot_def)
  then have "typed_key getListSnapshot key (\<lambda>_ _ _. ok ()) c = (Inr (), c)" by (simp add: list_reader.typed_key_missing ok_def)
  then show ?case using Cons by (simp add: check_types_def misses_def seq_cmd_def bind_cmd_def)
qed (simp add: check_types_def ok_def)

lemma tryPop_hit:
  assumes "reads_ok c" "GetSnapshot key c = Inr (Some r, tips)" "r_Op r = INSERT_OP" "list_typed r" "r_Ordered r \<noteq> []"
    and e: "e = hd (pop_order left (r_Ordered r))"
  shows "tryPop dec key left True c =
    (Inr (Some (dec (el_Data e))), adding [(noop_effect key, tips), (list_remove key (d_Id (el_Data e)), [])] c)"
  using assms(1,3-5) unfolding e
  by (simp add: tryPop_def bind_cmd_def list_reader.get_snapshot [OF assms(2)] typed_def ordered_def Let_def seq_cmd_def emitNoop_def
      emitListRemove_def emit_cmd_ok ok_def noop_effect_def)

lemma pop_attempt_served:
  assumes "misses (c_snapshot c) (c_emitted c) ks" "oldest n key"
    and hit: "reads_ok c" "GetSnapshot key c = Inr (Some r, tips)" "r_Op r = INSERT_OP" "list_typed r" "r_Ordered r \<noteq> []"
    and e: "e = hd (pop_order left (r_Ordered r))"
  shows "pop_attempt dec left oldest (ks @ key # ks') n c =
    (Inr (Some (pop_reply key (dec (el_Data e)))), adding [(noop_effect key, tips), (list_remove key (d_Id (el_Data e)), [])] c)"
  using assms(1)
proof (induction ks)
  case Nil
  then show ?case using assms(2) tryPop_hit [OF hit e, of dec] by (simp add: bind_cmd_def ok_def)
next
  case (Cons k ks)
  obtain s t where "GetSnapshot k c = Inr (s, t)" "\<not> live s" using Cons.prems by (auto simp: misses_def GetSnapshot_def)
  then have "tryPop dec k left (oldest n k) c = (Inr None, c)" by (simp add: tryPop_def missing_list bind_cmd_def ok_def)
  then show ?case using Cons by (simp add: misses_def bind_cmd_def)
qed

lemma wait_loop_misses:
  assumes "\<And>f n. f \<in> insert (c_snapshot c) (set fs) \<Longrightarrow> attempt n (c\<lparr>c_snapshot := f\<rparr>) = (Inr None, c\<lparr>c_snapshot := f\<rparr>)"
  shows "wait_loop attempt timed_out n (map Woken fs @ Woken g # rest) c =
    wait_loop attempt timed_out (n + length fs + 1) rest (c\<lparr>c_snapshot := g\<rparr>)"
  using assms
proof (induction fs arbitrary: n c)
  case Nil
  from Nil [of "c_snapshot c" n] show ?case by (subst wait_loop.simps) simp
next
  case (Cons f fs)
  have "wait_loop attempt timed_out n (map Woken (f # fs) @ Woken g # rest) c =
      wait_loop attempt timed_out (Suc n) (map Woken fs @ Woken g # rest) (c\<lparr>c_snapshot := f\<rparr>)"
    using Cons.prems [of "c_snapshot c" n] by (subst wait_loop.simps) simp
  also have "\<dots> = wait_loop attempt timed_out (Suc n + length fs + 1) rest (c\<lparr>c_snapshot := f\<rparr>\<lparr>c_snapshot := g\<rparr>)"
    by (rule Cons.IH) (use Cons.prems in auto)
  finally show ?case by simp
qed

text \<open>
  Claim C16. A blocked pop is served: when the keys of \<^verbatim>\<open>BLPOP\<close> or \<^verbatim>\<open>BRPOP\<close> hold nothing at the call and after any number of
  notifications, and after a further one the first key with something holds a list for which the client is the oldest waiter,
  then the reply is that key with the element at the asked end, whatever comes later, and the only effects emitted are the one
  that keeps the tips and the removal of that element.
\<close>

theorem blocked_pop_is_served:
  assumes "ParseBlockingTimeout N timeout = Inr t" "reads_ok (c\<lparr>c_snapshot := g\<rparr>)" "\<forall>f\<in>insert (c_snapshot c) (set fs). misses f (c_emitted c) (ks @ key # ks')"
    and "misses g (c_emitted c) ks" "oldest (length fs + 1) key" "g (c_emitted c) key = Inr (Some r, tips)"
    and "r_Op r = INSERT_OP" "list_typed r" "r_Ordered r \<noteq> []" "e = hd (pop_order left (r_Ordered r))"
  shows "handleBlockingPop dec N oldest None False left (ks @ key # ks' @ [timeout]) (map Woken fs @ Woken g # rest) c w =
    Some (pop_reply key (dec (el_Data e)) w,
      adding [(noop_effect key, tips), (list_remove key (d_Id (el_Data e)), [])] (c\<lparr>c_snapshot := g\<rparr>))"
proof -
  let ?keys = "ks @ key # ks'" and ?att = "pop_attempt dec left oldest (ks @ key # ks')"
  have split: "butlast (ks @ key # ks' @ [timeout]) = ?keys" "last (ks @ key # ks' @ [timeout]) = timeout"
    using butlast_snoc [of ?keys timeout] last_snoc [of ?keys timeout] by simp_all
  have check: "check_types ?keys c = (Inr (), c)" using assms(3) by (simp add: check_types_misses)
  have loop: "wait_loop ?att WriteNullArray 0 (map Woken fs @ Woken g # rest) c =
      wait_loop ?att WriteNullArray (0 + length fs + 1) rest (c\<lparr>c_snapshot := g\<rparr>)"
    by (rule wait_loop_misses) (use assms(3) in \<open>auto intro!: pop_attempt_misses\<close>)
  have "?att (0 + length fs + 1) (c\<lparr>c_snapshot := g\<rparr>) = (Inr (Some (pop_reply key (dec (el_Data e)))),
      adding [(noop_effect key, tips), (list_remove key (d_Id (el_Data e)), [])] (c\<lparr>c_snapshot := g\<rparr>))"
    by (rule pop_attempt_served) (use assms in \<open>simp_all add: GetSnapshot_def\<close>)
  then have "wait_loop ?att WriteNullArray (0 + length fs + 1) rest (c\<lparr>c_snapshot := g\<rparr>) = (Some (pop_reply key (dec (el_Data e))),
      adding [(noop_effect key, tips), (list_remove key (d_Id (el_Data e)), [])] (c\<lparr>c_snapshot := g\<rparr>))"
    by (subst wait_loop.simps) simp
  then show ?thesis unfolding handleBlockingPop_def split by (simp add: assms(1) check say_def loop)
qed

definition one_element :: ReducedEffect where
  "one_element = empty_ordered\<lparr>r_Ordered := [new_el PLACE_HEAD [] [1] [120]]\<rparr>"

theorem blocked_pop_is_served_witness:
  "handleBlockingPop GetRaw some_numbers (\<lambda>_ _. True) None False True [[97], [107], bstr ''0'']
    [Woken (\<lambda>_ _. Inr (None, [])), Woken (\<lambda>_ k. Inr (if k = [107] then Some one_element else None, []))] empty_context (NewWriter []) =
    Some (pop_reply [107] [120] (NewWriter []), adding [(noop_effect [107], []), (list_remove [107] [1], [])]
      (empty_context\<lparr>c_snapshot := (\<lambda>_ k. Inr (if k = [107] then Some one_element else None, []))\<rparr>))"
proof -
  let ?f = "\<lambda>_ _. Inr (None, [])" and ?g = "\<lambda>_ k. Inr (if k = [107] then Some one_element else None, [])"
  let ?e = "new_el PLACE_HEAD [] [1] [120]"
  have t: "ParseBlockingTimeout some_numbers (bstr ''0'') = Inr 0"
    by (simp add: ParseBlockingTimeout_def some_numbers_def max_timeout_def f64_is_inf_def f64_is_nan_def f64_lt_def f64_ord_def f64_mag_def f64_sign_def)
  have em: "c_emitted empty_context = []" "c_snapshot empty_context = ?f" "reads_ok (empty_context\<lparr>c_snapshot := ?g\<rparr>)" by (simp_all add: empty_context_def reads_ok_def)
  have one: "r_Op one_element = INSERT_OP" "list_typed one_element" "r_Ordered one_element = [?e]"
    by (simp_all add: one_element_def empty_ordered_def list_typed_def)
  have e: "GetRaw (el_Data ?e) = [120]" "d_Id (el_Data ?e) = [1]" "pop_order True [?e] = [?e]"
    by (simp_all add: new_el_def GetRaw_def insert_data_def pop_order_def)
  have "handleBlockingPop GetRaw some_numbers (\<lambda>_ _. True) None False True ([[97]] @ [107] # [] @ [bstr ''0''])
      (map Woken [?f] @ Woken ?g # []) empty_context (NewWriter []) =
    Some (pop_reply [107] (GetRaw (el_Data ?e)) (NewWriter []),
      adding [(noop_effect [107], []), (list_remove [107] (d_Id (el_Data ?e)), [])] (empty_context\<lparr>c_snapshot := ?g\<rparr>))"
    by (rule blocked_pop_is_served [where N = some_numbers and timeout = "bstr ''0''" and c = empty_context and fs = "[?f]" and ks = "[[97]]" and key = "[107]"
          and ks' = "[]" and g = ?g and r = one_element and e = ?e and left = True and rest = "[]", OF t])
      (simp_all add: em one e misses_def)
  then show ?thesis unfolding e by simp
qed

end
