(* ===== verification/Spec2Isabelle.thy ===== *)
theory Spec2Isabelle
  imports Sql_Keys Acl_Save Acl_Handlers Server Bitmap_Bitop Stream_Group_Facts Stream_Trim_Refine Set_Theorems List_Waiting
begin

text \<open>
  Swytch is a data store in Go that speaks the Redis protocol and SQL over a replicated log of effects. A client's bytes
  are parsed into commands (\<^verbatim>\<open>shared/protocol.go\<close>), checked against the access rules (\<^verbatim>\<open>acl.go\<close>), executed by a handler of
  one of the command families, and answered through a reply writer (\<^verbatim>\<open>shared/writer.go\<close>). A handler reads snapshots of keys
  and emits effects; the engine that merges the effects is an external package. This development models the layers below
  and proves what makes them correct. All paths are relative to \<^verbatim>\<open>src/redis\<close> unless they begin with \<^verbatim>\<open>sql\<close>.

  \<^bold>\<open>Foundations.\<close> \<^verbatim>\<open>Prelude\<close> has byte strings, big- and little-endian numbers, Go's integer division and decimal
  numbers, with the lemmas they share; \<^verbatim>\<open>Interfaces\<close> has the locales: codecs, order embeddings and three-way comparisons, which the encodings of SQL
  keys, stream identifiers and stream records interpret. \<^verbatim>\<open>Float64\<close> has the order of IEEE numbers on their bit patterns, and
  \<^verbatim>\<open>Sha256\<close> the digest of the standard library, whose constants are computed from the roots of primes.

  \<^bold>\<open>SQL keys.\<close> \<^verbatim>\<open>Sql_Encoding\<close> models \<^verbatim>\<open>sql/encoding.go\<close> and \<^verbatim>\<open>Sql_Keys\<close> models \<^verbatim>\<open>sql/keys.go\<close>. Encoded primary keys
  decode to the values, their byte order is the order of the values (of their text for NUMERIC columns), scans by an encoded prefix find exactly the rows with
  that prefix, and the keys of rows, indexes and schemas are never confused.

  \<^bold>\<open>Commands and protocol.\<close> \<^verbatim>\<open>Commands\<close> has the command names and their categories (\<^verbatim>\<open>shared/command.go\<close>,
  \<^verbatim>\<open>shared/acl_categories.go\<close>); \<^verbatim>\<open>Protocol\<close> the request parser, \<^verbatim>\<open>Resp_Writer\<close> the reply writer, and \<^verbatim>\<open>Server\<close> the reader and the
  executor of a connection (\<^verbatim>\<open>server.go\<close>). The parser reads what a client writes, stays within its limits on any input, and
  every pipelined request is answered in order; the output is the concatenation of the replies whatever the packets are.

  \<^bold>\<open>Access control.\<close> \<^verbatim>\<open>Acl\<close>, \<^verbatim>\<open>Acl_Rules\<close>, \<^verbatim>\<open>Acl_Save\<close> and \<^verbatim>\<open>Acl_Handlers\<close> model \<^verbatim>\<open>acl.go\<close>, \<^verbatim>\<open>acl_handlers.go\<close> and
  \<^verbatim>\<open>shared/acl_types.go\<close>. The glob matcher accepts the language of the tokens that its pattern is written from, the log is bounded,
  saving and loading restores the users that one line of the file can express, and commands keep the table well formed. Password
  hashing is a parameter.

  \<^bold>\<open>Engine interface.\<close> \<^verbatim>\<open>Engine\<close> has effects, snapshots and the context of a command: the emitted effects, what a snapshot of
  a key is given these, and when emission fails. The engine itself is a function in the context, and decompression a
  parameter \<^verbatim>\<open>dec\<close>. \<^verbatim>\<open>make_panics\<close> says which allocations panic: a negative length or more bytes than the address space has; a handler that panics returns
  \<^verbatim>\<open>None\<close>. \<^verbatim>\<open>Command_Monad\<close> composes commands that read, emit and stop with a reply, with and without a savepoint;
  its rules \<^verbatim>\<open>emits_intros\<close> and \<^verbatim>\<open>returns_intros\<close> derive what a command can emit from its parts.

  \<^bold>\<open>Collections.\<close> \<^verbatim>\<open>Collections\<close> has what the families of commands on collections share: the locale \<^verbatim>\<open>typed_reader\<close> of the
  functions that read a snapshot and check its type, which every family interprets, the prologues of runners, and the database
  behind a context: \<^verbatim>\<open>backed\<close> says that the snapshots are the reduction of the emitted effects by an engine, and \<^verbatim>\<open>db\<close> is that reduction.
  \<^verbatim>\<open>Keyed_Engine\<close> and \<^verbatim>\<open>List_Engine\<close> state the laws of keyed and of ordered collections that the proofs rely on (\<^verbatim>\<open>keyed_engine\<close>,
  \<^verbatim>\<open>list_engine\<close>), with the reductions \<^verbatim>\<open>assoc_reduce\<close> and \<^verbatim>\<open>place_reduce\<close> that satisfy them.

  \<^bold>\<open>Sets.\<close> \<^verbatim>\<open>Set_Commands\<close> and \<^verbatim>\<open>Set_Operations\<close> model \<^verbatim>\<open>set/core.go\<close>, \<^verbatim>\<open>set/query.go\<close> and \<^verbatim>\<open>set/setops.go\<close>. \<^verbatim>\<open>Set_Facts\<close> and \<^verbatim>\<open>Set_Refine\<close>
  show that sequences of writing commands refine the operations on mathematical sets, with exact replies unless an argument is
  repeated, \<^verbatim>\<open>Set_Theorems\<close> that the queries are exact and that
  random draws are members.

  \<^bold>\<open>Lists.\<close> \<^verbatim>\<open>List_Commands\<close>, \<^verbatim>\<open>List_Moves\<close> and \<^verbatim>\<open>List_Blocking\<close> model \<^verbatim>\<open>list/core.go\<close>, \<^verbatim>\<open>list/blocking.go\<close> and \<^verbatim>\<open>shared/timeout.go\<close>.
  \<^verbatim>\<open>List_Facts\<close> has lemmas on plain lists, \<^verbatim>\<open>List_Context\<close>, \<^verbatim>\<open>List_Refine\<close> and \<^verbatim>\<open>List_Simulation\<close> the refinement of each command, and
  \<^verbatim>\<open>List_Theorems\<close> the simulation: a key shows a list, another type or nothing (\<^verbatim>\<open>slot\<close>), and sequences of writing commands refine the operations on mathematical
  lists (\<^verbatim>\<open>list_spec\<close>, \<^verbatim>\<open>list_run\<close>), errors included, touch no key of another type and keep lists well formed. Whether an emptied list still exists is left to the engine. \<^verbatim>\<open>List_Waiting\<close> has the exactness of \<^verbatim>\<open>LPOS\<close> and the behaviour of the blocking commands.

  \<^bold>\<open>Bitmaps.\<close> The \<^verbatim>\<open>Bitmap\<close> theories model \<^verbatim>\<open>bitmap/core.go\<close>. \<^verbatim>\<open>SETBIT\<close> refines the update of one position of an array
  of bits, \<^verbatim>\<open>BITFIELD\<close> refines reading and writing integers in it, \<^verbatim>\<open>BITOP\<close> is a Boolean function at every position, and the
  overflow policies are exact on the integers. Writes beyond the first \<open>2^51\<close> bits panic in the allocation.

  \<^bold>\<open>Streams.\<close> \<^verbatim>\<open>Stream_Id\<close>, \<^verbatim>\<open>Stream_Trim\<close> and \<^verbatim>\<open>Stream_Codec\<close> model \<^verbatim>\<open>shared/streams.go\<close> and the records of
  \<^verbatim>\<open>stream/core.go\<close>; \<^verbatim>\<open>Stream_Core\<close> and \<^verbatim>\<open>Stream_Groups\<close> the rest of that file; \<^verbatim>\<open>Stream_Add\<close>, \<^verbatim>\<open>Stream_Read\<close>, \<^verbatim>\<open>Stream_Delete\<close> and
  \<^verbatim>\<open>Stream_Admin\<close> the commands of \<^verbatim>\<open>stream/handlers.go\<close>; \<^verbatim>\<open>Stream_XGroup\<close>, \<^verbatim>\<open>Stream_Claim\<close> and \<^verbatim>\<open>Stream_Deliver\<close> those of
  \<^verbatim>\<open>stream/groups.go\<close>. The theories with \<^verbatim>\<open>Facts\<close> and \<^verbatim>\<open>Refine\<close> in their names hold the properties: identifiers and records
  survive encoding, exact trimming keeps what it should and any trimming by length keeps enough, ranges are filters, the keys
  of the parts of a stream are apart, \<^verbatim>\<open>XADD\<close> appends and keeps the order, \<^verbatim>\<open>XTRIM\<close> keeps the newest entries (\<^verbatim>\<open>Stream_Trim_Refine\<close>), and \<^verbatim>\<open>XREADGROUP\<close> delivers each entry to
  a group once. The laws of the engine that \<^verbatim>\<open>XADD\<close> needs are the predicate \<^verbatim>\<open>ordered_engine\<close>, which the reduction
  \<^verbatim>\<open>list_reduce\<close> satisfies.

  \<^bold>\<open>Conventions.\<close> Machine integers are words and wrap around. A Go panic is the value \<^verbatim>\<open>None\<close> of a runner. An
  empty map and a missing map are the same. Where Go visits a map in an unspecified order, the order is that of an association
  list or a parameter. The clock is a parameter that does not advance within one attempt of a command. Starting a
  transaction (\<^verbatim>\<open>BeginTx\<close>) has no effect on the model, in which a runner is one step. Blocking commands take the list of the
  wake-ups they see and yield \<^verbatim>\<open>None\<close> while they still wait, so no fuel is needed; every other loop is a total function.
  The index of a stream value is the list of its keys in ascending order. Parsing of floating-point numbers is a
  parameter where a command only needs to know whether it succeeds and is negative. The names of new list elements, which the code
  makes from a monotonic clock, are a function of the number of effects emitted before; random numbers are a parameter.

  \<^bold>\<open>Not modelled.\<close> \<^verbatim>\<open>XINFO\<close>, which only reports; the handlers of strings, hashes, sorted sets, geospatial
  data, JSON and HyperLogLogs; dispatch and \<^verbatim>\<open>MULTI\<close> (dispatch is a parameter of the connection); publishing, blocking
  queues and timers, which are goroutines and channels; scripting, an external interpreter; the virtual tables and
  statements of SQL, driven by an external library; and the Caddy modules, metrics, telemetry, tracing and the
  Kubernetes operator, which are input and output around external interfaces.
\<close>

end
